(* ===== verification/Prelude.thy ===== *)
theory Prelude
  imports Main
begin

text \<open>
  Shared vocabulary of the development.

  A table of the database is the list of its rows in insertion order. The queries the services
  send through the Prisma client (\<open>findFirst\<close>, \<open>findMany\<close>, \<open>count\<close>, \<open>updateMany\<close>,
  \<open>deleteMany\<close>, \<open>create\<close>) are functions on such lists; what the services rely on is stated once as
  the locale \<open>row_store\<close> and discharged for them by the interpretation \<open>tbl\<close>. The second locale,
  \<open>row_preorder\<close>, is the way every component states what its operations may do to a row in the
  course of time (a revoked session stays revoked, a terminal job stays as it is): a preorder on
  rows, along which tables evolve.
\<close>

named_theorems table_simps \<open>unfolding rules of the table queries\<close>


section \<open>Queries on tables\<close>

definition findFirst :: "('r \<Rightarrow> bool) \<Rightarrow> 'r list \<Rightarrow> 'r option" where
  "findFirst p t = List.find p t"

definition findMany :: "('r \<Rightarrow> bool) \<Rightarrow> 'r list \<Rightarrow> 'r list" where
  "findMany p t = filter p t"

definition countRows :: "('r \<Rightarrow> bool) \<Rightarrow> 'r list \<Rightarrow> nat" where
  "countRows p t = length (filter p t)"

definition updateMany :: "('r \<Rightarrow> bool) \<Rightarrow> ('r \<Rightarrow> 'r) \<Rightarrow> 'r list \<Rightarrow> nat \<times> 'r list" where
  "updateMany p f t = (length (filter p t), map (\<lambda>r. if p r then f r else r) t)"

definition deleteMany :: "('r \<Rightarrow> bool) \<Rightarrow> 'r list \<Rightarrow> nat \<times> 'r list" where
  "deleteMany p t = (length (filter p t), filter (\<lambda>r. \<not> p r) t)"

definition createRow :: "'r \<Rightarrow> 'r list \<Rightarrow> 'r list" where
  "createRow r t = t @ [r]"

text \<open>\<open>upsert\<close> on a unique key, and the row it leaves for that key.\<close>

definition upsertRow :: "('r \<Rightarrow> 'k) \<Rightarrow> 'r \<Rightarrow> 'r list \<Rightarrow> 'r list" where
  "upsertRow key r t = (if list_ex (\<lambda>x. key x = key r) t
     then map (\<lambda>x. if key x = key r then r else x) t else createRow r t)"

definition lookupRow :: "('r \<Rightarrow> 'k) \<Rightarrow> 'k \<Rightarrow> 'r list \<Rightarrow> 'r option" where
  "lookupRow key k t = findFirst (\<lambda>x. key x = k) t"

text \<open>A page of a result list, as \<open>skip\<close> and \<open>take\<close> cut it (pages count from 1).\<close>

definition pageOf :: "nat \<Rightarrow> nat \<Rightarrow> 'a list \<Rightarrow> 'a list" where
  "pageOf page limit xs = take limit (drop ((page - 1) * limit) xs)"

text \<open>\<open>Math.ceil (total / limit)\<close> for a positive limit.\<close>

definition ceilDiv :: "nat \<Rightarrow> nat \<Rightarrow> nat" where
  "ceilDiv n limit = (n + limit - 1) div limit"

text \<open>\<open>ORDER BY\<close>: the rows arranged along an order of the database, equals in table order. The database
  promises no order of equals; a property that must not depend on it is stated for every
  rearrangement of the table.\<close>

fun insert_by :: "('a \<Rightarrow> 'a \<Rightarrow> bool) \<Rightarrow> 'a \<Rightarrow> 'a list \<Rightarrow> 'a list" where
  "insert_by le x [] = [x]"
| "insert_by le x (y # ys) = (if le x y then x # y # ys else y # insert_by le x ys)"

definition orderBy :: "('a \<Rightarrow> 'a \<Rightarrow> bool) \<Rightarrow> 'a list \<Rightarrow> 'a list" where
  "orderBy le xs = foldr (insert_by le) xs []"

text \<open>Decimal text of a number, as a template literal prints it.\<close>

fun nat_str :: "nat \<Rightarrow> string" where
  "nat_str n = (if n < 10 then [char_of (48 + n)] else nat_str (n div 10) @ [char_of (48 + n mod 10)])"

declare nat_str.simps [simp del]

text \<open>
  How a table may differ from an earlier one: the earlier rows are still there, in order, each
  related by \<open>le\<close>, and new rows stand behind them.
\<close>

definition evolves :: "('r \<Rightarrow> 'r \<Rightarrow> bool) \<Rightarrow> 'r list \<Rightarrow> 'r list \<Rightarrow> bool" where
  "evolves le t t' \<longleftrightarrow> (\<exists>old new. t' = old @ new \<and> list_all2 le t old)"

section \<open>What the services rely on: the row store\<close>

locale row_store =
  fixes rows :: "'t \<Rightarrow> 'r list"
    and find_first :: "('r \<Rightarrow> bool) \<Rightarrow> 't \<Rightarrow> 'r option"
    and count_where :: "('r \<Rightarrow> bool) \<Rightarrow> 't \<Rightarrow> nat"
    and update_where :: "('r \<Rightarrow> bool) \<Rightarrow> ('r \<Rightarrow> 'r) \<Rightarrow> 't \<Rightarrow> nat \<times> 't"
    and delete_where :: "('r \<Rightarrow> bool) \<Rightarrow> 't \<Rightarrow> nat \<times> 't"
    and insert_row :: "'r \<Rightarrow> 't \<Rightarrow> 't"
  assumes find_none: "find_first p t = None \<longleftrightarrow> (\<forall>r\<in>set (rows t). \<not> p r)"
    and find_some: "find_first p t = Some r \<Longrightarrow> r \<in> set (rows t) \<and> p r"
    and count_rows: "count_where p t = length (filter p (rows t))"
    and update_count: "fst (update_where p f t) = length (filter p (rows t))"
    and update_rows: "rows (snd (update_where p f t)) = map (\<lambda>r. if p r then f r else r) (rows t)"
    and delete_count: "fst (delete_where p t) = length (filter p (rows t))"
    and delete_rows: "rows (snd (delete_where p t)) = filter (\<lambda>r. \<not> p r) (rows t)"
    and insert_rows: "rows (insert_row r t) = rows t @ [r]"
begin

lemma update_where_zero: "fst (update_where p f t) = 0 \<longleftrightarrow> (\<forall>r\<in>set (rows t). \<not> p r)"
  by (simp add: update_count filter_empty_conv)

lemma update_where_idle: "fst (update_where p f t) = 0 \<Longrightarrow> rows (snd (update_where p f t)) = rows t"
  by (auto simp: update_where_zero update_rows intro!: map_idI)

text \<open>
  A conditional update whose effect falsifies its own condition can be performed once: whoever
  repeats it, with whatever effect, finds no row left to change.
\<close>

lemma update_where_consumed:
  assumes "\<And>r. p r \<Longrightarrow> \<not> p (f r)"
  shows "fst (update_where p g (snd (update_where p f t))) = 0"
  using assms by (auto simp: update_where_zero update_rows)

text \<open>A condition that fixes a unique key selects at most one row.\<close>

lemma update_where_unique:
  assumes "distinct (map key (rows t))" and "\<And>r. p r \<Longrightarrow> key r = k"
  shows "fst (update_where p f t) \<le> 1"
proof -
  have "distinct (map key (filter p (rows t)))"
    using assms(1) by (simp add: distinct_map_filter)
  moreover have "set (map key (filter p (rows t))) \<subseteq> {k}"
    using assms(2) by auto
  ultimately have "length (map key (filter p (rows t))) \<le> 1"
    by (metis card.empty card_insert_disjoint card_mono distinct_card empty_iff finite.intros One_nat_def)
  then show ?thesis by (simp add: update_count)
qed

lemma update_where_keys:
  assumes "\<And>r. p r \<Longrightarrow> key (f r) = key r"
  shows "map key (rows (snd (update_where p f t))) = map key (rows t)"
  using assms by (simp add: update_rows)

lemma find_first_of_keys:
  assumes "distinct (map key (rows t))" and "r \<in> set (rows t)" and "p r"
    and "\<And>x. p x \<Longrightarrow> key x = key r"
  shows "find_first p t = Some r"
proof -
  obtain x where x: "find_first p t = Some x"
    using assms(2,3) find_none by (cases "find_first p t") auto
  then have "x \<in> set (rows t)" "key x = key r"
    using find_some assms(4) by blast+
  with assms(1,2) have "x = r" by (auto simp: distinct_map dest: inj_onD)
  with x show ?thesis by simp
qed

end

interpretation tbl: row_store "\<lambda>t. t" findFirst countRows updateMany deleteMany createRow
proof unfold_locales
  show "findFirst p t = None \<longleftrightarrow> (\<forall>r\<in>set t. \<not> p r)" for p and t :: "'a list"
    by (auto simp: findFirst_def find_None_iff)
  show "findFirst p t = Some r \<Longrightarrow> r \<in> set t \<and> p r" for p r and t :: "'a list"
    by (metis findFirst_def find_Some_iff nth_mem)
qed (simp_all add: countRows_def updateMany_def deleteMany_def createRow_def)

lemmas [table_simps] = tbl.update_count tbl.update_rows tbl.delete_count tbl.delete_rows
  tbl.insert_rows tbl.count_rows

lemma findFirst_SomeD: "findFirst p t = Some r \<Longrightarrow> r \<in> set t \<and> p r"
  by (rule tbl.find_some)

lemma findFirst_NoneD: "findFirst p t = None \<Longrightarrow> r \<in> set t \<Longrightarrow> \<not> p r"
  by (simp add: tbl.find_none)

lemma set_updateMany: "set (snd (updateMany p f t)) = f ` {r \<in> set t. p r} \<union> {r \<in> set t. \<not> p r}"
  by (auto simp: updateMany_def)

lemma updateMany_memD:
  "r' \<in> set (snd (updateMany p f t)) \<Longrightarrow> (\<exists>r\<in>set t. p r \<and> r' = f r) \<or> (r' \<in> set t \<and> \<not> p r')"
  by (auto simp: updateMany_def split: if_splits)

lemma updateMany_one_ex: "fst (updateMany p f t) = 1 \<Longrightarrow> \<exists>r\<in>set t. p r"
proof -
  assume "fst (updateMany p f t) = 1"
  then have "length (filter p t) = 1" by (simp add: updateMany_def)
  then have "filter p t \<noteq> []" by auto
  then show ?thesis by (auto simp: filter_empty_conv)
qed

section \<open>Evolution of rows\<close>

locale row_preorder =
  fixes le :: "'r \<Rightarrow> 'r \<Rightarrow> bool"
  assumes le_refl: "le r r"
    and le_trans: "le r s \<Longrightarrow> le s u \<Longrightarrow> le r u"
begin

lemma evolves_refl: "evolves le t t"
  unfolding evolves_def using le_refl by (metis append_Nil2 list_all2_refl)

lemma evolves_trans:
  assumes "evolves le t t'" and "evolves le t' t''"
  shows "evolves le t t''"
proof -
  from assms(1) obtain o1 n1 where 1: "t' = o1 @ n1" "list_all2 le t o1"
    by (auto simp: evolves_def)
  from assms(2) obtain o2 n2 where 2: "t'' = o2 @ n2" "list_all2 le t' o2"
    by (auto simp: evolves_def)
  from 1(1) 2(2) obtain a b where ab: "o2 = a @ b" "list_all2 le o1 a"
    by (auto simp: list_all2_append1)
  have "list_all2 le t a"
    using list_all2_trans [OF _ 1(2) ab(2)] le_trans by blast
  then show ?thesis using 2(1) ab(1) by (auto simp: evolves_def)
qed

lemma evolves_create: "evolves le t (createRow r t)"
  unfolding evolves_def createRow_def using le_refl by (blast intro: list_all2_refl)

lemma evolves_updateMany:
  assumes "\<And>r. r \<in> set t \<Longrightarrow> p r \<Longrightarrow> le r (f r)"
  shows "evolves le t (snd (updateMany p f t))"
proof -
  have "list_all2 le t (map (\<lambda>r. if p r then f r else r) t)"
    using assms le_refl by (auto simp: list_all2_map2 list_all2_same)
  then show ?thesis by (force simp: evolves_def updateMany_def)
qed

lemma evolves_row:
  assumes "evolves le t t'" and "r \<in> set t"
  shows "\<exists>r'\<in>set t'. le r r'"
proof -
  from assms(1) obtain old new where *: "t' = old @ new" "list_all2 le t old"
    by (auto simp: evolves_def)
  from assms(2) obtain i where i: "i < length t" "r = t ! i" by (auto simp: in_set_conv_nth)
  with * have "le r (old ! i)" "i < length old" by (auto simp: list_all2_conv_all_nth)
  with * show ?thesis by (metis Un_iff nth_mem set_append)
qed

text \<open>Any sequence of operations that each let the table evolve lets it evolve.\<close>

lemma evolves_foldl:
  assumes "\<And>op x. op \<in> set ops \<Longrightarrow> evolves le x (op x)"
  shows "evolves le t (foldl (\<lambda>x op. op x) t ops)"
  using assms
proof (induction ops arbitrary: t)
  case Nil
  then show ?case by (simp add: evolves_refl)
next
  case (Cons op ops)
  have "evolves le t (op t)" using Cons.prems by simp
  moreover have "evolves le (op t) (foldl (\<lambda>x op. op x) (op t) ops)"
    using Cons.prems by (intro Cons.IH) auto
  ultimately show ?case by (auto intro: evolves_trans)
qed

end

section \<open>Rows under a unique key\<close>

text \<open>A store written by key: what is read back is the last row written for the key.\<close>

locale keyed_store =
  fixes key :: "'r \<Rightarrow> 'k"
    and lookup :: "'k \<Rightarrow> 't \<Rightarrow> 'r option"
    and put :: "'r \<Rightarrow> 't \<Rightarrow> 't"
  assumes lookup_put: "lookup k (put r t) = (if key r = k then Some r else lookup k t)"
begin

lemma put_again: "lookup k (put r (put r t)) = lookup k (put r t)"
  by (simp add: lookup_put)

lemma put_swap: "key r \<noteq> key s \<Longrightarrow> lookup k (put r (put s t)) = lookup k (put s (put r t))"
  by (auto simp: lookup_put)

text \<open>After a sequence of writes every key that was written holds its last row.\<close>

lemma lookup_puts:
  "lookup k (fold put rs t) = (case List.find (\<lambda>r. key r = k) (rev rs) of Some r \<Rightarrow> Some r | None \<Rightarrow> lookup k t)"
proof (induction rs rule: rev_induct)
  case (snoc r rs)
  then show ?case by (simp add: lookup_put)
qed simp

lemma lookup_puts_distinct:
  assumes "distinct (map key rs)" and "r \<in> set rs"
  shows "lookup (key r) (fold put rs t) = Some r"
proof -
  obtain s where s: "List.find (\<lambda>x. key x = key r) (rev rs) = Some s"
    using assms(2) by (cases "List.find (\<lambda>x. key x = key r) (rev rs)") (auto simp: find_None_iff)
  then obtain i where "i < length (rev rs)" "key (rev rs ! i) = key r" "s = rev rs ! i"
    by (auto simp: find_Some_iff)
  then have "s \<in> set rs \<and> key s = key r" using nth_mem [of i "rev rs"] by simp
  then have "s = r" using assms by (auto simp: distinct_map dest: inj_onD)
  with s show ?thesis by (simp add: lookup_puts)
qed

lemma lookup_puts_other: "k \<notin> key ` set rs \<Longrightarrow> lookup k (fold put rs t) = lookup k t"
  by (induction rs arbitrary: t) (auto simp: lookup_put)

end

lemma findFirst_map_key:
  "(\<And>x. key (f x) = key x) \<Longrightarrow> findFirst (\<lambda>x. key x = k) (map f t) = map_option f (findFirst (\<lambda>x. key x = k) t)"
  by (induction t) (simp_all add: findFirst_def)

lemma findFirst_append: "findFirst p (s @ t) = (case findFirst p s of Some r \<Rightarrow> Some r | None \<Rightarrow> findFirst p t)"
  by (induction s) (simp_all add: findFirst_def)

interpretation ups: keyed_store key "lookupRow key" "upsertRow key" for key :: "'r \<Rightarrow> 'k"
proof unfold_locales
  fix k r and t :: "'r list"
  show "lookupRow key k (upsertRow key r t) = (if key r = k then Some r else lookupRow key k t)"
  proof (cases "list_ex (\<lambda>x. key x = key r) t")
    case True
    let ?f = "\<lambda>x. if key x = key r then r else x"
    have "lookupRow key k (upsertRow key r t) = map_option ?f (lookupRow key k t)"
      unfolding lookupRow_def upsertRow_def using True by (simp add: findFirst_map_key)
    moreover have "lookupRow key (key r) t \<noteq> None"
      using True by (auto simp: lookupRow_def tbl.find_none list_ex_iff)
    ultimately show ?thesis
      by (cases "lookupRow key k t") (auto simp: lookupRow_def dest: findFirst_SomeD)
  next
    case False
    then have "findFirst (\<lambda>x. key x = key r) t = None" by (auto simp: tbl.find_none list_ex_iff)
    moreover have "findFirst p [r] = (if p r then Some r else None)" for p :: "'r \<Rightarrow> bool"
      by (simp add: findFirst_def)
    ultimately show ?thesis
      using False by (auto simp: upsertRow_def lookupRow_def createRow_def findFirst_append split: option.splits)
  qed
qed

lemma upsertRow_distinct: "distinct (map key t) \<Longrightarrow> distinct (map key (upsertRow key r t))"
proof -
  assume d: "distinct (map key t)"
  have "map key (map (\<lambda>x. if key x = key r then r else x) t) = map key t" by simp
  then have "distinct (map key (map (\<lambda>x. if key x = key r then r else x) t))" using d by presburger
  then show ?thesis using d unfolding upsertRow_def createRow_def by (auto simp: list_ex_iff simp del: map_map)
qed

lemma set_upsertRow: "set (upsertRow key r t) = insert r {x \<in> set t. key x \<noteq> key r}"
  by (auto simp: upsertRow_def createRow_def list_ex_iff)

section \<open>Pages of a list\<close>

text \<open>
  The pages of a list, one after the other, are the list: no element is skipped or repeated.
\<close>

lemma take_drop_step: "take (n + l) xs = take n xs @ take l (drop n xs)"
  by (simp add: take_add)

lemma concat_pages: "concat (map (\<lambda>p. pageOf p l xs) [1..<Suc n]) = take (n * l) xs"
proof (induction n)
  case 0
  then show ?case by simp
next
  case (Suc n)
  have "concat (map (\<lambda>p. pageOf p l xs) [1..<Suc (Suc n)])
      = concat (map (\<lambda>p. pageOf p l xs) [1..<Suc n]) @ pageOf (Suc n) l xs"
    by simp
  also have "\<dots> = take (n * l) xs @ take l (drop (n * l) xs)"
    unfolding Suc.IH by (simp add: pageOf_def)
  also have "\<dots> = take (Suc n * l) xs"
    using take_drop_step [of "n * l" l xs] by (simp add: add.commute)
  finally show ?case .
qed

lemma ceilDiv_covers: "0 < l \<Longrightarrow> n \<le> ceilDiv n l * l"
proof -
  assume "0 < l"
  then have "(n + l - 1) mod l < l" by simp
  moreover have "n + l - 1 = ceilDiv n l * l + (n + l - 1) mod l"
    by (simp add: ceilDiv_def)
  ultimately show ?thesis by linarith
qed

lemma concat_all_pages: "0 < l \<Longrightarrow> concat (map (\<lambda>p. pageOf p l xs) [1..<Suc (ceilDiv (length xs) l)]) = xs"
  by (simp only: concat_pages take_all ceilDiv_covers)

lemma length_pageOf: "length (pageOf p l xs) \<le> l"
  by (simp add: pageOf_def)

lemma set_pageOf: "set (pageOf p l xs) \<subseteq> set xs"
  unfolding pageOf_def by (metis order_trans set_drop_subset set_take_subset)

section \<open>Sorting\<close>

lemma set_insert_by [simp]: "set (insert_by le x ys) = insert x (set ys)"
  by (induction ys) auto

lemma length_insert_by [simp]: "length (insert_by le x ys) = Suc (length ys)"
  by (induction ys) auto

lemma set_orderBy [simp]: "set (orderBy le xs) = set xs"
  by (induction xs) (auto simp: orderBy_def)

lemma length_orderBy [simp]: "length (orderBy le xs) = length xs"
  by (induction xs) (auto simp: orderBy_def)

lemma distinct_insert_by: "distinct (map f (insert_by le x ys)) \<longleftrightarrow> f x \<notin> f ` set ys \<and> distinct (map f ys)"
  by (induction ys) auto

lemma distinct_orderBy: "distinct (map f (orderBy le xs)) \<longleftrightarrow> distinct (map f xs)"
proof (induction xs)
  case (Cons x xs)
  have "orderBy le (x # xs) = insert_by le x (orderBy le xs)" by (simp add: orderBy_def)
  with Cons show ?case by (simp add: distinct_insert_by)
qed (simp add: orderBy_def)

lemma sorted_insert_by:
  assumes "\<And>a b. le a b \<or> le b a" and "\<And>a b c. le a b \<Longrightarrow> le b c \<Longrightarrow> le a c"
  shows "sorted_wrt le ys \<Longrightarrow> sorted_wrt le (insert_by le x ys)"
proof (induction ys)
  case (Cons y ys)
  then show ?case using assms(1) [of x y] by (auto intro: assms(2))
qed simp

lemma sorted_orderBy:
  assumes "\<And>a b. le a b \<or> le b a" and "\<And>a b c. le a b \<Longrightarrow> le b c \<Longrightarrow> le a c"
  shows "sorted_wrt le (orderBy le xs)"
  unfolding orderBy_def by (induction xs) (simp_all add: sorted_insert_by [OF assms])

text \<open>An order that tells all rows apart leaves one arrangement, whatever the order of the table.\<close>

lemma sorted_unique:
  assumes "sorted_wrt le xs" and "sorted_wrt le ys" and "distinct xs" and "distinct ys" and "set xs = set ys"
    and "\<And>a b. a \<in> set xs \<Longrightarrow> b \<in> set xs \<Longrightarrow> le a b \<Longrightarrow> le b a \<Longrightarrow> a = b"
  shows "xs = ys"
  using assms
proof (induction xs arbitrary: ys)
  case (Cons x xs)
  then obtain y zs where ys: "ys = y # zs" by (cases ys) auto
  have "x = y"
  proof (rule ccontr)
    assume "x \<noteq> y"
    then have "x \<in> set zs" "y \<in> set xs" using Cons.prems(5) by (auto simp: ys)
    then have "le x y" "le y x" using Cons.prems(1,2) by (simp_all add: ys)
    then show False using Cons.prems(6) [of x y] \<open>x \<noteq> y\<close> \<open>y \<in> set xs\<close> by simp
  qed
  moreover have "set xs = set zs" using Cons.prems(3-5) calculation by (auto simp: ys)
  then have "xs = zs" using Cons.prems by (intro Cons.IH) (auto simp: ys)
  ultimately show ?case by (simp add: ys)
qed simp

lemma orderBy_unique:
  assumes "\<And>a b. le a b \<or> le b a" and "\<And>a b c. le a b \<Longrightarrow> le b c \<Longrightarrow> le a c"
    and "\<And>a b. a \<in> set xs \<Longrightarrow> b \<in> set xs \<Longrightarrow> le a b \<Longrightarrow> le b a \<Longrightarrow> a = b"
    and "distinct xs" and "distinct ys" and "set xs = set ys"
  shows "orderBy le xs = orderBy le ys"
proof (rule sorted_unique)
  show "sorted_wrt le (orderBy le xs)" "sorted_wrt le (orderBy le ys)"
    by (rule sorted_orderBy, fact assms(1), fact assms(2))+
  show "distinct (orderBy le xs)" "distinct (orderBy le ys)"
    using assms(4,5) distinct_orderBy [of "\<lambda>x. x" le] by simp_all
qed (use assms(3,6) in simp_all)

section \<open>Lists\<close>

lemma filter_map_keep:
  "(\<And>x. x \<in> set xs \<Longrightarrow> P (f x) = P x \<and> (P x \<longrightarrow> f x = x)) \<Longrightarrow> filter P (map f xs) = filter P xs"
  by (induction xs) auto

lemma rev_dropWhile_rev_prefix: "\<exists>suf. s = rev (dropWhile P (rev s)) @ suf \<and> (\<forall>c\<in>set suf. P c)"
proof -
  have "rev s = takeWhile P (rev s) @ dropWhile P (rev s)" by simp
  then have "s = rev (dropWhile P (rev s)) @ rev (takeWhile P (rev s))"
    by (metis rev_append rev_rev_ident)
  then show ?thesis by (metis set_rev set_takeWhileD)
qed

lemma last_rev_dropWhile: "rev (dropWhile P (rev s)) \<noteq> [] \<Longrightarrow> \<not> P (last (rev (dropWhile P (rev s))))"
  by (metis hd_dropWhile last_rev rev.simps(1))

lemma set_rev_dropWhile_rev: "set (rev (dropWhile P (rev s))) \<subseteq> set s"
  by (metis set_dropWhileD set_rev subsetI)

lemma length_rev_dropWhile_rev: "length (rev (dropWhile P (rev s))) \<le> length s"
  by (metis length_dropWhile_le length_rev)

end
