(* ===== verification/Js_Strings.thy ===== *)
theory Js_Strings
  imports Prelude "HOL-Library.Word"
begin

text \<open>
  JavaScript strings as the program uses them. A string is the list of its UTF-16 code units
  (16-bit words), so \<open>length\<close> is the \<open>length\<close> of the language and a character outside the
  basic plane is a surrogate pair. The methods the sources call (\<open>trim\<close>, \<open>split\<close>, \<open>join\<close>,
  \<open>lastIndexOf\<close>, \<open>slice\<close>, removal of a character class, iteration by code point) and the
  anchored patterns they test are defined here. What depends on the Unicode character database
  (normalisation form C, lower-casing outside ASCII, the letter and number classes) is the record
  \<open>unicode\<close>, a parameter of the definitions that use it.
\<close>

type_synonym jschar = "16 word"
type_synonym jsstring = "jschar list"

section \<open>Literals and character classes\<close>

definition js :: "string \<Rightarrow> jsstring" where
  "js s = map of_char s"

definition ch :: "char \<Rightarrow> jschar" where
  "ch c = of_char c"

text \<open>White space and line terminators, the class of \<open>trim\<close> and of the pattern \<open>\s\<close>.\<close>

definition is_js_space :: "jschar \<Rightarrow> bool" where
  "is_js_space c \<longleftrightarrow> c \<in> set [9, 10, 11, 12, 13, 32, 0xA0, 0x1680, 0x2028, 0x2029, 0x202F, 0x205F,
     0x3000, 0xFEFF] \<or> (0x2000 \<le> c \<and> c \<le> 0x200A)"

definition is_digit :: "jschar \<Rightarrow> bool" where
  "is_digit c \<longleftrightarrow> 48 \<le> c \<and> c \<le> 57"

definition is_lower :: "jschar \<Rightarrow> bool" where
  "is_lower c \<longleftrightarrow> 97 \<le> c \<and> c \<le> 122"

definition is_upper :: "jschar \<Rightarrow> bool" where
  "is_upper c \<longleftrightarrow> 65 \<le> c \<and> c \<le> 90"

text \<open>The class \<open>[A-Za-z0-9_-]\<close> of the base64url alphabet.\<close>

definition is_base64url :: "jschar \<Rightarrow> bool" where
  "is_base64url c \<longleftrightarrow> is_upper c \<or> is_lower c \<or> is_digit c \<or> c = 95 \<or> c = 45"

text \<open>\<open>[0-9a-f]\<close>, and the same with the case-insensitive flag.\<close>

definition is_hex_lower :: "jschar \<Rightarrow> bool" where
  "is_hex_lower c \<longleftrightarrow> is_digit c \<or> (97 \<le> c \<and> c \<le> 102)"

definition is_hex :: "jschar \<Rightarrow> bool" where
  "is_hex c \<longleftrightarrow> is_hex_lower c \<or> (65 \<le> c \<and> c \<le> 70)"

definition ascii_lower :: "jschar \<Rightarrow> jschar" where
  "ascii_lower c = (if is_upper c then c + 32 else c)"

definition high_surrogate :: "jschar \<Rightarrow> bool" where
  "high_surrogate c \<longleftrightarrow> 0xD800 \<le> c \<and> c \<le> 0xDBFF"

definition low_surrogate :: "jschar \<Rightarrow> bool" where
  "low_surrogate c \<longleftrightarrow> 0xDC00 \<le> c \<and> c \<le> 0xDFFF"

section \<open>Methods\<close>

text \<open>\<open>s.replace(/[class]+$/, '')\<close>: the trailing run of a class is removed.\<close>

definition strip_end :: "(jschar \<Rightarrow> bool) \<Rightarrow> jsstring \<Rightarrow> jsstring" where
  "strip_end P s = rev (dropWhile P (rev s))"

definition trim :: "jsstring \<Rightarrow> jsstring" where
  "trim s = strip_end is_js_space (dropWhile is_js_space s)"

text \<open>\<open>s.replace(/[class]/g, '')\<close>.\<close>

definition remove_class :: "(jschar \<Rightarrow> bool) \<Rightarrow> jsstring \<Rightarrow> jsstring" where
  "remove_class P s = filter (\<lambda>c. \<not> P c) s"

fun split_on :: "'a \<Rightarrow> 'a list \<Rightarrow> 'a list list" where
  "split_on c [] = [[]]"
| "split_on c (x # xs) =
     (if x = c then [] # split_on c xs
      else (case split_on c xs of [] \<Rightarrow> [[x]] | w # ws \<Rightarrow> (x # w) # ws))"

fun join_with :: "'a list \<Rightarrow> 'a list list \<Rightarrow> 'a list" where
  "join_with sep [] = []"
| "join_with sep [w] = w"
| "join_with sep (w # v # ws) = w @ sep @ join_with sep (v # ws)"

fun last_index_of :: "'a \<Rightarrow> 'a list \<Rightarrow> nat option" where
  "last_index_of c [] = None"
| "last_index_of c (x # xs) =
     (case last_index_of c xs of
        Some i \<Rightarrow> Some (Suc i)
      | None \<Rightarrow> if x = c then Some 0 else None)"

text \<open>\<open>Array.from(s)\<close> and \<open>for (const char of s)\<close>: the string cut into its code points, a
  surrogate pair staying together and a lone surrogate standing alone.\<close>

fun code_points :: "jsstring \<Rightarrow> jsstring list" where
  "code_points [] = []"
| "code_points [c] = [[c]]"
| "code_points (c # d # s) =
     (if high_surrogate c \<and> low_surrogate d then [c, d] # code_points s
      else [c] # code_points (d # s))"

text \<open>A string without lone surrogates.\<close>

definition well_formed :: "jsstring \<Rightarrow> bool" where
  "well_formed s \<longleftrightarrow> (\<forall>p\<in>set (code_points s). length p = 2 \<or> (\<forall>c\<in>set p. \<not> high_surrogate c \<and> \<not> low_surrogate c))"

text \<open>\<open>[...new Set(xs)]\<close>: first occurrences, in order.\<close>

fun unique_in_order :: "'a list \<Rightarrow> 'a list" where
  "unique_in_order [] = []"
| "unique_in_order (x # xs) = x # unique_in_order (filter (\<lambda>y. y \<noteq> x) xs)"

text \<open>An anchored pattern \<open>^...$\<close> of single-character classes.\<close>

definition matches :: "(jschar \<Rightarrow> bool) list \<Rightarrow> jsstring \<Rightarrow> bool" where
  "matches ps s \<longleftrightarrow> list_all2 (\<lambda>p c. p c) ps s"

definition UUID_PATTERN :: "(jschar \<Rightarrow> bool) list" where
  "UUID_PATTERN =
     replicate 8 is_hex @ [\<lambda>c. c = 45] @ replicate 4 is_hex @ [\<lambda>c. c = 45]
     @ [\<lambda>c. 49 \<le> c \<and> c \<le> 56] @ replicate 3 is_hex @ [\<lambda>c. c = 45]
     @ [\<lambda>c. c \<in> set [56, 57, 97, 98, 65, 66]] @ replicate 3 is_hex @ [\<lambda>c. c = 45]
     @ replicate 12 is_hex"

definition is_uuid :: "jsstring \<Rightarrow> bool" where
  "is_uuid s \<longleftrightarrow> matches UUID_PATTERN s"

text \<open>\<open>Buffer.toString('base64url')\<close>: the URL-safe alphabet, without padding.\<close>

type_synonym bytes = "8 word list"

definition base64url_char :: "nat \<Rightarrow> jschar" where
  "base64url_char n =
     (if n < 26 then of_nat (65 + n)
      else if n < 52 then of_nat (97 + (n - 26))
      else if n < 62 then of_nat (48 + (n - 52))
      else if n = 62 then 45 else 95)"

fun base64url :: "bytes \<Rightarrow> jsstring" where
  "base64url (a # b # c # r) =
     map base64url_char
       [unat a div 4, unat a mod 4 * 16 + unat b div 16, unat b mod 16 * 4 + unat c div 64,
        unat c mod 64] @ base64url r"
| "base64url [a, b] =
     map base64url_char [unat a div 4, unat a mod 4 * 16 + unat b div 16, unat b mod 16 * 4]"
| "base64url [a] = map base64url_char [unat a div 4, unat a mod 4 * 16]"
| "base64url [] = []"

text \<open>What the standard library takes from the Unicode character database.\<close>

record unicode =
  nfc :: "jsstring \<Rightarrow> jsstring"
  toLowerCase :: "jsstring \<Rightarrow> jsstring"
  letter_or_number :: "jsstring \<Rightarrow> bool"

text \<open>The database restricted to ASCII, where it is an explicit table.\<close>

definition ascii_unicode :: unicode where
  "ascii_unicode = \<lparr>nfc = (\<lambda>s. s), toLowerCase = map ascii_lower,
     letter_or_number = (\<lambda>p. case p of [c] \<Rightarrow> is_upper c \<or> is_lower c \<or> is_digit c | _ \<Rightarrow> False)\<rparr>"

section \<open>Facts on the methods\<close>

lemma strip_end_prefix: "\<exists>suf. s = strip_end P s @ suf \<and> (\<forall>c\<in>set suf. P c)"
  unfolding strip_end_def by (rule rev_dropWhile_rev_prefix)

lemma set_strip_end: "set (strip_end P s) \<subseteq> set s"
  unfolding strip_end_def by (rule set_rev_dropWhile_rev)

lemma last_strip_end: "strip_end P s \<noteq> [] \<Longrightarrow> \<not> P (last (strip_end P s))"
  unfolding strip_end_def by (rule last_rev_dropWhile)

lemma length_strip_end: "length (strip_end P s) \<le> length s"
  unfolding strip_end_def by (rule length_rev_dropWhile_rev)

lemma strip_end_fixed: "(s = [] \<or> \<not> P (last s)) \<Longrightarrow> strip_end P s = s"
  by (cases s rule: rev_cases) (auto simp: strip_end_def)

lemma hd_strip_end: "strip_end P s \<noteq> [] \<Longrightarrow> hd (strip_end P s) = hd s"
  using strip_end_prefix [of s P] by (metis hd_append2)

lemma set_trim: "set (trim s) \<subseteq> set s"
  unfolding trim_def using set_strip_end set_dropWhileD by (metis subset_iff)

lemma length_trim: "length (trim s) \<le> length s"
  unfolding trim_def using length_strip_end length_dropWhile_le order_trans by blast

lemma trim_ends: "trim s \<noteq> [] \<Longrightarrow> \<not> is_js_space (hd (trim s)) \<and> \<not> is_js_space (last (trim s))"
proof -
  assume ne: "trim s \<noteq> []"
  then have "hd (trim s) = hd (dropWhile is_js_space s)"
    unfolding trim_def by (rule hd_strip_end)
  moreover have "dropWhile is_js_space s \<noteq> []"
    using ne unfolding trim_def strip_end_def by (metis dropWhile.simps(1) rev.simps(1))
  ultimately have "\<not> is_js_space (hd (trim s))" by (simp add: hd_dropWhile)
  moreover have "\<not> is_js_space (last (trim s))"
    using ne unfolding trim_def by (rule last_strip_end)
  ultimately show ?thesis by simp
qed

lemma trim_fixed: "(s = [] \<or> (\<not> is_js_space (hd s) \<and> \<not> is_js_space (last s))) \<Longrightarrow> trim s = s"
  by (cases s) (auto simp: trim_def intro: strip_end_fixed)

lemma trim_idem: "trim (trim s) = trim s"
  using trim_ends [of s] by (blast intro: trim_fixed)

lemma split_on_nonempty [simp]: "split_on c s \<noteq> []"
  by (cases s) (auto split: list.splits)

lemma join_split: "join_with [c] (split_on c s) = s"
proof (induction s)
  case Nil
  then show ?case by simp
next
  case (Cons x xs)
  then show ?case
    by (cases "split_on c xs"; cases "tl (split_on c xs)") auto
qed

lemma split_on_no_sep: "w \<in> set (split_on c s) \<Longrightarrow> c \<notin> set w"
proof (induction s arbitrary: w)
  case Nil
  then show ?case by simp
next
  case (Cons x xs)
  then show ?case
    by (cases "split_on c xs") (auto split: if_splits)
qed

lemma split_on_mem: "w \<in> set (split_on c s) \<Longrightarrow> set w \<subseteq> set s"
proof (induction s arbitrary: w)
  case Nil
  then show ?case by simp
next
  case (Cons x xs)
  then show ?case
    by (cases "split_on c xs") (fastforce split: if_splits)+
qed

lemma split_on_absent: "c \<notin> set s \<Longrightarrow> split_on c s = [s]"
  by (induction s) auto

lemma split_on_append: "c \<notin> set w \<Longrightarrow> split_on c (w @ c # s) = w # split_on c s"
  by (induction w) auto

lemma last_index_of_None: "last_index_of c s = None \<longleftrightarrow> c \<notin> set s"
  by (induction s) (auto split: option.splits)

lemma last_index_of_Some:
  "last_index_of c s = Some i \<Longrightarrow> i < length s \<and> s ! i = c \<and> c \<notin> set (drop (Suc i) s)"
proof (induction s arbitrary: i)
  case Nil
  then show ?case by simp
next
  case (Cons x xs)
  then show ?case
    by (auto split: option.splits if_splits simp: last_index_of_None)
qed

lemma concat_code_points: "concat (code_points s) = s"
  by (induction s rule: code_points.induct) auto

lemma code_points_length: "p \<in> set (code_points s) \<Longrightarrow> length p = 1 \<or> length p = 2"
  by (induction s rule: code_points.induct) (auto split: if_splits)

lemma length_code_points: "length (code_points s) \<le> length s"
  by (induction s rule: code_points.induct) auto

text \<open>A cut at a code point boundary is cut there again.\<close>

lemma code_points_take: "code_points (concat (take n (code_points s))) = take n (code_points s)"
proof (induction s arbitrary: n rule: code_points.induct)
  case (3 c d s)
  show ?case
  proof (cases n)
    case 0
    then show ?thesis by simp
  next
    case (Suc m)
    show ?thesis
    proof (cases "high_surrogate c \<and> low_surrogate d")
      case True
      with 3 Suc show ?thesis by simp
    next
      case False
      let ?t = "concat (take m (code_points (d # s)))"
      have IH: "code_points ?t = take m (code_points (d # s))"
        using 3 False by blast
      have head: "?t = [] \<or> hd ?t = d"
      proof (cases m)
        case (Suc k)
        then show ?thesis by (cases s) auto
      qed simp
      have "code_points (c # t) = [c] # code_points t" if "t = [] \<or> hd t = d" for t
        using that False by (cases t) auto
      with head have "code_points (c # ?t) = [c] # code_points ?t" by blast
      with False Suc IH show ?thesis by auto
    qed
  qed
qed (auto simp: take_Cons' split: nat.splits)

lemma set_unique_in_order [simp]: "set (unique_in_order xs) = set xs"
  by (induction xs rule: unique_in_order.induct) auto

lemma distinct_unique_in_order [simp]: "distinct (unique_in_order xs)"
  by (induction xs rule: unique_in_order.induct) auto

lemma unique_in_order_distinct: "distinct xs \<Longrightarrow> unique_in_order xs = xs"
proof (induction xs)
  case (Cons x xs)
  then have "filter (\<lambda>y. y \<noteq> x) xs = xs" by (auto simp: filter_id_conv)
  with Cons show ?case by simp
qed simp

lemma unique_in_order_nonempty [simp]: "unique_in_order xs = [] \<longleftrightarrow> xs = []"
  by (cases xs) auto

lemma matches_length: "matches ps s \<Longrightarrow> length s = length ps"
  by (auto simp: matches_def dest: list_all2_lengthD)

lemma matches_Nil [simp]: "matches [] s \<longleftrightarrow> s = []"
  by (auto simp: matches_def)

lemma matches_append:
  "matches (ps @ qs) s \<longleftrightarrow> (\<exists>u v. s = u @ v \<and> matches ps u \<and> matches qs v)"
  unfolding matches_def list_all2_append1 by (metis list_all2_lengthD)

lemma matches_single: "matches [p] s \<longleftrightarrow> (\<exists>c. s = [c] \<and> p c)"
  by (auto simp: matches_def list_all2_Cons1)

lemma matches_replicate: "matches (replicate n p) s \<longleftrightarrow> length s = n \<and> (\<forall>c\<in>set s. p c)"
  by (auto simp: matches_def list_all2_conv_all_nth all_set_conv_all_nth)

lemma base64url_char_class: "n < 64 \<Longrightarrow> is_base64url (base64url_char n)"
proof -
  assume "n < 64"
  then have "n \<in> set [0..<64]" by simp
  moreover have "\<forall>k\<in>set [0..<64]. is_base64url (base64url_char k)"
    by code_simp
  ultimately show ?thesis by blast
qed

lemma unat_byte: "unat (b :: 8 word) < 256"
  using unsigned_less [of b, where ?'a = nat] by simp

lemma sextets:
  fixes a b c :: "8 word"
  shows "unat a div 4 < 64" "unat a mod 4 * 16 + unat b div 16 < 64"
    "unat b mod 16 * 4 + unat c div 64 < 64" "unat c mod 64 < 64"
    "unat a mod 4 * 16 < 64" "unat b mod 16 * 4 < 64"
proof -
  have a: "unat a < 256" and b: "unat b < 256" and c: "unat c < 256" by (rule unat_byte)+
  have m: "unat a mod 4 \<le> 3" "unat b mod 16 \<le> 15"
    using mod_less_divisor [of 4 "unat a"] mod_less_divisor [of 16 "unat b"] by linarith+
  show "unat a div 4 < 64" using a by linarith
  show "unat a mod 4 * 16 + unat b div 16 < 64" using m b by linarith
  show "unat b mod 16 * 4 + unat c div 64 < 64" using m c by linarith
  show "unat c mod 64 < 64" by simp
  show "unat a mod 4 * 16 < 64" using m by linarith
  show "unat b mod 16 * 4 < 64" using m by linarith
qed

lemma base64url_class: "c \<in> set (base64url bs) \<Longrightarrow> is_base64url c"
  by (induction bs rule: base64url.induct) (auto intro!: base64url_char_class simp: sextets)

lemma length_base64url: "length (base64url bs) = (4 * length bs + 2) div 3"
  by (induction bs rule: base64url.induct) auto

end
