(* ===== verification/Schema.thy ===== *)
theory Schema
  imports Complex_Main Js_Strings
begin

text \<open>
  The data the components share: the rows of the database (\<open>prisma/schema.prisma\<close>), the exception
  the API throws (\<open>AppException\<close>), the security events and the state of the whole service.

  A handler runs in an environment \<open>run\<close>: the values its successive clock reads return, the ids
  and random bytes it draws, for each of its await points, what other requests and workers do to the
  state while it waits, and the error of creating a temporary directory, if that fails. With \<open>quiet\<close> interference a handler runs alone; a property
  proved for every \<open>run\<close> holds under every interleaving at the await points.
\<close>

section \<open>Rows\<close>

type_synonym uuid = jsstring
type_synonym time = int

datatype UserStatus = ACTIVE | SUSPENDED | DELETED_USER

record User =
  u_id :: uuid
  u_email :: jsstring
  u_passwordHash :: jsstring
  u_name :: "jsstring option"
  u_avatarUrl :: "jsstring option"
  u_status :: UserStatus
  u_emailVerified :: bool
  u_createdAt :: time
  u_updatedAt :: time

record RefreshToken =
  rt_id :: uuid
  rt_userId :: uuid
  rt_tokenHash :: jsstring
  rt_expiresAt :: time
  rt_revokedAt :: "time option"
  rt_deviceName :: "jsstring option"
  rt_userAgent :: "jsstring option"
  rt_ipAddress :: "jsstring option"
  rt_createdAt :: time

record Folder =
  f_id :: uuid
  f_userId :: uuid
  f_name :: jsstring
  f_parentId :: "uuid option"
  f_createdAt :: time
  f_updatedAt :: time

datatype DocumentStatus = DRAFT | UPLOADING | READY | PROCESSING_DOC | FAILED_DOC | DELETED

record Document =
  d_id :: uuid
  d_userId :: uuid
  d_folderId :: "uuid option"
  d_title :: jsstring
  d_description :: "jsstring option"
  d_status :: DocumentStatus
  d_mimeType :: "jsstring option"
  d_fileSize :: "int option"
  d_pageCount :: "nat option"
  d_storageKey :: "jsstring option"
  d_originalName :: "jsstring option"
  d_createdAt :: time
  d_updatedAt :: time
  d_deletedAt :: "time option"

datatype OcrJobStatus = QUEUED | PROCESSING | COMPLETED | PARTIAL | FAILED | CANCELLED

datatype OcrExtractionMethod = NATIVE_TEXT | OCR | MIXED

datatype OcrPageStatus = PAGE_COMPLETED | PAGE_EMPTY | PAGE_FAILED

record OcrJob =
  j_id :: uuid
  j_documentId :: uuid
  j_userId :: uuid
  j_status :: OcrJobStatus
  j_language :: jsstring
  j_extractionMethod :: "OcrExtractionMethod option"
  j_totalPages :: "nat option"
  j_processedPages :: nat
  j_failedPages :: nat
  j_errorCode :: "string option"
  j_errorMessage :: "string option"
  j_attemptCount :: nat
  j_maxAttempts :: nat
  j_heartbeatAt :: "time option"
  j_startedAt :: "time option"
  j_completedAt :: "time option"
  j_createdAt :: time
  j_updatedAt :: time

text \<open>The surrogate id and the time stamps of a page are written by the database and never read.\<close>

record OcrPage =
  p_ocrJobId :: uuid
  p_pageNumber :: nat
  p_status :: OcrPageStatus
  p_method :: "OcrExtractionMethod option"
  p_text :: "jsstring option"
  p_confidence :: "rat option"
  p_charCount :: nat
  p_truncated :: bool
  p_errorCode :: "string option"

section \<open>Exceptions and security events\<close>

record AppException =
  ex_status :: nat
  ex_code :: string
  ex_message :: string

text \<open>What a handler can throw: an exception of the API's own, or one of a driver or of the
  runtime, which the exception filter reports as an internal error.\<close>

datatype failure = App AppException | Internal string

abbreviation appException :: "nat \<Rightarrow> string \<Rightarrow> string \<Rightarrow> failure" where
  "appException status code message \<equiv> App \<lparr>ex_status = status, ex_code = code, ex_message = message\<rparr>"

datatype SecurityEventType =
    REGISTER_SUCCESS | REGISTER_FAILED | LOGIN_SUCCESS | LOGIN_FAILED | LOGOUT
  | REFRESH_TOKEN_ROTATED | REFRESH_TOKEN_REJECTED | REFRESH_TOKEN_REUSE_DETECTED
  | DOCUMENT_CREATED | DOCUMENT_UPDATED | DOCUMENT_DELETED | DOCUMENT_ACCESS_DENIED
  | FOLDER_CREATED | FOLDER_UPDATED | FOLDER_DELETED | FOLDER_ACCESS_DENIED
  | UPLOAD_URL_CREATED | UPLOAD_COMPLETED | UPLOAD_REJECTED | DOWNLOAD_URL_CREATED
  | OCR_JOB_REQUESTED | OCR_RETRY_REQUESTED

datatype detail = DText jsstring | DNumber int | DBool bool | DNull

record SecurityEvent =
  ev_type :: SecurityEventType
  ev_userId :: "uuid option"
  ev_sessionId :: "uuid option"
  ev_requestId :: "jsstring option"
  ev_ip :: "jsstring option"
  ev_reason :: "string option"
  ev_details :: "(string \<times> detail) list"

record RequestContext =
  ctx_requestId :: "jsstring option"
  ctx_ipAddress :: "jsstring option"

definition idDetail :: "uuid option \<Rightarrow> detail" where
  "idDetail i = (case i of None \<Rightarrow> DNull | Some x \<Rightarrow> DText x)"

section \<open>The state of the service\<close>

text \<open>States of an entry of the job queue.\<close>

datatype QueueState = Waiting | Active | Delayed | Prioritized | WaitingChildren | QCompleted | QFailed

record World =
  users :: "User list"
  refreshTokens :: "RefreshToken list"
  folders :: "Folder list"
  documents :: "Document list"
  ocrJobs :: "OcrJob list"
  ocrPages :: "OcrPage list"
  queueEntries :: "(uuid \<times> QueueState) list"
  deletedObjects :: "jsstring list"
  events :: "SecurityEvent list"

type_synonym 'a outcome = "(failure + 'a) \<times> World"

record run =
  clock :: "nat \<Rightarrow> time"
  freshId :: "nat \<Rightarrow> uuid"
  randomBytes :: "nat \<Rightarrow> nat \<Rightarrow> bytes"
  others :: "nat \<Rightarrow> World \<Rightarrow> World"
  tempDirError :: "string option"

text \<open>\<open>randomBytes(n)\<close> returns \<open>n\<close> bytes.\<close>

definition random_ok :: "run \<Rightarrow> bool" where
  "random_ok e \<longleftrightarrow> (\<forall>i n. length (randomBytes e i n) = n)"

text \<open>The ids the database generates are UUIDs.\<close>

definition ids_ok :: "run \<Rightarrow> bool" where
  "ids_ok e \<longleftrightarrow> (\<forall>i. is_uuid (freshId e i))"

definition quiet :: "run \<Rightarrow> bool" where
  "quiet e \<longleftrightarrow> others e = (\<lambda>_ w. w)"

text \<open>A rollback of a transaction undoes what it wrote to the tables; the log keeps its lines.\<close>

definition rollback :: "World \<Rightarrow> World \<Rightarrow> World" where
  "rollback before after = before\<lparr>events := events after\<rparr>"

definition emptyWorld :: World where
  "emptyWorld = \<lparr>users = [], refreshTokens = [], folders = [], documents = [], ocrJobs = [],
     ocrPages = [], queueEntries = [], deletedObjects = [], events = []\<rparr>"

end
