(* ===== verification/Users.thy ===== *)
theory Users
  imports Schema
begin

text \<open>
  Security events (\<open>security/security-events.service.ts\<close>), password hashing
  (\<open>security/password.service.ts\<close>), and the accounts: \<open>users/users.service.ts\<close>,
  \<open>users/users.serializer.ts\<close>, \<open>auth/auth.exceptions.ts\<close> and the two guards.
  Argon2 is a parameter (the record \<open>argon2\<close>). The unique index on \<open>users.email\<close> and the primary
  key are part of \<open>createUser\<close>: a duplicate is the driver's error \<open>P2002\<close>.
\<close>

section \<open>Security events\<close>

datatype log_level = Log | Warn

fun EVENT_LEVEL :: "SecurityEventType \<Rightarrow> log_level" where
  "EVENT_LEVEL REGISTER_SUCCESS = Log"
| "EVENT_LEVEL REGISTER_FAILED = Warn"
| "EVENT_LEVEL LOGIN_SUCCESS = Log"
| "EVENT_LEVEL LOGIN_FAILED = Warn"
| "EVENT_LEVEL LOGOUT = Log"
| "EVENT_LEVEL REFRESH_TOKEN_ROTATED = Log"
| "EVENT_LEVEL REFRESH_TOKEN_REJECTED = Warn"
| "EVENT_LEVEL REFRESH_TOKEN_REUSE_DETECTED = Warn"
| "EVENT_LEVEL DOCUMENT_CREATED = Log"
| "EVENT_LEVEL DOCUMENT_UPDATED = Log"
| "EVENT_LEVEL DOCUMENT_DELETED = Log"
| "EVENT_LEVEL DOCUMENT_ACCESS_DENIED = Warn"
| "EVENT_LEVEL FOLDER_CREATED = Log"
| "EVENT_LEVEL FOLDER_UPDATED = Log"
| "EVENT_LEVEL FOLDER_DELETED = Log"
| "EVENT_LEVEL FOLDER_ACCESS_DENIED = Warn"
| "EVENT_LEVEL UPLOAD_URL_CREATED = Log"
| "EVENT_LEVEL UPLOAD_COMPLETED = Log"
| "EVENT_LEVEL UPLOAD_REJECTED = Warn"
| "EVENT_LEVEL DOWNLOAD_URL_CREATED = Log"
| "EVENT_LEVEL OCR_JOB_REQUESTED = Log"
| "EVENT_LEVEL OCR_RETRY_REQUESTED = Log"

text \<open>A string that is present and not empty is truthy.\<close>

definition truthy :: "'a list option \<Rightarrow> bool" where
  "truthy v = (case v of None \<Rightarrow> False | Some x \<Rightarrow> x \<noteq> [])"

text \<open>The fields of the logged line besides \<open>event\<close>; an absent or empty field is left out, and the
  details are merged in last.\<close>

definition recordLine :: "SecurityEvent \<Rightarrow> (string \<times> detail) list" where
  "recordLine ev =
     (if truthy (ev_userId ev) then [(''userId'', DText (the (ev_userId ev)))] else [])
     @ (if truthy (ev_sessionId ev) then [(''sessionId'', DText (the (ev_sessionId ev)))] else [])
     @ (if truthy (ev_requestId ev) then [(''requestId'', DText (the (ev_requestId ev)))] else [])
     @ (if truthy (ev_ip ev) then [(''ip'', DText (the (ev_ip ev)))] else [])
     @ (if truthy (ev_reason ev) then [(''reason'', DText (js (the (ev_reason ev))))] else [])
     @ ev_details ev"

definition recordEvent :: "SecurityEvent \<Rightarrow> World \<Rightarrow> World" where
  "recordEvent ev w = w\<lparr>events := events w @ [ev]\<rparr>"

section \<open>Passwords\<close>

record argon2 =
  argon2_hash :: "bytes \<Rightarrow> jsstring \<Rightarrow> jsstring"
  argon2_verify :: "jsstring \<Rightarrow> jsstring \<Rightarrow> string + bool"

definition hashPassword :: "argon2 \<Rightarrow> bytes \<Rightarrow> jsstring \<Rightarrow> jsstring" where
  "hashPassword a salt password = argon2_hash a salt password"

definition verifyPassword :: "argon2 \<Rightarrow> jsstring \<Rightarrow> jsstring \<Rightarrow> bool" where
  "verifyPassword a password hash = (case argon2_verify a hash password of Inl _ \<Rightarrow> False | Inr b \<Rightarrow> b)"

section \<open>Accounts\<close>

definition accountStatusException :: "UserStatus \<Rightarrow> failure" where
  "accountStatusException status =
     (if status = SUSPENDED
      then appException 403 ''AUTH_ACCOUNT_SUSPENDED'' ''This account has been suspended''
      else appException 403 ''AUTH_ACCOUNT_DELETED'' ''This account is no longer available'')"

definition normalizeEmail :: "unicode \<Rightarrow> jsstring \<Rightarrow> jsstring" where
  "normalizeEmail uc email = toLowerCase uc (trim email)"

definition findUserById :: "uuid \<Rightarrow> World \<Rightarrow> User option" where
  "findUserById i w = findFirst (\<lambda>u. u_id u = i) (users w)"

definition findByEmail :: "unicode \<Rightarrow> jsstring \<Rightarrow> World \<Rightarrow> User option" where
  "findByEmail uc email w = findFirst (\<lambda>u. u_email u = normalizeEmail uc email) (users w)"

definition getActiveUser :: "uuid \<Rightarrow> World \<Rightarrow> failure + User" where
  "getActiveUser userId w =
     (case findUserById userId w of
        None \<Rightarrow> Inl (appException 401 ''AUTH_UNAUTHORIZED'' ''Authentication required'')
      | Some user \<Rightarrow>
          if u_status user \<noteq> ACTIVE then Inl (accountStatusException (u_status user)) else Inr user)"

definition P2002 :: failure where
  "P2002 = Internal ''P2002''"

definition P2025 :: failure where
  "P2025 = Internal ''P2025''"

definition isUniqueConstraintViolation :: "failure \<Rightarrow> bool" where
  "isUniqueConstraintViolation f \<longleftrightarrow> f = Internal ''P2002''"

definition isRecordNotFound :: "failure \<Rightarrow> bool" where
  "isRecordNotFound f \<longleftrightarrow> f = Internal ''P2025''"

definition createUser ::
  "unicode \<Rightarrow> uuid \<Rightarrow> time \<Rightarrow> jsstring \<Rightarrow> jsstring \<Rightarrow> jsstring option \<Rightarrow> World \<Rightarrow> User outcome" where
  "createUser uc newId now email passwordHash name w =
     (let user = \<lparr>u_id = newId, u_email = normalizeEmail uc email, u_passwordHash = passwordHash,
                  u_name = name, u_avatarUrl = None, u_status = ACTIVE, u_emailVerified = False,
                  u_createdAt = now, u_updatedAt = now\<rparr>
      in if findFirst (\<lambda>u. u_id u = newId \<or> u_email u = u_email user) (users w) \<noteq> None
         then (Inl P2002, w)
         else (Inr user, w\<lparr>users := createRow user (users w)\<rparr>))"

text \<open>A profile patch: an absent field is \<open>None\<close>, an explicit null is \<open>Some None\<close>.\<close>

record UpdateProfileDto =
  up_name :: "jsstring option option"
  up_avatarUrl :: "jsstring option option"

definition applyProfile :: "UpdateProfileDto \<Rightarrow> time \<Rightarrow> User \<Rightarrow> User" where
  "applyProfile dto now u =
     u\<lparr>u_name := (case up_name dto of None \<Rightarrow> u_name u | Some v \<Rightarrow> v),
       u_avatarUrl := (case up_avatarUrl dto of None \<Rightarrow> u_avatarUrl u | Some v \<Rightarrow> v),
       u_updatedAt := now\<rparr>"

definition prismaUserUpdate :: "uuid \<Rightarrow> (User \<Rightarrow> User) \<Rightarrow> World \<Rightarrow> User outcome" where
  "prismaUserUpdate i f w =
     (case findUserById i w of
        None \<Rightarrow> (Inl P2025, w)
      | Some u \<Rightarrow> (Inr (f u), w\<lparr>users := snd (updateMany (\<lambda>x. u_id x = i) f (users w))\<rparr>))"

definition updateProfile :: "uuid \<Rightarrow> UpdateProfileDto \<Rightarrow> time \<Rightarrow> World \<Rightarrow> User outcome" where
  "updateProfile userId dto now w =
     (case prismaUserUpdate userId (applyProfile dto now) w of
        (Inr u, w') \<Rightarrow> (Inr u, w')
      | (Inl f, w') \<Rightarrow>
          if isRecordNotFound f then (Inl (appException 404 ''USER_NOT_FOUND'' ''User not found''), w')
          else (Inl f, w'))"

record PublicUser =
  pu_id :: uuid
  pu_email :: jsstring
  pu_name :: "jsstring option"
  pu_avatarUrl :: "jsstring option"
  pu_status :: UserStatus
  pu_emailVerified :: bool
  pu_createdAt :: time
  pu_updatedAt :: time

definition toPublicUser :: "User \<Rightarrow> PublicUser" where
  "toPublicUser u =
     \<lparr>pu_id = u_id u, pu_email = u_email u, pu_name = u_name u, pu_avatarUrl = u_avatarUrl u,
      pu_status = u_status u, pu_emailVerified = u_emailVerified u,
      pu_createdAt = u_createdAt u, pu_updatedAt = u_updatedAt u\<rparr>"

text \<open>\<open>PATCH /users/me\<close>: the account is checked first, then the patch is written.\<close>

definition updateMe :: "run \<Rightarrow> uuid \<Rightarrow> UpdateProfileDto \<Rightarrow> World \<Rightarrow> PublicUser outcome" where
  "updateMe e userId dto w =
     (case getActiveUser userId w of
        Inl f \<Rightarrow> (Inl f, w)
      | Inr _ \<Rightarrow>
          (case updateProfile userId dto (clock e 0) (others e 0 w) of
             (Inl f, w') \<Rightarrow> (Inl f, w')
           | (Inr u, w') \<Rightarrow> (Inr (toPublicUser u), w')))"

definition getMe :: "uuid \<Rightarrow> World \<Rightarrow> failure + PublicUser" where
  "getMe userId w = (case getActiveUser userId w of Inl f \<Rightarrow> Inl f | Inr u \<Rightarrow> Inr (toPublicUser u))"

section \<open>Guards\<close>

text \<open>\<open>JwtStrategy.validate\<close> on the payload's \<open>sub\<close> claim (\<open>None\<close>: absent or not a string).\<close>

definition validateJwt :: "jsstring option \<Rightarrow> uuid option" where
  "validateJwt sub = (case sub of None \<Rightarrow> None | Some s \<Rightarrow> if is_uuid s then Some s else None)"

definition handleRequest :: "failure option \<Rightarrow> uuid option \<Rightarrow> string option \<Rightarrow> failure + uuid" where
  "handleRequest err user info =
     (case err of
        Some (App e) \<Rightarrow> Inl (App e)
      | _ \<Rightarrow>
          (case user of
             None \<Rightarrow>
               if info = Some ''No auth token''
               then Inl (appException 401 ''AUTH_UNAUTHORIZED'' ''Authentication required'')
               else Inl (appException 401 ''AUTH_INVALID_TOKEN'' ''Invalid or expired access token'')
           | Some u \<Rightarrow> Inr u))"

text \<open>\<open>UuidParamPipe.transform\<close>: a matching string is ASCII, where lower-casing is the table.\<close>

definition uuidParam :: "string option \<Rightarrow> jsstring \<Rightarrow> failure + uuid" where
  "uuidParam data v =
     (if \<not> is_uuid v
      then Inl (appException 400 ''VALIDATION_ERROR''
             ((case data of None \<Rightarrow> ''id'' | Some d \<Rightarrow> d) @ '' must be a UUID''))
      else Inr (map ascii_lower v))"

definition activeUserGuard :: "uuid option \<Rightarrow> World \<Rightarrow> failure + bool" where
  "activeUserGuard userId w =
     (if \<not> truthy userId then Inl (appException 401 ''AUTH_UNAUTHORIZED'' ''Authentication required'')
      else (case getActiveUser (the userId) w of Inl f \<Rightarrow> Inl f | Inr _ \<Rightarrow> Inr True))"

section \<open>Facts\<close>

lemma recordEvent_frame [simp]:
  "users (recordEvent ev w) = users w" "refreshTokens (recordEvent ev w) = refreshTokens w"
  "folders (recordEvent ev w) = folders w" "documents (recordEvent ev w) = documents w"
  "ocrJobs (recordEvent ev w) = ocrJobs w" "ocrPages (recordEvent ev w) = ocrPages w"
  "queueEntries (recordEvent ev w) = queueEntries w"
  "deletedObjects (recordEvent ev w) = deletedObjects w"
  "events (recordEvent ev w) = events w @ [ev]"
  by (simp_all add: recordEvent_def)

lemma rollback_frame [simp]:
  "users (rollback w w') = users w" "refreshTokens (rollback w w') = refreshTokens w"
  "folders (rollback w w') = folders w" "documents (rollback w w') = documents w"
  "ocrJobs (rollback w w') = ocrJobs w" "ocrPages (rollback w w') = ocrPages w"
  by (simp_all add: rollback_def)

text \<open>The accounts: no two share an id or an email address.\<close>

definition users_wf :: "World \<Rightarrow> bool" where
  "users_wf w \<longleftrightarrow> distinct (map u_id (users w)) \<and> distinct (map u_email (users w))"

lemma createUser_wf: "users_wf w \<Longrightarrow> users_wf (snd (createUser uc i now em ph nm w))"
  by (auto simp: users_wf_def createUser_def Let_def tbl.find_none table_simps)

lemma createUser_Inr:
  "createUser uc i now em ph nm w = (Inr u, w') \<Longrightarrow>
     u_id u = i \<and> u_email u = normalizeEmail uc em \<and> u_status u = ACTIVE \<and> u_passwordHash u = ph
     \<and> users w' = users w @ [u] \<and> refreshTokens w' = refreshTokens w
     \<and> (\<forall>v\<in>set (users w). u_email v \<noteq> normalizeEmail uc em)"
  by (auto simp: createUser_def Let_def tbl.find_none table_simps split: if_splits)

lemma createUser_Inl: "createUser uc i now em ph nm w = (Inl f, w') \<Longrightarrow> f = P2002 \<and> w' = w"
  by (auto simp: createUser_def Let_def split: if_splits)

lemma getActiveUser_Inr:
  "getActiveUser i w = Inr u \<Longrightarrow> u \<in> set (users w) \<and> u_id u = i \<and> u_status u = ACTIVE"
  by (auto simp: getActiveUser_def findUserById_def split: option.splits if_splits dest: findFirst_SomeD)

lemma prismaUserUpdate_users:
  assumes "\<And>u. u_id (f u) = u_id u" "\<And>u. u_email (f u) = u_email u"
  shows "map u_id (users (snd (prismaUserUpdate i f w))) = map u_id (users w)"
    and "map u_email (users (snd (prismaUserUpdate i f w))) = map u_email (users w)"
  using assms by (auto simp: prismaUserUpdate_def table_simps split: option.splits)

lemma updateProfile_users:
  assumes "updateProfile i dto now w = (res, w')"
  shows "users w' = map (\<lambda>u. if u_id u = i then applyProfile dto now u else u) (users w)
     \<and> refreshTokens w' = refreshTokens w"
proof (cases "findUserById i w")
  case None
  then have "\<forall>u\<in>set (users w). u_id u \<noteq> i" by (simp add: findUserById_def tbl.find_none)
  then have "map (\<lambda>u. if u_id u = i then applyProfile dto now u else u) (users w) = users w"
    by (intro map_idI) auto
  with assms None show ?thesis
    by (simp add: updateProfile_def prismaUserUpdate_def P2025_def isRecordNotFound_def)
next
  case (Some u)
  with assms show ?thesis
    by (auto simp: updateProfile_def prismaUserUpdate_def table_simps)
qed

text \<open>Identifiers the pipe lets through are canonical: a version 1 to 8 UUID in lower case.\<close>

lemma ascii_lower_idem [simp]: "ascii_lower (ascii_lower c) = ascii_lower c"
  by (auto simp: ascii_lower_def is_upper_def word_le_nat_alt unat_word_ariths)

lemma is_hex_lower_ascii: "is_hex c \<Longrightarrow> is_hex (ascii_lower c)"
  by (auto simp: is_hex_def is_hex_lower_def ascii_lower_def is_upper_def is_digit_def word_le_nat_alt
      unat_word_ariths)

lemma matches_map:
  "matches ps s \<Longrightarrow> (\<And>p c. p \<in> set ps \<Longrightarrow> p c \<Longrightarrow> p (f c)) \<Longrightarrow> matches ps (map f s)"
  unfolding matches_def by (simp add: list_all2_map2) (metis (mono_tags, lifting) list.rel_mono_strong)

lemma uuid_lower: "is_uuid v \<Longrightarrow> is_uuid (map ascii_lower v)"
  unfolding is_uuid_def
proof (erule matches_map)
  fix p c
  assume "p \<in> set UUID_PATTERN" "p c"
  then show "p (ascii_lower c)"
    by (auto simp: UUID_PATTERN_def is_hex_lower_ascii split: if_splits)
      (auto simp: ascii_lower_def is_upper_def word_le_nat_alt)
qed

section \<open>Properties\<close>

text \<open>A profile update touches one row and three of its columns: name, avatar and the update
  time. Address, password hash, status and verification of every account, and every other
  account, stay as they were when the write happened; and an account that is not active is
  turned away before anything is written.\<close>

theorem updateMe_scope:
  assumes "updateMe e i dto w = (res, w')"
  shows "(case getActiveUser i w of
      Inl f \<Rightarrow> res = Inl f \<and> w' = w
    | Inr _ \<Rightarrow> users w' = map (\<lambda>u. if u_id u = i then applyProfile dto (clock e 0) u else u) (users (others e 0 w))
        \<and> map u_email (users w') = map u_email (users (others e 0 w))
        \<and> map u_passwordHash (users w') = map u_passwordHash (users (others e 0 w))
        \<and> map u_status (users w') = map u_status (users (others e 0 w)))"
proof (cases "getActiveUser i w")
  case (Inr u)
  obtain r v where up: "updateProfile i dto (clock e 0) (others e 0 w) = (r, v)" by fastforce
  have "w' = v" using assms Inr up by (auto simp: updateMe_def split: sum.splits)
  with updateProfile_users [OF up] Inr show ?thesis
    by (auto simp: applyProfile_def)
qed (use assms in \<open>simp add: updateMe_def\<close>)

theorem updateMe_scope_witness:
  "users (snd (updateMe \<lparr>clock = (\<lambda>_. 5), freshId = (\<lambda>_. []), randomBytes = (\<lambda>_ _. []), others = (\<lambda>_ w. w), tempDirError = None\<rparr>
      [1] \<lparr>up_name = None, up_avatarUrl = None\<rparr> emptyWorld)) = []"
proof -
  have "getActiveUser [1] emptyWorld = Inl (appException 401 ''AUTH_UNAUTHORIZED'' ''Authentication required'')"
    by code_simp
  then show ?thesis
    using updateMe_scope [OF prod.collapse [symmetric], where w = emptyWorld and i = "[1]"
        and dto = "\<lparr>up_name = None, up_avatarUrl = None\<rparr>"
        and e = "\<lparr>clock = (\<lambda>_. 5), freshId = (\<lambda>_. []), randomBytes = (\<lambda>_ _. []), others = (\<lambda>_ w. w), tempDirError = None\<rparr>"]
    by (simp add: emptyWorld_def)
qed

text \<open>The guard and the pipe in front of every resource: an id passes the pipe exactly when it
  has the form of a UUID, and is then in canonical lower case, so that passing it again changes
  nothing; the active-user guard admits exactly the ids of accounts that exist and are active.\<close>

theorem guards_exact:
  assumes "users_wf w"
  shows "(\<exists>x. uuidParam d v = Inr x) = is_uuid v
       \<and> (uuidParam d v = Inr x \<longrightarrow> is_uuid x \<and> uuidParam d x = Inr x)
       \<and> (activeUserGuard (Some i) w = Inr True) = (i \<noteq> [] \<and> (\<exists>u\<in>set (users w). u_id u = i \<and> u_status u = ACTIVE))"
proof (intro conjI impI)
  show "(\<exists>x. uuidParam d v = Inr x) = is_uuid v" by (simp add: uuidParam_def)
  assume "uuidParam d v = Inr x"
  then show "is_uuid x" "uuidParam d x = Inr x"
    using uuid_lower by (auto simp: uuidParam_def split: if_splits)
next
  have found: "findUserById i w = Some u" if "u \<in> set (users w)" "u_id u = i" for u
    unfolding findUserById_def using that assms
    by (intro tbl.find_first_of_keys [where key = u_id]) (auto simp: users_wf_def)
  have "(activeUserGuard (Some i) w = Inr True)
      = (i \<noteq> [] \<and> (\<exists>u. findUserById i w = Some u \<and> u_status u = ACTIVE))"
    by (auto simp: activeUserGuard_def truthy_def getActiveUser_def split: option.splits if_splits sum.splits)
  moreover have "u \<in> set (users w) \<and> u_id u = i" if "findUserById i w = Some u" for u
    using that unfolding findUserById_def by (rule findFirst_SomeD)
  ultimately show "(activeUserGuard (Some i) w = Inr True)
      = (i \<noteq> [] \<and> (\<exists>u\<in>set (users w). u_id u = i \<and> u_status u = ACTIVE))"
    using found by metis
qed

theorem guards_exact_witness:
  "(\<exists>x. uuidParam None [] = Inr x) = is_uuid []"
  using guards_exact [of emptyWorld None "[]"] by (simp add: users_wf_def emptyWorld_def)

end
