(* ===== verification/Auth.thy ===== *)
theory Auth
  imports Users
begin

text \<open>
  Sessions: \<open>auth/auth.service.ts\<close> and \<open>auth/utils/token.utils.ts\<close>. A session is a row of
  \<open>refresh_tokens\<close> that holds the keyed hash of an opaque token. The handlers \<open>register\<close>,
  \<open>login\<close>, \<open>refresh\<close> and \<open>logout\<close> are whole, with every branch, write and event; the await points
  between their reads and their conditional writes call \<open>others e\<close>, so the race branches are
  reachable. HMAC, Argon2 and the JWT signer are parameters.

  The lemmas show that sessions only ever go from live to revoked (the preorder \<open>token_le\<close>), that a
  rotation consumes its token, and that a replay revokes every session of the account.
\<close>

section \<open>Tokens and configuration\<close>

record AuthConfig =
  accessSecret :: jsstring
  refreshSecret :: jsstring
  accessTtlSeconds :: int
  refreshTtlSeconds :: int

record crypto =
  pw :: argon2
  hmac_sha256_hex :: "jsstring \<Rightarrow> jsstring \<Rightarrow> jsstring"
  jwt_sign :: "jsstring \<Rightarrow> uuid \<Rightarrow> jsstring"

record SessionContext =
  sc_requestId :: "jsstring option"
  sc_ipAddress :: "jsstring option"
  sc_userAgent :: "jsstring option"
  sc_deviceName :: "jsstring option"

record TokenPair =
  accessToken :: jsstring
  refreshToken :: jsstring
  expiresIn :: int
  tokenType :: string

record RegisterDto =
  reg_email :: jsstring
  reg_password :: jsstring
  reg_name :: "jsstring option"

record LoginDto =
  log_email :: jsstring
  log_password :: jsstring

definition REFRESH_TOKEN_BYTES :: nat where
  "REFRESH_TOKEN_BYTES = 48"

definition generateRefreshToken :: "run \<Rightarrow> nat \<Rightarrow> jsstring" where
  "generateRefreshToken e i = base64url (randomBytes e i REFRESH_TOKEN_BYTES)"

definition hashRefreshToken :: "crypto \<Rightarrow> jsstring \<Rightarrow> jsstring \<Rightarrow> jsstring" where
  "hashRefreshToken cr token secret = hmac_sha256_hex cr secret token"

definition looksLikeRefreshToken :: "jsstring \<Rightarrow> bool" where
  "looksLikeRefreshToken token \<longleftrightarrow>
     43 \<le> length token \<and> length token \<le> 128 \<and> list_all is_base64url token"

text \<open>\<open>truncate\<close>: an absent or empty value is stored as null.\<close>

definition truncateMeta :: "jsstring option \<Rightarrow> nat \<Rightarrow> jsstring option" where
  "truncateMeta v maxLength =
     (if truthy v then Some (if length (the v) > maxLength then take maxLength (the v) else the v)
      else None)"

section \<open>Helpers of the service\<close>

definition sessionEvent ::
  "SecurityEventType \<Rightarrow> uuid option \<Rightarrow> uuid option \<Rightarrow> string option \<Rightarrow> (string \<times> detail) list
   \<Rightarrow> SessionContext \<Rightarrow> SecurityEvent" where
  "sessionEvent ty uid sid reason details ctx =
     \<lparr>ev_type = ty, ev_userId = uid, ev_sessionId = sid, ev_requestId = sc_requestId ctx,
      ev_ip = sc_ipAddress ctx, ev_reason = reason, ev_details = details\<rparr>"

definition findRefreshToken ::
  "crypto \<Rightarrow> AuthConfig \<Rightarrow> jsstring \<Rightarrow> World \<Rightarrow> failure + (RefreshToken \<times> User) option" where
  "findRefreshToken cr cfg rawToken w =
     (if \<not> looksLikeRefreshToken rawToken then Inr None
      else (let tokenHash = hashRefreshToken cr rawToken (refreshSecret cfg)
            in case findFirst (\<lambda>t. rt_tokenHash t = tokenHash) (refreshTokens w) of
                 None \<Rightarrow> Inr None
               | Some t \<Rightarrow>
                   (case findUserById (rt_userId t) w of
                      None \<Rightarrow> Inl (Internal ''Inconsistent query result: user is required'')
                    | Some u \<Rightarrow> Inr (Some (t, u)))))"

text \<open>The unique index on the hash and the primary key refuse a duplicate with \<open>P2002\<close>, the foreign
  key to the account a missing account with \<open>P2003\<close>.\<close>

definition issueRefreshToken ::
  "run \<Rightarrow> crypto \<Rightarrow> AuthConfig \<Rightarrow> time \<Rightarrow> uuid \<Rightarrow> SessionContext \<Rightarrow> World
   \<Rightarrow> (jsstring \<times> RefreshToken) outcome" where
  "issueRefreshToken e cr cfg now userId ctx w =
     (let token = generateRefreshToken e 0;
          row = \<lparr>rt_id = freshId e 1, rt_userId = userId,
                 rt_tokenHash = hashRefreshToken cr token (refreshSecret cfg),
                 rt_expiresAt = now + refreshTtlSeconds cfg * 1000, rt_revokedAt = None,
                 rt_deviceName = sc_deviceName ctx,
                 rt_userAgent = truncateMeta (sc_userAgent ctx) 255,
                 rt_ipAddress = truncateMeta (sc_ipAddress ctx) 45, rt_createdAt = now\<rparr>
      in if findFirst (\<lambda>t. rt_id t = rt_id row \<or> rt_tokenHash t = rt_tokenHash row) (refreshTokens w) \<noteq> None
         then (Inl P2002, w)
         else if findUserById userId w = None then (Inl (Internal ''P2003''), w)
         else (Inr (token, row), w\<lparr>refreshTokens := createRow row (refreshTokens w)\<rparr>))"

definition buildTokenPair :: "crypto \<Rightarrow> AuthConfig \<Rightarrow> uuid \<Rightarrow> jsstring \<Rightarrow> TokenPair" where
  "buildTokenPair cr cfg userId token =
     \<lparr>accessToken = jwt_sign cr (accessSecret cfg) userId, refreshToken = token,
      expiresIn = accessTtlSeconds cfg, tokenType = ''Bearer''\<rparr>"

definition buildAuthResponse :: "crypto \<Rightarrow> AuthConfig \<Rightarrow> User \<Rightarrow> jsstring \<Rightarrow> TokenPair \<times> PublicUser" where
  "buildAuthResponse cr cfg user token = (buildTokenPair cr cfg (u_id user) token, toPublicUser user)"

text \<open>The decoy hash that \<open>login\<close> verifies against when the address is unknown, drawn at start-up.\<close>

definition onModuleInit :: "run \<Rightarrow> crypto \<Rightarrow> jsstring" where
  "onModuleInit e cr = hashPassword (pw cr) (randomBytes e 1 16) (base64url (randomBytes e 0 32))"

definition invalidRefreshToken :: failure where
  "invalidRefreshToken = appException 401 ''AUTH_REFRESH_TOKEN_INVALID'' ''Invalid refresh token''"

definition rejectDuplicateEmail :: "SessionContext \<Rightarrow> World \<Rightarrow> 'a outcome" where
  "rejectDuplicateEmail ctx w =
     (Inl (appException 409 ''AUTH_EMAIL_ALREADY_EXISTS'' ''An account with this email already exists''),
      recordEvent (sessionEvent REGISTER_FAILED None None (Some ''email_already_exists'') [] ctx) w)"

text \<open>\<open>assertAccountActive\<close>: the failure to throw, with its event, unless the account is active.\<close>

definition assertAccountActive ::
  "User \<Rightarrow> SecurityEventType \<Rightarrow> SessionContext \<Rightarrow> World \<Rightarrow> failure option \<times> World" where
  "assertAccountActive user failureEvent ctx w =
     (if u_status user = ACTIVE then (None, w)
      else (Some (accountStatusException (u_status user)),
            recordEvent (sessionEvent failureEvent (Some (u_id user)) None
              (Some (if u_status user = SUSPENDED then ''suspended'' else ''deleted'')) [] ctx) w))"

definition revokeTokens :: "(RefreshToken \<Rightarrow> bool) \<Rightarrow> time \<Rightarrow> World \<Rightarrow> nat \<times> World" where
  "revokeTokens p now w =
     (let (n, t) = updateMany (\<lambda>r. p r \<and> rt_revokedAt r = None) (\<lambda>r. r\<lparr>rt_revokedAt := Some now\<rparr>)
                     (refreshTokens w)
      in (n, w\<lparr>refreshTokens := t\<rparr>))"

definition handleReuse :: "RefreshToken \<Rightarrow> time \<Rightarrow> SessionContext \<Rightarrow> World \<Rightarrow> failure \<times> World" where
  "handleReuse token now ctx w =
     (let (n, w1) = revokeTokens (\<lambda>r. rt_userId r = rt_userId token) now w
      in (appException 401 ''AUTH_REFRESH_TOKEN_REUSED'' ''Refresh token is no longer valid'',
          recordEvent (sessionEvent REFRESH_TOKEN_REUSE_DETECTED (Some (rt_userId token))
            (Some (rt_id token)) None [(''revokedSessions'', DNumber (int n))] ctx) w1))"

section \<open>Handlers\<close>

definition registerTx ::
  "run \<Rightarrow> unicode \<Rightarrow> crypto \<Rightarrow> AuthConfig \<Rightarrow> RegisterDto \<Rightarrow> jsstring \<Rightarrow> SessionContext \<Rightarrow> World
   \<Rightarrow> (User \<times> jsstring \<times> RefreshToken) outcome" where
  "registerTx e uc cr cfg dto passwordHash ctx w =
     (case createUser uc (freshId e 0) (clock e 0) (reg_email dto) passwordHash (reg_name dto) w of
        (Inl f, w') \<Rightarrow> (Inl f, rollback w w')
      | (Inr created, w1) \<Rightarrow>
          (case issueRefreshToken e cr cfg (clock e 1) (u_id created) ctx w1 of
             (Inl f, w') \<Rightarrow> (Inl f, rollback w w')
           | (Inr (token, row), w2) \<Rightarrow> (Inr (created, token, row), w2)))"

definition register ::
  "run \<Rightarrow> unicode \<Rightarrow> crypto \<Rightarrow> AuthConfig \<Rightarrow> RegisterDto \<Rightarrow> SessionContext \<Rightarrow> World
   \<Rightarrow> (TokenPair \<times> PublicUser) outcome" where
  "register e uc cr cfg dto ctx w =
     (if findByEmail uc (reg_email dto) w \<noteq> None then rejectDuplicateEmail ctx w
      else
        (let passwordHash = hashPassword (pw cr) (randomBytes e 1 16) (reg_password dto)
         in case registerTx e uc cr cfg dto passwordHash ctx (others e 0 w) of
              (Inl f, w') \<Rightarrow>
                if isUniqueConstraintViolation f then rejectDuplicateEmail ctx w' else (Inl f, w')
            | (Inr (user, token, row), w') \<Rightarrow>
                (Inr (buildAuthResponse cr cfg user token),
                 recordEvent (sessionEvent REGISTER_SUCCESS (Some (u_id user)) (Some (rt_id row)) None [] ctx)
                   w')))"

definition login ::
  "run \<Rightarrow> unicode \<Rightarrow> crypto \<Rightarrow> AuthConfig \<Rightarrow> jsstring \<Rightarrow> LoginDto \<Rightarrow> SessionContext \<Rightarrow> World
   \<Rightarrow> (TokenPair \<times> PublicUser) outcome" where
  "login e uc cr cfg decoyPasswordHash dto ctx w =
     (let user = findByEmail uc (log_email dto) w;
          passwordMatches = verifyPassword (pw cr) (log_password dto)
            (case user of Some u \<Rightarrow> u_passwordHash u | None \<Rightarrow> decoyPasswordHash)
      in if user = None \<or> \<not> passwordMatches
         then (Inl (appException 401 ''AUTH_INVALID_CREDENTIALS'' ''Invalid email or password''),
               recordEvent (sessionEvent LOGIN_FAILED (map_option u_id user) None
                 (Some (if user \<noteq> None then ''invalid_password'' else ''unknown_email'')) [] ctx) w)
         else
           (case assertAccountActive (the user) LOGIN_FAILED ctx w of
              (Some f, w1) \<Rightarrow> (Inl f, w1)
            | (None, w1) \<Rightarrow>
                (case issueRefreshToken e cr cfg (clock e 0) (u_id (the user)) ctx (others e 0 w1) of
                   (Inl f, w2) \<Rightarrow> (Inl f, w2)
                 | (Inr (token, row), w2) \<Rightarrow>
                     (Inr (buildAuthResponse cr cfg (the user) token),
                      recordEvent (sessionEvent LOGIN_SUCCESS (Some (u_id (the user))) (Some (rt_id row))
                        None [] ctx) w2))))"

text \<open>The rotation transaction: \<open>Inr None\<close> when the token was consumed by somebody else.\<close>

definition rotateTx ::
  "run \<Rightarrow> crypto \<Rightarrow> AuthConfig \<Rightarrow> RefreshToken \<Rightarrow> SessionContext \<Rightarrow> World
   \<Rightarrow> (jsstring \<times> RefreshToken) option outcome" where
  "rotateTx e cr cfg existing ctx w =
     (let (n, w1) = revokeTokens (\<lambda>r. rt_id r = rt_id existing) (clock e 1) w
      in if n \<noteq> 1 then (Inr None, w1)
         else
           (case issueRefreshToken e cr cfg (clock e 2) (rt_userId existing)
                   (ctx\<lparr>sc_deviceName := (case sc_deviceName ctx of None \<Rightarrow> rt_deviceName existing | Some d \<Rightarrow> Some d)\<rparr>)
                   w1 of
              (Inl f, w2) \<Rightarrow> (Inl f, rollback w w2)
            | (Inr tr, w2) \<Rightarrow> (Inr (Some tr), w2)))"

definition refresh ::
  "run \<Rightarrow> crypto \<Rightarrow> AuthConfig \<Rightarrow> jsstring \<Rightarrow> SessionContext \<Rightarrow> World \<Rightarrow> TokenPair outcome" where
  "refresh e cr cfg rawToken ctx w =
     (case findRefreshToken cr cfg rawToken w of
        Inl f \<Rightarrow> (Inl f, w)
      | Inr None \<Rightarrow>
          (Inl invalidRefreshToken,
           recordEvent (sessionEvent REFRESH_TOKEN_REJECTED None None (Some ''unknown_token'') [] ctx) w)
      | Inr (Some (existing, user)) \<Rightarrow>
          if rt_revokedAt existing \<noteq> None
          then (let (f, w') = handleReuse existing (clock e 3) ctx (others e 0 w) in (Inl f, w'))
          else if rt_expiresAt existing \<le> clock e 0
          then (Inl (appException 401 ''AUTH_REFRESH_TOKEN_EXPIRED'' ''Refresh token has expired''),
                recordEvent (sessionEvent REFRESH_TOKEN_REJECTED (Some (rt_userId existing))
                    (Some (rt_id existing)) (Some ''expired'') [] ctx)
                  (snd (revokeTokens (\<lambda>r. rt_id r = rt_id existing) (clock e 0) (others e 0 w))))
          else if u_status user \<noteq> ACTIVE
          then (Inl (accountStatusException (u_status user)),
                snd (assertAccountActive user REFRESH_TOKEN_REJECTED ctx
                  (snd (revokeTokens (\<lambda>r. rt_id r = rt_id existing) (clock e 0) (others e 0 w)))))
          else
            (case rotateTx e cr cfg existing ctx (others e 0 w) of
               (Inl f, w') \<Rightarrow> (Inl f, w')
             | (Inr None, w') \<Rightarrow>
                 (let (f, w'') = handleReuse existing (clock e 3) ctx (others e 1 w') in (Inl f, w''))
             | (Inr (Some (token, row)), w') \<Rightarrow>
                 (Inr (buildTokenPair cr cfg (rt_userId existing) token),
                  recordEvent (sessionEvent REFRESH_TOKEN_ROTATED (Some (rt_userId existing))
                    (Some (rt_id row)) None [(''previousSessionId'', DText (rt_id existing))] ctx) w')))"

definition logout ::
  "run \<Rightarrow> crypto \<Rightarrow> AuthConfig \<Rightarrow> jsstring \<Rightarrow> uuid \<Rightarrow> SessionContext \<Rightarrow> World \<Rightarrow> unit outcome" where
  "logout e cr cfg rawToken userId ctx w =
     (case findRefreshToken cr cfg rawToken w of
        Inl f \<Rightarrow> (Inl f, w)
      | Inr existing \<Rightarrow>
          (case existing of
             Some (t, _) \<Rightarrow>
               if rt_userId t \<noteq> userId
               then (Inr (), recordEvent (sessionEvent LOGOUT (Some userId) None
                       (Some ''token_belongs_to_other_user'') [] ctx) w)
               else (let (n, w1) = revokeTokens (\<lambda>r. rt_id r = rt_id t) (clock e 0) (others e 0 w)
                     in (Inr (), recordEvent (sessionEvent LOGOUT (Some userId) (Some (rt_id t))
                           (Some (if n = 1 then ''revoked'' else ''already_revoked'')) [] ctx) w1))
           | None \<Rightarrow>
               (Inr (), recordEvent (sessionEvent LOGOUT (Some userId) None (Some ''unknown_token'') [] ctx) w)))"

section \<open>Sessions evolve from live to revoked\<close>

definition token_le :: "RefreshToken \<Rightarrow> RefreshToken \<Rightarrow> bool" where
  "token_le r r' \<longleftrightarrow> r' = r \<or> (rt_revokedAt r = None \<and> (\<exists>t. r' = r\<lparr>rt_revokedAt := Some t\<rparr>))"

interpretation tok: row_preorder token_le
  by unfold_locales (auto simp: token_le_def)

lemma token_leD:
  "token_le r r' \<Longrightarrow> rt_id r' = rt_id r \<and> rt_userId r' = rt_userId r \<and> rt_tokenHash r' = rt_tokenHash r
     \<and> rt_expiresAt r' = rt_expiresAt r \<and> (rt_revokedAt r \<noteq> None \<longrightarrow> rt_revokedAt r' \<noteq> None)"
  by (auto simp: token_le_def)

definition sessions_evolve :: "World \<Rightarrow> World \<Rightarrow> bool" where
  "sessions_evolve w w' \<longleftrightarrow> evolves token_le (refreshTokens w) (refreshTokens w')"

lemma sessions_evolve_refl [simp]: "sessions_evolve w w"
  by (simp add: sessions_evolve_def tok.evolves_refl)

lemma sessions_evolve_trans [trans]:
  "sessions_evolve u v \<Longrightarrow> sessions_evolve v w \<Longrightarrow> sessions_evolve u w"
  unfolding sessions_evolve_def by (rule tok.evolves_trans)

lemma sessions_evolve_cong [simp]:
  "sessions_evolve w (recordEvent ev v) = sessions_evolve w v"
  "sessions_evolve w (rollback v v') = sessions_evolve w v"
  by (simp_all add: sessions_evolve_def)

lemma sessions_evolve_row:
  "sessions_evolve w w' \<Longrightarrow> r \<in> set (refreshTokens w) \<Longrightarrow> \<exists>r'\<in>set (refreshTokens w'). token_le r r'"
  unfolding sessions_evolve_def by (rule tok.evolves_row)

text \<open>The accounts and sessions: unique ids, email addresses and hashes, and every session belongs
  to an account.\<close>

definition auth_wf :: "World \<Rightarrow> bool" where
  "auth_wf w \<longleftrightarrow> users_wf w \<and> distinct (map rt_id (refreshTokens w))
     \<and> distinct (map rt_tokenHash (refreshTokens w))
     \<and> (\<forall>t\<in>set (refreshTokens w). \<exists>u\<in>set (users w). u_id u = rt_userId t)"

lemma auth_wf_cong [simp]:
  "auth_wf (recordEvent ev v) = auth_wf v" "auth_wf (rollback v v') = auth_wf v"
  by (simp_all add: auth_wf_def users_wf_def)

text \<open>What a handler relies on while it waits, and what every handler in turn guarantees.\<close>

definition session_env :: "run \<Rightarrow> bool" where
  "session_env e \<longleftrightarrow>
     (\<forall>i v. sessions_evolve v (others e i v)) \<and> (\<forall>i v. auth_wf v \<longrightarrow> auth_wf (others e i v))"

lemma session_envD:
  "session_env e \<Longrightarrow> sessions_evolve v (others e i v)"
  "session_env e \<Longrightarrow> auth_wf v \<Longrightarrow> auth_wf (others e i v)"
  by (auto simp: session_env_def)

lemma quiet_session_env: "quiet e \<Longrightarrow> session_env e"
  by (simp add: quiet_def session_env_def)

section \<open>Lemmas on the helpers\<close>

lemma revokeTokens_rows:
  "refreshTokens (snd (revokeTokens p now w))
     = map (\<lambda>r. if p r \<and> rt_revokedAt r = None then r\<lparr>rt_revokedAt := Some now\<rparr> else r) (refreshTokens w)"
  "users (snd (revokeTokens p now w)) = users w"
  by (auto simp: revokeTokens_def case_prod_unfold Let_def table_simps)

lemma revokeTokens_evolves [simp]: "sessions_evolve w (snd (revokeTokens p now w))"
  by (auto simp: sessions_evolve_def revokeTokens_def case_prod_unfold Let_def token_le_def
      intro!: tok.evolves_updateMany)

lemma revokeTokens_wf: "auth_wf w \<Longrightarrow> auth_wf (snd (revokeTokens p now w))"
  by (auto simp: auth_wf_def users_wf_def revokeTokens_rows comp_def if_distrib [of rt_id]
      if_distrib [of rt_tokenHash] cong: if_cong)

lemma revokeTokens_revoked:
  "r \<in> set (refreshTokens (snd (revokeTokens p now w))) \<Longrightarrow> (\<And>x t. p (x\<lparr>rt_revokedAt := t\<rparr>) = p x) \<Longrightarrow>
     p r \<Longrightarrow> rt_revokedAt r \<noteq> None"
  by (auto simp: revokeTokens_rows split: if_splits)

lemma revokeTokens_zero:
  "(\<And>r. r \<in> set (refreshTokens w) \<Longrightarrow> p r \<Longrightarrow> rt_revokedAt r \<noteq> None) \<Longrightarrow> fst (revokeTokens p now w) = 0"
  by (auto simp: revokeTokens_def case_prod_unfold Let_def tbl.update_where_zero)

text \<open>Revoking one session of an account leaves the sessions of the others alone.\<close>

lemma revokeTokens_foreign:
  assumes "auth_wf w" and "t \<in> set (refreshTokens w)" and "rt_id t = k" and "rt_userId t = i"
  shows "filter (\<lambda>r. rt_userId r \<noteq> i) (refreshTokens (snd (revokeTokens (\<lambda>r. rt_id r = k) now w)))
      = filter (\<lambda>r. rt_userId r \<noteq> i) (refreshTokens w)"
proof -
  have "rt_userId r = i" if "r \<in> set (refreshTokens w)" "rt_id r = k" for r
    using that assms by (auto simp: auth_wf_def distinct_map dest: inj_onD)
  then show ?thesis
    unfolding revokeTokens_rows by (intro filter_map_keep) auto
qed

lemma issueRefreshToken_evolves: "sessions_evolve w (snd (issueRefreshToken e cr cfg now i ctx w))"
  by (auto simp: issueRefreshToken_def Let_def sessions_evolve_def intro: tok.evolves_create tok.evolves_refl)

lemma issueRefreshToken_wf: "auth_wf w \<Longrightarrow> auth_wf (snd (issueRefreshToken e cr cfg now i ctx w))"
  by (auto simp: issueRefreshToken_def Let_def auth_wf_def users_wf_def tbl.find_none table_simps
      findUserById_def dest!: findFirst_SomeD split: if_splits)

lemma issueRefreshToken_Inr:
  "issueRefreshToken e cr cfg now i ctx w = (Inr (token, row), w') \<Longrightarrow>
     token = generateRefreshToken e 0 \<and> rt_userId row = i \<and> rt_revokedAt row = None
     \<and> rt_tokenHash row = hashRefreshToken cr token (refreshSecret cfg)
     \<and> rt_expiresAt row = now + refreshTtlSeconds cfg * 1000 \<and> rt_deviceName row = sc_deviceName ctx
     \<and> refreshTokens w' = refreshTokens w @ [row] \<and> users w' = users w"
  by (auto simp: issueRefreshToken_def Let_def table_simps split: if_splits)

lemma handleReuse_evolves: "sessions_evolve w (snd (handleReuse t now ctx w))"
  by (simp add: handleReuse_def case_prod_unfold Let_def)

lemma handleReuse_wf: "auth_wf w \<Longrightarrow> auth_wf (snd (handleReuse t now ctx w))"
  by (simp add: handleReuse_def case_prod_unfold Let_def revokeTokens_wf)

lemma assertAccountActive_snd [simp]:
  "refreshTokens (snd (assertAccountActive u ty ctx w)) = refreshTokens w"
  "users (snd (assertAccountActive u ty ctx w)) = users w"
  "sessions_evolve v (snd (assertAccountActive u ty ctx w)) = sessions_evolve v w"
  "auth_wf (snd (assertAccountActive u ty ctx w)) = auth_wf w"
  by (simp_all add: assertAccountActive_def)

lemma findRefreshToken_Some:
  "findRefreshToken cr cfg raw w = Inr (Some (t, u)) \<Longrightarrow>
     t \<in> set (refreshTokens w) \<and> rt_tokenHash t = hashRefreshToken cr raw (refreshSecret cfg)
     \<and> u \<in> set (users w) \<and> u_id u = rt_userId t \<and> looksLikeRefreshToken raw"
  by (auto simp: findRefreshToken_def Let_def findUserById_def
      split: if_splits option.splits dest: findFirst_SomeD)

lemma findRefreshToken_stored:
  assumes "auth_wf w" and "looksLikeRefreshToken raw" and "t \<in> set (refreshTokens w)"
    and "rt_tokenHash t = hashRefreshToken cr raw (refreshSecret cfg)"
  shows "\<exists>u. findRefreshToken cr cfg raw w = Inr (Some (t, u))"
proof -
  have "findFirst (\<lambda>r. rt_tokenHash r = rt_tokenHash t) (refreshTokens w) = Some t"
    using assms by (intro tbl.find_first_of_keys [where key = rt_tokenHash]) (auto simp: auth_wf_def)
  moreover have "findUserById (rt_userId t) w \<noteq> None"
    using assms(1,3) by (auto simp: auth_wf_def findUserById_def tbl.find_none)
  ultimately show ?thesis using assms by (auto simp: findRefreshToken_def)
qed

lemma rotateTx_evolves: "sessions_evolve w (snd (rotateTx e cr cfg t ctx w))"
  by (auto simp: rotateTx_def case_prod_unfold Let_def split: sum.splits
      intro: sessions_evolve_trans [OF revokeTokens_evolves issueRefreshToken_evolves])

lemma rotateTx_wf: "auth_wf w \<Longrightarrow> auth_wf (snd (rotateTx e cr cfg t ctx w))"
  by (auto simp: rotateTx_def case_prod_unfold Let_def revokeTokens_wf issueRefreshToken_wf split: sum.splits)

lemma rotateTx_Some:
  assumes "rotateTx e cr cfg t ctx w = (Inr (Some (token, row)), w')"
  shows "\<exists>r\<in>set (refreshTokens w). rt_id r = rt_id t \<and> rt_revokedAt r = None"
    and "token = generateRefreshToken e 0" and "rt_userId row = rt_userId t" and "rt_revokedAt row = None"
    and "rt_tokenHash row = hashRefreshToken cr token (refreshSecret cfg)"
    and "refreshTokens w'
      = refreshTokens (snd (revokeTokens (\<lambda>r. rt_id r = rt_id t) (clock e 1) w)) @ [row]"
    and "rt_expiresAt row = clock e 2 + refreshTtlSeconds cfg * 1000"
    and "rt_deviceName row = (case sc_deviceName ctx of None \<Rightarrow> rt_deviceName t | Some d \<Rightarrow> Some d)"
proof -
  let ?rv = "revokeTokens (\<lambda>r. rt_id r = rt_id t) (clock e 1) w"
  let ?ctx = "ctx\<lparr>sc_deviceName := (case sc_deviceName ctx of None \<Rightarrow> rt_deviceName t | Some d \<Rightarrow> Some d)\<rparr>"
  have one: "fst ?rv = 1"
    and iss: "issueRefreshToken e cr cfg (clock e 2) (rt_userId t) ?ctx (snd ?rv) = (Inr (token, row), w')"
    using assms by (auto simp: rotateTx_def case_prod_unfold Let_def prod_eq_iff split: if_splits sum.splits)
  show "\<exists>r\<in>set (refreshTokens w). rt_id r = rt_id t \<and> rt_revokedAt r = None"
    using one updateMany_one_ex [of "\<lambda>r. rt_id r = rt_id t \<and> rt_revokedAt r = None"]
    by (simp add: revokeTokens_def case_prod_unfold Let_def)
  show "token = generateRefreshToken e 0" "rt_userId row = rt_userId t" "rt_revokedAt row = None"
    "rt_tokenHash row = hashRefreshToken cr token (refreshSecret cfg)"
    "refreshTokens w' = refreshTokens (snd ?rv) @ [row]" "rt_expiresAt row = clock e 2 + refreshTtlSeconds cfg * 1000"
    "rt_deviceName row = (case sc_deviceName ctx of None \<Rightarrow> rt_deviceName t | Some d \<Rightarrow> Some d)"
    using issueRefreshToken_Inr [OF iss] by auto
qed

section \<open>Guarantees of the handlers\<close>

lemma registerTx_evolves: "sessions_evolve w (snd (registerTx e uc cr cfg dto ph ctx w))"
proof (cases "createUser uc (freshId e 0) (clock e 0) (reg_email dto) ph (reg_name dto) w")
  case (Pair r w1)
  show ?thesis
  proof (cases r)
    case (Inr u)
    then have "refreshTokens w1 = refreshTokens w" using Pair createUser_Inr by blast
    then have "sessions_evolve w (snd (issueRefreshToken e cr cfg (clock e 1) (u_id u) ctx w1))"
      using issueRefreshToken_evolves [of w1] by (simp add: sessions_evolve_def)
    with Pair Inr show ?thesis
      by (auto simp: registerTx_def split: sum.splits prod.splits)
  qed (use Pair in \<open>simp add: registerTx_def\<close>)
qed

lemma registerTx_wf: "auth_wf w \<Longrightarrow> auth_wf (snd (registerTx e uc cr cfg dto ph ctx w))"
proof (cases "createUser uc (freshId e 0) (clock e 0) (reg_email dto) ph (reg_name dto) w")
  case (Pair r w1)
  assume wf: "auth_wf w"
  show ?thesis
  proof (cases r)
    case (Inr u)
    have "users_wf w1"
      using Pair createUser_wf wf by (metis auth_wf_def snd_conv)
    moreover have "users w1 = users w @ [u]" "refreshTokens w1 = refreshTokens w"
      using Pair Inr createUser_Inr by blast+
    ultimately have "auth_wf w1" using wf by (auto simp: auth_wf_def)
    with Pair Inr wf show ?thesis
      using issueRefreshToken_wf [of w1 e cr cfg "clock e 1" "u_id u" ctx]
      by (auto simp: registerTx_def split: sum.splits prod.splits)
  qed (use Pair wf in \<open>simp add: registerTx_def\<close>)
qed

lemma register_guarantee:
  assumes "session_env e"
  shows "sessions_evolve w (snd (register e uc cr cfg dto ctx w))"
    and "auth_wf w \<Longrightarrow> auth_wf (snd (register e uc cr cfg dto ctx w))"
proof -
  have "sessions_evolve w (snd (registerTx e uc cr cfg dto ph ctx (others e 0 w)))" for ph
    using sessions_evolve_trans [OF session_envD(1) [OF assms] registerTx_evolves] .
  then show "sessions_evolve w (snd (register e uc cr cfg dto ctx w))"
    by (auto simp: register_def rejectDuplicateEmail_def Let_def split: sum.splits prod.splits)
      (metis snd_conv)+
  have "auth_wf w \<Longrightarrow> auth_wf (snd (registerTx e uc cr cfg dto ph ctx (others e 0 w)))" for ph
    by (intro registerTx_wf session_envD(2) [OF assms])
  then show "auth_wf w \<Longrightarrow> auth_wf (snd (register e uc cr cfg dto ctx w))"
    by (auto simp: register_def rejectDuplicateEmail_def Let_def split: sum.splits prod.splits)
      (metis snd_conv)+
qed

lemma login_guarantee:
  assumes "session_env e"
  shows "sessions_evolve w (snd (login e uc cr cfg decoy dto ctx w))"
    and "auth_wf w \<Longrightarrow> auth_wf (snd (login e uc cr cfg decoy dto ctx w))"
proof -
  have "sessions_evolve w (snd (issueRefreshToken e cr cfg now i ctx (others e 0 w)))" for now i
    using sessions_evolve_trans [OF session_envD(1) [OF assms] issueRefreshToken_evolves] .
  then show "sessions_evolve w (snd (login e uc cr cfg decoy dto ctx w))"
    by (auto simp: login_def Let_def assertAccountActive_def split: sum.splits prod.splits option.splits)
      (metis snd_conv)+
  have "auth_wf w \<Longrightarrow> auth_wf (snd (issueRefreshToken e cr cfg now i ctx (others e 0 w)))" for now i
    by (intro issueRefreshToken_wf session_envD(2) [OF assms])
  then show "auth_wf w \<Longrightarrow> auth_wf (snd (login e uc cr cfg decoy dto ctx w))"
    by (auto simp: login_def Let_def assertAccountActive_def split: sum.splits prod.splits option.splits)
      (metis snd_conv)+
qed

lemma logout_guarantee:
  assumes "session_env e"
  shows "sessions_evolve w (snd (logout e cr cfg raw i ctx w))"
    and "auth_wf w \<Longrightarrow> auth_wf (snd (logout e cr cfg raw i ctx w))"
  using sessions_evolve_trans [OF session_envD(1) [OF assms] revokeTokens_evolves]
    revokeTokens_wf [OF session_envD(2) [OF assms]]
  by (auto simp: logout_def Let_def case_prod_unfold split: sum.splits option.splits)

lemma refresh_guarantee:
  assumes "session_env e"
  shows "sessions_evolve w (snd (refresh e cr cfg raw ctx w))"
    and "auth_wf w \<Longrightarrow> auth_wf (snd (refresh e cr cfg raw ctx w))"
proof -
  have rev: "sessions_evolve w (snd (revokeTokens p now (others e 0 w)))" for p now
    using sessions_evolve_trans [OF session_envD(1) [OF assms] revokeTokens_evolves] .
  have rot: "sessions_evolve w (snd (rotateTx e cr cfg t ctx (others e 0 w)))" for t
    using sessions_evolve_trans [OF session_envD(1) [OF assms] rotateTx_evolves] .
  have reu: "sessions_evolve w (snd (handleReuse t now ctx (others e 0 w)))" for t now
    using sessions_evolve_trans [OF session_envD(1) [OF assms] handleReuse_evolves] .
  have late: "sessions_evolve w (snd (handleReuse t now ctx (others e 1 v)))"
    if "sessions_evolve w v" for t now v
    using that sessions_evolve_trans [OF session_envD(1) [OF assms] handleReuse_evolves]
    by (rule sessions_evolve_trans)
  show "sessions_evolve w (snd (refresh e cr cfg raw ctx w))"
    using rev rot reu late [OF rot]
    by (auto simp: refresh_def Let_def case_prod_unfold split: sum.splits option.splits)
  assume wf: "auth_wf w"
  then have wo: "auth_wf (others e 0 w)" by (rule session_envD(2) [OF assms])
  show "auth_wf (snd (refresh e cr cfg raw ctx w))"
    using wf revokeTokens_wf [OF wo] rotateTx_wf [OF wo] handleReuse_wf [OF wo]
      handleReuse_wf [OF session_envD(2) [OF assms rotateTx_wf [OF wo]]]
    by (auto simp: refresh_def Let_def case_prod_unfold split: sum.splits option.splits)
qed

text \<open>The four ways a refresh goes on once its token has been found.\<close>

lemma refresh_found:
  assumes "findRefreshToken cr cfg raw w = Inr (Some (t, u))"
  shows "rt_revokedAt t \<noteq> None \<Longrightarrow>
      refresh e cr cfg raw ctx w
        = (Inl (fst (handleReuse t (clock e 3) ctx (others e 0 w))), snd (handleReuse t (clock e 3) ctx (others e 0 w)))"
    and "rt_revokedAt t = None \<Longrightarrow> rt_expiresAt t \<le> clock e 0 \<or> u_status u \<noteq> ACTIVE \<Longrightarrow>
      \<exists>f. fst (refresh e cr cfg raw ctx w) = Inl f"
    and "rt_revokedAt t = None \<Longrightarrow> clock e 0 < rt_expiresAt t \<Longrightarrow> u_status u = ACTIVE \<Longrightarrow>
      rotateTx e cr cfg t ctx (others e 0 w) = (Inr None, w1) \<Longrightarrow>
      refresh e cr cfg raw ctx w
        = (Inl (fst (handleReuse t (clock e 3) ctx (others e 1 w1))), snd (handleReuse t (clock e 3) ctx (others e 1 w1)))"
  using assms by (auto simp: refresh_def Let_def case_prod_unfold)

lemma refresh_InrD:
  assumes "refresh e cr cfg raw ctx w = (Inr pair, w')"
  obtains t u token row w1 where "findRefreshToken cr cfg raw w = Inr (Some (t, u))"
    and "rt_revokedAt t = None" and "clock e 0 < rt_expiresAt t" and "u_status u = ACTIVE"
    and "rotateTx e cr cfg t ctx (others e 0 w) = (Inr (Some (token, row)), w1)"
    and "pair = buildTokenPair cr cfg (rt_userId t) token" and "refreshTokens w' = refreshTokens w1"
proof -
  from assms obtain t u where f: "findRefreshToken cr cfg raw w = Inr (Some (t, u))"
    by (auto simp: refresh_def split: sum.splits option.splits prod.splits)
  moreover from assms f have live: "rt_revokedAt t = None" "clock e 0 < rt_expiresAt t" "u_status u = ACTIVE"
    by (auto simp: refresh_def case_prod_unfold Let_def split: if_splits)
  moreover from assms f live obtain token row w1 where
    "rotateTx e cr cfg t ctx (others e 0 w) = (Inr (Some (token, row)), w1)"
    "pair = buildTokenPair cr cfg (rt_userId t) token" "refreshTokens w' = refreshTokens w1"
    by (cases "rotateTx e cr cfg t ctx (others e 0 w)")
      (auto simp: refresh_def Let_def split: sum.splits option.splits prod.splits)
  ultimately show ?thesis using that by blast
qed

lemma handleReuse_revokes:
  assumes "r \<in> set (refreshTokens (snd (handleReuse t now ctx w)))" and "rt_userId r = rt_userId t"
  shows "rt_revokedAt r \<noteq> None"
  using assms by (auto simp: handleReuse_def case_prod_unfold Let_def revokeTokens_rows split: if_splits)

lemma handleReuse_fst:
  "fst (handleReuse t now ctx w)
     = appException 401 ''AUTH_REFRESH_TOKEN_REUSED'' ''Refresh token is no longer valid''"
  by (simp add: handleReuse_def case_prod_unfold Let_def)

text \<open>A session with the same hash or the same id in a well-formed state is the same session.\<close>

lemma auth_wf_same:
  "auth_wf w \<Longrightarrow> r \<in> set (refreshTokens w) \<Longrightarrow> s \<in> set (refreshTokens w) \<Longrightarrow>
     rt_tokenHash r = rt_tokenHash s \<or> rt_id r = rt_id s \<Longrightarrow> r = s"
  by (auto simp: auth_wf_def distinct_map dest: inj_onD)

lemma refresh_consumed:
  assumes "refresh e cr cfg raw ctx w = (Inr pair, w')" and "session_env e" and "auth_wf w"
  shows "\<exists>r\<in>set (refreshTokens w'). rt_tokenHash r = hashRefreshToken cr raw (refreshSecret cfg)
           \<and> rt_revokedAt r \<noteq> None"
  using assms(1)
proof (rule refresh_InrD)
  fix t u token row w1
  let ?w = "others e 0 w"
  assume f: "findRefreshToken cr cfg raw w = Inr (Some (t, u))"
    and rot: "rotateTx e cr cfg t ctx ?w = (Inr (Some (token, row)), w1)"
    and w': "refreshTokens w' = refreshTokens w1"
  from findRefreshToken_Some [OF f] sessions_evolve_row [OF session_envD(1) [OF assms(2)]]
  obtain s where s: "s \<in> set (refreshTokens ?w)" "token_le t s" by metis
  let ?g = "\<lambda>r. if rt_id r = rt_id t \<and> rt_revokedAt r = None then r\<lparr>rt_revokedAt := Some (clock e 1)\<rparr> else r"
  have mem: "?g s \<in> set (refreshTokens w')"
    using s(1) unfolding w' rotateTx_Some(6) [OF rot] revokeTokens_rows by auto
  have "rt_revokedAt (?g s) \<noteq> None" "rt_tokenHash (?g s) = hashRefreshToken cr raw (refreshSecret cfg)"
    using token_leD [OF s(2)] findRefreshToken_Some [OF f] by auto
  then show ?thesis by (intro bexI [OF _ mem] conjI)
qed

section \<open>A concrete service\<close>

text \<open>A run without interference, with fixed draws, and an instance of the cryptographic functions,
  for the concrete inputs of the witnesses.\<close>

definition soloRun :: "time \<Rightarrow> jsstring \<Rightarrow> 8 word \<Rightarrow> run" where
  "soloRun now tag seed = \<lparr>clock = (\<lambda>_. now), freshId = (\<lambda>i. tag @ [of_nat i]),
     randomBytes = (\<lambda>_ n. replicate n seed), others = (\<lambda>_ w. w), tempDirError = None\<rparr>"

definition plainCrypto :: crypto where
  "plainCrypto = \<lparr>pw = \<lparr>argon2_hash = (\<lambda>_ p. p), argon2_verify = (\<lambda>h p. Inr (h = p))\<rparr>,
     hmac_sha256_hex = (\<lambda>k t. k @ t), jwt_sign = (\<lambda>k i. i)\<rparr>"

definition demoConfig :: AuthConfig where
  "demoConfig = \<lparr>accessSecret = [1], refreshSecret = [2], accessTtlSeconds = 900, refreshTtlSeconds = 86400\<rparr>"

definition demoContext :: SessionContext where
  "demoContext = \<lparr>sc_requestId = None, sc_ipAddress = None, sc_userAgent = None, sc_deviceName = None\<rparr>"

definition demoUser :: User where
  "demoUser = \<lparr>u_id = [7], u_email = js ''a@b.c'', u_passwordHash = js ''secret'', u_name = None,
     u_avatarUrl = None, u_status = ACTIVE, u_emailVerified = True, u_createdAt = 0, u_updatedAt = 0\<rparr>"

definition demoToken :: jsstring where
  "demoToken = replicate 64 65"

definition demoSession :: RefreshToken where
  "demoSession = \<lparr>rt_id = [8], rt_userId = [7], rt_tokenHash = 2 # demoToken, rt_expiresAt = 5000,
     rt_revokedAt = None, rt_deviceName = None, rt_userAgent = None, rt_ipAddress = None, rt_createdAt = 0\<rparr>"

definition demoWorld :: World where
  "demoWorld = emptyWorld\<lparr>users := [demoUser], refreshTokens := [demoSession]\<rparr>"

lemmas demo_defs = soloRun_def plainCrypto_def demoConfig_def demoContext_def demoUser_def demoToken_def
  demoSession_def demoWorld_def emptyWorld_def

lemma soloRun_session_env [simp]: "session_env (soloRun now tag seed)"
  by (simp add: soloRun_def session_env_def)

lemma demoWorld_wf [simp]: "auth_wf demoWorld"
  by (simp add: auth_wf_def users_wf_def demo_defs)

lemma demoWorld_refresh:
  "fst (refresh (soloRun 1000 [9] 1) plainCrypto demoConfig demoToken demoContext demoWorld)
     = Inr \<lparr>accessToken = [7], refreshToken = concat (replicate 16 (js ''AQEB'')), expiresIn = 900, tokenType = ''Bearer''\<rparr>"
  by code_simp

lemma demoWorld_refresh_pair:
  obtains w' where "refresh (soloRun 1000 [9] 1) plainCrypto demoConfig demoToken demoContext demoWorld
     = (Inr \<lparr>accessToken = [7], refreshToken = concat (replicate 16 (js ''AQEB'')), expiresIn = 900, tokenType = ''Bearer''\<rparr>, w')"
  using demoWorld_refresh by (metis prod.collapse)

definition demoSpent :: RefreshToken where
  "demoSpent = demoSession\<lparr>rt_revokedAt := Some 10\<rparr>"

definition spentWorld :: World where
  "spentWorld = demoWorld\<lparr>refreshTokens := [demoSpent]\<rparr>"

lemma demoToken_ok [simp]: "looksLikeRefreshToken demoToken"
  by code_simp

lemma demoSession_hash:
  "demoSession \<in> set (refreshTokens demoWorld)" "rt_revokedAt demoSession = None" "rt_expiresAt demoSession = 5000"
  "rt_tokenHash demoSession = hashRefreshToken plainCrypto demoToken (refreshSecret demoConfig)"
  "clock (soloRun now tag seed) i = now"
  by (simp_all add: demo_defs hashRefreshToken_def)

lemma spentWorld_facts:
  "auth_wf spentWorld" "looksLikeRefreshToken demoToken" "demoSpent \<in> set (refreshTokens spentWorld)"
  "rt_tokenHash demoSpent = hashRefreshToken plainCrypto demoToken (refreshSecret demoConfig)"
  "rt_revokedAt demoSpent \<noteq> None" "rt_userId demoSpent = [7]"
  by (simp_all add: spentWorld_def demoSpent_def demo_defs auth_wf_def users_wf_def hashRefreshToken_def
      demoToken_ok [unfolded demoToken_def])

section \<open>Properties\<close>

text \<open>C14. A refresh that returns a token pair was presented with the token of a stored session that
  was live, unexpired and owned by an active account; afterwards that session is revoked and the
  store holds a new live session of the same account under the hash of the returned token, with a
  full new lifetime and the device name of the request or else of its predecessor. This holds whatever other requests do to the sessions between the read and the transaction.\<close>

theorem refresh_rotates:
  assumes "refresh e cr cfg raw ctx w = (Inr pair, w')" and "session_env e" and "auth_wf w"
  shows "\<exists>t\<in>set (refreshTokens w). \<exists>u\<in>set (users w).
      rt_tokenHash t = hashRefreshToken cr raw (refreshSecret cfg) \<and> rt_revokedAt t = None
      \<and> clock e 0 < rt_expiresAt t \<and> u_id u = rt_userId t \<and> u_status u = ACTIVE
      \<and> accessToken pair = jwt_sign cr (accessSecret cfg) (u_id u)
      \<and> (\<exists>r\<in>set (refreshTokens w'). rt_tokenHash r = rt_tokenHash t \<and> rt_revokedAt r \<noteq> None)
      \<and> (\<exists>n\<in>set (refreshTokens w'). rt_tokenHash n = hashRefreshToken cr (refreshToken pair) (refreshSecret cfg)
           \<and> rt_userId n = rt_userId t \<and> rt_revokedAt n = None
           \<and> rt_expiresAt n = clock e 2 + refreshTtlSeconds cfg * 1000
           \<and> rt_deviceName n = (case sc_deviceName ctx of None \<Rightarrow> rt_deviceName t | Some d \<Rightarrow> Some d))"
  using assms(1)
proof (rule refresh_InrD)
  fix t u token row w1
  assume f: "findRefreshToken cr cfg raw w = Inr (Some (t, u))"
    and live: "rt_revokedAt t = None" "clock e 0 < rt_expiresAt t" "u_status u = ACTIVE"
    and rot: "rotateTx e cr cfg t ctx (others e 0 w) = (Inr (Some (token, row)), w1)"
    and p: "pair = buildTokenPair cr cfg (rt_userId t) token" and w': "refreshTokens w' = refreshTokens w1"
  have "row \<in> set (refreshTokens w')" using rotateTx_Some(6) [OF rot] w' by simp
  with refresh_consumed [OF assms] findRefreshToken_Some [OF f] live p rotateTx_Some(3-5,7,8) [OF rot]
  show ?thesis by (intro bexI [of _ t] bexI [of _ u]) (auto simp: buildTokenPair_def)
qed

theorem refresh_rotates_witness:
  "\<exists>n\<in>set (refreshTokens (snd (refresh (soloRun 1000 [9] 1) plainCrypto demoConfig demoToken demoContext demoWorld))).
     rt_userId n = [7] \<and> rt_revokedAt n = None"
proof (rule demoWorld_refresh_pair)
  fix w'
  assume "refresh (soloRun 1000 [9] 1) plainCrypto demoConfig demoToken demoContext demoWorld
     = (Inr \<lparr>accessToken = [7], refreshToken = concat (replicate 16 (js ''AQEB'')), expiresIn = 900, tokenType = ''Bearer''\<rparr>, w')"
  note r = this
  obtain t n where "t \<in> set (refreshTokens demoWorld)" "n \<in> set (refreshTokens w')"
    "rt_userId n = rt_userId t" "rt_revokedAt n = None"
    using refresh_rotates [OF r soloRun_session_env demoWorld_wf] by blast
  moreover from this(1) have "rt_userId t = [7]" by (simp add: demoWorld_def demoSession_def)
  ultimately show ?thesis unfolding r snd_conv by metis
qed

text \<open>C13. A refresh token is good for one rotation. Once a refresh with it has succeeded, no other
  refresh with it succeeds: not a later one, and not one that read the session while it was still
  live and whose transaction starts after the first has committed.\<close>

theorem refresh_single_use:
  assumes "refresh e1 cr cfg raw ctx1 w1 = (Inr pair, w1')" and "session_env e1" and "auth_wf w1"
    and "session_env e2" and "auth_wf w2" and "sessions_evolve w1' (others e2 0 w2)"
  shows "\<exists>f. fst (refresh e2 cr cfg raw ctx2 w2) = Inl f"
proof (rule ccontr)
  let ?w = "others e2 0 w2"
  assume "\<not> ?thesis"
  then obtain pair2 w2' where "refresh e2 cr cfg raw ctx2 w2 = (Inr pair2, w2')"
    by (metis prod.collapse sum.exhaust)
  then show False
  proof (rule refresh_InrD)
    fix t u token row w3
    assume f: "findRefreshToken cr cfg raw w2 = Inr (Some (t, u))"
      and rot: "rotateTx e2 cr cfg t ctx2 ?w = (Inr (Some (token, row)), w3)"
    from refresh_consumed [OF assms(1-3)] sessions_evolve_row [OF assms(6)] token_leD
    obtain s where s: "s \<in> set (refreshTokens ?w)" "rt_revokedAt s \<noteq> None"
      "rt_tokenHash s = hashRefreshToken cr raw (refreshSecret cfg)" by metis
    from findRefreshToken_Some [OF f] sessions_evolve_row [OF session_envD(1) [OF assms(4)]] token_leD
    obtain t' where t': "t' \<in> set (refreshTokens ?w)" "rt_id t' = rt_id t"
      "rt_tokenHash t' = hashRefreshToken cr raw (refreshSecret cfg)" by metis
    from rotateTx_Some(1) [OF rot] obtain r where
      r: "r \<in> set (refreshTokens ?w)" "rt_id r = rt_id t" "rt_revokedAt r = None" by blast
    have wf: "auth_wf ?w" by (rule session_envD(2) [OF assms(4,5)])
    have "r = t'" "s = t'" using auth_wf_same [OF wf] r s t' by auto
    with r s show False by simp
  qed
qed

theorem refresh_single_use_witness:
  "\<exists>f. fst (refresh (soloRun 2000 [10] 2) plainCrypto demoConfig demoToken demoContext
        (snd (refresh (soloRun 1000 [9] 1) plainCrypto demoConfig demoToken demoContext demoWorld))) = Inl f"
proof (rule demoWorld_refresh_pair)
  fix w'
  assume r: "refresh (soloRun 1000 [9] 1) plainCrypto demoConfig demoToken demoContext demoWorld
     = (Inr \<lparr>accessToken = [7], refreshToken = concat (replicate 16 (js ''AQEB'')), expiresIn = 900, tokenType = ''Bearer''\<rparr>, w')"
  have "auth_wf w'" using refresh_guarantee(2) [OF soloRun_session_env demoWorld_wf] r by (metis snd_conv)
  from refresh_single_use [OF r soloRun_session_env demoWorld_wf soloRun_session_env this,
      of 2000 "[10]" 2 demoContext] r
  show ?thesis by (simp add: soloRun_def)
qed

text \<open>C15. Replay detection: presenting the token of a session that is already revoked fails with
  401 \<open>AUTH_REFRESH_TOKEN_REUSED\<close> and leaves every session of the account revoked.\<close>

theorem refresh_replay_revokes_account:
  assumes "auth_wf w" and "looksLikeRefreshToken raw" and "t \<in> set (refreshTokens w)"
    and "rt_tokenHash t = hashRefreshToken cr raw (refreshSecret cfg)" and "rt_revokedAt t \<noteq> None"
  shows "fst (refresh e cr cfg raw ctx w)
           = Inl (appException 401 ''AUTH_REFRESH_TOKEN_REUSED'' ''Refresh token is no longer valid'')
         \<and> (\<forall>r\<in>set (refreshTokens (snd (refresh e cr cfg raw ctx w))).
              rt_userId r = rt_userId t \<longrightarrow> rt_revokedAt r \<noteq> None)"
proof -
  obtain u where "findRefreshToken cr cfg raw w = Inr (Some (t, u))"
    using findRefreshToken_stored [OF assms(1-4)] by blast
  from refresh_found(1) [OF this assms(5)] show ?thesis
    by (simp add: handleReuse_fst handleReuse_revokes)
qed

theorem refresh_replay_revokes_account_witness:
  "fst (refresh (soloRun 1000 [9] 1) plainCrypto demoConfig demoToken demoContext spentWorld)
     = Inl (appException 401 ''AUTH_REFRESH_TOKEN_REUSED'' ''Refresh token is no longer valid'')"
  using refresh_replay_revokes_account [OF spentWorld_facts(1-5), of "soloRun 1000 [9] 1" demoContext]
  by (rule conjunct1)

text \<open>Every handler keeps the accounts and sessions well-formed (unique ids, email addresses and
  token hashes, no session without an account) and lets sessions change in one way only, from live
  to revoked, provided the requests it overlaps with do. No session is deleted, reassigned or
  brought back to life.\<close>

theorem handlers_keep_sessions:
  assumes "session_env e" and "auth_wf w"
    and "w' \<in> {snd (register e uc cr cfg rdto ctx w), snd (login e uc cr cfg decoy ldto ctx w),
               snd (refresh e cr cfg raw ctx w), snd (logout e cr cfg raw i ctx w)}"
  shows "auth_wf w' \<and> (\<exists>old new. refreshTokens w' = old @ new \<and> list_all2 token_le (refreshTokens w) old)"
  using assms register_guarantee login_guarantee refresh_guarantee logout_guarantee
  by (auto simp: sessions_evolve_def evolves_def)

theorem handlers_keep_sessions_witness:
  "auth_wf (snd (refresh (soloRun 1000 [9] 1) plainCrypto demoConfig demoToken demoContext demoWorld))"
  using handlers_keep_sessions [of "soloRun 1000 [9] 1" demoWorld
      "snd (refresh (soloRun 1000 [9] 1) plainCrypto demoConfig demoToken demoContext demoWorld)"
      ascii_unicode plainCrypto demoConfig "\<lparr>reg_email = [], reg_password = [], reg_name = None\<rparr>" demoContext
      "[]" "\<lparr>log_email = [], log_password = []\<rparr>" demoToken "[]"]
  by simp

text \<open>C22. Registration: the account is stored once. On success the normalised address was free, the
  new account is active, holds the hash and not the password, and has one live session for the
  returned token; on failure the tables are as the other requests left them, and an address that
  is taken, whether seen at once or only by the unique index, answers 409.\<close>

theorem register_outcome:
  assumes "register e uc cr cfg dto ctx w = (res, w')"
  defines "w0 \<equiv> (if findByEmail uc (reg_email dto) w \<noteq> None then w else others e 0 w)"
  shows "case res of
      Inr (pair, pub) \<Rightarrow>
        (\<exists>u row. users w' = users w0 @ [u] \<and> refreshTokens w' = refreshTokens w0 @ [row] \<and> pub = toPublicUser u
           \<and> u_email u = normalizeEmail uc (reg_email dto) \<and> u_status u = ACTIVE
           \<and> u_passwordHash u = hashPassword (pw cr) (randomBytes e 1 16) (reg_password dto)
           \<and> (\<forall>v\<in>set (users w0). u_email v \<noteq> u_email u)
           \<and> rt_userId row = u_id u \<and> rt_revokedAt row = None
           \<and> rt_tokenHash row = hashRefreshToken cr (refreshToken pair) (refreshSecret cfg))
    | Inl f \<Rightarrow> users w' = users w0 \<and> refreshTokens w' = refreshTokens w0
        \<and> ((\<exists>v\<in>set (users w0). u_email v = normalizeEmail uc (reg_email dto)) \<longrightarrow>
             f = appException 409 ''AUTH_EMAIL_ALREADY_EXISTS'' ''An account with this email already exists'')"
proof (cases "findByEmail uc (reg_email dto) w")
  case (Some v)
  with assms show ?thesis by (auto simp: register_def rejectDuplicateEmail_def)
next
  case None
  let ?ph = "hashPassword (pw cr) (randomBytes e 1 16) (reg_password dto)"
  let ?cu = "createUser uc (freshId e 0) (clock e 0) (reg_email dto) ?ph (reg_name dto) w0"
  have w0: "w0 = others e 0 w" using None by (simp add: w0_def)
  obtain r1 w1 where cu: "?cu = (r1, w1)" by fastforce
  show ?thesis
  proof (cases r1)
    case (Inl f)
    with assms None w0 cu createUser_Inl [OF cu [unfolded Inl]] show ?thesis
      by (auto simp: register_def registerTx_def rejectDuplicateEmail_def P2002_def isUniqueConstraintViolation_def
          split: if_splits)
  next
    case (Inr u)
    obtain r2 w2 where iss: "issueRefreshToken e cr cfg (clock e 1) (u_id u) ctx w1 = (r2, w2)" by fastforce
    note cu' = createUser_Inr [OF cu [unfolded Inr]]
    show ?thesis
    proof (cases r2)
      case (Inl f)
      with assms None w0 cu Inr iss cu' show ?thesis
        by (auto simp: register_def registerTx_def rejectDuplicateEmail_def split: if_splits)
    next
      case (Inr tr)
      obtain token row where tr: "tr = (token, row)" by fastforce
      with issueRefreshToken_Inr [OF iss [unfolded Inr tr]] assms None w0 cu \<open>r1 = Inr u\<close> iss cu' Inr
      show ?thesis
        by (auto simp: register_def registerTx_def buildAuthResponse_def buildTokenPair_def)
    qed
  qed
qed

theorem register_outcome_witness:
  "users (snd (register (soloRun 1000 [9] 1) ascii_unicode plainCrypto demoConfig
      \<lparr>reg_email = js ''A@B.C '', reg_password = [], reg_name = None\<rparr> demoContext demoWorld)) = users demoWorld"
proof -
  let ?r = "register (soloRun 1000 [9] 1) ascii_unicode plainCrypto demoConfig
      \<lparr>reg_email = js ''A@B.C '', reg_password = [], reg_name = None\<rparr> demoContext demoWorld"
  have "fst ?r = Inl (appException 409 ''AUTH_EMAIL_ALREADY_EXISTS'' ''An account with this email already exists'')"
    by code_simp
  moreover have "findByEmail ascii_unicode (js ''A@B.C '') demoWorld \<noteq> None"
    by code_simp
  ultimately show ?thesis
    using register_outcome [OF prod.collapse [symmetric], of "soloRun 1000 [9] 1" ascii_unicode plainCrypto
      demoConfig "\<lparr>reg_email = js ''A@B.C '', reg_password = [], reg_name = None\<rparr>" demoContext demoWorld]
    by simp
qed

text \<open>C23. Login does not tell an unknown address from a wrong password: both answer the same
  401 \<open>AUTH_INVALID_CREDENTIALS\<close> and write nothing to the tables, and the password is checked
  (against the decoy hash) in both. A suspended or deleted account with the right password is told
  so, and nothing is written to the tables. It succeeds exactly for an active account whose stored
  hash verifies, unless the database refuses the row of the session, and then adds exactly one live
  session, for the returned token.\<close>

theorem login_outcome:
  assumes "login e uc cr cfg decoy dto ctx w = (res, w')"
  shows "(findByEmail uc (log_email dto) w = None \<or>
            (\<exists>u. findByEmail uc (log_email dto) w = Some u
               \<and> \<not> verifyPassword (pw cr) (log_password dto) (u_passwordHash u))
          \<longrightarrow> res = Inl (appException 401 ''AUTH_INVALID_CREDENTIALS'' ''Invalid email or password'')
            \<and> users w' = users w \<and> refreshTokens w' = refreshTokens w)
       \<and> (\<forall>pair pub. res = Inr (pair, pub) \<longrightarrow>
            (\<exists>u\<in>set (users w). \<exists>row. u_email u = normalizeEmail uc (log_email dto) \<and> u_status u = ACTIVE
               \<and> verifyPassword (pw cr) (log_password dto) (u_passwordHash u) \<and> pub = toPublicUser u
               \<and> refreshTokens w' = refreshTokens (others e 0 w) @ [row] \<and> rt_userId row = u_id u
               \<and> rt_revokedAt row = None
               \<and> rt_tokenHash row = hashRefreshToken cr (refreshToken pair) (refreshSecret cfg)))
       \<and> (\<forall>u. findByEmail uc (log_email dto) w = Some u
              \<and> verifyPassword (pw cr) (log_password dto) (u_passwordHash u) \<longrightarrow>
            (if u_status u \<noteq> ACTIVE
             then res = Inl (accountStatusException (u_status u)) \<and> users w' = users w \<and> refreshTokens w' = refreshTokens w
             else (\<exists>pair. res = Inr (pair, toPublicUser u)) \<or> res \<in> {Inl P2002, Inl (Internal ''P2003'')}))"
proof (intro conjI impI allI)
  assume "findByEmail uc (log_email dto) w = None \<or>
            (\<exists>u. findByEmail uc (log_email dto) w = Some u
               \<and> \<not> verifyPassword (pw cr) (log_password dto) (u_passwordHash u))"
  then show "res = Inl (appException 401 ''AUTH_INVALID_CREDENTIALS'' ''Invalid email or password'')"
    and "users w' = users w" and "refreshTokens w' = refreshTokens w"
    using assms by (auto simp: login_def Let_def)
next
  fix pair pub
  assume res: "res = Inr (pair, pub)"
  with assms obtain u where u: "findByEmail uc (log_email dto) w = Some u"
    "verifyPassword (pw cr) (log_password dto) (u_passwordHash u)"
    by (cases "findByEmail uc (log_email dto) w") (auto simp: login_def Let_def split: if_splits)
  with assms res have act: "u_status u = ACTIVE"
    by (auto simp: login_def Let_def assertAccountActive_def split: if_splits)
  with assms res u obtain token row w2 where
    iss: "issueRefreshToken e cr cfg (clock e 0) (u_id u) ctx (others e 0 w) = (Inr (token, row), w2)"
    and "pair = buildTokenPair cr cfg (u_id u) token" "pub = toPublicUser u" "refreshTokens w' = refreshTokens w2"
    by (auto simp: login_def Let_def assertAccountActive_def buildAuthResponse_def
        split: if_splits sum.splits prod.splits)
  with issueRefreshToken_Inr [OF iss] u act show "\<exists>u\<in>set (users w). \<exists>row.
      u_email u = normalizeEmail uc (log_email dto) \<and> u_status u = ACTIVE
      \<and> verifyPassword (pw cr) (log_password dto) (u_passwordHash u) \<and> pub = toPublicUser u
      \<and> refreshTokens w' = refreshTokens (others e 0 w) @ [row] \<and> rt_userId row = u_id u
      \<and> rt_revokedAt row = None
      \<and> rt_tokenHash row = hashRefreshToken cr (refreshToken pair) (refreshSecret cfg)"
    by (intro bexI [of _ u] exI [of _ row])
      (auto simp: findByEmail_def buildTokenPair_def dest: findFirst_SomeD)
next
  fix u
  assume u: "findByEmail uc (log_email dto) w = Some u
      \<and> verifyPassword (pw cr) (log_password dto) (u_passwordHash u)"
  have refused: "issueRefreshToken e cr cfg now i c v = (Inl f, v') \<Longrightarrow> f = P2002 \<or> f = Internal ''P2003''" for now i c v f v'
    by (auto simp: issueRefreshToken_def Let_def split: if_splits)
  show "if u_status u \<noteq> ACTIVE
      then res = Inl (accountStatusException (u_status u)) \<and> users w' = users w \<and> refreshTokens w' = refreshTokens w
      else (\<exists>pair. res = Inr (pair, toPublicUser u)) \<or> res \<in> {Inl P2002, Inl (Internal ''P2003'')}"
    using assms u by (cases "issueRefreshToken e cr cfg (clock e 0) (u_id u) ctx (others e 0 w)")
      (auto simp: login_def Let_def assertAccountActive_def buildAuthResponse_def split: sum.splits prod.splits dest: refused)
qed

theorem login_outcome_witness:
  "refreshTokens (snd (login (soloRun 1000 [9] 1) ascii_unicode plainCrypto demoConfig [1]
      \<lparr>log_email = js ''x@y.z'', log_password = [1]\<rparr> demoContext demoWorld)) = refreshTokens demoWorld"
proof -
  have "findByEmail ascii_unicode (js ''x@y.z'') demoWorld = None" by code_simp
  then show ?thesis
    using login_outcome [OF prod.collapse [symmetric], where e = "soloRun 1000 [9] 1" and uc = ascii_unicode
        and cr = plainCrypto and cfg = demoConfig and decoy = "[1]"
        and dto = "\<lparr>log_email = js ''x@y.z'', log_password = [1]\<rparr>" and ctx = demoContext and w = demoWorld]
    by simp
qed

text \<open>Logout always succeeds on a well-formed state, revokes the presented session when it belongs
  to the caller, and changes no session of anybody else. Repeating it changes nothing.\<close>

theorem logout_outcome:
  assumes "auth_wf w" and "session_env e"
    and "logout e cr cfg raw i ctx w = (res, w')"
  defines "w0 \<equiv> (if \<exists>t u. findRefreshToken cr cfg raw w = Inr (Some (t, u)) \<and> rt_userId t = i
                  then others e 0 w else w)"
  shows "res = Inr ()
       \<and> filter (\<lambda>r. rt_userId r \<noteq> i) (refreshTokens w') = filter (\<lambda>r. rt_userId r \<noteq> i) (refreshTokens w0)
       \<and> (\<forall>r\<in>set (refreshTokens w'). looksLikeRefreshToken raw \<and> rt_userId r = i
            \<and> (\<exists>t\<in>set (refreshTokens w). rt_id t = rt_id r \<and> rt_tokenHash t = hashRefreshToken cr raw (refreshSecret cfg))
            \<longrightarrow> rt_revokedAt r \<noteq> None)"
proof -
  have fk: "findUserById (rt_userId t) w \<noteq> None" if "t \<in> set (refreshTokens w)" for t
    using that assms(1) by (auto simp: auth_wf_def findUserById_def tbl.find_none)
  have no_err: "findRefreshToken cr cfg raw w \<noteq> Inl f" for f
    by (auto simp: findRefreshToken_def Let_def fk split: option.splits dest!: fk findFirst_SomeD)
  show ?thesis
  proof (cases "\<exists>t u. findRefreshToken cr cfg raw w = Inr (Some (t, u)) \<and> rt_userId t = i")
    case False
    then have "res = Inr ()" "refreshTokens w' = refreshTokens w" "w0 = w"
      using no_err assms(3) by (auto simp: logout_def w0_def split: sum.splits option.splits)
    moreover have "\<not> (looksLikeRefreshToken raw \<and> rt_userId r = i \<and> (\<exists>t\<in>set (refreshTokens w).
        rt_id t = rt_id r \<and> rt_tokenHash t = hashRefreshToken cr raw (refreshSecret cfg)))"
      if "r \<in> set (refreshTokens w)" for r
      using False findRefreshToken_stored [OF assms(1)] auth_wf_same [OF assms(1)] that by metis
    ultimately show ?thesis by auto
  next
    case True
    then obtain t u where f: "findRefreshToken cr cfg raw w = Inr (Some (t, u))" "rt_userId t = i" by blast
    have wf0: "auth_wf w0" using assms(1,2) by (simp add: w0_def session_envD)
    have ev: "sessions_evolve w w0" using assms(2) by (simp add: w0_def session_envD)
    obtain t' where t': "t' \<in> set (refreshTokens w0)" "rt_id t' = rt_id t" "rt_userId t' = i"
      using findRefreshToken_Some [OF f(1)] sessions_evolve_row [OF ev] token_leD f(2) by metis
    have w': "refreshTokens w' = refreshTokens (snd (revokeTokens (\<lambda>r. rt_id r = rt_id t) (clock e 0) w0))"
      and "res = Inr ()"
      using f assms(3) by (auto simp: logout_def w0_def case_prod_unfold Let_def)
    moreover have "filter (\<lambda>r. rt_userId r \<noteq> i) (refreshTokens w') = filter (\<lambda>r. rt_userId r \<noteq> i) (refreshTokens w0)"
      unfolding w' by (rule revokeTokens_foreign [OF wf0 t'])
    moreover have "rt_revokedAt r \<noteq> None" if "r \<in> set (refreshTokens w')" "rt_id r = rt_id t" for r
      using that unfolding w' by (intro revokeTokens_revoked [where p = "\<lambda>r. rt_id r = rt_id t"]) simp_all
    moreover have "x = t" if "x \<in> set (refreshTokens w)" "rt_tokenHash x = hashRefreshToken cr raw (refreshSecret cfg)" for x
      using that findRefreshToken_Some [OF f(1)] auth_wf_same [OF assms(1)] by metis
    ultimately show ?thesis by metis
  qed
qed

theorem logout_outcome_witness:
  "fst (logout (soloRun 1000 [9] 1) plainCrypto demoConfig demoToken [7] demoContext demoWorld) = Inr ()"
  by (rule logout_outcome [OF demoWorld_wf soloRun_session_env prod.collapse [symmetric], THEN conjunct1])

text \<open>A token the service generates has 64 characters of the base64url alphabet, so the format
  check that guards the lookup never turns one away.\<close>

theorem generated_token_accepted:
  assumes "random_ok e"
  shows "length (generateRefreshToken e i) = 64 \<and> looksLikeRefreshToken (generateRefreshToken e i)"
proof -
  have "length (generateRefreshToken e i) = 64"
    using assms by (simp add: generateRefreshToken_def length_base64url random_ok_def REFRESH_TOKEN_BYTES_def)
  then show ?thesis
    by (auto simp: looksLikeRefreshToken_def list_all_iff generateRefreshToken_def intro: base64url_class)
qed

theorem generated_token_accepted_witness:
  "length (generateRefreshToken (soloRun 0 [] 5) 0) = 64"
  using generated_token_accepted [of "soloRun 0 [] 5" 0] by (simp add: random_ok_def soloRun_def)

text \<open>An expired session is revoked the first time its token is presented (401
  \<open>AUTH_REFRESH_TOKEN_EXPIRED\<close>), so a client that simply retries is taken for a replay: the second
  request answers 401 \<open>AUTH_REFRESH_TOKEN_REUSED\<close> and revokes every session of the account.\<close>

theorem expired_retry_revokes_account:
  assumes "auth_wf w" and "looksLikeRefreshToken raw" and "t \<in> set (refreshTokens w)"
    and "rt_tokenHash t = hashRefreshToken cr raw (refreshSecret cfg)"
    and "rt_revokedAt t = None" and "rt_expiresAt t \<le> clock e1 0" and "session_env e1"
    and "refresh e1 cr cfg raw ctx1 w = (res1, w1)"
  shows "res1
           = Inl (appException 401 ''AUTH_REFRESH_TOKEN_EXPIRED'' ''Refresh token has expired'')
       \<and> fst (refresh e2 cr cfg raw ctx2 w1)
           = Inl (appException 401 ''AUTH_REFRESH_TOKEN_REUSED'' ''Refresh token is no longer valid'')
       \<and> (\<forall>r\<in>set (refreshTokens (snd (refresh e2 cr cfg raw ctx2 w1))).
            rt_userId r = rt_userId t \<longrightarrow> rt_revokedAt r \<noteq> None)"
proof -
  obtain u where f: "findRefreshToken cr cfg raw w = Inr (Some (t, u))"
    using findRefreshToken_stored [OF assms(1-4)] by blast
  have first: "res1
      = Inl (appException 401 ''AUTH_REFRESH_TOKEN_EXPIRED'' ''Refresh token has expired'')"
    and w1: "refreshTokens w1 = refreshTokens (snd (revokeTokens (\<lambda>r. rt_id r = rt_id t) (clock e1 0) (others e1 0 w)))"
    using f assms(5,6,8) by (auto simp: refresh_def)
  have wf1: "auth_wf w1" using refresh_guarantee(2) [OF assms(7,1)] assms(8) by (metis snd_conv)
  have "sessions_evolve w w1" using refresh_guarantee(1) [OF assms(7)] assms(8) by (metis snd_conv)
  from sessions_evolve_row [OF this assms(3)] obtain s where
    s: "s \<in> set (refreshTokens w1)" "token_le t s" by blast
  have "rt_revokedAt s \<noteq> None"
    using s(1) token_leD [OF s(2)] unfolding w1
    by (intro revokeTokens_revoked [where p = "\<lambda>r. rt_id r = rt_id t"]) auto
  moreover obtain u' where "findRefreshToken cr cfg raw w1 = Inr (Some (s, u'))"
    using findRefreshToken_stored [OF wf1 assms(2) s(1)] token_leD [OF s(2)] assms(4) by metis
  ultimately have "refresh e2 cr cfg raw ctx2 w1 = (Inl (fst (handleReuse s (clock e2 3) ctx2 (others e2 0 w1))),
      snd (handleReuse s (clock e2 3) ctx2 (others e2 0 w1)))"
    by (intro refresh_found(1))
  with first token_leD [OF s(2)] show ?thesis by (simp add: handleReuse_fst handleReuse_revokes)
qed

theorem expired_retry_revokes_account_witness:
  "fst (refresh (soloRun 6000 [9] 1) plainCrypto demoConfig demoToken demoContext demoWorld)
     = Inl (appException 401 ''AUTH_REFRESH_TOKEN_EXPIRED'' ''Refresh token has expired'')"
  using expired_retry_revokes_account [of demoWorld demoToken demoSession plainCrypto demoConfig
      "soloRun 6000 [9] 1", OF _ _ _ _ _ _ _ prod.collapse [symmetric]]
  by (simp add: demoSession_hash)

end
