(* ===== verification/File_Names.thy ===== *)
theory File_Names
  imports Users
begin

text \<open>
  Names that come from clients and keys that do not: \<open>documents/file-name.ts\<close> (sanitising a file
  name, the type an extension implies, the \<open>Content-Disposition\<close> header) and
  \<open>storage/storage-key.ts\<close> (the object keys). Everything is on UTF-16 code units, so that the
  length limit and the cuts are those of the code. \<open>encodeURIComponent\<close> is written out, with the
  error it throws on a lone surrogate.
\<close>

section \<open>Sanitising a file name\<close>

definition FILE_NAME_MAX_LENGTH :: nat where
  "FILE_NAME_MAX_LENGTH = 255"

definition CONTROL_CHARACTERS :: "jschar \<Rightarrow> bool" where
  "CONTROL_CHARACTERS c \<longleftrightarrow> c \<le> 0x1F \<or> (0x7F \<le> c \<and> c \<le> 0x9F)"

text \<open>The characters \<open><\<close>, \<open>>\<close>, \<open>:\<close>, the double quote, \<open>|\<close>, \<open>?\<close> and \<open>*\<close>.\<close>

definition RESERVED_CHARACTERS :: "jschar \<Rightarrow> bool" where
  "RESERVED_CHARACTERS c \<longleftrightarrow> c \<in> set [60, 62, 58, 34, 124, 63, 42]"

definition extensionOf :: "unicode \<Rightarrow> jsstring \<Rightarrow> jsstring option" where
  "extensionOf uc fileName =
     (case last_index_of 46 fileName of
        None \<Rightarrow> None
      | Some index \<Rightarrow>
          if index = 0 \<or> index = length fileName - 1 then None
          else Some (toLowerCase uc (drop (Suc index) fileName)))"

definition sanitizeFileName :: "unicode \<Rightarrow> jsstring \<Rightarrow> jsstring option" where
  "sanitizeFileName uc input =
     (let name0 = map (\<lambda>c. if c = 92 then 47 else c) (nfc uc input);
          name1 = (case last_index_of 47 name0 of None \<Rightarrow> name0 | Some i \<Rightarrow> drop (Suc i) name0);
          name = strip_end (\<lambda>c. c = 46 \<or> c = 32)
                   (trim (remove_class RESERVED_CHARACTERS (remove_class CONTROL_CHARACTERS name1)))
      in if name = [] \<or> name = [46] \<or> name = [46, 46] then None
         else if length name > FILE_NAME_MAX_LENGTH
         then (let ext = extensionOf uc name;
                   suffix = (if truthy ext \<and> length (the ext) \<le> 16 then 46 # the ext else [])
               in Some (take (FILE_NAME_MAX_LENGTH - length suffix) name @ suffix))
         else Some name)"

section \<open>Types\<close>

text \<open>
  The table of types is a plain object, so that a lookup of a key it does not have goes on to
  \<open>Object.prototype\<close>, whose members are functions or objects and not strings.
\<close>

datatype mime_value = MimeString jsstring | InheritedMember

definition objectPrototypeMembers :: "jsstring list" where
  "objectPrototypeMembers = map js [''constructor'', ''__proto__'', ''__defineGetter__'', ''__defineSetter__'',
     ''__lookupGetter__'', ''__lookupSetter__'', ''hasOwnProperty'', ''isPrototypeOf'',
     ''propertyIsEnumerable'', ''toLocaleString'', ''toString'', ''valueOf'']"

definition EXTENSION_MIME_TYPES :: "(jsstring \<times> jsstring) list" where
  "EXTENSION_MIME_TYPES =
     [(js ''pdf'', js ''application/pdf''), (js ''jpg'', js ''image/jpeg''), (js ''jpeg'', js ''image/jpeg''),
      (js ''jpe'', js ''image/jpeg''), (js ''png'', js ''image/png''), (js ''webp'', js ''image/webp'')]"

definition mimeTypeForExtension :: "jsstring option \<Rightarrow> mime_value option" where
  "mimeTypeForExtension extension =
     (if \<not> truthy extension then None
      else (case map_of EXTENSION_MIME_TYPES (the extension) of
              Some t \<Rightarrow> Some (MimeString t)
            | None \<Rightarrow>
                if the extension \<in> set objectPrototypeMembers then Some InheritedMember else None))"

definition normalizeMimeType :: "unicode \<Rightarrow> jsstring \<Rightarrow> jsstring" where
  "normalizeMimeType uc v = toLowerCase uc (trim (hd (split_on 59 v)))"

section \<open>The download header\<close>

text \<open>UTF-8 of a code point given by its code units; a lone surrogate has none.\<close>

definition utf8 :: "jsstring \<Rightarrow> nat list option" where
  "utf8 p =
     (case p of
        [c] \<Rightarrow>
          let n = unat c
          in if high_surrogate c \<or> low_surrogate c then None
             else if n < 0x80 then Some [n]
             else if n < 0x800 then Some [0xC0 + n div 64, 0x80 + n mod 64]
             else Some [0xE0 + n div 4096, 0x80 + n div 64 mod 64, 0x80 + n mod 64]
      | [h, l] \<Rightarrow>
          let n = 0x10000 + (unat h - 0xD800) * 0x400 + (unat l - 0xDC00)
          in Some [0xF0 + n div 262144, 0x80 + n div 4096 mod 64, 0x80 + n div 64 mod 64, 0x80 + n mod 64]
      | _ \<Rightarrow> None)"

definition hex_upper :: "nat \<Rightarrow> jschar" where
  "hex_upper n = (if n < 10 then of_nat (48 + n) else of_nat (55 + n))"

definition pct :: "nat \<Rightarrow> jsstring" where
  "pct n = [37, hex_upper (n div 16), hex_upper (n mod 16)]"

text \<open>The characters \<open>encodeURIComponent\<close> leaves alone: letters, digits and \<open>- _ . ! ~ * ' ( )\<close>.\<close>

definition uri_unreserved :: "jschar \<Rightarrow> bool" where
  "uri_unreserved c \<longleftrightarrow> is_upper c \<or> is_lower c \<or> is_digit c \<or> c \<in> set [45, 95, 46, 33, 126, 42, 39, 40, 41]"

fun encodePoints :: "jsstring list \<Rightarrow> jsstring option" where
  "encodePoints [] = Some []"
| "encodePoints (p # ps) =
     (case encodePoints ps of
        None \<Rightarrow> None
      | Some rest \<Rightarrow>
          if length p = 1 \<and> uri_unreserved (hd p) then Some (p @ rest)
          else (case utf8 p of None \<Rightarrow> None | Some bs \<Rightarrow> Some (concat (map pct bs) @ rest)))"

definition encodeURIComponent :: "jsstring \<Rightarrow> jsstring option" where
  "encodeURIComponent s = encodePoints (code_points s)"

text \<open>\<open>.replace(/['()*]/g, c => '%' + c.charCodeAt(0).toString(16).toUpperCase())\<close>\<close>

definition escapeRest :: "jsstring \<Rightarrow> jsstring" where
  "escapeRest s = concat (map (\<lambda>c. if c \<in> set [39, 40, 41, 42] then pct (unat c) else [c]) s)"

definition asciiFallback :: "jsstring \<Rightarrow> jsstring" where
  "asciiFallback fileName =
     map (\<lambda>c. if c = 34 \<or> c = 92 then 95 else c)
       (map (\<lambda>c. if 0x20 \<le> c \<and> c \<le> 0x7E then c else 95) fileName)"

definition attachmentContentDisposition :: "jsstring \<Rightarrow> failure + jsstring" where
  "attachmentContentDisposition fileName =
     (case encodeURIComponent fileName of
        None \<Rightarrow> Inl (Internal ''URIError: URI malformed'')
      | Some enc \<Rightarrow>
          Inr (js ''attachment; filename='' @ [34] @ asciiFallback fileName @ [34]
               @ js ''; filename*=UTF-8'' @ [39, 39] @ escapeRest enc))"

section \<open>Storage keys\<close>

definition RANDOM_SEGMENT_BYTES :: nat where
  "RANDOM_SEGMENT_BYTES = 24"

definition is_hex_dash :: "jschar \<Rightarrow> bool" where
  "is_hex_dash c \<longleftrightarrow> is_hex_lower c \<or> c = 45"

definition literalPattern :: "jsstring \<Rightarrow> (jschar \<Rightarrow> bool) list" where
  "literalPattern s = map (\<lambda>c x. x = c) s"

definition STORAGE_KEY_PATTERN :: "(jschar \<Rightarrow> bool) list" where
  "STORAGE_KEY_PATTERN =
     literalPattern (js ''users/'') @ replicate 36 is_hex_dash @ literalPattern (js ''/documents/'')
     @ replicate 36 is_hex_dash @ literalPattern (js ''/'') @ replicate 32 is_base64url"

definition buildStorageKey :: "run \<Rightarrow> nat \<Rightarrow> uuid \<Rightarrow> uuid \<Rightarrow> failure + jsstring" where
  "buildStorageKey e i userId documentId =
     (if \<not> is_uuid userId \<or> \<not> is_uuid documentId then Inl (Internal ''Storage keys require valid UUIDs'')
      else (let random = base64url (randomBytes e i RANDOM_SEGMENT_BYTES)
            in Inr (js ''users/'' @ map ascii_lower userId @ js ''/documents/'' @ map ascii_lower documentId
                    @ js ''/'' @ random)))"

definition isServerGeneratedStorageKey :: "jsstring \<Rightarrow> bool" where
  "isServerGeneratedStorageKey key \<longleftrightarrow> matches STORAGE_KEY_PATTERN key"

section \<open>Lemmas on names\<close>

definition name_char_ok :: "jschar \<Rightarrow> bool" where
  "name_char_ok c \<longleftrightarrow> \<not> CONTROL_CHARACTERS c \<and> \<not> RESERVED_CHARACTERS c \<and> c \<noteq> 47 \<and> c \<noteq> 92"

text \<open>What the Unicode tables provide: lower-casing turns no harmless character into a control
  character, a separator or a reserved one.\<close>

definition lower_safe :: "unicode \<Rightarrow> bool" where
  "lower_safe uc \<longleftrightarrow> (\<forall>s. list_all name_char_ok s \<longrightarrow> list_all name_char_ok (toLowerCase uc s))"

lemma is_lower_ascii: "is_upper c \<Longrightarrow> is_lower (ascii_lower c)"
  by (simp add: is_upper_def is_lower_def ascii_lower_def word_le_nat_alt unat_word_ariths)

lemma is_lower_ok: "is_lower c \<Longrightarrow> name_char_ok c"
  by (auto simp: is_lower_def name_char_ok_def CONTROL_CHARACTERS_def RESERVED_CHARACTERS_def)
    (simp_all add: word_le_nat_alt)

lemma ascii_lower_safe: "name_char_ok c \<Longrightarrow> name_char_ok (ascii_lower c)"
  by (cases "is_upper c") (auto simp: is_lower_ok is_lower_ascii, simp add: ascii_lower_def)

lemma lower_safe_ascii: "lower_safe ascii_unicode"
  by (simp add: lower_safe_def ascii_unicode_def list_all_iff ascii_lower_safe)

text \<open>The name before the length limit is applied.\<close>

definition cleanName :: "unicode \<Rightarrow> jsstring \<Rightarrow> jsstring" where
  "cleanName uc input =
     (let name0 = map (\<lambda>c. if c = 92 then 47 else c) (nfc uc input);
          name1 = (case last_index_of 47 name0 of None \<Rightarrow> name0 | Some i \<Rightarrow> drop (Suc i) name0)
      in strip_end (\<lambda>c. c = 46 \<or> c = 32)
           (trim (remove_class RESERVED_CHARACTERS (remove_class CONTROL_CHARACTERS name1))))"

lemma cleanName_chars: "list_all name_char_ok (cleanName uc input)"
proof -
  let ?n0 = "map (\<lambda>c. if c = 92 then 47 else c) (nfc uc input) :: jsstring"
  let ?n1 = "case last_index_of 47 ?n0 of None \<Rightarrow> ?n0 | Some i \<Rightarrow> drop (Suc i) ?n0"
  have "92 \<notin> set ?n0" by auto
  then have "92 \<notin> set ?n1" by (auto split: option.splits dest: in_set_dropD)
  moreover have "47 \<notin> set ?n1"
    by (auto split: option.splits dest: last_index_of_Some simp: last_index_of_None)
  moreover have "set (cleanName uc input) \<subseteq> {c \<in> set ?n1. \<not> CONTROL_CHARACTERS c \<and> \<not> RESERVED_CHARACTERS c}"
    unfolding cleanName_def Let_def
    using set_strip_end [of "\<lambda>c. c = 46 \<or> c = 32"] set_trim by (fastforce simp: remove_class_def)
  ultimately show ?thesis by (auto simp: list_all_iff name_char_ok_def)
qed

lemma cleanName_end: "cleanName uc input \<noteq> [] \<Longrightarrow> last (cleanName uc input) \<noteq> 46 \<and> last (cleanName uc input) \<noteq> 32"
  unfolding cleanName_def Let_def by (drule last_strip_end) simp

lemma sanitizeFileName_clean:
  "sanitizeFileName uc input =
     (let name = cleanName uc input
      in if name = [] then None
         else if length name > FILE_NAME_MAX_LENGTH
         then (let ext = extensionOf uc name;
                   suffix = (if truthy ext \<and> length (the ext) \<le> 16 then 46 # the ext else [])
               in Some (take (FILE_NAME_MAX_LENGTH - length suffix) name @ suffix))
         else Some name)"
proof -
  have "cleanName uc input \<noteq> [46]" "cleanName uc input \<noteq> [46, 46]"
    using cleanName_end [of uc input] by auto
  then show ?thesis
    unfolding sanitizeFileName_def Let_def cleanName_def [unfolded Let_def, symmetric] by simp
qed

text \<open>A name that needs no cleaning.\<close>

lemma cleanName_fixed:
  assumes "nfc uc s = s" and "list_all name_char_ok s" and "s \<noteq> []"
    and "\<not> is_js_space (hd s)" and "\<not> is_js_space (last s)" and "last s \<noteq> 46"
  shows "cleanName uc s = s"
proof -
  have id: "map (\<lambda>c. if c = 92 then 47 else c) s = s"
    using assms(2) by (auto simp: list_all_iff name_char_ok_def intro: map_idI)
  have "last_index_of 47 s = None"
    using assms(2) by (auto simp: last_index_of_None list_all_iff name_char_ok_def)
  moreover have "remove_class RESERVED_CHARACTERS (remove_class CONTROL_CHARACTERS s) = s"
    using assms(2) by (auto simp: remove_class_def list_all_iff name_char_ok_def filter_id_conv)
  moreover have "trim s = s" using assms(4,5) by (auto intro: trim_fixed)
  moreover have "last s \<noteq> 32" using assms(5) by (auto simp: is_js_space_def)
  ultimately show ?thesis
    using assms(1,6) id by (simp add: cleanName_def strip_end_fixed)
qed

lemma last_index_of_mid: "c \<notin> set t \<Longrightarrow> last_index_of c (s @ c # t) = Some (length s)"
  using last_index_of_None [of c t] by (induction s) auto

lemma extensionOf_chars:
  assumes "lower_safe uc" and "list_all name_char_ok name" and "extensionOf uc name = Some ext"
  shows "list_all name_char_ok ext"
proof -
  obtain i where "ext = toLowerCase uc (drop i name)"
    using assms(3) by (auto simp: extensionOf_def split: option.splits if_splits)
  moreover have "list_all name_char_ok (drop i name)"
    using assms(2) by (auto simp: list_all_iff dest: in_set_dropD)
  ultimately show ?thesis using assms(1) by (simp add: lower_safe_def)
qed

lemma name_char_ok_dot: "name_char_ok 46"
  by (simp add: name_char_ok_def CONTROL_CHARACTERS_def RESERVED_CHARACTERS_def)

section \<open>Lemmas on the header\<close>

text \<open>What a client does with the extended parameter: the bytes of its percent-decoding.\<close>

definition unhex :: "jschar \<Rightarrow> nat" where
  "unhex c = (if is_digit c then unat c - 48 else unat c - 55)"

fun pct_decode :: "jsstring \<Rightarrow> nat list" where
  "pct_decode [] = []"
| "pct_decode (c # s) =
     (if c = 37
      then (case s of a # b # r \<Rightarrow> (16 * unhex a + unhex b) # pct_decode r | _ \<Rightarrow> [])
      else unat c # pct_decode s)"

definition utf8_text :: "jsstring \<Rightarrow> nat list" where
  "utf8_text s = concat (map (\<lambda>p. the (utf8 p)) (code_points s))"

text \<open>The characters of an extended parameter value.\<close>

definition is_ext_value :: "jschar \<Rightarrow> bool" where
  "is_ext_value c \<longleftrightarrow> is_upper c \<or> is_lower c \<or> is_digit c \<or> c \<in> set [45, 95, 46, 33, 126, 37]"

lemma hex_upper_facts:
  assumes "n < 16"
  shows "unhex (hex_upper n) = n" and "is_ext_value (hex_upper n)" and "hex_upper n \<notin> set [39, 40, 41, 42]"
proof -
  have "\<forall>k\<in>set [0..<16]. unhex (hex_upper k) = k \<and> is_ext_value (hex_upper k) \<and> hex_upper k \<notin> set [39, 40, 41, 42]"
    by code_simp
  with assms show "unhex (hex_upper n) = n" "is_ext_value (hex_upper n)" "hex_upper n \<notin> set [39, 40, 41, 42]"
    by simp_all
qed

lemma pct_decode_pct: "n < 256 \<Longrightarrow> pct_decode (pct n @ s) = n # pct_decode s"
  by (simp add: pct_def hex_upper_facts)

lemma escapeRest_append [simp]: "escapeRest (s @ t) = escapeRest s @ escapeRest t"
  by (simp add: escapeRest_def)

lemma escapeRest_pct: "n < 256 \<Longrightarrow> escapeRest (pct n) = pct n"
  using hex_upper_facts(3) [of "n div 16"] hex_upper_facts(3) [of "n mod 16"]
  by (simp add: escapeRest_def pct_def)

lemma escapeRest_pcts: "\<forall>b\<in>set bs. b < 256 \<Longrightarrow> escapeRest (concat (map pct bs)) = concat (map pct bs)"
  by (induction bs) (auto simp: escapeRest_pct, simp add: escapeRest_def)

lemma pct_decode_pcts: "\<forall>b\<in>set bs. b < 256 \<Longrightarrow> pct_decode (concat (map pct bs) @ s) = bs @ pct_decode s"
  by (induction bs) (auto simp: pct_decode_pct)

lemma pct_ext_value: "n < 256 \<Longrightarrow> c \<in> set (pct n) \<Longrightarrow> is_ext_value c"
  by (auto simp: pct_def hex_upper_facts) (simp add: is_ext_value_def)

text \<open>The parts of a string are single units or surrogate pairs.\<close>

definition point_shape :: "jsstring \<Rightarrow> bool" where
  "point_shape p \<longleftrightarrow> (\<exists>c. p = [c]) \<or> (\<exists>h l. p = [h, l] \<and> high_surrogate h \<and> low_surrogate l)"

lemma code_points_shape: "p \<in> set (code_points s) \<Longrightarrow> point_shape p"
  by (induction s rule: code_points.induct) (auto simp: point_shape_def split: if_splits)

lemma code_points_lone: "high_surrogate h \<Longrightarrow> [h] \<in> set (code_points (s @ [h]))"
proof (induction s rule: code_points.induct)
  case (2 c)
  then have "\<not> low_surrogate h"
    by (auto simp: high_surrogate_def low_surrogate_def word_le_nat_alt)
  then show ?case by simp
qed auto

lemma utf8_bytes:
  assumes "point_shape p" and "utf8 p = Some bs"
  shows "\<forall>b\<in>set bs. b < 256"
  using assms(1) unfolding point_shape_def
proof
  assume "\<exists>c. p = [c]"
  then obtain c where c: "p = [c]" by blast
  have "unat c < 65536" using unsigned_less [of c, where ?'a = nat] by simp
  then have "unat c div 4096 < 16" by linarith
  moreover have "unat c div 64 < 32" if "unat c < 0x800" using that by linarith
  moreover have "k mod 64 < 64" for k :: nat by simp
  ultimately show ?thesis
    using assms(2) c by (fastforce simp: utf8_def Let_def split: if_splits)
next
  assume "\<exists>h l. p = [h, l] \<and> high_surrogate h \<and> low_surrogate l"
  then obtain h l where p: "p = [h, l]" and hl: "high_surrogate h" "low_surrogate l" by blast
  let ?n = "0x10000 + (unat h - 0xD800) * 0x400 + (unat l - 0xDC00)"
  have "unat h \<le> 0xDBFF" "unat l \<le> 0xDFFF"
    using hl by (auto simp: high_surrogate_def low_surrogate_def word_le_nat_alt)
  then have "?n < 0x110000" by linarith
  then have "?n div 262144 < 5" by linarith
  moreover have "k mod 64 < 64" for k :: nat by simp
  ultimately show ?thesis
    using assms(2) p by (fastforce simp: utf8_def Let_def)
qed

lemma unreserved_utf8: "uri_unreserved c \<Longrightarrow> utf8 [c] = Some [unat c] \<and> c \<noteq> 37"
  by (auto simp: uri_unreserved_def is_upper_def is_lower_def is_digit_def utf8_def Let_def
      high_surrogate_def low_surrogate_def word_le_nat_alt)

lemma escapeRest_unreserved:
  assumes "uri_unreserved c"
  shows "pct_decode (escapeRest [c] @ s) = unat c # pct_decode s \<and> (\<forall>x\<in>set (escapeRest [c]). is_ext_value x)"
proof (cases "c \<in> set [39, 40, 41, 42]")
  case True
  then have "unat c < 256" by auto
  with True show ?thesis
    using pct_decode_pct [of "unat c" s] pct_ext_value [of "unat c"] by (auto simp: escapeRest_def)
next
  case False
  then have "escapeRest [c] = [c]" by (simp add: escapeRest_def)
  with False assms unreserved_utf8 [OF assms] show ?thesis
    by (auto simp: uri_unreserved_def is_ext_value_def)
qed

lemma encodePoints_decode:
  assumes "encodePoints ps = Some r" and "\<forall>p\<in>set ps. point_shape p"
  shows "pct_decode (escapeRest r @ s) = concat (map (\<lambda>p. the (utf8 p)) ps) @ pct_decode s
       \<and> (\<forall>x\<in>set (escapeRest r). is_ext_value x)"
  using assms
proof (induction ps arbitrary: r s)
  case Nil
  then show ?case by (simp add: escapeRest_def)
next
  case (Cons p ps)
  from Cons.prems(1) obtain rest where rest: "encodePoints ps = Some rest"
    by (auto split: option.splits)
  note IH = Cons.IH [OF rest]
  show ?case
  proof (cases "length p = 1 \<and> uri_unreserved (hd p)")
    case True
    then obtain c where c: "p = [c]" "uri_unreserved c" by (cases p) auto
    with Cons.prems(1) rest have "escapeRest r = escapeRest [c] @ escapeRest rest"
      using escapeRest_append [of "[c]" rest] by simp
    with c Cons.prems(2) IH escapeRest_unreserved [OF c(2)] unreserved_utf8 [OF c(2)] show ?thesis by auto
  next
    case False
    with Cons.prems(1) rest obtain bs where bs: "utf8 p = Some bs" "r = concat (map pct bs) @ rest"
      by (auto split: option.splits if_splits)
    have small: "\<forall>b\<in>set bs. b < 256" using utf8_bytes [OF _ bs(1)] Cons.prems(2) by simp
    then have "\<forall>x\<in>set (concat (map pct bs)). is_ext_value x" using pct_ext_value by auto
    with bs IH Cons.prems(2) escapeRest_pcts [OF small] pct_decode_pcts [OF small] show ?thesis by auto
  qed
qed

lemma encodePoints_total:
  "(\<exists>r. encodePoints ps = Some r) \<longleftrightarrow> (\<forall>p\<in>set ps. utf8 p \<noteq> None)"
proof (induction ps)
  case (Cons p ps)
  have "utf8 p \<noteq> None" if "length p = 1 \<and> uri_unreserved (hd p)"
    using that unreserved_utf8 by (cases p) auto
  with Cons show ?case by (auto split: option.splits if_splits)
qed simp

lemma encode_total: "(\<exists>r. encodeURIComponent s = Some r) \<longleftrightarrow> well_formed s"
proof -
  have "utf8 p \<noteq> None \<longleftrightarrow> length p = 2 \<or> (\<forall>c\<in>set p. \<not> high_surrogate c \<and> \<not> low_surrogate c)"
    if "p \<in> set (code_points s)" for p
    using code_points_shape [OF that] by (auto simp: point_shape_def utf8_def Let_def)
  then show ?thesis
    unfolding encodeURIComponent_def encodePoints_total well_formed_def by blast
qed

section \<open>Lemmas on storage keys\<close>

lemma literalPattern_matches: "matches (literalPattern l) s \<longleftrightarrow> s = l"
  by (auto simp: matches_def literalPattern_def list_all2_conv_all_nth list_eq_iff_nth_eq)

lemma is_hex_dash_lower: "is_hex c \<or> c = 45 \<Longrightarrow> is_hex_dash (ascii_lower c)"
  by (auto simp: is_hex_dash_def is_hex_def is_hex_lower_def is_digit_def ascii_lower_def is_upper_def
      word_le_nat_alt unat_word_ariths)

lemma uuid_classes: "49 \<le> c \<and> c \<le> 56 \<Longrightarrow> is_hex c" "c \<in> set [56, 57, 97, 98, 65, 66] \<Longrightarrow> is_hex c"
  by (simp add: is_hex_def is_hex_lower_def is_digit_def word_le_nat_alt)
    (auto simp: is_hex_def is_hex_lower_def is_digit_def)

lemma matches_class: "matches ps s \<Longrightarrow> c \<in> set s \<Longrightarrow> \<exists>q\<in>set ps. q c"
  unfolding matches_def by (induction rule: list_all2_induct) auto

lemma UUID_PATTERN_class: "q \<in> set UUID_PATTERN \<Longrightarrow> q c \<Longrightarrow> is_hex c \<or> c = 45"
proof -
  assume q: "q \<in> set UUID_PATTERN" "q c"
  from q(1) have "q = is_hex \<or> q = (\<lambda>c. c = 45) \<or> q = (\<lambda>c. 49 \<le> c \<and> c \<le> 56)
      \<or> q = (\<lambda>c. c \<in> set [56, 57, 97, 98, 65, 66])"
    unfolding UUID_PATTERN_def by simp blast
  with q(2) show ?thesis using uuid_classes by blast
qed

lemma length_UUID_PATTERN: "length UUID_PATTERN = 36"
  by (simp add: UUID_PATTERN_def)

lemma is_uuid_chars: "is_uuid v \<Longrightarrow> length v = 36 \<and> (\<forall>c\<in>set v. is_hex c \<or> c = 45)"
  unfolding is_uuid_def by (metis matches_class UUID_PATTERN_class matches_length length_UUID_PATTERN)

lemma matches_appendI: "matches ps u \<Longrightarrow> matches qs v \<Longrightarrow> matches (ps @ qs) (u @ v)"
  unfolding matches_append by blast

lemma storageKey_shape:
  assumes "random_ok e" and k: "buildStorageKey e i u d = Inr k"
  shows "isServerGeneratedStorageKey k"
proof -
  have uu: "is_uuid u" "is_uuid d" using k by (auto simp: buildStorageKey_def split: if_splits)
  have "length (base64url (randomBytes e i 24)) = 32"
    using assms by (simp add: length_base64url random_ok_def)
  then have rest: "matches (replicate 32 is_base64url) (base64url (randomBytes e i 24))"
    using base64url_class by (simp add: matches_replicate)
  have part: "matches (replicate 36 is_hex_dash) (map ascii_lower v)" if "is_uuid v" for v
    using is_uuid_chars [OF that] is_hex_dash_lower by (simp add: matches_replicate)
  have lit: "matches (literalPattern l) l" for l by (simp add: literalPattern_matches)
  show ?thesis
    using k part uu rest lit unfolding isServerGeneratedStorageKey_def STORAGE_KEY_PATTERN_def
    by (auto simp: buildStorageKey_def RANDOM_SEGMENT_BYTES_def simp del: replicate.simps split: if_splits
        intro!: matches_appendI)
qed

section \<open>Properties\<close>

text \<open>C33. A sanitised file name is harmless: not empty, at most 255 code units, free of path
  separators, control characters and characters reserved by any of the operating systems, and
  neither \<open>.\<close> nor \<open>..\<close>; a name within the limit does not end in a dot or a space either.\<close>

theorem sanitizeFileName_safe:
  assumes "sanitizeFileName uc input = Some name" and "lower_safe uc"
  shows "name \<noteq> [] \<and> length name \<le> FILE_NAME_MAX_LENGTH \<and> list_all name_char_ok name
       \<and> name \<noteq> js ''.'' \<and> name \<noteq> js ''..''
       \<and> (length (cleanName uc input) \<le> FILE_NAME_MAX_LENGTH \<longrightarrow> last name \<noteq> 46 \<and> last name \<noteq> 32)"
proof -
  let ?n = "cleanName uc input"
  have ne: "?n \<noteq> []" using assms(1) by (auto simp: sanitizeFileName_clean Let_def)
  show ?thesis
  proof (cases "length ?n > FILE_NAME_MAX_LENGTH")
    case False
    then have "name = ?n" using assms(1) ne by (simp add: sanitizeFileName_clean)
    with False ne cleanName_chars [of uc input] cleanName_end [OF ne] show ?thesis
      by (auto simp: js_def)
  next
    case True
    define suffix where "suffix = (if truthy (extensionOf uc ?n) \<and> length (the (extensionOf uc ?n)) \<le> 16
        then 46 # the (extensionOf uc ?n) else [])"
    have name: "name = take (FILE_NAME_MAX_LENGTH - length suffix) ?n @ suffix"
      using assms(1) ne True by (simp add: sanitizeFileName_clean Let_def suffix_def)
    have "length suffix \<le> 17" by (simp add: suffix_def)
    with True name have len: "length name = 255" by (simp add: FILE_NAME_MAX_LENGTH_def)
    then have "name \<noteq> js ''.''" "name \<noteq> js ''..''" "name \<noteq> []" by (auto simp: js_def)
    moreover have "list_all name_char_ok suffix"
      using extensionOf_chars [OF assms(2) cleanName_chars] name_char_ok_dot
      by (auto simp: suffix_def truthy_def split: option.splits)
    moreover have "list_all name_char_ok (take k ?n)" for k
      using cleanName_chars [of uc input] by (auto simp: list_all_iff dest: in_set_takeD)
    ultimately show ?thesis
      using True name len by (simp add: FILE_NAME_MAX_LENGTH_def)
  qed
qed

theorem sanitizeFileName_safe_witness:
  "sanitizeFileName ascii_unicode (js ''../../etc/passwd. '') = Some (js ''passwd'') \<and> last (js ''passwd'') \<noteq> 46"
proof -
  have "sanitizeFileName ascii_unicode (js ''../../etc/passwd. '') = Some (js ''passwd'')" by code_simp
  moreover have "length (cleanName ascii_unicode (js ''../../etc/passwd. '')) \<le> FILE_NAME_MAX_LENGTH" by code_simp
  ultimately show ?thesis using sanitizeFileName_safe [OF _ lower_safe_ascii] by blast
qed

text \<open>C35. The download header cannot be broken out of: when it is produced, the quoted fallback holds
  only printable ASCII without quotes and backslashes, the extended value only the characters
  such a value may have, and its percent-decoding is the UTF-8 of the whole name. It is produced
  exactly for the names without lone surrogates.\<close>

theorem contentDisposition_safe:
  "((\<exists>h. attachmentContentDisposition f = Inr h) \<longleftrightarrow> well_formed f)
   \<and> (\<forall>h. attachmentContentDisposition f = Inr h \<longrightarrow>
      (\<exists>enc. h = js ''attachment; filename='' @ [34] @ asciiFallback f @ [34] @ js ''; filename*=UTF-8'' @ [39, 39] @ enc
        \<and> (\<forall>c\<in>set (asciiFallback f). 0x20 \<le> c \<and> c \<le> 0x7E \<and> c \<noteq> 34 \<and> c \<noteq> 92)
        \<and> (\<forall>c\<in>set enc. is_ext_value c) \<and> pct_decode enc = utf8_text f))"
proof (intro conjI allI impI)
  show "(\<exists>h. attachmentContentDisposition f = Inr h) \<longleftrightarrow> well_formed f"
    using encode_total [of f] by (auto simp: attachmentContentDisposition_def split: option.splits)
  fix h
  assume "attachmentContentDisposition f = Inr h"
  then obtain r where r: "encodeURIComponent f = Some r" and h: "h = js ''attachment; filename='' @ [34]
      @ asciiFallback f @ [34] @ js ''; filename*=UTF-8'' @ [39, 39] @ escapeRest r"
    by (auto simp: attachmentContentDisposition_def split: option.splits)
  have "pct_decode (escapeRest r @ []) = utf8_text f @ pct_decode [] \<and> (\<forall>x\<in>set (escapeRest r). is_ext_value x)"
    unfolding utf8_text_def using r code_points_shape
    by (intro encodePoints_decode) (auto simp: encodeURIComponent_def)
  moreover have "\<forall>c\<in>set (asciiFallback f). 0x20 \<le> c \<and> c \<le> 0x7E \<and> c \<noteq> 34 \<and> c \<noteq> 92"
    by (auto simp: asciiFallback_def)
  ultimately show "\<exists>enc. h = js ''attachment; filename='' @ [34] @ asciiFallback f @ [34]
      @ js ''; filename*=UTF-8'' @ [39, 39] @ enc
      \<and> (\<forall>c\<in>set (asciiFallback f). 0x20 \<le> c \<and> c \<le> 0x7E \<and> c \<noteq> 34 \<and> c \<noteq> 92)
      \<and> (\<forall>c\<in>set enc. is_ext_value c) \<and> pct_decode enc = utf8_text f"
    using h by auto
qed

theorem contentDisposition_safe_witness:
  "\<exists>h. attachmentContentDisposition [97, 34, 10, 0xD83D, 0xDE00] = Inr h"
proof -
  have "well_formed [97, 34, 10, 0xD83D, 0xDE00]" by code_simp
  then show ?thesis using contentDisposition_safe [of "[97, 34, 10, 0xD83D, 0xDE00]"] by blast
qed

text \<open>Storage keys are the server's own: one is built exactly for two UUIDs, it has the shape of
  the pattern that every later use checks, and it determines the owner, the document (in
  canonical lower case) and the random segment.\<close>

theorem buildStorageKey_scoped:
  assumes "random_ok e"
  shows "((\<exists>k. buildStorageKey e i u d = Inr k) \<longleftrightarrow> is_uuid u \<and> is_uuid d)
       \<and> (\<forall>k. buildStorageKey e i u d = Inr k \<longrightarrow> isServerGeneratedStorageKey k
            \<and> (\<forall>e' i' u' d'. random_ok e' \<and> buildStorageKey e' i' u' d' = Inr k \<longrightarrow>
                 map ascii_lower u' = map ascii_lower u \<and> map ascii_lower d' = map ascii_lower d
                 \<and> base64url (randomBytes e' i' 24) = base64url (randomBytes e i 24)))"
proof (intro conjI allI impI)
  show "(\<exists>k. buildStorageKey e i u d = Inr k) \<longleftrightarrow> is_uuid u \<and> is_uuid d"
    by (simp add: buildStorageKey_def Let_def)
  fix k
  assume k: "buildStorageKey e i u d = Inr k"
  then have uu: "is_uuid u" "is_uuid d" by (auto simp: buildStorageKey_def split: if_splits)
  show "isServerGeneratedStorageKey k" using assms k by (rule storageKey_shape)
  fix e' i' u' d'
  assume o: "random_ok e' \<and> buildStorageKey e' i' u' d' = Inr k"
  then have "is_uuid u'" "is_uuid d'" by (auto simp: buildStorageKey_def split: if_splits)
  with uu have "length u' = length u" "length d' = length d" using is_uuid_chars by metis+
  with o k show "map ascii_lower u' = map ascii_lower u" "map ascii_lower d' = map ascii_lower d"
    "base64url (randomBytes e' i' 24) = base64url (randomBytes e i 24)"
    by (auto simp: buildStorageKey_def RANDOM_SEGMENT_BYTES_def split: if_splits)
qed

theorem buildStorageKey_scoped_witness:
  "\<exists>k. buildStorageKey \<lparr>clock = (\<lambda>_. 0), freshId = (\<lambda>_. []), randomBytes = (\<lambda>_ n. replicate n 7), others = (\<lambda>_ w. w), tempDirError = None\<rparr> 0
     (js ''11111111-1111-4111-8111-11111111111A'') (js ''22222222-2222-4222-8222-222222222222'') = Inr k"
proof -
  let ?e = "\<lparr>clock = (\<lambda>_. 0), freshId = (\<lambda>_. []), randomBytes = (\<lambda>_ n. replicate n 7), others = (\<lambda>_ w. w), tempDirError = None\<rparr>"
  have "random_ok ?e" by (simp add: random_ok_def)
  moreover have "is_uuid (js ''11111111-1111-4111-8111-11111111111A'')"
    "is_uuid (js ''22222222-2222-4222-8222-222222222222'')" by code_simp+
  ultimately show ?thesis
    using buildStorageKey_scoped [of ?e 0 "js ''11111111-1111-4111-8111-11111111111A''"
        "js ''22222222-2222-4222-8222-222222222222''"] by blast
qed

text \<open>The length limit is applied last and counts code units. A name whose 255th code unit is the
  first half of a surrogate pair, such as 128 emoji, is cut inside the pair: the upload accepts it,
  and for the stored name \<open>encodeURIComponent\<close> throws, so that no download header can be built.\<close>

theorem long_name_cut_in_pair:
  assumes "cleanName uc (s @ h # l # t) = s @ h # l # t" and "length s = 254"
    and "46 \<notin> set (s @ h # l # t)" and "high_surrogate h"
  shows "sanitizeFileName uc (s @ h # l # t) = Some (s @ [h])
       \<and> attachmentContentDisposition (s @ [h]) = Inl (Internal ''URIError: URI malformed'')"
proof
  have "extensionOf uc (s @ h # l # t) = None"
    using assms(3) last_index_of_None [of 46 "s @ h # l # t"] by (simp add: extensionOf_def)
  then show "sanitizeFileName uc (s @ h # l # t) = Some (s @ [h])"
    using assms(2) unfolding sanitizeFileName_clean assms(1)
    by (simp add: FILE_NAME_MAX_LENGTH_def truthy_def)
  have "\<not> well_formed (s @ [h])"
    using code_points_lone [OF assms(4), of s] assms(4) unfolding well_formed_def by fastforce
  then have "encodeURIComponent (s @ [h]) = None" using encode_total by (metis not_None_eq)
  then show "attachmentContentDisposition (s @ [h]) = Inl (Internal ''URIError: URI malformed'')"
    by (simp add: attachmentContentDisposition_def)
qed

theorem long_name_cut_in_pair_witness:
  "sanitizeFileName ascii_unicode (concat (replicate 127 [0xD83D, 0xDE00]) @ [0xD83D, 0xDE00])
     = Some (concat (replicate 127 [0xD83D, 0xDE00]) @ [0xD83D])"
proof -
  define s where "s = concat (replicate 127 [0xD83D, 0xDE00 :: jschar])"
  have mem: "set s = {0xD83D, 0xDE00}" and len: "length s = 254" by (simp_all add: s_def length_concat sum_list_replicate)
  have "s \<noteq> []" using len by auto
  moreover have "hd s = 0xD83D" by (simp add: s_def numeral_eq_Suc)
  ultimately have "hd (s @ [0xD83D, 0xDE00]) = 0xD83D" by simp
  moreover have "list_all name_char_ok (s @ [0xD83D, 0xDE00])"
    using mem by (simp add: list_all_iff name_char_ok_def CONTROL_CHARACTERS_def RESERVED_CHARACTERS_def)
  ultimately have "cleanName ascii_unicode (s @ [0xD83D, 0xDE00]) = s @ [0xD83D, 0xDE00]"
    by (intro cleanName_fixed) (simp_all add: ascii_unicode_def is_js_space_def)
  then show ?thesis
    using long_name_cut_in_pair [of ascii_unicode s "0xD83D" "0xDE00" "[]"] mem len
    by (simp add: high_surrogate_def s_def [symmetric])
qed

text \<open>A cut can also leave a dot at the end, which the step before it strips.\<close>

lemma truncation_leaves_dot:
  assumes "cleanName uc (s @ 46 # t) = s @ 46 # t" and "length s = 254" and "46 \<notin> set t"
    and "16 < length (toLowerCase uc t)" and "t \<noteq> []"
  shows "sanitizeFileName uc (s @ 46 # t) = Some (s @ [46])"
proof -
  have "last_index_of 46 (s @ 46 # t) = Some 254"
    using assms(2,3) last_index_of_mid [of 46 t s] by simp
  then have "extensionOf uc (s @ 46 # t) = Some (toLowerCase uc t)"
    using assms(2,5) by (simp add: extensionOf_def)
  then show ?thesis
    using assms(2,4,5) unfolding sanitizeFileName_clean assms(1)
    by (simp add: FILE_NAME_MAX_LENGTH_def truthy_def)
qed

end
