(* ===== verification/Http_Layer.thy ===== *)
theory Http_Layer
  imports Users File_Names
begin

text \<open>
  What every response goes through: the exception filters (\<open>common/filters\<close>), the envelopes of
  successful responses (\<open>common/interceptors\<close>), request ids (\<open>common/middleware\<close>,
  \<open>common/utils/request-id.util.ts\<close>), the shared input rules (\<open>common/validation\<close>) and the two small
  functions of the start-up code. Log lines are not part of the model. The earlier versions of the filter
  and the interceptor are in \<open>Legacy_Http\<close>.
\<close>

section \<open>Exceptions and error envelopes\<close>

definition ErrorCodes :: "string list" where
  "ErrorCodes = [''VALIDATION_ERROR'', ''BAD_REQUEST'', ''UNAUTHORIZED'', ''FORBIDDEN'', ''NOT_FOUND'',
     ''METHOD_NOT_ALLOWED'', ''CONFLICT'', ''PAYLOAD_TOO_LARGE'', ''UNSUPPORTED_MEDIA_TYPE'', ''RATE_LIMITED'',
     ''INTERNAL_ERROR'', ''SERVICE_UNAVAILABLE'']"

text \<open>A property of an error body that should be a string or a list of strings.\<close>

datatype body_value = Text string | Texts "string list" | OtherValue

record NestErrorBody =
  b_statusCode :: "nat option"
  b_message :: "body_value option"
  b_error :: "string option"
  b_code :: "body_value option"

datatype http_body = BodyText string | BodyObject NestErrorBody | BodyOther

text \<open>An exception as the filter sees it: the API's own, another one of the framework, or anything else
  that was thrown.\<close>

datatype exception = AppEx AppException | HttpEx nat http_body | Unknown string

record ErrorEnvelope =
  ee_success :: bool
  ee_data :: "unit option"
  ee_code :: string
  ee_message :: string
  ee_requestId :: jsstring

definition STATUS_TO_CODE :: "nat \<Rightarrow> string option" where
  "STATUS_TO_CODE = map_of [(400, ''BAD_REQUEST''), (401, ''UNAUTHORIZED''), (403, ''FORBIDDEN''), (404, ''NOT_FOUND''),
     (405, ''METHOD_NOT_ALLOWED''), (409, ''CONFLICT''), (413, ''PAYLOAD_TOO_LARGE''), (415, ''UNSUPPORTED_MEDIA_TYPE''),
     (429, ''RATE_LIMITED''), (500, ''INTERNAL_ERROR''), (503, ''SERVICE_UNAVAILABLE'')]"

definition isValidationBody :: "http_body \<Rightarrow> bool" where
  "isValidationBody body =
     (case body of BodyObject b \<Rightarrow> (case b_message b of Some (Texts _) \<Rightarrow> True | _ \<Rightarrow> False) | _ \<Rightarrow> False)"

definition codeForHttpException :: "nat \<Rightarrow> http_body \<Rightarrow> string" where
  "codeForHttpException status body =
     (let byStatus = (case STATUS_TO_CODE status of Some c \<Rightarrow> c | None \<Rightarrow> ''INTERNAL_ERROR'')
      in if status = 429 then ''RATE_LIMITED''
         else if status = 400 \<and> isValidationBody body then ''VALIDATION_ERROR''
         else (case body of
                 BodyObject b \<Rightarrow> (case b_code b of Some (Text c) \<Rightarrow> if length c > 0 then c else byStatus | _ \<Rightarrow> byStatus)
               | _ \<Rightarrow> byStatus))"

definition messageForHttpException :: "nat \<Rightarrow> http_body \<Rightarrow> string" where
  "messageForHttpException status body =
     (if status = 429 then ''Too many requests, please try again later''
      else if status \<ge> 500 then ''Internal server error''
      else (case body of
              BodyText s \<Rightarrow> s
            | BodyObject b \<Rightarrow>
                (case b_message b of
                   Some (Texts ms) \<Rightarrow> join_with ''; '' ms
                 | Some (Text m) \<Rightarrow> m
                 | _ \<Rightarrow> ''Request failed'')
            | BodyOther \<Rightarrow> ''Request failed''))"

text \<open>The constructor of an \<open>AppException\<close> stores its code and message in the body.\<close>

definition appBody :: "AppException \<Rightarrow> NestErrorBody" where
  "appBody x = \<lparr>b_statusCode = None, b_message = Some (Text (ex_message x)), b_error = None, b_code = Some (Text (ex_code x))\<rparr>"

definition resolveException :: "exception \<Rightarrow> nat \<times> string \<times> string" where
  "resolveException exc =
     (case exc of
        AppEx x \<Rightarrow> (ex_status x, ex_code x, case b_message (appBody x) of Some (Text m) \<Rightarrow> m | _ \<Rightarrow> ex_message x)
      | HttpEx status body \<Rightarrow> (status, codeForHttpException status body, messageForHttpException status body)
      | Unknown _ \<Rightarrow> (500, ''INTERNAL_ERROR'', ''Internal server error''))"

definition catchException :: "exception \<Rightarrow> jsstring \<Rightarrow> nat \<times> ErrorEnvelope" where
  "catchException exc requestId =
     (let (status, code, message) = resolveException exc
      in (status, \<lparr>ee_success = False, ee_data = None, ee_code = code, ee_message = message, ee_requestId = requestId\<rparr>))"

text \<open>How a failure of a service reaches the filter.\<close>

fun thrownBy :: "failure \<Rightarrow> exception" where
  "thrownBy (App x) = AppEx x"
| "thrownBy (Internal m) = Unknown m"

section \<open>Envelopes of successful responses\<close>

text \<open>What a handler returns: nothing, a value, or a value with a message. \<open>null\<close> is \<open>None\<close> inside.\<close>

datatype 'a payload = Undefined | Value "'a option" | ApiResult "'a option" "string option"

record 'a SuccessEnvelope =
  se_success :: bool
  se_data :: "'a option"
  se_message :: "string option"
  se_requestId :: jsstring

definition interceptEnvelope :: "jsstring \<Rightarrow> 'a payload \<Rightarrow> 'a SuccessEnvelope" where
  "interceptEnvelope requestId payload =
     (case payload of
        ApiResult d m \<Rightarrow> \<lparr>se_success = True, se_data = d, se_message = m, se_requestId = requestId\<rparr>
      | Value d \<Rightarrow> \<lparr>se_success = True, se_data = d, se_message = None, se_requestId = requestId\<rparr>
      | Undefined \<Rightarrow> \<lparr>se_success = True, se_data = None, se_message = None, se_requestId = requestId\<rparr>)"

section \<open>Request ids\<close>

text \<open>The class \<open>[A-Za-z0-9._:-]\<close>.\<close>

definition is_request_id_char :: "jschar \<Rightarrow> bool" where
  "is_request_id_char c \<longleftrightarrow> is_upper c \<or> is_lower c \<or> is_digit c \<or> c \<in> set [46, 95, 58, 45]"

definition INCOMING_REQUEST_ID_PATTERN :: "jsstring \<Rightarrow> bool" where
  "INCOMING_REQUEST_ID_PATTERN s \<longleftrightarrow> 1 \<le> length s \<and> length s \<le> 128 \<and> list_all is_request_id_char s"

text \<open>The id is stored in the request and sent back in the header.\<close>

definition requestIdMiddleware :: "run \<Rightarrow> jsstring option \<Rightarrow> jsstring" where
  "requestIdMiddleware e incoming =
     (if truthy incoming \<and> INCOMING_REQUEST_ID_PATTERN (the incoming) then the incoming else freshId e 0)"

definition getRequestId :: "jsstring option \<Rightarrow> jsstring" where
  "getRequestId requestId = (case requestId of Some i \<Rightarrow> i | None \<Rightarrow> js ''unknown'')"

definition requestContextFromRequest :: "jsstring option \<Rightarrow> jsstring option \<Rightarrow> RequestContext" where
  "requestContextFromRequest requestId ip = \<lparr>ctx_requestId = Some (getRequestId requestId), ctx_ipAddress = ip\<rparr>"

definition MAX_REQUEST_ID_LENGTH :: nat where
  "MAX_REQUEST_ID_LENGTH = 128"

definition REQUEST_ID_PATTERN :: "jsstring \<Rightarrow> bool" where
  "REQUEST_ID_PATTERN s \<longleftrightarrow> s \<noteq> [] \<and> list_all is_request_id_char s"

definition isValidRequestId :: "jsstring \<Rightarrow> bool" where
  "isValidRequestId s \<longleftrightarrow> length s > 0 \<and> length s \<le> MAX_REQUEST_ID_LENGTH \<and> REQUEST_ID_PATTERN s"

text \<open>A header as the framework hands it on: one value, several, or something that is not text.\<close>

datatype header = OneText jsstring | Several "jsstring list" | NoText

definition candidateId :: "header \<Rightarrow> jsstring option" where
  "candidateId h =
     (case h of
        OneText s \<Rightarrow> if isValidRequestId s then Some s else None
      | Several (s # _) \<Rightarrow> if isValidRequestId s then Some s else None
      | _ \<Rightarrow> None)"

definition resolveRequestId :: "run \<Rightarrow> header \<Rightarrow> jsstring option \<Rightarrow> jsstring" where
  "resolveRequestId e incoming fallback =
     (case candidateId incoming of
        Some i \<Rightarrow> i
      | None \<Rightarrow>
          (case (case fallback of Some f \<Rightarrow> candidateId (OneText f) | None \<Rightarrow> None) of
             Some i \<Rightarrow> i
           | None \<Rightarrow> freshId e 0))"

section \<open>Input rules\<close>

definition is_control :: "jschar \<Rightarrow> bool" where
  "is_control c \<longleftrightarrow> c \<le> 0x1F \<or> (0x7F \<le> c \<and> c \<le> 0x9F)"

definition containsControlCharacters :: "jsstring \<Rightarrow> bool" where
  "containsControlCharacters s \<longleftrightarrow> list_ex is_control s"

text \<open>\<open>NO_CONTROL_CHARACTERS\<close> and its multi-line variant, which allows tab, line feed and carriage
  return.\<close>

definition noControlCharacters :: "bool \<Rightarrow> jsstring \<Rightarrow> bool" where
  "noControlCharacters allowLineBreaks s \<longleftrightarrow>
     list_all (\<lambda>c. \<not> (if allowLineBreaks
        then c \<le> 0x08 \<or> c = 0x0B \<or> c = 0x0C \<or> (0x0E \<le> c \<and> c \<le> 0x1F) \<or> (0x7F \<le> c \<and> c \<le> 0x9F)
        else is_control c)) s"

definition nullableQueryValue :: "jsstring \<Rightarrow> jsstring option" where
  "nullableQueryValue v = (if v = js ''null'' \<or> v = [] then None else Some v)"

section \<open>Start-up\<close>

text \<open>\<open>Inl\<close> is the error that keeps the service from starting; \<open>None\<close> allows every origin.\<close>

definition resolveCorsOrigin :: "jsstring \<Rightarrow> jsstring list \<Rightarrow> string + jsstring list option" where
  "resolveCorsOrigin nodeEnv corsOrigins =
     (if nodeEnv = js ''production'' \<and> js ''*'' \<in> set corsOrigins
      then Inl ''CORS_ORIGINS cannot use a wildcard in production''
      else if js ''*'' \<in> set corsOrigins then Inr None else Inr (Some corsOrigins))"

definition LOG_LEVELS :: "string list" where
  "LOG_LEVELS = [''fatal'', ''error'', ''warn'', ''log'', ''debug'', ''verbose'']"

fun indexOf :: "'a \<Rightarrow> 'a list \<Rightarrow> int" where
  "indexOf x [] = - 1"
| "indexOf x (y # ys) = (if x = y then 0 else if indexOf x ys = - 1 then - 1 else 1 + indexOf x ys)"

definition resolveLogLevels :: "string \<Rightarrow> string list" where
  "resolveLogLevels level =
     (let index = indexOf level LOG_LEVELS in take (nat ((if index = - 1 then 3 else index) + 1)) LOG_LEVELS)"

section \<open>What clients see\<close>

lemma codeForHttpException_closed:
  "codeForHttpException status body \<in> set ErrorCodes
    \<or> (\<exists>b. body = BodyObject b \<and> b_code b = Some (Text (codeForHttpException status body)))"
proof -
  have "(case STATUS_TO_CODE status of Some c \<Rightarrow> c | None \<Rightarrow> ''INTERNAL_ERROR'') \<in> set ErrorCodes"
    by (simp add: STATUS_TO_CODE_def ErrorCodes_def)
  then show ?thesis
    by (auto simp: codeForHttpException_def Let_def ErrorCodes_def split: http_body.split option.split body_value.split)
qed

text \<open>A failure of the API's own reaches the client with its status, code and message; anything else
  that was thrown gives one and the same answer; an error of the framework above 500 hides its
  message, and a list of violations is reported as such.\<close>

lemma errors_reported:
  "catchException (thrownBy (App x)) i = (ex_status x,
     \<lparr>ee_success = False, ee_data = None, ee_code = ex_code x, ee_message = ex_message x, ee_requestId = i\<rparr>)"
  "catchException (thrownBy (Internal m)) i = catchException (thrownBy (Internal m')) i"
  "500 \<le> status \<Longrightarrow> ee_message (snd (catchException (HttpEx status body) i)) = ''Internal server error''"
  "b_message b = Some (Texts ms) \<Longrightarrow> catchException (HttpEx 400 (BodyObject b)) i = (400,
     \<lparr>ee_success = False, ee_data = None, ee_code = ''VALIDATION_ERROR'', ee_message = join_with ''; '' ms, ee_requestId = i\<rparr>)"
  by (simp_all add: catchException_def resolveException_def appBody_def messageForHttpException_def
      codeForHttpException_def isValidationBody_def)

section \<open>Request ids\<close>

lemma request_id_rules: "INCOMING_REQUEST_ID_PATTERN s \<longleftrightarrow> isValidRequestId s"
  by (auto simp: INCOMING_REQUEST_ID_PATTERN_def isValidRequestId_def REQUEST_ID_PATTERN_def MAX_REQUEST_ID_LENGTH_def
      Suc_le_eq)

lemma middleware_resolves:
  "requestIdMiddleware e incoming = resolveRequestId e (case incoming of Some s \<Rightarrow> OneText s | None \<Rightarrow> NoText) None"
  by (auto simp: requestIdMiddleware_def resolveRequestId_def candidateId_def request_id_rules truthy_def
      isValidRequestId_def REQUEST_ID_PATTERN_def split: option.split)

lemma hex_request_id: "is_hex c \<Longrightarrow> is_request_id_char c"
  by (auto simp: is_hex_def is_hex_lower_def is_request_id_char_def is_digit_def is_upper_def is_lower_def word_le_nat_alt)

lemma is_uuid_request_id:
  assumes "is_uuid s"
  shows "isValidRequestId s"
proof -
  have m: "list_all2 (\<lambda>p c. p c) UUID_PATTERN s" using assms by (simp add: is_uuid_def matches_def)
  have "is_request_id_char c" if "p \<in> set UUID_PATTERN" "p c" for p c
  proof -
    have "is_hex c \<or> c \<in> set [45, 56, 57, 97, 98, 65, 66] \<or> (49 \<le> c \<and> c \<le> 56)"
      using that unfolding UUID_PATTERN_def set_append by auto
    then show ?thesis
      using hex_request_id by (auto simp: is_request_id_char_def is_digit_def is_upper_def is_lower_def word_le_nat_alt)
  qed
  then have "list_all is_request_id_char s"
    using m unfolding list_all_iff list_all2_conv_all_nth by (metis in_set_conv_nth)
  moreover have "length s = 36" using list_all2_lengthD [OF m] by (simp add: UUID_PATTERN_def)
  ultimately show ?thesis
    by (auto simp: isValidRequestId_def REQUEST_ID_PATTERN_def MAX_REQUEST_ID_LENGTH_def)
qed

text \<open>Whatever the client sends, the id that is logged and sent back is short and free of line breaks,
  quotes and other separators.\<close>

lemma request_ids_safe:
  assumes "ids_ok e"
  shows "isValidRequestId (requestIdMiddleware e incoming)" "isValidRequestId (resolveRequestId e header fallback)"
  using is_uuid_request_id assms
  by (auto simp: requestIdMiddleware_def resolveRequestId_def request_id_rules candidateId_def ids_ok_def
      split: option.split header.split list.split)

section \<open>Input rules and start-up\<close>

lemma control_rules:
  "noControlCharacters False s \<longleftrightarrow> \<not> containsControlCharacters s"
  "noControlCharacters False s \<Longrightarrow> noControlCharacters True s"
  "noControlCharacters True s \<longleftrightarrow> (\<forall>c\<in>set s. is_control c \<longrightarrow> c \<in> {9, 10, 13})"
proof -
  show "noControlCharacters False s \<longleftrightarrow> \<not> containsControlCharacters s"
    by (auto simp: noControlCharacters_def containsControlCharacters_def list_all_iff list_ex_iff)
  have cls: "(c \<le> 0x08 \<or> c = 0x0B \<or> c = 0x0C \<or> (0x0E \<le> c \<and> c \<le> 0x1F) \<or> (0x7F \<le> c \<and> c \<le> 0x9F))
      \<longleftrightarrow> is_control c \<and> c \<notin> {9, 10, 13}" for c :: jschar
    by (auto simp: is_control_def word_le_nat_alt word_unat_eq_iff)
  show multi: "noControlCharacters True s \<longleftrightarrow> (\<forall>c\<in>set s. is_control c \<longrightarrow> c \<in> {9, 10, 13})"
    unfolding noControlCharacters_def if_True cls by (auto simp: list_all_iff)
  show "noControlCharacters True s" if "noControlCharacters False s"
    using that unfolding multi by (auto simp: noControlCharacters_def list_all_iff)
qed

lemma indexOf_ge: "- 1 \<le> indexOf x xs"
  by (induction xs) auto

lemma indexOf_absent: "indexOf x xs = - 1 \<longleftrightarrow> x \<notin> set xs"
proof (induction xs)
  case (Cons y ys)
  then show ?case using indexOf_ge [of x ys] by auto
qed simp

lemma indexOf_nth: "x \<in> set xs \<Longrightarrow> \<exists>k. indexOf x xs = int k \<and> k < length xs \<and> xs ! k = x"
proof (induction xs)
  case (Cons y ys)
  show ?case
  proof (cases "x = y")
    case False
    with Cons obtain k where "indexOf x ys = int k" "k < length ys" "ys ! k = x" by auto
    with False show ?thesis by (intro exI [of _ "Suc k"]) simp
  qed (intro exI [of _ 0], simp)
qed simp

text \<open>The levels up to the configured one; an unknown level counts as \<open>log\<close>.\<close>

lemma resolveLogLevels_last:
  "last (resolveLogLevels level) = (if level \<in> set LOG_LEVELS then level else ''log'')"
proof (cases "level \<in> set LOG_LEVELS")
  case True
  from indexOf_nth [OF this] obtain k where k: "indexOf level LOG_LEVELS = int k" "k < length LOG_LEVELS"
      "LOG_LEVELS ! k = level" by (elim exE conjE)
  then have "resolveLogLevels level = take k LOG_LEVELS @ [level]"
    by (simp add: resolveLogLevels_def nat_add_distrib take_Suc_conv_app_nth)
  then show ?thesis using True by simp
next
  case False
  then have "indexOf level LOG_LEVELS = - 1" by (simp add: indexOf_absent)
  then have four: "resolveLogLevels level = take 4 LOG_LEVELS" by (simp add: resolveLogLevels_def)
  have "last (take 4 LOG_LEVELS) = ''log''" by (simp add: LOG_LEVELS_def)
  then show ?thesis unfolding four if_not_P [OF False] .
qed

end
