(* ===== verification/Ownership.thy ===== *)
theory Ownership
  imports Users
begin

text \<open>
  The contract every owned resource shares. A service loads a resource through one function that
  takes the caller and the id; whatever the reason it does not find it (no such row, a foreign row,
  a deleted row), it answers the same error and writes nothing but a log line. The locale states
  this contract and what follows from it; folders, documents and recognition results interpret it.
\<close>

locale owned_resource =
  fixes get :: "uuid \<Rightarrow> uuid \<Rightarrow> RequestContext \<Rightarrow> World \<Rightarrow> 'r outcome"
    and rows :: "World \<Rightarrow> 'r list"
    and rid :: "'r \<Rightarrow> uuid"
    and owner :: "'r \<Rightarrow> uuid"
    and live :: "'r \<Rightarrow> bool"
    and missing :: failure
  assumes get_found: "get u i ctx w = (Inr r, w') \<Longrightarrow>
      w' = w \<and> r \<in> set (rows w) \<and> rid r = i \<and> owner r = u \<and> live r"
    and get_missing: "get u i ctx w = (Inl f, w') \<Longrightarrow>
      f = missing \<and> (\<exists>evs. w' = w\<lparr>events := events w @ evs\<rparr>)
      \<and> (\<forall>r\<in>set (rows w). \<not> (rid r = i \<and> owner r = u \<and> live r))"
begin

lemma get_cases:
  obtains (found) r where "get u i ctx w = (Inr r, w)" "r \<in> set (rows w)" "rid r = i" "owner r = u" "live r"
  | (missing) evs where "get u i ctx w = (Inl missing, w\<lparr>events := events w @ evs\<rparr>)"
      "\<forall>r\<in>set (rows w). \<not> (rid r = i \<and> owner r = u \<and> live r)"
proof (cases "get u i ctx w")
  case (Pair res w')
  show ?thesis
  proof (cases res)
    case (Inl f)
    with Pair get_missing [of u i ctx w f w'] that(2) show ?thesis by auto
  next
    case (Inr r)
    with Pair get_found [of u i ctx w r w'] that(1) show ?thesis by auto
  qed
qed

text \<open>An id that is not the caller's gives the same answer as an id that does not exist.\<close>

lemma get_foreign:
  assumes "\<forall>r\<in>set (rows w). rid r = i \<longrightarrow> owner r \<noteq> u \<or> \<not> live r"
  shows "fst (get u i ctx w) = Inl missing"
  using assms by (cases rule: get_cases [of u i ctx w]) auto

lemma get_own:
  assumes "distinct (map rid (rows w))" and "r \<in> set (rows w)" and "owner r = u" and "live r"
  shows "get u (rid r) ctx w = (Inr r, w)"
proof (cases rule: get_cases [of u "rid r" ctx w])
  case (found s)
  with assms(1,2) have "s = r" by (auto simp: distinct_map dest: inj_onD)
  with found show ?thesis by simp
qed (use assms in blast)

lemma get_iff:
  assumes "distinct (map rid (rows w))"
  shows "fst (get u i ctx w) = Inr r \<longleftrightarrow> r \<in> set (rows w) \<and> rid r = i \<and> owner r = u \<and> live r"
proof
  assume "fst (get u i ctx w) = Inr r"
  then show "r \<in> set (rows w) \<and> rid r = i \<and> owner r = u \<and> live r"
    by (cases rule: get_cases [of u i ctx w]) auto
next
  assume "r \<in> set (rows w) \<and> rid r = i \<and> owner r = u \<and> live r"
  then show "fst (get u i ctx w) = Inr r" using get_own [OF assms] by force
qed

end

end
