(* ===== verification/Folders.thy ===== *)
theory Folders
  imports Ownership
begin

text \<open>
  The folder hierarchy: \<open>folders/folders.service.ts\<close>, \<open>folders.errors.ts\<close> and
  \<open>folders.serializer.ts\<close>. The two recursive queries are written as the recursions they are, with the
  bound of 64 levels. Creating under a parent, moving and deleting run in one transaction that holds
  the caller's advisory lock, so each is one step on the state; the foreign keys (\<open>Restrict\<close> on the
  parent, \<open>SetNull\<close> on documents) are part of the writes.

  The lemmas show that the hierarchy stays a forest of depth at most ten in which parents have the
  owner of their children, that cycles are detected exactly, and that deletion loses no document.
\<close>

section \<open>Errors\<close>

definition MAX_FOLDER_DEPTH :: nat where
  "MAX_FOLDER_DEPTH = 10"

definition RECURSION_LIMIT :: nat where
  "RECURSION_LIMIT = 64"

definition folderNotFound :: failure where
  "folderNotFound = appException 404 ''FOLDER_NOT_FOUND'' ''Folder not found''"

definition folderSelfParent :: failure where
  "folderSelfParent = appException 400 ''INVALID_FOLDER'' ''A folder cannot be its own parent''"

definition folderCycle :: failure where
  "folderCycle = appException 400 ''FOLDER_CYCLE_DETECTED''
     ''A folder cannot be moved inside one of its own descendants''"

definition folderDepthExceeded :: failure where
  "folderDepthExceeded = appException 400 ''FOLDER_DEPTH_EXCEEDED''
     (''Folders cannot be nested deeper than '' @ nat_str MAX_FOLDER_DEPTH @ '' levels'')"

section \<open>Queries\<close>

record CreateFolderDto =
  cf_name :: jsstring
  cf_parentId :: "uuid option"

record UpdateFolderDto =
  uf_name :: "jsstring option option"
  uf_parentId :: "uuid option option"

record FolderDeletionResult =
  fdr_id :: uuid
  fdr_movedDocuments :: nat
  fdr_promotedFolders :: nat

definition folderEvent ::
  "SecurityEventType \<Rightarrow> uuid \<Rightarrow> RequestContext \<Rightarrow> string option \<Rightarrow> (string \<times> detail) list \<Rightarrow> SecurityEvent" where
  "folderEvent ty userId ctx reason details =
     \<lparr>ev_type = ty, ev_userId = Some userId, ev_sessionId = None, ev_requestId = ctx_requestId ctx,
      ev_ip = ctx_ipAddress ctx, ev_reason = reason, ev_details = details\<rparr>"

definition folderNotFoundFor :: "uuid \<Rightarrow> uuid \<Rightarrow> RequestContext \<Rightarrow> World \<Rightarrow> failure \<times> World" where
  "folderNotFoundFor userId folderId ctx w =
     (folderNotFound,
      if countRows (\<lambda>f. f_id f = folderId) (folders w) > 0
      then recordEvent (folderEvent FOLDER_ACCESS_DENIED userId ctx (Some ''not_owner'')
             [(''folderId'', DText folderId)]) w
      else w)"

definition getOwnedFolder :: "uuid \<Rightarrow> uuid \<Rightarrow> RequestContext \<Rightarrow> World \<Rightarrow> Folder outcome" where
  "getOwnedFolder userId folderId ctx w =
     (case findFirst (\<lambda>f. f_id f = folderId \<and> f_userId f = userId) (folders w) of
        Some folder \<Rightarrow> (Inr folder, w)
      | None \<Rightarrow> (let (f, w') = folderNotFoundFor userId folderId ctx w in (Inl f, w')))"

text \<open>The recursive query upwards: ids of a folder and its ancestors, nearest first.\<close>

fun chainFrom :: "nat \<Rightarrow> Folder list \<Rightarrow> uuid \<Rightarrow> uuid \<Rightarrow> uuid list" where
  "chainFrom 0 fs userId folderId = []"
| "chainFrom (Suc n) fs userId folderId =
     (case findFirst (\<lambda>f. f_id f = folderId \<and> f_userId f = userId) fs of
        None \<Rightarrow> []
      | Some f \<Rightarrow>
          f_id f # (case f_parentId f of None \<Rightarrow> [] | Some p \<Rightarrow> chainFrom n fs userId p))"

definition ancestorChain :: "uuid \<Rightarrow> uuid \<Rightarrow> World \<Rightarrow> uuid list" where
  "ancestorChain userId folderId w = chainFrom RECURSION_LIMIT (folders w) userId folderId"

text \<open>The recursive query downwards, level by level.\<close>

definition childLevel :: "Folder list \<Rightarrow> uuid \<Rightarrow> uuid list \<Rightarrow> uuid list" where
  "childLevel fs userId level =
     map f_id (filter (\<lambda>f. f_userId f = userId \<and> list_ex (\<lambda>i. f_parentId f = Some i) level) fs)"

fun heightFrom :: "nat \<Rightarrow> Folder list \<Rightarrow> uuid \<Rightarrow> uuid list \<Rightarrow> nat" where
  "heightFrom 0 fs userId level = 0"
| "heightFrom (Suc n) fs userId level =
     (if level = [] then 0 else Suc (heightFrom n fs userId (childLevel fs userId level)))"

definition subtreeHeight :: "uuid \<Rightarrow> uuid \<Rightarrow> World \<Rightarrow> nat" where
  "subtreeHeight userId folderId w =
     heightFrom RECURSION_LIMIT (folders w) userId
       (map f_id (filter (\<lambda>f. f_id f = folderId \<and> f_userId f = userId) (folders w)))"

text \<open>\<open>assertValidMove\<close>: the failure to throw, if any.\<close>

definition assertValidMove ::
  "uuid \<Rightarrow> Folder \<Rightarrow> uuid option \<Rightarrow> RequestContext \<Rightarrow> World \<Rightarrow> failure option \<times> World" where
  "assertValidMove userId folder newParentId ctx w =
     (if newParentId = Some (f_id folder) then (Some folderSelfParent, w)
      else
        (case newParentId of
           None \<Rightarrow>
             (if 0 + subtreeHeight userId (f_id folder) w > MAX_FOLDER_DEPTH
              then (Some folderDepthExceeded, w) else (None, w))
         | Some np \<Rightarrow>
             (let chain = ancestorChain userId np w
              in if chain = [] then (let (f, w') = folderNotFoundFor userId np ctx w in (Some f, w'))
                 else if f_id folder \<in> set chain then (Some folderCycle, w)
                 else if length chain + subtreeHeight userId (f_id folder) w > MAX_FOLDER_DEPTH
                 then (Some folderDepthExceeded, w) else (None, w))))"

section \<open>Operations\<close>

text \<open>The insert: primary key, parent and owner are checked by the database.\<close>

definition prismaFolderCreate :: "Folder \<Rightarrow> World \<Rightarrow> Folder outcome" where
  "prismaFolderCreate row w =
     (if findFirst (\<lambda>f. f_id f = f_id row) (folders w) \<noteq> None then (Inl P2002, w)
      else if (\<exists>p\<in>set_option (f_parentId row). findFirst (\<lambda>f. f_id f = p) (folders w) = None)
              \<or> findUserById (f_userId row) w = None
      then (Inl (Internal ''P2003''), w)
      else (Inr row, w\<lparr>folders := createRow row (folders w)\<rparr>))"

definition createFolder ::
  "run \<Rightarrow> uuid \<Rightarrow> CreateFolderDto \<Rightarrow> RequestContext \<Rightarrow> World \<Rightarrow> Folder outcome" where
  "createFolder e userId dto ctx w =
     (let parentId = cf_parentId dto;
          row = \<lparr>f_id = freshId e 0, f_userId = userId, f_name = cf_name dto, f_parentId = parentId,
                 f_createdAt = clock e 0, f_updatedAt = clock e 0\<rparr>;
          (checked, w1) =
            (if truthy parentId
             then (let chain = ancestorChain userId (the parentId) w
                   in if chain = []
                      then (let (f, w') = folderNotFoundFor userId (the parentId) ctx w in (Some f, w'))
                      else if length chain + 1 > MAX_FOLDER_DEPTH then (Some folderDepthExceeded, w)
                      else (None, w))
             else (None, w))
      in case checked of
           Some f \<Rightarrow> (Inl f, w1)
         | None \<Rightarrow>
             (case prismaFolderCreate row w1 of
                (Inl f, w2) \<Rightarrow> (Inl f, w2)
              | (Inr folder, w2) \<Rightarrow>
                  (Inr folder,
                   recordEvent (folderEvent FOLDER_CREATED userId ctx None
                     [(''folderId'', DText (f_id folder)), (''parentId'', idDetail (f_parentId folder))]) w2)))"

text \<open>\<open>list\<close>: \<open>byName\<close> is the collation order of the database on names.\<close>

definition folderOrder :: "(jsstring \<Rightarrow> jsstring \<Rightarrow> bool) \<Rightarrow> Folder \<Rightarrow> Folder \<Rightarrow> bool" where
  "folderOrder byName f g \<longleftrightarrow>
     byName (f_name f) (f_name g) \<and> (\<not> byName (f_name g) (f_name f) \<or> f_createdAt f \<le> f_createdAt g)"

definition listFolders ::
  "run \<Rightarrow> (jsstring \<Rightarrow> jsstring \<Rightarrow> bool) \<Rightarrow> uuid \<Rightarrow> uuid option option \<Rightarrow> RequestContext \<Rightarrow> World
   \<Rightarrow> Folder list outcome" where
  "listFolders e byName userId parentId ctx w =
     (let (checked, w1) =
            (case parentId of
               Some (Some p) \<Rightarrow>
                 if p = [] then (None, w)
                 else (case getOwnedFolder userId p ctx w of
                         (Inl f, w') \<Rightarrow> (Some f, w') | (Inr _, w') \<Rightarrow> (None, others e 0 w'))
             | _ \<Rightarrow> (None, w))
      in case checked of
           Some f \<Rightarrow> (Inl f, w1)
         | None \<Rightarrow>
             (Inr (orderBy (folderOrder byName)
                (findMany (\<lambda>f. f_userId f = userId
                    \<and> (case parentId of None \<Rightarrow> True | Some p \<Rightarrow> f_parentId f = p)) (folders w1))), w1))"

definition applyFolderData ::
  "jsstring option \<Rightarrow> uuid option option \<Rightarrow> time \<Rightarrow> Folder \<Rightarrow> Folder" where
  "applyFolderData name parent now f =
     f\<lparr>f_name := (case name of None \<Rightarrow> f_name f | Some n \<Rightarrow> n),
       f_parentId := (case parent of None \<Rightarrow> f_parentId f | Some p \<Rightarrow> p), f_updatedAt := now\<rparr>"

text \<open>The transaction of \<open>update\<close>. The validation lets an explicit null through as the name; the
  column does not take it, and the client library throws.\<close>

definition updateFolderTx ::
  "run \<Rightarrow> uuid \<Rightarrow> uuid \<Rightarrow> UpdateFolderDto \<Rightarrow> RequestContext \<Rightarrow> World \<Rightarrow> Folder outcome" where
  "updateFolderTx e userId folderId dto ctx w =
     (case getOwnedFolder userId folderId ctx w of
        (Inl f, w1) \<Rightarrow> (Inl f, w1)
      | (Inr current, w1) \<Rightarrow>
          (let move = (case uf_parentId dto of None \<Rightarrow> None
                       | Some np \<Rightarrow> if np = f_parentId current then None else Some np);
               (checked, w2) = (case move of None \<Rightarrow> (None, w1)
                                | Some np \<Rightarrow> assertValidMove userId current np ctx w1)
           in case checked of
                Some f \<Rightarrow> (Inl f, w2)
              | None \<Rightarrow>
                  (case uf_name dto of
                     Some None \<Rightarrow> (Inl (Internal ''PrismaClientValidationError''), w2)
                   | name \<Rightarrow>
                       if name = None \<and> move = None then (Inr current, w2)
                       else
                         (let nm = (case name of Some (Some n) \<Rightarrow> Some n | _ \<Rightarrow> None)
                          in (Inr (applyFolderData nm move (clock e 0) current),
                              w2\<lparr>folders := snd (updateMany (\<lambda>f. f_id f = f_id current)
                                    (applyFolderData nm move (clock e 0)) (folders w2))\<rparr>)))))"

definition updateFolder ::
  "run \<Rightarrow> uuid \<Rightarrow> uuid \<Rightarrow> UpdateFolderDto \<Rightarrow> RequestContext \<Rightarrow> World \<Rightarrow> Folder outcome" where
  "updateFolder e userId folderId dto ctx w =
     (case updateFolderTx e userId folderId dto ctx w of
        (Inl f, w') \<Rightarrow> (Inl f, w')
      | (Inr folder, w') \<Rightarrow>
          (Inr folder,
           recordEvent (folderEvent FOLDER_UPDATED userId ctx None
             [(''folderId'', DText (f_id folder)), (''parentId'', idDetail (f_parentId folder)),
              (''renamed'', DBool (uf_name dto \<noteq> None))]) w'))"

text \<open>The transaction of \<open>remove\<close>. Deleting the row fails while a folder still has it as its parent,
  and sets the folder of any document left in it to null.\<close>

definition removeFolderTx ::
  "run \<Rightarrow> uuid \<Rightarrow> uuid \<Rightarrow> RequestContext \<Rightarrow> World \<Rightarrow> FolderDeletionResult outcome" where
  "removeFolderTx e userId folderId ctx w =
     (case getOwnedFolder userId folderId ctx w of
        (Inl f, w1) \<Rightarrow> (Inl f, w1)
      | (Inr folder, w1) \<Rightarrow>
          (let (moved, ds) = updateMany (\<lambda>d. d_folderId d = Some (f_id folder) \<and> d_userId d = userId)
                               (\<lambda>d. d\<lparr>d_folderId := None, d_updatedAt := clock e 0\<rparr>) (documents w1);
               (promoted, fs) = updateMany (\<lambda>f. f_parentId f = Some (f_id folder) \<and> f_userId f = userId)
                               (\<lambda>f. f\<lparr>f_parentId := f_parentId folder, f_updatedAt := clock e 0\<rparr>) (folders w1);
               (deleted, fs') = deleteMany (\<lambda>f. f_id f = f_id folder \<and> f_userId f = userId) fs
           in if findFirst (\<lambda>f. f_parentId f = Some (f_id folder)) fs' \<noteq> None
              then (Inl (Internal ''P2003''), w1)
              else if deleted \<noteq> 1 then (Inl folderNotFound, w1)
              else (Inr \<lparr>fdr_id = f_id folder, fdr_movedDocuments = moved, fdr_promotedFolders = promoted\<rparr>,
                    w1\<lparr>folders := fs',
                       documents := snd (updateMany (\<lambda>d. d_folderId d = Some (f_id folder))
                                          (\<lambda>d. d\<lparr>d_folderId := None\<rparr>) ds)\<rparr>)))"

definition removeFolder ::
  "run \<Rightarrow> uuid \<Rightarrow> uuid \<Rightarrow> RequestContext \<Rightarrow> World \<Rightarrow> FolderDeletionResult outcome" where
  "removeFolder e userId folderId ctx w =
     (case removeFolderTx e userId folderId ctx w of
        (Inl f, w') \<Rightarrow> (Inl f, w')
      | (Inr result, w') \<Rightarrow>
          (Inr result,
           recordEvent (folderEvent FOLDER_DELETED userId ctx None
             [(''folderId'', DText (fdr_id result)), (''movedDocuments'', DNumber (int (fdr_movedDocuments result))),
              (''promotedFolders'', DNumber (int (fdr_promotedFolders result)))]) w'))"

record FolderDto =
  fdto_id :: uuid
  fdto_name :: jsstring
  fdto_parentId :: "uuid option"
  fdto_createdAt :: time
  fdto_updatedAt :: time

definition toFolderDto :: "Folder \<Rightarrow> FolderDto" where
  "toFolderDto f = \<lparr>fdto_id = f_id f, fdto_name = f_name f, fdto_parentId = f_parentId f,
     fdto_createdAt = f_createdAt f, fdto_updatedAt = f_updatedAt f\<rparr>"

section \<open>The loading contract\<close>

lemma getOwnedFolder_cases:
  "getOwnedFolder u i ctx w =
     (case findFirst (\<lambda>f. f_id f = i \<and> f_userId f = u) (folders w) of
        Some folder \<Rightarrow> (Inr folder, w)
      | None \<Rightarrow> (Inl folderNotFound, snd (folderNotFoundFor u i ctx w)))"
  by (simp add: getOwnedFolder_def folderNotFoundFor_def split: option.split)

lemma folderNotFoundFor_log: "\<exists>evs. snd (folderNotFoundFor u i ctx w) = w\<lparr>events := events w @ evs\<rparr>"
  by (auto simp: folderNotFoundFor_def recordEvent_def intro: exI [of _ "[]"])

interpretation fol: owned_resource getOwnedFolder folders f_id f_userId "\<lambda>_. True" folderNotFound
proof unfold_locales
  fix u i ctx w r w'
  assume "getOwnedFolder u i ctx w = (Inr r, w')"
  then show "w' = w \<and> r \<in> set (folders w) \<and> f_id r = i \<and> f_userId r = u \<and> True"
    by (auto simp: getOwnedFolder_cases split: option.splits dest: findFirst_SomeD)
next
  fix u i ctx w f w'
  assume "getOwnedFolder u i ctx w = (Inl f, w')"
  then show "f = folderNotFound \<and> (\<exists>evs. w' = w\<lparr>events := events w @ evs\<rparr>)
      \<and> (\<forall>r\<in>set (folders w). \<not> (f_id r = i \<and> f_userId r = u \<and> True))"
    using folderNotFoundFor_log by (auto simp: getOwnedFolder_cases tbl.find_none split: option.splits)
qed

lemma folderNotFoundFor_frame [simp]:
  "fst (folderNotFoundFor u i ctx w) = folderNotFound"
  "folders (snd (folderNotFoundFor u i ctx w)) = folders w"
  "documents (snd (folderNotFoundFor u i ctx w)) = documents w"
  by (simp_all add: folderNotFoundFor_def)

section \<open>Forests\<close>

text \<open>The level of a folder, root folders being on level 1, and the distance to a folder above it.
  Both only hold for folders whose chain of parents ends, so a forest has no cycles.\<close>

inductive depth_of :: "Folder list \<Rightarrow> uuid \<Rightarrow> nat \<Rightarrow> bool" for fs where
  root: "f \<in> set fs \<Longrightarrow> f_parentId f = None \<Longrightarrow> depth_of fs (f_id f) 1"
| nested: "f \<in> set fs \<Longrightarrow> f_parentId f = Some p \<Longrightarrow> depth_of fs p n \<Longrightarrow> depth_of fs (f_id f) (Suc n)"

inductive below :: "Folder list \<Rightarrow> uuid \<Rightarrow> uuid \<Rightarrow> nat \<Rightarrow> bool" for fs anc where
  here: "f \<in> set fs \<Longrightarrow> f_id f = anc \<Longrightarrow> below fs anc anc 0"
| step: "f \<in> set fs \<Longrightarrow> f_parentId f = Some p \<Longrightarrow> below fs anc p k \<Longrightarrow> below fs anc (f_id f) (Suc k)"

inductive_cases depth_ofE: "depth_of fs i n"
inductive_cases belowE: "below fs anc i k"

text \<open>Ids are unique and a parent exists and has the owner of its child.\<close>

definition tree_ok :: "Folder list \<Rightarrow> bool" where
  "tree_ok fs \<longleftrightarrow> distinct (map f_id fs) \<and> (\<forall>f\<in>set fs. f_id f \<noteq> [])
     \<and> (\<forall>f\<in>set fs. \<forall>p. f_parentId f = Some p \<longrightarrow> (\<exists>g\<in>set fs. f_id g = p \<and> f_userId g = f_userId f))"

definition forest :: "Folder list \<Rightarrow> bool" where
  "forest fs \<longleftrightarrow> tree_ok fs \<and> (\<forall>f\<in>set fs. \<exists>n\<le>MAX_FOLDER_DEPTH. depth_of fs (f_id f) n)"

lemma tree_ok_same: "tree_ok fs \<Longrightarrow> f \<in> set fs \<Longrightarrow> g \<in> set fs \<Longrightarrow> f_id f = f_id g \<Longrightarrow> f = g"
  by (auto simp: tree_ok_def distinct_map dest: inj_onD)

lemma tree_ok_parent:
  "tree_ok fs \<Longrightarrow> f \<in> set fs \<Longrightarrow> f_parentId f = Some (f_id g) \<Longrightarrow> g \<in> set fs \<Longrightarrow> f_userId g = f_userId f"
  by (metis tree_ok_def tree_ok_same)

lemma forestD: "forest fs \<Longrightarrow> tree_ok fs"
  "forest fs \<Longrightarrow> f \<in> set fs \<Longrightarrow> \<exists>n\<le>MAX_FOLDER_DEPTH. depth_of fs (f_id f) n"
  by (auto simp: forest_def)

lemma depth_of_mem: "depth_of fs i n \<Longrightarrow> \<exists>f\<in>set fs. f_id f = i"
  by (auto elim: depth_of.cases)

lemma below_mem: "below fs anc i k \<Longrightarrow> \<exists>f\<in>set fs. f_id f = i"
  by (auto elim: below.cases)

lemma depth_of_unique:
  assumes "depth_of fs i n" and "tree_ok fs" and "depth_of fs i m"
  shows "m = n"
  using assms(1,3)
proof (induction i n arbitrary: m rule: depth_of.induct)
  case (root f)
  from root(3) show ?case
  proof (cases rule: depth_of.cases)
    case (nested g q k)
    then have "g = f" using tree_ok_same [OF assms(2)] root(1) by metis
    with nested(4) root(2) show ?thesis by simp
  qed
next
  case (nested f p n)
  from nested(5) show ?case
  proof (cases rule: depth_of.cases)
    case (root g)
    then have "g = f" using tree_ok_same [OF assms(2)] nested(1) by metis
    with root(4) nested(2) show ?thesis by simp
  next
    case (nested g q k)
    then have "g = f" using tree_ok_same [OF assms(2)] \<open>f \<in> set fs\<close> by metis
    with nested(2,4,5) \<open>f_parentId f = Some p\<close> \<open>\<And>m. depth_of fs p m \<Longrightarrow> m = n\<close> show ?thesis by simp
  qed
qed

lemma find_own:
  assumes "tree_ok fs" and "g \<in> set fs"
  shows "findFirst (\<lambda>f. f_id f = f_id g \<and> f_userId f = f_userId g) fs = Some g"
  using assms by (intro tbl.find_first_of_keys [where key = f_id]) (auto simp: tree_ok_def)

lemma chainFrom_length:
  assumes "depth_of fs i n" and "tree_ok fs" and "g \<in> set fs" and "f_id g = i" and "n \<le> k"
  shows "length (chainFrom k fs (f_userId g) i) = n"
  using assms(1,3-5)
proof (induction i n arbitrary: g k rule: depth_of.induct)
  case (root f)
  then have "g = f" using tree_ok_same [OF assms(2)] by auto
  with root find_own [OF assms(2) root(1)] show ?case by (cases k) auto
next
  case (nested f p n)
  then have gf: "g = f" using tree_ok_same [OF assms(2)] by auto
  obtain h where h: "h \<in> set fs" "f_id h = p" "f_userId h = f_userId f"
    using assms(2) nested(1,2) unfolding tree_ok_def by metis
  from nested(7) obtain k' where k: "k = Suc k'" "n \<le> k'" by (cases k) auto
  have "length (chainFrom k' fs (f_userId f) p) = n"
    using nested(4) [OF h(1,2) k(2)] h(3) by simp
  with gf k nested(2) find_own [OF assms(2) nested(1)] show ?case by simp
qed

lemma chainFrom_below:
  assumes "tree_ok fs" and "g \<in> set fs"
  shows "x \<in> set (chainFrom k fs (f_userId g) (f_id g)) \<longleftrightarrow> (\<exists>j<k. below fs x (f_id g) j)"
  using assms(2)
proof (induction k arbitrary: g)
  case 0
  then show ?case by simp
next
  case (Suc k)
  have up: "below fs x (f_id g) j \<longleftrightarrow>
      (j = 0 \<and> x = f_id g) \<or> (\<exists>p j'. j = Suc j' \<and> f_parentId g = Some p \<and> below fs x p j')" for j
  proof
    assume "below fs x (f_id g) j"
    then show "(j = 0 \<and> x = f_id g) \<or> (\<exists>p j'. j = Suc j' \<and> f_parentId g = Some p \<and> below fs x p j')"
    proof (cases rule: below.cases)
      case (step f p j')
      moreover from step have "f = g" using tree_ok_same [OF assms(1)] Suc.prems by metis
      ultimately show ?thesis by blast
    qed simp
  next
    assume "(j = 0 \<and> x = f_id g) \<or> (\<exists>p j'. j = Suc j' \<and> f_parentId g = Some p \<and> below fs x p j')"
    then show "below fs x (f_id g) j"
      using below.here [OF Suc.prems refl] below.step [OF Suc.prems] by blast
  qed
  show ?case
  proof (cases "f_parentId g")
    case None
    then show ?thesis using find_own [OF assms(1) Suc.prems] up by auto
  next
    case (Some p)
    then obtain h where h: "h \<in> set fs" "f_id h = p" "f_userId h = f_userId g"
      using assms(1) Suc.prems unfolding tree_ok_def by metis
    have "x \<in> set (chainFrom k fs (f_userId g) p) \<longleftrightarrow> (\<exists>j<k. below fs x p j)"
      using Suc.IH [OF h(1)] h(2,3) by simp
    then show ?thesis
      using find_own [OF assms(1) Suc.prems] Some up by (auto simp: less_Suc_eq_0_disj)
  qed
qed

text \<open>A path down from a folder starts with one of its children.\<close>

lemma below_first: "below fs anc i (Suc k) \<Longrightarrow> \<exists>c\<in>set fs. f_parentId c = Some anc \<and> below fs (f_id c) i k"
proof (induction k arbitrary: i)
  case 0
  from 0 show ?case
  proof (cases rule: below.cases)
    case (step f p)
    then have "p = anc" by (auto elim: belowE)
    with step below.here [of f fs "f_id f"] show ?thesis by auto
  qed
next
  case (Suc k)
  from Suc.prems show ?case
  proof (cases rule: below.cases)
    case (step f p)
    then obtain c where "c \<in> set fs" "f_parentId c = Some anc" "below fs (f_id c) p k" using Suc.IH by blast
    with step show ?thesis using below.step by blast
  qed
qed

lemma heightFrom_below:
  assumes "tree_ok fs" and "below fs (f_id t) i k" and "t \<in> set fs" and "f_userId t = u"
    and "f_id t \<in> set level" and "k < m"
  shows "Suc k \<le> heightFrom m fs u level"
  using assms(2-6)
proof (induction k arbitrary: t level m rule: nat.induct)
  case zero
  then show ?case by (cases m) auto
next
  case (Suc k)
  obtain m' where m: "m = Suc m'" "k < m'" using Suc.prems(5) by (cases m) auto
  obtain c where c: "c \<in> set fs" "f_parentId c = Some (f_id t)" "below fs (f_id c) i k"
    using below_first [OF Suc.prems(1)] by blast
  then have uc: "f_userId c = u" using tree_ok_parent [OF assms(1) c(1,2) Suc.prems(2)] Suc.prems(3) by simp
  have "f_id c \<in> set (childLevel fs u level)"
    using c uc Suc.prems(4) by (auto simp: childLevel_def list_ex_iff)
  then have "Suc k \<le> heightFrom m' fs u (childLevel fs u level)"
    using Suc.IH [OF c(3,1) uc _ m(2)] by blast
  with m(1) Suc.prems(4) show ?case by auto
qed

lemma below_less_depth: "below fs anc i k \<Longrightarrow> tree_ok fs \<Longrightarrow> depth_of fs i n \<Longrightarrow> k < n"
proof (induction arbitrary: n rule: below.induct)
  case (here f)
  then show ?case by (auto elim: depth_of.cases)
next
  case (step f p k)
  from step(6) show ?case
  proof (cases rule: depth_of.cases)
    case (root g)
    then have "g = f" using tree_ok_same [OF step(5)] step(1) by metis
    with root(4) step(2) show ?thesis by simp
  next
    case (nested g q j)
    then have "g = f" using tree_ok_same [OF step(5)] step(1) by metis
    with nested(2,4,5) step(2) step(4) [OF step(5)] show ?thesis by auto
  qed
qed

text \<open>Folders below a folder have its owner.\<close>

lemma below_owner:
  assumes "tree_ok fs" and "t \<in> set fs" and "below fs (f_id t) i k"
  shows "\<exists>h\<in>set fs. f_id h = i \<and> f_userId h = f_userId t"
  using assms(3)
proof (induction rule: below.induct)
  case (here f)
  then show ?case using assms(2) by blast
next
  case (step f p k)
  then obtain h where "h \<in> set fs" "f_id h = p" "f_userId h = f_userId t" by blast
  with step show ?case using tree_ok_parent [OF assms(1) step(1)] by metis
qed

text \<open>Changing the parent of one folder: what does not hang below it keeps its level, and what does
  is on the new level of the folder plus the distance.\<close>

locale reparent =
  fixes g :: "Folder \<Rightarrow> Folder" and fid :: uuid
  assumes keep_id: "f_id (g x) = f_id x"
    and keep_user: "f_userId (g x) = f_userId x"
    and keep_parent: "f_id x \<noteq> fid \<Longrightarrow> f_parentId (g x) = f_parentId x"
begin

lemma depth_keep: "depth_of fs i n \<Longrightarrow> (\<forall>k. \<not> below fs fid i k) \<Longrightarrow> depth_of (map g fs) i n"
proof (induction rule: depth_of.induct)
  case (root f)
  then have "f_id f \<noteq> fid" using below.here by metis
  with root have "depth_of (map g fs) (f_id (g f)) 1"
    using keep_parent by (intro depth_of.root) auto
  then show ?case by (simp add: keep_id)
next
  case (nested f p n)
  then have "f_id f \<noteq> fid" using below.here by metis
  moreover have "\<forall>k. \<not> below fs fid p k" using nested below.step by metis
  ultimately have "depth_of (map g fs) (f_id (g f)) (Suc n)"
    using nested keep_parent by (intro depth_of.nested [of _ _ p]) auto
  then show ?case by (simp add: keep_id)
qed

lemma depth_below:
  assumes "depth_of (map g fs) fid d"
  shows "below fs fid i k \<Longrightarrow> depth_of (map g fs) i (d + k) \<or> (\<exists>j<k. below fs fid i j)"
proof (induction rule: below.induct)
  case (here f)
  then show ?case using assms by simp
next
  case (step f p k)
  show ?case
  proof (cases "f_id f = fid")
    case True
    then show ?thesis using step(1) below.here by (metis zero_less_Suc)
  next
    case False
    from step(4) show ?thesis
    proof
      assume "depth_of (map g fs) p (d + k)"
      then have "depth_of (map g fs) (f_id (g f)) (Suc (d + k))"
        using step(1,2) keep_parent [OF False] by (intro depth_of.nested [of _ _ p]) auto
      then show ?thesis by (simp add: keep_id)
    next
      assume "\<exists>j<k. below fs fid p j"
      then show ?thesis using step(1,2) below.step Suc_mono by metis
    qed
  qed
qed

lemma depth_below_ex:
  assumes "depth_of (map g fs) fid d" and "below fs fid i k"
  shows "\<exists>j\<le>k. below fs fid i j \<and> depth_of (map g fs) i (d + j)"
  using assms(2)
proof (induction k rule: less_induct)
  case (less k)
  from depth_below [OF assms(1) less.prems] show ?case
    using less.IH less.prems by (meson le_refl less_imp_le order_trans)
qed

lemma row_kept: "f \<in> set fs \<Longrightarrow> \<exists>f'\<in>set (map g fs). f_id f' = f_id f \<and> f_userId f' = f_userId f"
  by (intro bexI [of _ "g f"]) (simp_all add: keep_id keep_user)

lemma tree_ok_map:
  assumes "tree_ok fs"
    and "\<And>f p. f \<in> set fs \<Longrightarrow> f_id f = fid \<Longrightarrow> f_parentId (g f) = Some p \<Longrightarrow>
          \<exists>h\<in>set fs. f_id h = p \<and> f_userId h = f_userId f"
  shows "tree_ok (map g fs)"
proof -
  have "\<exists>h\<in>set fs. f_id h = p \<and> f_userId h = f_userId f" if "f \<in> set fs" "f_parentId (g f) = Some p" for f p
    using that assms keep_parent [of f] by (cases "f_id f = fid") (auto simp: tree_ok_def)
  then have "\<exists>h\<in>set (map g fs). f_id h = p \<and> f_userId h = f_userId f"
    if "f \<in> set (map g fs)" "f_parentId f = Some p" for f p
    using that keep_id keep_user by fastforce
  moreover have "f_id \<circ> g = f_id" by (auto simp: keep_id)
  ultimately show ?thesis using assms(1) by (auto simp: tree_ok_def keep_id)
qed

lemma forest_map:
  assumes f: "forest fs" and t: "t \<in> set fs" "f_id t = fid"
    and np: "case f_parentId (g t) of None \<Rightarrow> pd = 0
             | Some p \<Rightarrow> (\<exists>h\<in>set fs. f_id h = p \<and> f_userId h = f_userId t)
                 \<and> fid \<notin> set (chainFrom RECURSION_LIMIT fs (f_userId t) p)
                 \<and> pd = length (chainFrom RECURSION_LIMIT fs (f_userId t) p)"
    and fits: "pd + heightFrom RECURSION_LIMIT fs (f_userId t) [fid] \<le> MAX_FOLDER_DEPTH"
  shows "forest (map g fs)"
proof -
  note ok = forestD(1) [OF f]
  have root: "depth_of (map g fs) fid (Suc pd)"
  proof (cases "f_parentId (g t)")
    case None
    with t np have "depth_of (map g fs) (f_id (g t)) 1" by (intro depth_of.root) auto
    with None np t show ?thesis by (simp add: keep_id)
  next
    case (Some p)
    with np obtain h where h: "h \<in> set fs" "f_id h = p" "f_userId h = f_userId t" by auto
    obtain n where n: "n \<le> MAX_FOLDER_DEPTH" "depth_of fs p n" using forestD(2) [OF f h(1)] h(2) by blast
    then have lim: "n \<le> RECURSION_LIMIT" by (simp add: MAX_FOLDER_DEPTH_def RECURSION_LIMIT_def)
    have "pd = n" using chainFrom_length [OF n(2) ok h(1,2) lim] h(3) np Some by simp
    moreover have "\<not> below fs fid p k" for k
    proof
      assume b: "below fs fid p k"
      with below_less_depth [OF b ok n(2)] lim have "k < RECURSION_LIMIT" by simp
      with b chainFrom_below [OF ok h(1), of fid RECURSION_LIMIT] h np Some show False by auto
    qed
    then have "depth_of (map g fs) p n" using depth_keep [OF n(2)] by blast
    ultimately have "depth_of (map g fs) (f_id (g t)) (Suc pd)"
      using t Some by (intro depth_of.nested [of _ _ p]) auto
    then show ?thesis using t by (simp add: keep_id)
  qed
  have "\<exists>n\<le>MAX_FOLDER_DEPTH. depth_of (map g fs) (f_id x) n" if x: "x \<in> set fs" for x
  proof (cases "\<exists>k. below fs fid (f_id x) k")
    case False
    then show ?thesis using forestD(2) [OF f x] depth_keep by blast
  next
    case True
    then obtain j where j: "below fs fid (f_id x) j" "depth_of (map g fs) (f_id x) (Suc pd + j)"
      using depth_below_ex [OF root] by blast
    obtain n where n: "n \<le> MAX_FOLDER_DEPTH" "depth_of fs (f_id x) n" using forestD(2) [OF f x] by blast
    have "j < RECURSION_LIMIT"
      using below_less_depth [OF j(1) ok n(2)] n(1) by (simp add: MAX_FOLDER_DEPTH_def RECURSION_LIMIT_def)
    then have "Suc j \<le> heightFrom RECURSION_LIMIT fs (f_userId t) [fid]"
      using heightFrom_below [OF ok _ t(1) refl, of "f_id x" j "[fid]"] j(1) t(2) by simp
    then have "Suc pd + j \<le> MAX_FOLDER_DEPTH" using fits by simp
    with j(2) show ?thesis by blast
  qed
  moreover have "tree_ok (map g fs)"
  proof (rule tree_ok_map [OF ok])
    fix x p
    assume "x \<in> set fs" "f_id x = fid" "f_parentId (g x) = Some p"
    moreover from this t have "x = t" using tree_ok_same [OF ok] by metis
    ultimately show "\<exists>h\<in>set fs. f_id h = p \<and> f_userId h = f_userId x" using np by auto
  qed
  ultimately show ?thesis by (auto simp: forest_def keep_id)
qed

text \<open>With every parent as it was, every level is.\<close>

lemma forest_same:
  assumes "forest fs" and same: "\<And>x. f_parentId (g x) = f_parentId x"
  shows "forest (map g fs)"
proof -
  have "depth_of fs i n \<Longrightarrow> depth_of (map g fs) i n" for i n
  proof (induction rule: depth_of.induct)
    case (root f)
    then have "depth_of (map g fs) (f_id (g f)) 1" by (intro depth_of.root) (auto simp: same)
    then show ?case by (simp add: keep_id)
  next
    case (nested f p n)
    then have "depth_of (map g fs) (f_id (g f)) (Suc n)" by (intro depth_of.nested [of _ _ p]) (auto simp: same)
    then show ?case by (simp add: keep_id)
  qed
  moreover have "tree_ok (map g fs)"
    using forestD(1) [OF assms(1)] by (intro tree_ok_map) (auto simp: same tree_ok_def)
  ultimately show ?thesis using assms(1) by (fastforce simp: forest_def keep_id)
qed

end

text \<open>The update of one folder, as \<open>updateFolderTx\<close> writes it.\<close>

interpretation upd: reparent "\<lambda>f. if f_id f = fid then applyFolderData nm mv now f else f" fid
  for fid nm mv now
  by unfold_locales (auto simp: applyFolderData_def)

section \<open>Deletion keeps the forest\<close>

text \<open>The table after a deletion: the children take the parent of the deleted row.\<close>

definition promote :: "Folder \<Rightarrow> time \<Rightarrow> Folder list \<Rightarrow> Folder list" where
  "promote t now fs =
     filter (\<lambda>f. f_id f \<noteq> f_id t)
       (map (\<lambda>f. if f_parentId f = Some (f_id t) then f\<lparr>f_parentId := f_parentId t, f_updatedAt := now\<rparr> else f) fs)"

lemma promote_mem:
  assumes "f \<in> set fs" and "f_id f \<noteq> f_id t"
  shows "\<exists>f'\<in>set (promote t now fs). f_id f' = f_id f \<and> f_userId f' = f_userId f
    \<and> f_parentId f' = (if f_parentId f = Some (f_id t) then f_parentId t else f_parentId f)"
proof -
  let ?h = "\<lambda>f. if f_parentId f = Some (f_id t) then f\<lparr>f_parentId := f_parentId t, f_updatedAt := now\<rparr> else f"
  have "?h f \<in> set (promote t now fs)" using assms by (auto simp: promote_def)
  then show ?thesis by (intro bexI [of _ "?h f"]) auto
qed

lemma promote_from:
  assumes "f' \<in> set (promote t now fs)"
  shows "\<exists>f\<in>set fs. f_id f = f_id f' \<and> f_id f \<noteq> f_id t \<and> f_userId f' = f_userId f
    \<and> f_parentId f' = (if f_parentId f = Some (f_id t) then f_parentId t else f_parentId f)"
  using assms by (fastforce simp: promote_def split: if_splits)

lemma promote_ids: "map f_id (promote t now fs) = filter (\<lambda>i. i \<noteq> f_id t) (map f_id fs)"
  unfolding promote_def by (induction fs) auto

lemma no_self_parent:
  assumes "tree_ok fs" and "depth_of fs (f_id t) n" and "t \<in> set fs"
  shows "f_parentId t \<noteq> Some (f_id t)"
proof
  assume self: "f_parentId t = Some (f_id t)"
  from depth_of.nested [OF assms(3) self assms(2)] depth_of_unique [OF assms(2,1)] show False by fastforce
qed

lemma promote_depth:
  assumes ok: "tree_ok fs" and t: "t \<in> set fs" and self: "f_parentId t \<noteq> Some (f_id t)"
  shows "depth_of fs i n \<Longrightarrow>
    (if i = f_id t then \<forall>q. f_parentId t = Some q \<longrightarrow> (\<exists>m<n. depth_of (promote t now fs) q m)
     else \<exists>m\<le>n. depth_of (promote t now fs) i m)"
proof (induction rule: depth_of.induct)
  case (root f)
  show ?case
  proof (cases "f_id f = f_id t")
    case True
    then have "f = t" using tree_ok_same [OF ok] root(1) t by metis
    with root show ?thesis by simp
  next
    case False
    obtain f' where "f' \<in> set (promote t now fs)" "f_id f' = f_id f" "f_parentId f' = None"
      using promote_mem [OF root(1) False] root(2) by auto
    then have "depth_of (promote t now fs) (f_id f) 1" using depth_of.root by metis
    with False show ?thesis by auto
  qed
next
  case (nested f p n)
  show ?case
  proof (cases "f_id f = f_id t")
    case True
    then have "f = t" using tree_ok_same [OF ok] nested(1) t by metis
    with nested self have "p \<noteq> f_id t" "f_parentId t = Some p" by auto
    with nested(4) True show ?thesis by (auto intro: le_imp_less_Suc)
  next
    case False
    obtain f' where f': "f' \<in> set (promote t now fs)" "f_id f' = f_id f"
      "f_parentId f' = (if p = f_id t then f_parentId t else Some p)"
      using promote_mem [OF nested(1) False, of now] nested(2) by auto
    have "\<exists>m\<le>Suc n. depth_of (promote t now fs) (f_id f') m"
    proof (cases "f_parentId f'")
      case None
      then show ?thesis using depth_of.root [OF f'(1)] by (metis One_nat_def Suc_le_mono le0)
    next
      case (Some q)
      then obtain m where "m \<le> n" "depth_of (promote t now fs) q m"
        using nested(4) f'(3) by (auto split: if_splits intro: less_imp_le)
      then show ?thesis using depth_of.nested [OF f'(1) Some] by (meson Suc_le_mono)
    qed
    with False f'(2) show ?thesis by auto
  qed
qed

lemma forest_promote:
  assumes f: "forest fs" and t: "t \<in> set fs"
  shows "forest (promote t now fs)"
proof -
  note ok = forestD(1) [OF f]
  have self: "f_parentId t \<noteq> Some (f_id t)" using forestD(2) [OF f t] no_self_parent [OF ok _ t] by blast
  have "\<exists>n\<le>MAX_FOLDER_DEPTH. depth_of (promote t now fs) (f_id x) n" if x: "x \<in> set (promote t now fs)" for x
  proof -
    obtain y where y: "y \<in> set fs" "f_id y = f_id x" "f_id y \<noteq> f_id t" using promote_from [OF x] by blast
    obtain n where n: "n \<le> MAX_FOLDER_DEPTH" "depth_of fs (f_id x) n" using forestD(2) [OF f y(1)] y(2) by auto
    from promote_depth [OF ok t self n(2), of now] y obtain m where
      "m \<le> n" "depth_of (promote t now fs) (f_id x) m" by auto
    with n(1) show ?thesis by (meson order_trans)
  qed
  moreover have "\<exists>h\<in>set (promote t now fs). f_id h = p \<and> f_userId h = f_userId x"
    if x: "x \<in> set (promote t now fs)" "f_parentId x = Some p" for x p
  proof -
    obtain y where y: "y \<in> set fs" "f_userId x = f_userId y"
      "f_parentId x = (if f_parentId y = Some (f_id t) then f_parentId t else f_parentId y)"
      using promote_from [OF x(1)] by blast
    have "\<exists>h\<in>set fs. f_id h = p \<and> f_userId h = f_userId y \<and> f_id h \<noteq> f_id t"
    proof (cases "f_parentId y = Some (f_id t)")
      case True
      then have "f_userId t = f_userId y" using tree_ok_parent [OF ok y(1) _ t] by simp
      with True ok t x(2) y(3) self show ?thesis by (fastforce simp: tree_ok_def)
    next
      case False
      with ok x(2) y show ?thesis by (fastforce simp: tree_ok_def)
    qed
    then show ?thesis using promote_mem y(2) by metis
  qed
  moreover have "\<forall>x\<in>set (promote t now fs). f_id x \<noteq> []"
    using promote_from ok by (metis tree_ok_def)
  moreover have "distinct (map f_id (promote t now fs))"
    using ok unfolding promote_ids tree_ok_def by simp
  ultimately show ?thesis by (auto simp: forest_def tree_ok_def)
qed

section \<open>The operations on a forest\<close>

text \<open>Documents are filed in existing folders of their owner.\<close>

definition docs_filed :: "World \<Rightarrow> bool" where
  "docs_filed w \<longleftrightarrow> (\<forall>d\<in>set (documents w). \<forall>i. d_folderId d = Some i \<longrightarrow>
     (\<exists>f\<in>set (folders w). f_id f = i \<and> f_userId f = d_userId d))"

definition folders_wf :: "World \<Rightarrow> bool" where
  "folders_wf w \<longleftrightarrow> forest (folders w) \<and> docs_filed w"

lemma folders_wf_cong [simp]: "folders_wf (recordEvent ev w) = folders_wf w"
  by (simp add: folders_wf_def docs_filed_def)

lemma folders_wf_log: "folders_wf (w\<lparr>events := es\<rparr>) = folders_wf w"
  by (simp add: folders_wf_def docs_filed_def)

lemma folders_wf_notFound [simp]: "folders_wf (snd (folderNotFoundFor u i ctx w)) = folders_wf w"
  by (simp add: folders_wf_def docs_filed_def)

lemma not_uuid_Nil: "\<not> is_uuid []"
  by code_simp

lemma ancestorChain_nonempty:
  assumes "ancestorChain u i w \<noteq> []"
  shows "\<exists>h\<in>set (folders w). f_id h = i \<and> f_userId h = u"
  using assms by (auto simp: ancestorChain_def RECURSION_LIMIT_def eval_nat_numeral
      split: option.splits dest: findFirst_SomeD)

lemma depth_of_create: "depth_of fs i n \<Longrightarrow> depth_of (createRow row fs) i n"
proof (induction rule: depth_of.induct)
  case (root f)
  then show ?case by (intro depth_of.root) (auto simp: createRow_def)
next
  case (nested f p n)
  then show ?case by (intro depth_of.nested [of _ _ p]) (auto simp: createRow_def)
qed

lemma forest_create:
  assumes f: "forest fs" and new: "f_id row \<noteq> []" "findFirst (\<lambda>f. f_id f = f_id row) fs = None"
    and parent: "case f_parentId row of None \<Rightarrow> True
      | Some p \<Rightarrow> (\<exists>h\<in>set fs. f_id h = p \<and> f_userId h = f_userId row)
          \<and> length (chainFrom RECURSION_LIMIT fs (f_userId row) p) + 1 \<le> MAX_FOLDER_DEPTH"
  shows "forest (createRow row fs)"
proof -
  note ok = forestD(1) [OF f]
  have "\<exists>n\<le>MAX_FOLDER_DEPTH. depth_of (createRow row fs) (f_id row) n"
  proof (cases "f_parentId row")
    case None
    then have "depth_of (createRow row fs) (f_id row) 1" by (intro depth_of.root) (auto simp: createRow_def)
    then show ?thesis by (metis MAX_FOLDER_DEPTH_def one_le_numeral)
  next
    case (Some p)
    with parent obtain h where h: "h \<in> set fs" "f_id h = p" "f_userId h = f_userId row" by auto
    obtain n where n: "n \<le> MAX_FOLDER_DEPTH" "depth_of fs p n" using forestD(2) [OF f h(1)] h(2) by blast
    then have "n \<le> RECURSION_LIMIT" by (simp add: MAX_FOLDER_DEPTH_def RECURSION_LIMIT_def)
    then have "length (chainFrom RECURSION_LIMIT fs (f_userId row) p) = n"
      using chainFrom_length [OF n(2) ok h(1,2)] h(3) by simp
    with parent Some have "Suc n \<le> MAX_FOLDER_DEPTH" by simp
    moreover have "depth_of (createRow row fs) (f_id row) (Suc n)"
      using Some depth_of_create [OF n(2)] by (intro depth_of.nested [of _ _ p]) (auto simp: createRow_def)
    ultimately show ?thesis by blast
  qed
  moreover have "\<exists>n\<le>MAX_FOLDER_DEPTH. depth_of (createRow row fs) (f_id x) n" if "x \<in> set fs" for x
    using forestD(2) [OF f that] depth_of_create by blast
  moreover have "tree_ok (createRow row fs)"
    using ok new parent by (auto simp: tree_ok_def createRow_def tbl.find_none split: option.splits)
  ultimately show ?thesis by (auto simp: forest_def createRow_def)
qed

lemma createFolder_wf:
  assumes wf: "folders_wf w" and ids: "ids_ok e"
  shows "folders_wf (snd (createFolder e u dto ctx w))"
proof -
  let ?row = "\<lparr>f_id = freshId e 0, f_userId = u, f_name = cf_name dto, f_parentId = cf_parentId dto,
                 f_createdAt = clock e 0, f_updatedAt = clock e 0\<rparr>"
  have id: "freshId e 0 \<noteq> []" using ids not_uuid_Nil by (metis ids_ok_def)
  have "folders_wf (w\<lparr>folders := createRow ?row (folders w)\<rparr>)"
    if pc: "prismaFolderCreate ?row w = (Inr ?row, w\<lparr>folders := createRow ?row (folders w)\<rparr>)"
      and chk: "truthy (cf_parentId dto) \<Longrightarrow> ancestorChain u (the (cf_parentId dto)) w \<noteq> []
          \<and> length (ancestorChain u (the (cf_parentId dto)) w) + 1 \<le> MAX_FOLDER_DEPTH"
  proof -
    have fresh: "findFirst (\<lambda>f. f_id f = freshId e 0) (folders w) = None"
      and par: "\<forall>p\<in>set_option (cf_parentId dto). findFirst (\<lambda>f. f_id f = p) (folders w) \<noteq> None"
      using pc by (auto simp: prismaFolderCreate_def split: if_splits)
    have "truthy (cf_parentId dto)" if "cf_parentId dto = Some p" for p
      using that par wf by (auto simp: truthy_def folders_wf_def forest_def tree_ok_def tbl.find_none)
    then have "forest (createRow ?row (folders w))"
      using wf id fresh chk ancestorChain_nonempty [of u _ w]
      by (intro forest_create) (auto simp: folders_wf_def ancestorChain_def split: option.splits)
    then show ?thesis using wf by (auto simp: folders_wf_def docs_filed_def createRow_def)
  qed
  then show ?thesis
    using wf by (auto simp: createFolder_def prismaFolderCreate_def Let_def case_prod_unfold
        split: if_splits)
qed

text \<open>The check of a move, spelled out.\<close>

lemma assertValidMove_ok:
  assumes "assertValidMove u t np ctx w = (None, w')"
  shows "w' = w \<and> np \<noteq> Some (f_id t)
    \<and> (case np of None \<Rightarrow> subtreeHeight u (f_id t) w \<le> MAX_FOLDER_DEPTH
       | Some p \<Rightarrow> ancestorChain u p w \<noteq> [] \<and> f_id t \<notin> set (ancestorChain u p w)
           \<and> length (ancestorChain u p w) + subtreeHeight u (f_id t) w \<le> MAX_FOLDER_DEPTH)"
  using assms by (auto simp: assertValidMove_def Let_def case_prod_unfold split: option.splits if_splits)

lemma subtreeHeight_own:
  assumes "tree_ok (folders w)" and "t \<in> set (folders w)"
  shows "subtreeHeight (f_userId t) (f_id t) w = heightFrom RECURSION_LIMIT (folders w) (f_userId t) [f_id t]"
proof -
  have "map f_id (filter (\<lambda>f. f_id f = f_id t \<and> f_userId f = f_userId t) fs) = [f_id t]"
    if "distinct (map f_id fs)" "t \<in> set fs" for fs
    using that
  proof (induction fs)
    case (Cons f fs)
    show ?case
    proof (cases "f_id f = f_id t")
      case True
      with Cons.prems have "f = t" "filter (\<lambda>f. f_id f = f_id t \<and> f_userId f = f_userId t) fs = []"
        by (auto simp: filter_empty_conv image_iff)
      with True show ?thesis by simp
    next
      case False
      with Cons show ?thesis by auto
    qed
  qed simp
  with assms show ?thesis by (simp add: subtreeHeight_def tree_ok_def)
qed

lemma updateFolderTx_folders:
  assumes wf: "folders_wf w" and run: "updateFolderTx e u i dto ctx w = (res, w')"
  shows "forest (folders w') \<and> documents w' = documents w
    \<and> (folders w' = folders w
       \<or> (\<exists>nm mv. folders w' = map (\<lambda>f. if f_id f = i then applyFolderData nm mv (clock e 0) f else f) (folders w)
            \<and> (\<exists>t\<in>set (folders w). f_id t = i \<and> f_userId t = u)))"
proof (cases rule: fol.get_cases [of u i ctx w])
  case (missing evs)
  with run wf show ?thesis by (auto simp: updateFolderTx_def folders_wf_def)
next
  case (found t)
  have f: "forest (folders w)" using wf by (simp add: folders_wf_def)
  let ?g = "\<lambda>nm mv f. if f_id f = i then applyFolderData nm mv (clock e 0) f else f"
  have stay: "forest (map (?g nm None) (folders w))" for nm
    using f by (intro upd.forest_same) (auto simp: applyFolderData_def)
  have move: "forest (map (?g nm (Some np)) (folders w))" if "assertValidMove u t np ctx w = (None, w2)" for nm np w2
  proof (rule upd.forest_map [OF f found(2,3),
      where pd = "case np of None \<Rightarrow> 0 | Some p \<Rightarrow> length (ancestorChain u p w)"])
    show "case f_parentId (if f_id t = i then applyFolderData nm (Some np) (clock e 0) t else t) of
        None \<Rightarrow> (case np of None \<Rightarrow> 0 | Some p \<Rightarrow> length (ancestorChain u p w)) = 0
      | Some p \<Rightarrow> (\<exists>h\<in>set (folders w). f_id h = p \<and> f_userId h = f_userId t)
          \<and> i \<notin> set (chainFrom RECURSION_LIMIT (folders w) (f_userId t) p)
          \<and> (case np of None \<Rightarrow> 0 | Some p \<Rightarrow> length (ancestorChain u p w))
             = length (chainFrom RECURSION_LIMIT (folders w) (f_userId t) p)"
      using assertValidMove_ok [OF that] found ancestorChain_nonempty
      by (auto simp: applyFolderData_def ancestorChain_def split: option.splits)
    show "(case np of None \<Rightarrow> 0 | Some p \<Rightarrow> length (ancestorChain u p w))
        + heightFrom RECURSION_LIMIT (folders w) (f_userId t) [i] \<le> MAX_FOLDER_DEPTH"
      using assertValidMove_ok [OF that] subtreeHeight_own [OF forestD(1) [OF f] found(2)] found
      by (auto split: option.splits)
  qed
  have log: "folders w2 = folders w \<and> documents w2 = documents w"
    if "assertValidMove u t np ctx w = (r, w2)" for np r w2
    using that by (auto simp: assertValidMove_def Let_def case_prod_unfold split: option.splits if_splits)
  define mv where "mv = (case uf_parentId dto of None \<Rightarrow> None
      | Some np \<Rightarrow> if np = f_parentId t then None else Some np)"
  obtain c w2 where cw: "(case mv of None \<Rightarrow> (None, w) | Some np \<Rightarrow> assertValidMove u t np ctx w) = (c, w2)"
    by fastforce
  have frame: "folders w2 = folders w" "documents w2 = documents w"
    using cw log by (auto split: option.splits)
  have keep: "forest (map (?g nm mv) (folders w))" if "c = None" for nm
    using cw that stay move by (auto split: option.splits)
  have "(res, w') = (case c of Some f \<Rightarrow> (Inl f, w2)
      | None \<Rightarrow> (case uf_name dto of Some None \<Rightarrow> (Inl (Internal ''PrismaClientValidationError''), w2)
         | name \<Rightarrow> if name = None \<and> mv = None then (Inr t, w2)
             else (let nm = (case name of Some (Some n) \<Rightarrow> Some n | _ \<Rightarrow> None)
               in (Inr (applyFolderData nm mv (clock e 0) t),
                   w2\<lparr>folders := snd (updateMany (\<lambda>f. f_id f = f_id t) (applyFolderData nm mv (clock e 0)) (folders w2))\<rparr>))))"
    using run found(1) by (simp add: updateFolderTx_def mv_def [symmetric] cw)
  then have "w' = w2 \<or> (c = None \<and> (\<exists>nm. w' = w2\<lparr>folders := map (?g nm mv) (folders w)\<rparr>))"
    using frame found(3) by (auto simp: Let_def table_simps split: option.splits if_splits)
  then show ?thesis
  proof (elim disjE conjE exE)
    assume "w' = w2"
    with frame f show ?thesis by simp
  next
    fix nm
    assume "c = None" and w': "w' = w2\<lparr>folders := map (?g nm mv) (folders w)\<rparr>"
    then have "forest (folders w')" "documents w' = documents w" "folders w' = map (?g nm mv) (folders w)"
      using keep frame by simp_all
    with found(2-4) show ?thesis by blast
  qed
qed

lemma updateFolder_wf:
  assumes wf: "folders_wf w"
  shows "folders_wf (snd (updateFolder e u i dto ctx w))"
proof -
  obtain res w' where tx: "updateFolderTx e u i dto ctx w = (res, w')" by fastforce
  note upd = updateFolderTx_folders [OF wf tx]
  have "\<exists>f'\<in>set (folders w'). f_id f' = f_id f \<and> f_userId f' = f_userId f" if "f \<in> set (folders w)" for f
  proof -
    from upd consider "folders w' = folders w"
      | nm mv where "folders w' = map (\<lambda>f. if f_id f = i then applyFolderData nm mv (clock e 0) f else f) (folders w)"
      by blast
    then show ?thesis
    proof cases
      case 1
      with that show ?thesis by auto
    next
      case (2 nm mv)
      then show ?thesis using upd.row_kept [OF that] by simp
    qed
  qed
  then have "docs_filed w'" using wf upd by (fastforce simp: folders_wf_def docs_filed_def)
  with upd have "folders_wf w'" by (simp add: folders_wf_def)
  with tx show ?thesis by (cases res) (simp_all add: updateFolder_def)
qed

section \<open>Deleting a folder\<close>

lemma updateMany_cong:
  "(\<And>r. r \<in> set t \<Longrightarrow> p r = q r) \<Longrightarrow> updateMany p f t = updateMany q f t"
  unfolding updateMany_def by (auto cong: filter_cong)

lemma deleteMany_cong:
  "(\<And>r. r \<in> set t \<Longrightarrow> p r = q r) \<Longrightarrow> deleteMany p t = deleteMany q t"
  unfolding deleteMany_def by (auto cong: filter_cong)

lemma unique_count:
  "distinct (map key xs) \<Longrightarrow> x \<in> set xs \<Longrightarrow> length (filter (\<lambda>r. key r = key x) xs) = 1"
proof (induction xs)
  case (Cons y ys)
  show ?case
  proof (cases "key y = key x")
    case True
    then have "filter (\<lambda>r. key r = key x) ys = []"
      using Cons.prems(1) by (auto simp: filter_empty_conv image_iff)
    with True show ?thesis by simp
  next
    case False
    with Cons show ?thesis by auto
  qed
qed simp

lemma removeFolderTx_found:
  assumes wf: "folders_wf w" and t: "t \<in> set (folders w)"
  shows "removeFolderTx e (f_userId t) (f_id t) ctx w
      = (Inr \<lparr>fdr_id = f_id t,
             fdr_movedDocuments = countRows (\<lambda>d. d_folderId d = Some (f_id t)) (documents w),
             fdr_promotedFolders = countRows (\<lambda>f. f_parentId f = Some (f_id t)) (folders w)\<rparr>,
         w\<lparr>folders := promote t (clock e 0) (folders w),
           documents := map (\<lambda>d. if d_folderId d = Some (f_id t)
                               then d\<lparr>d_folderId := None, d_updatedAt := clock e 0\<rparr> else d) (documents w)\<rparr>)"
proof -
  let ?u = "f_userId t" and ?i = "f_id t"
  let ?h = "\<lambda>f. if f_parentId f = Some ?i then f\<lparr>f_parentId := f_parentId t, f_updatedAt := clock e 0\<rparr> else f"
  let ?k = "\<lambda>d. if d_folderId d = Some ?i then d\<lparr>d_folderId := None, d_updatedAt := clock e 0\<rparr> else d"
  have f: "forest (folders w)" and ok: "tree_ok (folders w)"
    using wf by (auto simp: folders_wf_def forest_def)
  have load: "getOwnedFolder ?u ?i ctx w = (Inr t, w)"
    using ok t by (intro fol.get_own) (auto simp: tree_ok_def)
  have "d_userId d = ?u" if "d \<in> set (documents w)" "d_folderId d = Some ?i" for d
    using that wf t tree_ok_same [OF ok] unfolding folders_wf_def docs_filed_def by metis
  then have docs: "updateMany (\<lambda>d. d_folderId d = Some ?i \<and> d_userId d = ?u)
      (\<lambda>d. d\<lparr>d_folderId := None, d_updatedAt := clock e 0\<rparr>) (documents w)
      = (countRows (\<lambda>d. d_folderId d = Some ?i) (documents w), map ?k (documents w))"
    by (subst updateMany_cong [where q = "\<lambda>d. d_folderId d = Some ?i"]) (auto simp: updateMany_def countRows_def)
  have "f_userId f = ?u" if "f \<in> set (folders w)" "f_parentId f = Some ?i" for f
    using tree_ok_parent [OF ok that t] by simp
  then have kids: "updateMany (\<lambda>f. f_parentId f = Some ?i \<and> f_userId f = ?u)
      (\<lambda>f. f\<lparr>f_parentId := f_parentId t, f_updatedAt := clock e 0\<rparr>) (folders w)
      = (countRows (\<lambda>f. f_parentId f = Some ?i) (folders w), map ?h (folders w))"
    by (subst updateMany_cong [where q = "\<lambda>f. f_parentId f = Some ?i"]) (auto simp: updateMany_def countRows_def)
  have ids: "map f_id (map ?h (folders w)) = map f_id (folders w)" by simp
  have "f_userId f = ?u" if "f \<in> set (map ?h (folders w))" "f_id f = ?i" for f
  proof -
    from that(1) obtain x where x: "x \<in> set (folders w)" "f = ?h x" by auto
    with that(2) have "f_id x = ?i" by (simp split: if_splits)
    with x show ?thesis using tree_ok_same [OF ok x(1) t] by (simp split: if_splits)
  qed
  then have "deleteMany (\<lambda>f. f_id f = ?i \<and> f_userId f = ?u) (map ?h (folders w))
      = deleteMany (\<lambda>f. f_id f = ?i) (map ?h (folders w))"
    by (intro deleteMany_cong) blast
  moreover have "length (filter (\<lambda>f. f_id f = f_id (?h t)) (map ?h (folders w))) = 1"
  proof (rule unique_count)
    show "distinct (map f_id (map ?h (folders w)))" unfolding ids using ok by (simp add: tree_ok_def)
    show "?h t \<in> set (map ?h (folders w))" unfolding set_map using t by (rule imageI)
  qed
  ultimately have del: "deleteMany (\<lambda>f. f_id f = ?i \<and> f_userId f = ?u) (map ?h (folders w))
      = (1, promote t (clock e 0) (folders w))"
    by (simp add: deleteMany_def promote_def split: if_splits)
  have self: "f_parentId t \<noteq> Some ?i" using forestD(2) [OF f t] no_self_parent [OF ok _ t] by blast
  then have "findFirst (\<lambda>f. f_parentId f = Some ?i) (promote t (clock e 0) (folders w)) = None"
    by (auto simp: tbl.find_none dest: promote_from split: if_splits)
  moreover have "snd (updateMany (\<lambda>d. d_folderId d = Some ?i) (\<lambda>d. d\<lparr>d_folderId := None\<rparr>) (map ?k (documents w)))
      = map ?k (documents w)"
    by (auto simp: updateMany_def)
  ultimately show ?thesis using load docs kids del by (simp add: removeFolderTx_def)
qed

lemma removeFolder_frame:
  assumes "\<not> (\<exists>t\<in>set (folders w). f_id t = i \<and> f_userId t = u)"
  shows "\<exists>evs. removeFolder e u i ctx w = (Inl folderNotFound, w\<lparr>events := events w @ evs\<rparr>)"
  using assms by (cases rule: fol.get_cases [of u i ctx w]) (auto simp: removeFolder_def removeFolderTx_def)

lemma removeFolder_wf:
  assumes wf: "folders_wf w"
  shows "folders_wf (snd (removeFolder e u i ctx w))"
proof (cases "\<exists>t\<in>set (folders w). f_id t = i \<and> f_userId t = u")
  case False
  with removeFolder_frame [OF False, of e ctx] wf show ?thesis by (auto simp: folders_wf_log)
next
  case True
  then obtain t where t: "t \<in> set (folders w)" "f_id t = i" "f_userId t = u" by blast
  have "forest (promote t (clock e 0) (folders w))"
    using wf t by (intro forest_promote) (auto simp: folders_wf_def)
  moreover have "\<exists>f\<in>set (promote t (clock e 0) (folders w)). f_id f = j \<and> f_userId f = d_userId d"
    if "d \<in> set (documents w)" "d_folderId d = Some j" "j \<noteq> f_id t" for d j
    using wf that promote_mem [of _ "folders w" t "clock e 0"]
    unfolding folders_wf_def docs_filed_def by metis
  ultimately show ?thesis
    using removeFolderTx_found [OF wf t(1), of e ctx] t
    by (auto simp: removeFolder_def folders_wf_def docs_filed_def)
qed

lemma filter_id_update:
  assumes "\<And>x. x \<in> set xs \<Longrightarrow> p x \<Longrightarrow> h x = x" and "\<And>x. p (h x) = p x"
  shows "filter p (map h xs) = filter p xs"
  using assms by (intro filter_map_keep) blast

lemma promote_foreign:
  assumes "tree_ok fs" and "t \<in> set fs"
  shows "filter (\<lambda>f. f_userId f \<noteq> f_userId t) (promote t now fs) = filter (\<lambda>f. f_userId f \<noteq> f_userId t) fs"
proof -
  let ?h = "\<lambda>f. if f_parentId f = Some (f_id t) then f\<lparr>f_parentId := f_parentId t, f_updatedAt := now\<rparr> else f"
  have kids: "f_userId f = f_userId t" if "f \<in> set fs" "f_parentId f = Some (f_id t)" for f
    using tree_ok_parent [OF assms(1) that assms(2)] by simp
  have "filter (\<lambda>f. f_userId f \<noteq> f_userId t) (promote t now fs)
      = filter (\<lambda>f. f_userId f \<noteq> f_userId t \<and> f_id f \<noteq> f_id t) (map ?h fs)"
    unfolding promote_def filter_filter by (rule filter_cong) auto
  also have "\<dots> = filter (\<lambda>f. f_userId f \<noteq> f_userId t \<and> f_id f \<noteq> f_id t) fs"
    using kids by (intro filter_id_update) auto
  also have "\<dots> = filter (\<lambda>f. f_userId f \<noteq> f_userId t) fs"
    by (rule filter_cong [OF refl]) (metis assms tree_ok_same)
  finally show ?thesis .
qed

section \<open>A concrete library\<close>

definition demoFolder :: "uuid \<Rightarrow> uuid option \<Rightarrow> Folder" where
  "demoFolder i p = \<lparr>f_id = i, f_userId = [7], f_name = [], f_parentId = p, f_createdAt = 0, f_updatedAt = 0\<rparr>"

definition demoLibrary :: World where
  "demoLibrary = emptyWorld\<lparr>folders := [demoFolder [1] None, demoFolder [2] (Some [1])]\<rparr>"

definition demoCtx :: RequestContext where
  "demoCtx = \<lparr>ctx_requestId = None, ctx_ipAddress = None\<rparr>"

definition demoRun :: run where
  "demoRun = \<lparr>clock = (\<lambda>_. 5), freshId = (\<lambda>_. js ''11111111-1111-4111-8111-111111111111''),
     randomBytes = (\<lambda>_ n. replicate n 7), others = (\<lambda>_ w. w), tempDirError = None\<rparr>"

lemma demoLibrary_wf: "folders_wf demoLibrary"
proof -
  have 1: "depth_of (folders demoLibrary) [1] 1"
    using depth_of.root [of "demoFolder [1] None" "folders demoLibrary"] by (simp add: demoLibrary_def demoFolder_def)
  have 2: "depth_of (folders demoLibrary) [2] (Suc 1)"
    using depth_of.nested [of "demoFolder [2] (Some [1])" "folders demoLibrary" "[1]" 1] 1
    by (simp add: demoLibrary_def demoFolder_def)
  have "\<exists>n\<le>MAX_FOLDER_DEPTH. depth_of (folders demoLibrary) (f_id f) n" if "f \<in> set (folders demoLibrary)" for f
  proof -
    from that have "f_id f = [1] \<or> f_id f = [2]" by (auto simp: demoLibrary_def demoFolder_def)
    then show ?thesis
    proof
      assume "f_id f = [1]"
      with 1 show ?thesis by (intro exI [of _ 1]) (simp add: MAX_FOLDER_DEPTH_def)
    next
      assume "f_id f = [2]"
      with 2 show ?thesis by (intro exI [of _ "Suc 1"]) (simp add: MAX_FOLDER_DEPTH_def)
    qed
  qed
  moreover have "tree_ok (folders demoLibrary)"
    by (simp add: tree_ok_def demoLibrary_def demoFolder_def)
  ultimately show ?thesis
    by (simp add: folders_wf_def forest_def docs_filed_def) (simp add: demoLibrary_def emptyWorld_def)
qed

section \<open>Properties\<close>

text \<open>C16. The hierarchy invariant: creating, updating (moving included) and deleting a folder keep the
  folders a forest in which every chain of parents ends after at most ten levels, parents have the
  owner of their children, and every document is filed in an existing folder of its owner.\<close>

theorem folders_stay_forest:
  assumes "folders_wf w" and "ids_ok e"
    and "w' \<in> {snd (createFolder e u cdto ctx w), snd (updateFolder e u i udto ctx w), snd (removeFolder e u i ctx w)}"
  shows "folders_wf w'"
  using assms createFolder_wf updateFolder_wf removeFolder_wf by blast

theorem folders_stay_forest_witness:
  "folders_wf (snd (removeFolder \<lparr>clock = (\<lambda>_. 0), freshId = (\<lambda>_. js ''11111111-1111-4111-8111-111111111111''),
     randomBytes = (\<lambda>_ n. []), others = (\<lambda>_ w. w), tempDirError = None\<rparr> [1] [2] \<lparr>ctx_requestId = None, ctx_ipAddress = None\<rparr> emptyWorld))"
proof -
  let ?e = "\<lparr>clock = (\<lambda>_. 0), freshId = (\<lambda>_. js ''11111111-1111-4111-8111-111111111111''),
     randomBytes = (\<lambda>_ n. []), others = (\<lambda>_ w. w), tempDirError = None\<rparr>"
  have "is_uuid (js ''11111111-1111-4111-8111-111111111111'')" by code_simp
  then have "ids_ok ?e" by (simp add: ids_ok_def)
  moreover have "folders_wf emptyWorld"
    by (simp add: folders_wf_def forest_def tree_ok_def docs_filed_def emptyWorld_def)
  ultimately show ?thesis using folders_stay_forest [of emptyWorld ?e] by blast
qed

text \<open>C24. Cycles are detected exactly: a move of a folder under a new parent is refused as a cycle
  precisely when the new parent lies below the folder, at any distance; being its own parent is
  refused separately.\<close>

theorem cycle_check_exact:
  assumes "folders_wf w" and "t \<in> set (folders w)"
  shows "fst (assertValidMove (f_userId t) t (Some np) ctx w) = Some folderCycle
    \<longleftrightarrow> np \<noteq> f_id t \<and> (\<exists>k. below (folders w) (f_id t) np k)"
proof -
  have f: "forest (folders w)" and ok: "tree_ok (folders w)" using assms(1) by (auto simp: folders_wf_def forest_def)
  let ?chain = "ancestorChain (f_userId t) np w"
  have "f_id t \<in> set ?chain \<longleftrightarrow> (\<exists>k. below (folders w) (f_id t) np k)"
  proof (cases "\<exists>h\<in>set (folders w). f_id h = np \<and> f_userId h = f_userId t")
    case True
    then obtain h where h: "h \<in> set (folders w)" "f_id h = np" "f_userId h = f_userId t" by blast
    obtain n where n: "n \<le> MAX_FOLDER_DEPTH" "depth_of (folders w) np n" using forestD(2) [OF f h(1)] h(2) by blast
    have "k < RECURSION_LIMIT" if "below (folders w) (f_id t) np k" for k
      using below_less_depth [OF that ok n(2)] n(1) by (simp add: MAX_FOLDER_DEPTH_def RECURSION_LIMIT_def)
    then show ?thesis
      using chainFrom_below [OF ok h(1), of "f_id t" RECURSION_LIMIT] h by (auto simp: ancestorChain_def)
  next
    case False
    then have "?chain = []" using ancestorChain_nonempty by blast
    moreover have "\<not> below (folders w) (f_id t) np k" for k
      using False below_owner [OF ok assms(2)] by blast
    ultimately show ?thesis by simp
  qed
  moreover have "fst (assertValidMove (f_userId t) t (Some np) ctx w) = Some folderCycle
      \<longleftrightarrow> np \<noteq> f_id t \<and> f_id t \<in> set ?chain"
    by (auto simp: assertValidMove_def Let_def case_prod_unfold folderCycle_def folderSelfParent_def
        folderDepthExceeded_def folderNotFound_def)
  ultimately show ?thesis by simp
qed

theorem cycle_check_exact_witness:
  "fst (assertValidMove [7] (demoFolder [1] None) (Some [2]) demoCtx demoLibrary) = Some folderCycle"
proof -
  have "below (folders demoLibrary) [1] [2] 1"
    using below.step [of "demoFolder [2] (Some [1])" "folders demoLibrary" "[1]" "[1]" 0]
      below.here [of "demoFolder [1] None" "folders demoLibrary" "[1]"]
    by (simp add: demoLibrary_def demoFolder_def)
  then show ?thesis
    using cycle_check_exact [OF demoLibrary_wf, of "demoFolder [1] None" "[2]" demoCtx]
    by (auto simp: demoLibrary_def demoFolder_def)
qed

text \<open>Deleting a folder deletes no document and no other folder: the documents in it move to the
  root, its children take its parent, the one row goes, and the counts reported are those of the
  rows that moved.\<close>

theorem removeFolder_outcome:
  assumes "folders_wf w" and "t \<in> set (folders w)"
  shows "removeFolder e (f_userId t) (f_id t) ctx w = (res, w') \<Longrightarrow>
      res = Inr \<lparr>fdr_id = f_id t,
             fdr_movedDocuments = countRows (\<lambda>d. d_folderId d = Some (f_id t)) (documents w),
             fdr_promotedFolders = countRows (\<lambda>f. f_parentId f = Some (f_id t)) (folders w)\<rparr>
    \<and> documents w' = map (\<lambda>d. if d_folderId d = Some (f_id t)
          then d\<lparr>d_folderId := None, d_updatedAt := clock e 0\<rparr> else d) (documents w)
    \<and> map f_id (folders w') = filter (\<lambda>i. i \<noteq> f_id t) (map f_id (folders w))
    \<and> (\<forall>f\<in>set (folders w'). f_parentId f \<noteq> Some (f_id t))"
proof -
  assume run: "removeFolder e (f_userId t) (f_id t) ctx w = (res, w')"
  have ok: "tree_ok (folders w)" and f: "forest (folders w)" using assms(1) by (auto simp: folders_wf_def forest_def)
  have "f_parentId t \<noteq> Some (f_id t)" using forestD(2) [OF f assms(2)] no_self_parent [OF ok _ assms(2)] by blast
  then have "\<forall>f\<in>set (promote t (clock e 0) (folders w)). f_parentId f \<noteq> Some (f_id t)"
    by (auto dest: promote_from split: if_splits)
  with run removeFolderTx_found [OF assms, of e ctx] show ?thesis
    by (auto simp: removeFolder_def promote_ids)
qed

theorem removeFolder_outcome_witness:
  "map f_id (folders (snd (removeFolder demoRun [7] [1] demoCtx demoLibrary))) = [[2]]"
  using removeFolder_outcome [OF demoLibrary_wf, of "demoFolder [1] None" demoRun demoCtx, OF _ prod.collapse [symmetric]]
  by (simp add: demoLibrary_def demoFolder_def)

text \<open>Nobody touches another account's library: whatever the request, the folders and documents
  of every other account are the same rows afterwards.\<close>

lemma folder_operations_scoped:
  assumes "folders_wf w"
    and "w' \<in> {snd (createFolder e u cdto ctx w), snd (updateFolder e u i udto ctx w), snd (removeFolder e u i ctx w)}"
  shows "filter (\<lambda>f. f_userId f \<noteq> u) (folders w') = filter (\<lambda>f. f_userId f \<noteq> u) (folders w)
    \<and> filter (\<lambda>d. d_userId d \<noteq> u) (documents w') = filter (\<lambda>d. d_userId d \<noteq> u) (documents w)"
proof -
  have ok: "tree_ok (folders w)" using assms(1) by (auto simp: folders_wf_def forest_def)
  let ?same = "\<lambda>v. filter (\<lambda>f. f_userId f \<noteq> u) (folders v) = filter (\<lambda>f. f_userId f \<noteq> u) (folders w)
    \<and> filter (\<lambda>d. d_userId d \<noteq> u) (documents v) = filter (\<lambda>d. d_userId d \<noteq> u) (documents w)"
  have "?same (snd (createFolder e u cdto ctx w))"
    by (auto simp: createFolder_def prismaFolderCreate_def Let_def case_prod_unfold createRow_def)
  moreover have "?same (snd (updateFolder e u i udto ctx w))"
  proof -
    obtain res v where tx: "updateFolderTx e u i udto ctx w = (res, v)" by fastforce
    have "filter (\<lambda>f. f_userId f \<noteq> u) (map (\<lambda>f. if f_id f = i then applyFolderData nm mv (clock e 0) f else f) (folders w))
        = filter (\<lambda>f. f_userId f \<noteq> u) (folders w)" if "t \<in> set (folders w)" "f_id t = i" "f_userId t = u" for nm mv t
    proof (rule filter_id_update)
      fix x
      assume "x \<in> set (folders w)" "f_userId x \<noteq> u"
      then have "f_id x \<noteq> i" using that tree_ok_same [OF ok] by metis
      then show "(if f_id x = i then applyFolderData nm mv (clock e 0) x else x) = x" by simp
    qed (simp add: applyFolderData_def)
    then have "?same v" using updateFolderTx_folders [OF assms(1) tx] by auto
    with tx show ?thesis by (cases res) (simp_all add: updateFolder_def)
  qed
  moreover have "?same (snd (removeFolder e u i ctx w))"
  proof (cases "\<exists>t\<in>set (folders w). f_id t = i \<and> f_userId t = u")
    case False
    with removeFolder_frame [OF False, of e ctx] show ?thesis by auto
  next
    case True
    then obtain t where t: "t \<in> set (folders w)" "f_id t = i" "f_userId t = u" by blast
    have "d_userId d = u" if "d \<in> set (documents w)" "d_folderId d = Some i" for d
      using that assms(1) t tree_ok_same [OF ok] unfolding folders_wf_def docs_filed_def by metis
    then have "filter (\<lambda>d. d_userId d \<noteq> u) (map (\<lambda>d. if d_folderId d = Some i
          then d\<lparr>d_folderId := None, d_updatedAt := clock e 0\<rparr> else d) (documents w))
        = filter (\<lambda>d. d_userId d \<noteq> u) (documents w)"
      by (intro filter_id_update) auto
    with removeFolderTx_found [OF assms(1) t(1), of e ctx] t promote_foreign [OF ok t(1), of "clock e 0"]
    show ?thesis by (auto simp: removeFolder_def)
  qed
  ultimately show ?thesis using assms(2) by blast
qed

text \<open>A folder of somebody else is answered like a folder that does not exist: the same 404 from
  every operation, and no table changes.\<close>

theorem folder_foreign_is_missing:
  assumes "\<forall>f\<in>set (folders w). f_id f = i \<longrightarrow> f_userId f \<noteq> u" and "i \<noteq> []"
  shows "fst (updateFolder e u i dto ctx w) = Inl folderNotFound
    \<and> fst (removeFolder e u i ctx w) = Inl folderNotFound
    \<and> fst (listFolders e le u (Some (Some i)) ctx w) = Inl folderNotFound
    \<and> fst (createFolder e u \<lparr>cf_name = nm, cf_parentId = Some i\<rparr> ctx w) = Inl folderNotFound
    \<and> folders (snd (updateFolder e u i dto ctx w)) = folders w
    \<and> folders (snd (createFolder e u \<lparr>cf_name = nm, cf_parentId = Some i\<rparr> ctx w)) = folders w"
proof -
  obtain evs where "getOwnedFolder u i ctx w = (Inl folderNotFound, w\<lparr>events := events w @ evs\<rparr>)"
    using assms(1) by (cases rule: fol.get_cases [of u i ctx w]) auto
  moreover have "ancestorChain u i w = []" using assms(1) ancestorChain_nonempty [of u i w] by auto
  ultimately show ?thesis
    using assms(2) by (simp add: updateFolder_def updateFolderTx_def removeFolder_def removeFolderTx_def
        listFolders_def createFolder_def truthy_def case_prod_unfold Let_def)
qed

theorem folder_foreign_is_missing_witness:
  "fst (removeFolder demoRun [8] [1] demoCtx demoLibrary) = Inl folderNotFound"
  using folder_foreign_is_missing [of demoLibrary "[1]" "[8]" demoRun
      "\<lparr>uf_name = None, uf_parentId = None\<rparr>" demoCtx "\<lambda>_ _. True" "[]"]
  by (simp add: demoLibrary_def demoFolder_def)

text \<open>Listing returns exactly the caller's folders at the requested place, each once, in the order
  of the database: all folders, those at the root, or the children of a folder of the caller.\<close>

theorem listFolders_exact:
  assumes "listFolders e le u place ctx w = (Inr fs, w')" and "distinct (map f_id (folders w'))"
    and "\<And>a b. le a b \<or> le b a" and "\<And>a b c. le a b \<Longrightarrow> le b c \<Longrightarrow> le a c"
  shows "set fs = {f \<in> set (folders w'). f_userId f = u \<and> (\<forall>p. place = Some p \<longrightarrow> f_parentId f = p)}
    \<and> distinct (map f_id fs) \<and> sorted_wrt (folderOrder le) fs"
proof -
  let ?p = "\<lambda>f. f_userId f = u \<and> (case place of None \<Rightarrow> True | Some p \<Rightarrow> f_parentId f = p)"
  have fs: "fs = orderBy (folderOrder le) (findMany ?p (folders w'))"
    using assms(1) by (auto simp: listFolders_def Let_def case_prod_unfold split: option.splits sum.splits if_splits)
  have "set fs = {f \<in> set (folders w'). ?p f}" by (auto simp: fs findMany_def)
  moreover have "distinct (map f_id fs)"
    using assms(2) unfolding fs distinct_orderBy findMany_def by (simp add: distinct_map_filter)
  moreover have "sorted_wrt (folderOrder le) fs"
    unfolding fs
  proof (rule sorted_orderBy)
    show "folderOrder le a b \<or> folderOrder le b a" for a b
      using assms(3) by (auto simp: folderOrder_def)
    show "folderOrder le a b \<Longrightarrow> folderOrder le b c \<Longrightarrow> folderOrder le a c" for a b c
      unfolding folderOrder_def by (meson assms(4) order_trans)
  qed
  ultimately show ?thesis by (auto split: option.splits)
qed

theorem listFolders_exact_witness:
  "\<exists>fs w'. listFolders demoRun (\<lambda>_ _. True) [7] (Some (Some [1])) demoCtx demoLibrary = (Inr fs, w')
     \<and> distinct (map f_id fs)"
proof -
  have "listFolders demoRun (\<lambda>_ _. True) [7] (Some (Some [1])) demoCtx demoLibrary
      = (Inr [demoFolder [2] (Some [1])], demoLibrary)"
    by (simp add: listFolders_def getOwnedFolder_def findFirst_def findMany_def orderBy_def demoLibrary_def
        demoFolder_def demoRun_def emptyWorld_def)
  moreover from listFolders_exact [OF this] have "distinct (map f_id [demoFolder [2] (Some [1])])"
    by (simp add: demoLibrary_def demoFolder_def)
  ultimately show ?thesis by blast
qed

end
