(* ===== verification/Documents.thy ===== *)
theory Documents
  imports Folders File_Names
begin

text \<open>
  Document metadata: \<open>documents/documents.service.ts\<close>, \<open>documents.errors.ts\<close> and the serializer.
  The handlers load the row, wait, and then write under a condition that is checked again by the
  database, so the branches for a lost race are part of them. The collation and the
  case-insensitive search of the database are parameters (the record \<open>database\<close>).

  The preorder \<open>doc_le\<close> says what any request may do to a stored document: its identity and owner
  stay, a deleted document stays deleted, and the file of a document that is ready is never
  replaced. Every handler is shown to move documents along it.
\<close>

section \<open>Errors\<close>

definition documentNotFound :: failure where
  "documentNotFound = appException 404 ''DOCUMENT_NOT_FOUND'' ''Document not found''"

definition fileTooLarge :: "nat \<Rightarrow> failure" where
  "fileTooLarge maxBytes = appException 413 ''FILE_TOO_LARGE''
     (''File exceeds the maximum allowed size of '' @ nat_str maxBytes @ '' bytes'')"

definition unsupportedFileType :: "string \<Rightarrow> failure" where
  "unsupportedFileType message = appException 415 ''UNSUPPORTED_FILE_TYPE'' message"

definition invalidUpload :: "string \<Rightarrow> failure" where
  "invalidUpload message = appException 409 ''INVALID_UPLOAD'' message"

definition uploadNotFound :: failure where
  "uploadNotFound = appException 409 ''UPLOAD_NOT_FOUND''
     ''No uploaded file was found for this document; upload the file to the upload URL first''"

definition uploadNotReady :: failure where
  "uploadNotReady = appException 409 ''UPLOAD_NOT_READY'' ''The document has no completed upload yet''"

section \<open>Loading\<close>

definition emptyToNull :: "jsstring option \<Rightarrow> jsstring option" where
  "emptyToNull v = (if v = None \<or> v = Some [] then None else v)"

definition documentNotFoundFor :: "uuid \<Rightarrow> uuid \<Rightarrow> RequestContext \<Rightarrow> World \<Rightarrow> failure \<times> World" where
  "documentNotFoundFor userId documentId ctx w =
     (documentNotFound,
      if countRows (\<lambda>d. d_id d = documentId \<and> d_userId d \<noteq> userId) (documents w) > 0
      then recordEvent (folderEvent DOCUMENT_ACCESS_DENIED userId ctx (Some ''not_owner'')
             [(''documentId'', DText documentId)]) w
      else w)"

definition ownLive :: "uuid \<Rightarrow> uuid \<Rightarrow> Document \<Rightarrow> bool" where
  "ownLive userId documentId d \<longleftrightarrow> d_id d = documentId \<and> d_userId d = userId \<and> d_deletedAt d = None"

definition getOwnedDocument :: "uuid \<Rightarrow> uuid \<Rightarrow> RequestContext \<Rightarrow> World \<Rightarrow> Document outcome" where
  "getOwnedDocument userId documentId ctx w =
     (case findFirst (ownLive userId documentId) (documents w) of
        Some d \<Rightarrow> (Inr d, w)
      | None \<Rightarrow> (let (f, w') = documentNotFoundFor userId documentId ctx w in (Inl f, w')))"

section \<open>Operations\<close>

record CreateDocumentDto =
  cd_title :: jsstring
  cd_description :: "jsstring option"
  cd_folderId :: "uuid option"

definition prismaDocumentCreate :: "Document \<Rightarrow> World \<Rightarrow> Document outcome" where
  "prismaDocumentCreate row w =
     (if findFirst (\<lambda>d. d_id d = d_id row) (documents w) \<noteq> None then (Inl P2002, w)
      else if (\<exists>f\<in>set_option (d_folderId row). findFirst (\<lambda>x. f_id x = f) (folders w) = None)
              \<or> findUserById (d_userId row) w = None
      then (Inl (Internal ''P2003''), w)
      else (Inr row, w\<lparr>documents := createRow row (documents w)\<rparr>))"

definition createDocument ::
  "run \<Rightarrow> uuid \<Rightarrow> CreateDocumentDto \<Rightarrow> RequestContext \<Rightarrow> World \<Rightarrow> Document outcome" where
  "createDocument e userId dto ctx w =
     (let folderId = cd_folderId dto;
          row = \<lparr>d_id = freshId e 0, d_userId = userId, d_folderId = folderId, d_title = cd_title dto,
                 d_description = emptyToNull (cd_description dto), d_status = DRAFT, d_mimeType = None,
                 d_fileSize = None, d_pageCount = None, d_storageKey = None, d_originalName = None,
                 d_createdAt = clock e 0, d_updatedAt = clock e 0, d_deletedAt = None\<rparr>;
          (checked, w1) =
            (if truthy folderId
             then (case getOwnedFolder userId (the folderId) ctx w of
                     (Inl f, w') \<Rightarrow> (Some f, w') | (Inr _, w') \<Rightarrow> (None, others e 0 w'))
             else (None, w))
      in case checked of
           Some f \<Rightarrow> (Inl f, w1)
         | None \<Rightarrow>
             (case prismaDocumentCreate row w1 of
                (Inl f, w2) \<Rightarrow> (Inl f, w2)
              | (Inr document, w2) \<Rightarrow>
                  (Inr document,
                   recordEvent (folderEvent DOCUMENT_CREATED userId ctx None
                     [(''documentId'', DText (d_id document)), (''folderId'', idDetail (d_folderId document))]) w2)))"

datatype DocumentSortField = SortCreatedAt | SortUpdatedAt | SortTitle | SortFileSize

datatype SortOrder = Asc | Desc

record ListDocumentsQuery =
  q_page :: nat
  q_limit :: nat
  q_folderId :: "uuid option option"
  q_status :: "DocumentStatus option"
  q_search :: "jsstring option"
  q_sort :: DocumentSortField
  q_order :: SortOrder

record database =
  byText :: "jsstring \<Rightarrow> jsstring \<Rightarrow> bool"
  byId :: "uuid \<Rightarrow> uuid \<Rightarrow> bool"
  containsInsensitive :: "jsstring \<Rightarrow> jsstring \<Rightarrow> bool"

text \<open>The value a sort compares; missing sizes come last, as the database has it.\<close>

definition sortLe :: "database \<Rightarrow> DocumentSortField \<Rightarrow> Document \<Rightarrow> Document \<Rightarrow> bool" where
  "sortLe db s a b =
     (case s of
        SortCreatedAt \<Rightarrow> d_createdAt a \<le> d_createdAt b
      | SortUpdatedAt \<Rightarrow> d_updatedAt a \<le> d_updatedAt b
      | SortTitle \<Rightarrow> byText db (d_title a) (d_title b)
      | SortFileSize \<Rightarrow>
          (case (d_fileSize a, d_fileSize b) of
             (_, None) \<Rightarrow> True | (None, Some _) \<Rightarrow> False | (Some x, Some y) \<Rightarrow> x \<le> y))"

definition documentOrder :: "database \<Rightarrow> DocumentSortField \<Rightarrow> SortOrder \<Rightarrow> Document \<Rightarrow> Document \<Rightarrow> bool" where
  "documentOrder db s ord a b =
     (let le = (\<lambda>x y. if ord = Asc then sortLe db s x y else sortLe db s y x)
      in le a b \<and> (\<not> le b a \<or> byId db (d_id a) (d_id b)))"

definition listWhere :: "database \<Rightarrow> uuid \<Rightarrow> ListDocumentsQuery \<Rightarrow> Document \<Rightarrow> bool" where
  "listWhere db userId q d \<longleftrightarrow>
     d_userId d = userId \<and> d_deletedAt d = None
     \<and> (case q_folderId q of None \<Rightarrow> True | Some f \<Rightarrow> d_folderId d = f)
     \<and> (case q_status q of None \<Rightarrow> True | Some s \<Rightarrow> d_status d = s)
     \<and> (if truthy (q_search q)
        then containsInsensitive db (the (q_search q)) (d_title d)
             \<or> (case d_description d of None \<Rightarrow> False | Some t \<Rightarrow> containsInsensitive db (the (q_search q)) t)
        else True)"

record DocumentPage =
  dp_items :: "Document list"
  dp_page :: nat
  dp_limit :: nat
  dp_total :: nat
  dp_totalPages :: nat

definition listDocuments ::
  "run \<Rightarrow> database \<Rightarrow> uuid \<Rightarrow> ListDocumentsQuery \<Rightarrow> RequestContext \<Rightarrow> World \<Rightarrow> DocumentPage outcome" where
  "listDocuments e db userId q ctx w =
     (let (checked, w1) =
            (case q_folderId q of
               Some (Some f) \<Rightarrow>
                 if f = [] then (None, w)
                 else (case getOwnedFolder userId f ctx w of
                         (Inl x, w') \<Rightarrow> (Some x, w') | (Inr _, w') \<Rightarrow> (None, others e 0 w'))
             | _ \<Rightarrow> (None, w))
      in case checked of
           Some x \<Rightarrow> (Inl x, w1)
         | None \<Rightarrow>
             (let n = countRows (listWhere db userId q) (documents w1);
                  w2 = others e 1 w1;
                  items = pageOf (q_page q) (q_limit q)
                            (orderBy (documentOrder db (q_sort q) (q_order q))
                              (findMany (listWhere db userId q) (documents w2)))
              in (Inr \<lparr>dp_items = items, dp_page = q_page q, dp_limit = q_limit q, dp_total = n,
                       dp_totalPages = ceilDiv n (q_limit q)\<rparr>, w2)))"

text \<open>A patch: an absent field is \<open>None\<close>, an explicit null \<open>Some None\<close>.\<close>

record UpdateDocumentDto =
  ud_title :: "jsstring option option"
  ud_description :: "jsstring option option"
  ud_folderId :: "uuid option option"

definition applyDocumentData :: "UpdateDocumentDto \<Rightarrow> time \<Rightarrow> Document \<Rightarrow> Document" where
  "applyDocumentData dto now d =
     d\<lparr>d_title := (case ud_title dto of Some (Some t) \<Rightarrow> t | _ \<Rightarrow> d_title d),
       d_description := (case ud_description dto of None \<Rightarrow> d_description d | Some v \<Rightarrow> emptyToNull v),
       d_folderId := (case ud_folderId dto of None \<Rightarrow> d_folderId d | Some f \<Rightarrow> f),
       d_updatedAt := now\<rparr>"

definition changedFields :: "UpdateDocumentDto \<Rightarrow> string" where
  "changedFields dto =
     join_with '',''
       ((if ud_description dto \<noteq> None then [''description''] else [])
        @ (if ud_folderId dto \<noteq> None then [''folderId''] else [])
        @ (if ud_title dto \<noteq> None then [''title''] else []))"

text \<open>The conditional update with what the database checks: a new folder has to exist. A null title
  passes the validation and is refused by the client library.\<close>

definition writeDocument ::
  "uuid \<Rightarrow> uuid \<Rightarrow> UpdateDocumentDto \<Rightarrow> time \<Rightarrow> World \<Rightarrow> nat outcome" where
  "writeDocument userId documentId dto now w =
     (if ud_title dto = Some None then (Inl (Internal ''PrismaClientValidationError''), w)
      else
        (let (n, ds) = updateMany (ownLive userId documentId) (applyDocumentData dto now) (documents w)
         in if 0 < n \<and> (case ud_folderId dto of Some (Some f) \<Rightarrow> findFirst (\<lambda>x. f_id x = f) (folders w) = None
                          | _ \<Rightarrow> False)
            then (Inl (Internal ''P2003''), w)
            else (Inr n, w\<lparr>documents := ds\<rparr>)))"

definition updateDocument ::
  "run \<Rightarrow> uuid \<Rightarrow> uuid \<Rightarrow> UpdateDocumentDto \<Rightarrow> RequestContext \<Rightarrow> World \<Rightarrow> Document outcome" where
  "updateDocument e userId documentId dto ctx w =
     (case getOwnedDocument userId documentId ctx w of
        (Inl f, w1) \<Rightarrow> (Inl f, w1)
      | (Inr current, w1) \<Rightarrow>
          (let (checked, w2) =
                 (case ud_folderId dto of
                    Some (Some f) \<Rightarrow>
                      if f = [] then (None, w1)
                      else (case getOwnedFolder userId f ctx (others e 0 w1) of
                              (Inl x, w') \<Rightarrow> (Some x, w') | (Inr _, w') \<Rightarrow> (None, w'))
                  | _ \<Rightarrow> (None, w1))
           in case checked of
                Some x \<Rightarrow> (Inl x, w2)
              | None \<Rightarrow>
                  if ud_title dto = None \<and> ud_description dto = None \<and> ud_folderId dto = None
                  then (Inr current, w2)
                  else
                    (case writeDocument userId (d_id current) dto (clock e 0) (others e 1 w2) of
                       (Inl x, w3) \<Rightarrow> (Inl x, w3)
                     | (Inr n, w3) \<Rightarrow>
                         if n \<noteq> 1 then (Inl documentNotFound, w3)
                         else
                           (case getOwnedDocument userId documentId ctx (others e 2 w3) of
                              (Inl x, w4) \<Rightarrow> (Inl x, w4)
                            | (Inr document, w4) \<Rightarrow>
                                (Inr document,
                                 recordEvent (folderEvent DOCUMENT_UPDATED userId ctx None
                                   [(''documentId'', DText (d_id document)),
                                    (''folderId'', idDetail (d_folderId document)),
                                    (''fields'', DText (js (changedFields dto)))]) w4)))))"

record DocumentDeletion =
  dd_id :: uuid
  dd_status :: DocumentStatus
  dd_deletedAt :: time

definition removeDocument ::
  "run \<Rightarrow> uuid \<Rightarrow> uuid \<Rightarrow> RequestContext \<Rightarrow> World \<Rightarrow> DocumentDeletion outcome" where
  "removeDocument e userId documentId ctx w =
     (let deletedAt = clock e 0;
          (n, ds) = updateMany (ownLive userId documentId)
                      (\<lambda>d. d\<lparr>d_deletedAt := Some deletedAt, d_status := DELETED, d_updatedAt := clock e 1\<rparr>)
                      (documents w);
          w1 = w\<lparr>documents := ds\<rparr>
      in if n \<noteq> 1
         then (let (f, w2) = documentNotFoundFor userId documentId ctx (others e 0 w1) in (Inl f, w2))
         else (Inr \<lparr>dd_id = documentId, dd_status = DELETED, dd_deletedAt = deletedAt\<rparr>,
               recordEvent (folderEvent DOCUMENT_DELETED userId ctx None [(''documentId'', DText documentId)]) w1))"

record DocumentDto =
  ddto_id :: uuid
  ddto_folderId :: "uuid option"
  ddto_title :: jsstring
  ddto_description :: "jsstring option"
  ddto_status :: DocumentStatus
  ddto_mimeType :: "jsstring option"
  ddto_fileSize :: "int option"
  ddto_pageCount :: "nat option"
  ddto_originalName :: "jsstring option"
  ddto_createdAt :: time
  ddto_updatedAt :: time

definition toDocumentDto :: "Document \<Rightarrow> DocumentDto" where
  "toDocumentDto d =
     \<lparr>ddto_id = d_id d, ddto_folderId = d_folderId d, ddto_title = d_title d,
      ddto_description = d_description d, ddto_status = d_status d, ddto_mimeType = d_mimeType d,
      ddto_fileSize = d_fileSize d, ddto_pageCount = d_pageCount d, ddto_originalName = d_originalName d,
      ddto_createdAt = d_createdAt d, ddto_updatedAt = d_updatedAt d\<rparr>"

section \<open>How stored documents may change\<close>

definition fileOf :: "Document \<Rightarrow> jsstring option \<times> jsstring option \<times> int option \<times> jsstring option" where
  "fileOf d = (d_storageKey d, d_mimeType d, d_fileSize d, d_originalName d)"

definition doc_le :: "Document \<Rightarrow> Document \<Rightarrow> bool" where
  "doc_le d d' \<longleftrightarrow> d_id d' = d_id d \<and> d_userId d' = d_userId d \<and> d_createdAt d' = d_createdAt d
     \<and> (d_deletedAt d \<noteq> None \<longrightarrow>
          d_deletedAt d' = d_deletedAt d \<and> d_status d' = d_status d \<and> fileOf d' = fileOf d)
     \<and> (d_status d = READY \<longrightarrow> fileOf d' = fileOf d \<and> (d_status d' = READY \<or> d_deletedAt d' \<noteq> None))"

interpretation doc: row_preorder doc_le
  by unfold_locales (auto simp: doc_le_def)

text \<open>A row is marked deleted exactly when it has a deletion time, and a row whose upload is under
  way or finished has a key, a type and a size.\<close>

definition doc_row_ok :: "Document \<Rightarrow> bool" where
  "doc_row_ok d \<longleftrightarrow> (d_deletedAt d \<noteq> None \<longleftrightarrow> d_status d = DELETED)
     \<and> (d_status d = UPLOADING \<or> d_status d = READY \<longrightarrow>
          truthy (d_storageKey d) \<and> d_mimeType d \<noteq> None \<and> d_fileSize d \<noteq> None)"

definition documents_wf :: "World \<Rightarrow> bool" where
  "documents_wf w \<longleftrightarrow> distinct (map d_id (documents w)) \<and> (\<forall>d\<in>set (documents w). doc_row_ok d)"

text \<open>What every step does to the documents, and what a handler relies on while it waits.\<close>

definition docs_step :: "World \<Rightarrow> World \<Rightarrow> bool" where
  "docs_step w w' \<longleftrightarrow> (documents_wf w \<longrightarrow> documents_wf w' \<and> evolves doc_le (documents w) (documents w'))"

definition document_env :: "run \<Rightarrow> bool" where
  "document_env e \<longleftrightarrow> (\<forall>i v. docs_step v (others e i v))"

lemma document_envD: "document_env e \<Longrightarrow> docs_step v (others e i v)"
  by (simp add: document_env_def)

lemma docs_step_same: "documents w' = documents w \<Longrightarrow> docs_step w w'"
  by (simp add: docs_step_def documents_wf_def doc.evolves_refl)

lemma docs_step_trans [trans]: "docs_step u v \<Longrightarrow> docs_step v w \<Longrightarrow> docs_step u w"
  unfolding docs_step_def using doc.evolves_trans by blast

lemma docs_step_log [simp]: "docs_step u (recordEvent ev w) = docs_step u w"
  by (simp add: docs_step_def documents_wf_def)

lemma docs_step_frame:
  "documents w' = documents w \<Longrightarrow> docs_step u w' = docs_step u w"
  by (simp add: docs_step_def documents_wf_def)

text \<open>A conditional write is a step when it is one on every row it selects.\<close>

lemma docs_step_update:
  assumes "\<And>d. d \<in> set (documents w) \<Longrightarrow> p d \<Longrightarrow> doc_row_ok d \<Longrightarrow> doc_row_ok (f d) \<and> doc_le d (f d)"
  shows "docs_step w (w\<lparr>documents := snd (updateMany p f (documents w))\<rparr>)"
proof -
  have "documents_wf (w\<lparr>documents := snd (updateMany p f (documents w))\<rparr>)" if wf: "documents_wf w"
  proof -
    have rows: "doc_row_ok (f d) \<and> d_id (f d) = d_id d" if "d \<in> set (documents w)" "p d" for d
      using assms [OF that] wf that by (auto simp: documents_wf_def doc_le_def)
    have "map d_id (snd (updateMany p f (documents w))) = map d_id (documents w)"
      using rows by (auto simp: updateMany_def)
    moreover have "\<forall>d\<in>set (snd (updateMany p f (documents w))). doc_row_ok d"
      using rows wf by (auto simp: updateMany_def documents_wf_def)
    ultimately show ?thesis using wf by (simp add: documents_wf_def)
  qed
  moreover have "evolves doc_le (documents w) (snd (updateMany p f (documents w)))" if "documents_wf w"
    using that assms by (intro doc.evolves_updateMany) (auto simp: documents_wf_def)
  ultimately show ?thesis by (simp add: docs_step_def)
qed

section \<open>The loading contract\<close>

lemma documentNotFoundFor_frame [simp]:
  "fst (documentNotFoundFor u i ctx w) = documentNotFound"
  "documents (snd (documentNotFoundFor u i ctx w)) = documents w"
  "folders (snd (documentNotFoundFor u i ctx w)) = folders w"
  by (simp_all add: documentNotFoundFor_def)

lemma documentNotFoundFor_log: "\<exists>evs. snd (documentNotFoundFor u i ctx w) = w\<lparr>events := events w @ evs\<rparr>"
  by (auto simp: documentNotFoundFor_def recordEvent_def intro: exI [of _ "[]"])

interpretation own: owned_resource getOwnedDocument documents d_id d_userId "\<lambda>d. d_deletedAt d = None" documentNotFound
proof unfold_locales
  fix u i ctx w r w'
  assume "getOwnedDocument u i ctx w = (Inr r, w')"
  then show "w' = w \<and> r \<in> set (documents w) \<and> d_id r = i \<and> d_userId r = u \<and> d_deletedAt r = None"
    by (auto simp: getOwnedDocument_def case_prod_unfold ownLive_def split: option.splits dest: findFirst_SomeD)
next
  fix u i ctx w f w'
  assume "getOwnedDocument u i ctx w = (Inl f, w')"
  then show "f = documentNotFound \<and> (\<exists>evs. w' = w\<lparr>events := events w @ evs\<rparr>)
      \<and> (\<forall>r\<in>set (documents w). \<not> (d_id r = i \<and> d_userId r = u \<and> d_deletedAt r = None))"
    using documentNotFoundFor_log
    by (auto simp: getOwnedDocument_def case_prod_unfold tbl.find_none ownLive_def split: option.splits)
qed

lemma getOwnedDocument_frame: "getOwnedDocument u i ctx w = (r, w') \<Longrightarrow> documents w' = documents w \<and> folders w' = folders w"
  by (cases rule: own.get_cases [of u i ctx w]) auto

lemma getOwnedFolder_frame: "getOwnedFolder u i ctx w = (r, w') \<Longrightarrow> documents w' = documents w \<and> folders w' = folders w"
  by (cases rule: fol.get_cases [of u i ctx w]) auto

section \<open>Guarantees of the handlers\<close>

lemma createDocument_step:
  assumes "document_env e"
  shows "docs_step w (snd (createDocument e u dto ctx w))"
proof -
  have ins: "docs_step v (snd (prismaDocumentCreate row v))" if "doc_row_ok row" for v row
    using that by (auto simp: prismaDocumentCreate_def docs_step_def documents_wf_def tbl.find_none createRow_def
        intro: doc.evolves_refl doc.evolves_create [unfolded createRow_def])
  let ?row = "\<lparr>d_id = freshId e 0, d_userId = u, d_folderId = cd_folderId dto, d_title = cd_title dto,
                 d_description = emptyToNull (cd_description dto), d_status = DRAFT, d_mimeType = None,
                 d_fileSize = None, d_pageCount = None, d_storageKey = None, d_originalName = None,
                 d_createdAt = clock e 0, d_updatedAt = clock e 0, d_deletedAt = None\<rparr>"
  obtain c w1 where cw: "(if truthy (cd_folderId dto)
      then (case getOwnedFolder u (the (cd_folderId dto)) ctx w of
              (Inl f, w') \<Rightarrow> (Some f, w') | (Inr _, w') \<Rightarrow> (None, others e 0 w'))
      else (None, w)) = (c, w1)" by fastforce
  have w1: "docs_step w w1"
    using cw docs_step_same [of _ w] docs_step_trans [OF docs_step_same document_envD [OF assms]]
    by (auto split: if_splits prod.splits sum.splits dest: getOwnedFolder_frame)
  have "docs_step w (snd (prismaDocumentCreate ?row w1))"
    using w1 ins [of ?row w1] by (auto simp: doc_row_ok_def intro: docs_step_trans)
  then show ?thesis
    using w1 by (auto simp: createDocument_def Let_def cw split: option.splits sum.splits prod.splits)
qed

lemma writeDocument_step: "docs_step w (snd (writeDocument u i dto now w))"
proof -
  have "docs_step w (w\<lparr>documents := snd (updateMany (ownLive u i) (applyDocumentData dto now) (documents w))\<rparr>)"
    by (rule docs_step_update) (auto simp: ownLive_def applyDocumentData_def doc_row_ok_def doc_le_def fileOf_def)
  then show ?thesis by (auto simp: writeDocument_def case_prod_unfold Let_def docs_step_same)
qed

lemma updateDocument_step:
  assumes "document_env e"
  shows "docs_step w (snd (updateDocument e u i dto ctx w))"
proof (cases rule: own.get_cases [of u i ctx w])
  case (missing evs)
  then show ?thesis by (simp add: updateDocument_def docs_step_same)
next
  case (found d)
  obtain c w2 where cw: "(case ud_folderId dto of
      Some (Some f) \<Rightarrow> if f = [] then (None, w)
        else (case getOwnedFolder u f ctx (others e 0 w) of (Inl x, w') \<Rightarrow> (Some x, w') | (Inr _, w') \<Rightarrow> (None, w'))
    | _ \<Rightarrow> (None, w)) = (c, w2)" by fastforce
  have "documents w2 = documents w \<or> documents w2 = documents (others e 0 w)"
    using cw by (auto split: option.splits if_splits prod.splits sum.splits dest!: getOwnedFolder_frame)
  then have w2: "docs_step w w2"
    using docs_step_same [of w2] docs_step_trans [OF document_envD [OF assms] docs_step_same] by blast
  have w3: "docs_step w (snd (writeDocument u (d_id d) dto (clock e 0) (others e 1 w2)))"
    using docs_step_trans [OF docs_step_trans [OF w2 document_envD [OF assms]] writeDocument_step] .
  have w4: "docs_step w v'" if "writeDocument u (d_id d) dto (clock e 0) (others e 1 w2) = (r, v)"
    and "getOwnedDocument u i ctx (others e 2 v) = (r', v')" for r v r' v'
  proof -
    have "docs_step w (others e 2 v)" using docs_step_trans [OF w3 document_envD [OF assms]] that(1) by simp
    moreover have "docs_step (others e 2 v) v'" using getOwnedDocument_frame [OF that(2)] docs_step_same by blast
    ultimately show ?thesis by (rule docs_step_trans)
  qed
  show ?thesis
    using w2 w3 w4 by (auto simp: updateDocument_def found(1) cw Let_def split: option.splits sum.splits prod.splits)
qed

lemma removeDocument_step:
  assumes "document_env e"
  shows "docs_step w (snd (removeDocument e u i ctx w))"
proof -
  let ?f = "\<lambda>d. d\<lparr>d_deletedAt := Some (clock e 0), d_status := DELETED, d_updatedAt := clock e 1\<rparr>"
  have del: "docs_step w (w\<lparr>documents := snd (updateMany (ownLive u i) ?f (documents w))\<rparr>)"
    by (rule docs_step_update) (auto simp: ownLive_def doc_row_ok_def doc_le_def fileOf_def)
  with docs_step_trans [OF del document_envD [OF assms, of _ 0]] show ?thesis
    by (auto simp: removeDocument_def Let_def case_prod_unfold docs_step_frame [OF documentNotFoundFor_frame(2)])
qed

lemma removeFolder_docs_step:
  assumes "folders_wf w"
  shows "docs_step w (snd (removeFolder e u i ctx w))"
proof (cases "\<exists>t\<in>set (folders w). f_id t = i \<and> f_userId t = u")
  case False
  with removeFolder_frame [OF False, of e ctx] show ?thesis by (auto intro: docs_step_same)
next
  case True
  then obtain t where t: "t \<in> set (folders w)" "f_id t = i" "f_userId t = u" by blast
  let ?p = "\<lambda>d. d_folderId d = Some (f_id t)" and ?f = "\<lambda>d. d\<lparr>d_folderId := None, d_updatedAt := clock e 0\<rparr>"
  have "docs_step w (w\<lparr>documents := snd (updateMany ?p ?f (documents w))\<rparr>)"
    by (rule docs_step_update) (auto simp: doc_row_ok_def doc_le_def fileOf_def)
  moreover have "documents (snd (removeFolder e u i ctx w)) = snd (updateMany ?p ?f (documents w))"
    using removeFolderTx_found [OF assms t(1), of e ctx] t(2,3) by (auto simp: removeFolder_def updateMany_def)
  ultimately show ?thesis by (simp add: docs_step_def documents_wf_def)
qed

lemma ownLive_unique:
  "distinct (map d_id (documents w)) \<Longrightarrow> d \<in> set (documents w) \<Longrightarrow> d' \<in> set (documents w) \<Longrightarrow>
     d_id d = d_id d' \<Longrightarrow> d = d'"
  by (auto simp: distinct_map dest: inj_onD)

section \<open>Listing\<close>

text \<open>The laws of the orders of the database: a collation is a total preorder on texts, ids are ordered
  linearly.\<close>

definition database_ok :: "database \<Rightarrow> bool" where
  "database_ok db \<longleftrightarrow> (\<forall>a b. byText db a b \<or> byText db b a) \<and> (\<forall>a b c. byText db a b \<longrightarrow> byText db b c \<longrightarrow> byText db a c)
     \<and> (\<forall>a b. byId db a b \<or> byId db b a) \<and> (\<forall>a b c. byId db a b \<longrightarrow> byId db b c \<longrightarrow> byId db a c)
     \<and> (\<forall>a b. byId db a b \<longrightarrow> byId db b a \<longrightarrow> a = b)"

text \<open>What a listing promises about its order: the value of the sorted column grows or falls, missing
  sizes count as the largest, and of equal ones the smaller id comes first.\<close>

definition sort_key_less :: "database \<Rightarrow> DocumentSortField \<Rightarrow> Document \<Rightarrow> Document \<Rightarrow> bool" where
  "sort_key_less db s a b \<longleftrightarrow>
     s = SortCreatedAt \<and> d_createdAt a < d_createdAt b \<or> s = SortUpdatedAt \<and> d_updatedAt a < d_updatedAt b
     \<or> s = SortTitle \<and> byText db (d_title a) (d_title b) \<and> \<not> byText db (d_title b) (d_title a)
     \<or> s = SortFileSize \<and> (\<exists>x. d_fileSize a = Some x \<and> (\<forall>y. d_fileSize b = Some y \<longrightarrow> x < y))"

definition listed_before :: "database \<Rightarrow> DocumentSortField \<Rightarrow> SortOrder \<Rightarrow> Document \<Rightarrow> Document \<Rightarrow> bool" where
  "listed_before db s ord a b \<longleftrightarrow>
     (if ord = Asc then sort_key_less db s a b else sort_key_less db s b a)
     \<or> \<not> sort_key_less db s a b \<and> \<not> sort_key_less db s b a \<and> byId db (d_id a) (d_id b)"

lemma sortLe_total: "database_ok db \<Longrightarrow> sortLe db s a b \<or> sortLe db s b a"
  by (cases s) (auto simp: sortLe_def database_ok_def split: option.splits)

lemma sortLe_trans: "database_ok db \<Longrightarrow> sortLe db s a b \<Longrightarrow> sortLe db s b c \<Longrightarrow> sortLe db s a c"
  unfolding sortLe_def database_ok_def by (cases s) (auto split: option.splits)

lemma sortLe_less: "database_ok db \<Longrightarrow> sort_key_less db s a b \<longleftrightarrow> sortLe db s a b \<and> \<not> sortLe db s b a"
  by (cases s) (auto simp: sortLe_def sort_key_less_def split: option.splits)

lemma documentOrder_total: "database_ok db \<Longrightarrow> documentOrder db s ord a b \<or> documentOrder db s ord b a"
  using sortLe_total [of db s a b] unfolding documentOrder_def Let_def database_ok_def by (cases ord) auto

lemma documentOrder_trans:
  assumes "database_ok db" and "documentOrder db s ord a b" and "documentOrder db s ord b c"
  shows "documentOrder db s ord a c"
proof -
  let ?le = "\<lambda>x y. if ord = Asc then sortLe db s x y else sortLe db s y x"
  have ids: "byId db i j \<Longrightarrow> byId db j k \<Longrightarrow> byId db i k" for i j k using assms(1) unfolding database_ok_def by blast
  have le: "?le x y \<Longrightarrow> ?le y z \<Longrightarrow> ?le x z" for x y z
    using sortLe_trans [OF assms(1), of s x y z] sortLe_trans [OF assms(1), of s z y x] by (simp split: if_splits)
  have ab: "?le a b" "\<not> ?le b a \<or> byId db (d_id a) (d_id b)" and bc: "?le b c" "\<not> ?le c b \<or> byId db (d_id b) (d_id c)"
    using assms(2,3) unfolding documentOrder_def Let_def by blast+
  have "?le a c" by (rule le [OF ab(1) bc(1)])
  moreover have "byId db (d_id a) (d_id c)" if "?le c a"
    using ab(2) bc(2) ids le [OF bc(1) that] le [OF that ab(1)] by blast
  ultimately show ?thesis unfolding documentOrder_def Let_def by blast
qed

lemma documentOrder_antisym:
  "database_ok db \<Longrightarrow> documentOrder db s ord a b \<Longrightarrow> documentOrder db s ord b a \<Longrightarrow> d_id a = d_id b"
  unfolding documentOrder_def Let_def database_ok_def by blast

lemma documentOrder_listed: "database_ok db \<Longrightarrow> documentOrder db s ord a b \<Longrightarrow> listed_before db s ord a b"
  unfolding documentOrder_def listed_before_def Let_def by (cases ord) (auto simp: sortLe_less)

lemma documents_sorted: "database_ok db \<Longrightarrow> sorted_wrt (documentOrder db s ord) (orderBy (documentOrder db s ord) xs)"
  by (rule sorted_orderBy) (rule documentOrder_total, assumption, rule documentOrder_trans)

lemma documents_arranged:
  assumes "database_ok db" and "distinct (map d_id xs)" and "distinct (map d_id ys)" and "set xs = set ys"
  shows "orderBy (documentOrder db s ord) xs = orderBy (documentOrder db s ord) ys"
proof (rule orderBy_unique)
  show "a = b" if "a \<in> set xs" "b \<in> set xs" "documentOrder db s ord a b" "documentOrder db s ord b a" for a b
    using documentOrder_antisym [OF assms(1) that(3,4)] assms(2) that(1,2) by (auto simp: distinct_map dest: inj_onD)
  show "documentOrder db s ord a b \<or> documentOrder db s ord b a" for a b by (rule documentOrder_total [OF assms(1)])
  show "documentOrder db s ord a c" if "documentOrder db s ord a b" "documentOrder db s ord b c" for a b c
    by (rule documentOrder_trans [OF assms(1) that])
qed (use assms(2-4) in \<open>simp_all add: distinct_map\<close>)

text \<open>What an undisturbed listing answers; the check of the folder does not depend on the documents.\<close>

lemma listDocuments_answer:
  assumes "quiet e" and "listDocuments e db u q ctx w = (Inr pg, w')"
  shows "fst (listDocuments e db u (q\<lparr>q_page := p\<rparr>) ctx (w\<lparr>documents := ds\<rparr>))
    = Inr \<lparr>dp_items = pageOf p (q_limit q) (orderBy (documentOrder db (q_sort q) (q_order q)) (findMany (listWhere db u q) ds)),
        dp_page = p, dp_limit = q_limit q, dp_total = countRows (listWhere db u q) ds,
        dp_totalPages = ceilDiv (countRows (listWhere db u q) ds) (q_limit q)\<rparr>"
proof -
  have wh: "listWhere db u (q\<lparr>q_page := p\<rparr>) = listWhere db u q"
    by (auto simp: fun_eq_iff listWhere_def split: option.splits)
  have o: "others e = (\<lambda>_ w. w)" using assms(1) by (simp add: quiet_def)
  have found: "\<exists>d. findFirst (\<lambda>x. f_id x = f \<and> f_userId x = u) (folders w) = Some d"
    if "q_folderId q = Some (Some f)" "f \<noteq> []" for f
    using assms(2) that by (auto simp: listDocuments_def getOwnedFolder_def Let_def case_prod_unfold split: option.splits)
  then show ?thesis
    by (auto simp: listDocuments_def wh o Let_def getOwnedFolder_def split: option.split)
qed

lemma listDocuments_total:
  assumes "quiet e" and "listDocuments e db u q ctx w = (Inr pg, w')"
  shows "dp_total pg = countRows (listWhere db u q) (documents w)"
    and "dp_totalPages pg = ceilDiv (countRows (listWhere db u q) (documents w)) (q_limit q)"
proof -
  have "q\<lparr>q_page := q_page q\<rparr> = q" "w\<lparr>documents := documents w\<rparr> = w" by simp_all
  then have "fst (listDocuments e db u q ctx w) = Inr pg \<and> dp_total pg = countRows (listWhere db u q) (documents w)
      \<and> dp_totalPages pg = ceilDiv (countRows (listWhere db u q) (documents w)) (q_limit q)"
    using listDocuments_answer [OF assms, of "q_page q" "documents w"] assms(2) by (simp only:) auto
  then show "dp_total pg = countRows (listWhere db u q) (documents w)"
    and "dp_totalPages pg = ceilDiv (countRows (listWhere db u q) (documents w)) (q_limit q)" by blast+
qed

section \<open>A concrete shelf\<close>

definition demoDocument :: Document where
  "demoDocument = \<lparr>d_id = [3], d_userId = [7], d_folderId = Some [2], d_title = js ''T'', d_description = None,
     d_status = DRAFT, d_mimeType = None, d_fileSize = None, d_pageCount = None, d_storageKey = None,
     d_originalName = None, d_createdAt = 0, d_updatedAt = 0, d_deletedAt = None\<rparr>"

definition demoShelf :: World where
  "demoShelf = demoLibrary\<lparr>documents := [demoDocument]\<rparr>"

lemma demoShelf_wf: "documents_wf demoShelf" "folders_wf demoShelf"
  using demoLibrary_wf
  by (auto simp: demoShelf_def documents_wf_def doc_row_ok_def demoDocument_def folders_wf_def docs_filed_def
      demoLibrary_def demoFolder_def)

lemma demoRun_document_env: "document_env demoRun"
  by (simp add: document_env_def demoRun_def docs_step_same)

section \<open>Properties\<close>

text \<open>C25. What any request may do to stored documents: the rows stay, in place, with their id, owner and
  creation time; a deleted document stays as it was deleted; and the file of a ready document (its
  key, type, size and name) is never replaced: from ready it can only be deleted. Creating,
  updating and deleting documents and deleting folders all keep to this, whatever happens while
  they wait, as long as the other requests do.\<close>

theorem documents_evolve:
  assumes "document_env e" and "documents_wf w" and "folders_wf w"
    and "w' \<in> {snd (createDocument e u cdto ctx w), snd (updateDocument e u i udto ctx w),
               snd (removeDocument e u i ctx w), snd (removeFolder e u i ctx w)}"
  shows "documents_wf w' \<and> evolves doc_le (documents w) (documents w')"
proof -
  have "docs_step w w'"
    using assms(4) createDocument_step [OF assms(1)] updateDocument_step [OF assms(1)]
      removeDocument_step [OF assms(1)] removeFolder_docs_step [OF assms(3)] by auto
  with assms(2) show ?thesis by (simp add: docs_step_def)
qed

theorem documents_evolve_witness:
  "documents_wf (snd (removeDocument demoRun [7] [3] demoCtx demoShelf))"
  using documents_evolve [OF demoRun_document_env demoShelf_wf(1,2), of "snd (removeDocument demoRun [7] [3] demoCtx demoShelf)"
      "[7]" "\<lparr>cd_title = [], cd_description = None, cd_folderId = None\<rparr>" demoCtx "[3]"
      "\<lparr>ud_title = None, ud_description = None, ud_folderId = None\<rparr>"]
  by blast

text \<open>A document of somebody else and a deleted document are answered like one that does not exist:
  the same 404 from reading, updating and deleting, and no document changes.\<close>

theorem document_foreign_is_missing:
  assumes "\<forall>d\<in>set (documents w). d_id d = i \<longrightarrow> d_userId d \<noteq> u \<or> d_deletedAt d \<noteq> None"
  shows "fst (getOwnedDocument u i ctx w) = Inl documentNotFound
    \<and> fst (updateDocument e u i dto ctx w) = Inl documentNotFound
    \<and> fst (removeDocument e u i ctx w) = Inl documentNotFound
    \<and> documents (snd (updateDocument e u i dto ctx w)) = documents w
    \<and> documents (snd (removeDocument e u i ctx w)) = documents (others e 0 w)"
proof -
  obtain evs where get: "getOwnedDocument u i ctx w = (Inl documentNotFound, w\<lparr>events := events w @ evs\<rparr>)"
    using assms by (cases rule: own.get_cases [of u i ctx w]) auto
  have "\<forall>d\<in>set (documents w). \<not> ownLive u i d" using assms by (auto simp: ownLive_def)
  then have none: "fst (updateMany (ownLive u i) f (documents w)) = 0"
    and same: "snd (updateMany (ownLive u i) f (documents w)) = documents w" for f
    using tbl.update_where_zero tbl.update_where_idle by blast+
  have "w\<lparr>documents := documents w\<rparr> = w" by simp
  with get none same show ?thesis
    by (simp add: updateDocument_def removeDocument_def case_prod_unfold Let_def)
qed

theorem document_foreign_is_missing_witness:
  "fst (removeDocument demoRun [8] [3] demoCtx demoShelf) = Inl documentNotFound"
  using document_foreign_is_missing [of demoShelf "[3]" "[8]" demoCtx demoRun
      "\<lparr>ud_title = None, ud_description = None, ud_folderId = None\<rparr>"]
  by (simp add: demoShelf_def demoDocument_def)

text \<open>Deleting is soft and happens once: on success exactly one live row of the caller gets the
  deletion time and the status, keeps every other column, and from then on loading it answers
  404; every other row is untouched.\<close>

theorem removeDocument_outcome:
  assumes "documents_wf w" and "d \<in> set (documents w)" and "d_userId d = u" and "d_deletedAt d = None"
  shows "fst (removeDocument e u (d_id d) ctx w)
           = Inr \<lparr>dd_id = d_id d, dd_status = DELETED, dd_deletedAt = clock e 0\<rparr>
       \<and> documents (snd (removeDocument e u (d_id d) ctx w))
           = map (\<lambda>x. if d_id x = d_id d
               then x\<lparr>d_deletedAt := Some (clock e 0), d_status := DELETED, d_updatedAt := clock e 1\<rparr> else x)
             (documents w)
       \<and> fst (getOwnedDocument v (d_id d) ctx' (snd (removeDocument e u (d_id d) ctx w))) = Inl documentNotFound"
proof -
  let ?f = "\<lambda>x. x\<lparr>d_deletedAt := Some (clock e 0), d_status := DELETED, d_updatedAt := clock e 1\<rparr>"
  have dist: "distinct (map d_id (documents w))" using assms(1) by (simp add: documents_wf_def)
  have same: "ownLive u (d_id d) x \<longleftrightarrow> d_id x = d_id d" if "x \<in> set (documents w)" for x
    using ownLive_unique [OF dist that assms(2)] assms(3,4) by (auto simp: ownLive_def)
  then have upd: "updateMany (ownLive u (d_id d)) ?f (documents w) = updateMany (\<lambda>x. d_id x = d_id d) ?f (documents w)"
    by (rule updateMany_cong)
  have one: "fst (updateMany (\<lambda>x. d_id x = d_id d) ?f (documents w)) = 1"
    using unique_count [OF dist assms(2)] by (simp add: updateMany_def)
  have docs: "documents (snd (removeDocument e u (d_id d) ctx w)) = map (\<lambda>x. if d_id x = d_id d then ?f x else x) (documents w)"
    and res: "fst (removeDocument e u (d_id d) ctx w) = Inr \<lparr>dd_id = d_id d, dd_status = DELETED, dd_deletedAt = clock e 0\<rparr>"
    unfolding removeDocument_def Let_def upd case_prod_unfold one by (simp_all add: tbl.update_rows)
  have "fst (getOwnedDocument v (d_id d) ctx' (snd (removeDocument e u (d_id d) ctx w))) = Inl documentNotFound"
    by (rule own.get_foreign) (auto simp: docs split: if_splits)
  with docs res show ?thesis by blast
qed

theorem removeDocument_outcome_witness:
  "fst (removeDocument demoRun [7] [3] demoCtx demoShelf) = Inr \<lparr>dd_id = [3], dd_status = DELETED, dd_deletedAt = 5\<rparr>"
  using removeDocument_outcome [OF demoShelf_wf(1), of demoDocument "[7]" demoRun demoCtx]
  by (simp add: demoShelf_def demoDocument_def demoRun_def)

text \<open>Updating metadata writes title, description, folder and update time of the one row, and
  nothing the server controls: status, file, page count, owner and deletion mark of every document
  are those the other requests left.\<close>

theorem updateDocument_scope:
  assumes "updateDocument e u i dto ctx w = (res, w')" and "\<forall>j v. documents (others e j v) = documents v"
  shows "\<exists>h. documents w' = map h (documents w)
    \<and> (\<forall>d. h d = d \<or> (ownLive u i d \<and> h d = applyDocumentData dto (clock e 0) d))
    \<and> (\<forall>d. d_status (h d) = d_status d \<and> fileOf (h d) = fileOf d \<and> d_pageCount (h d) = d_pageCount d
         \<and> d_userId (h d) = d_userId d \<and> d_deletedAt (h d) = d_deletedAt d)"
proof -
  have wr: "documents v' = documents v \<or>
      documents v' = map (\<lambda>d. if ownLive u i d then applyDocumentData dto (clock e 0) d else d) (documents v)"
    if "writeDocument u i dto (clock e 0) v = (r, v')" for v v' r
    using that by (auto simp: writeDocument_def case_prod_unfold Let_def table_simps split: if_splits)
  have "documents w' = documents w \<or>
      documents w' = map (\<lambda>d. if ownLive u i d then applyDocumentData dto (clock e 0) d else d) (documents w)"
  proof (cases rule: own.get_cases [of u i ctx w])
    case (missing evs)
    with assms(1) show ?thesis by (auto simp: updateDocument_def)
  next
    case (found d)
    obtain c w2 where cw: "(case ud_folderId dto of
        Some (Some f) \<Rightarrow> if f = [] then (None, w)
          else (case getOwnedFolder u f ctx (others e 0 w) of (Inl x, w') \<Rightarrow> (Some x, w') | (Inr _, w') \<Rightarrow> (None, w'))
      | _ \<Rightarrow> (None, w)) = (c, w2)" by fastforce
    then have w2: "documents w2 = documents w"
      using assms(2) by (auto split: option.splits if_splits prod.splits sum.splits dest!: getOwnedFolder_frame)
    obtain r3 w3 where wd: "writeDocument u i dto (clock e 0) (others e 1 w2) = (r3, w3)" by fastforce
    obtain r4 w4 where g: "getOwnedDocument u i ctx (others e 2 w3) = (r4, w4)" by fastforce
    have w4: "documents w4 = documents w3" using getOwnedDocument_frame [OF g] assms(2) by simp
    have "w' = w2 \<or> w' = w3 \<or> w' = w4 \<or> (\<exists>ev. w' = recordEvent ev w4)"
    proof (cases c)
      case (Some x)
      with assms(1) found show ?thesis by (simp add: updateDocument_def cw)
    next
      case None
      with assms(1) found wd g show ?thesis
        by (cases r3; cases r4) (auto simp: updateDocument_def cw split: if_splits)
    qed
    with wr [OF wd] w2 w4 assms(2) show ?thesis by auto
  qed
  then show ?thesis
  proof
    assume "documents w' = documents w"
    then show ?thesis by (intro exI [of _ "\<lambda>d. d"]) simp
  next
    assume "documents w' = map (\<lambda>d. if ownLive u i d then applyDocumentData dto (clock e 0) d else d) (documents w)"
    then show ?thesis
      by (intro exI [of _ "\<lambda>d. if ownLive u i d then applyDocumentData dto (clock e 0) d else d"])
        (auto simp: applyDocumentData_def fileOf_def)
  qed
qed

theorem updateDocument_scope_witness:
  "\<exists>h. documents (snd (updateDocument demoRun [7] [3]
      \<lparr>ud_title = Some (Some [1]), ud_description = None, ud_folderId = None\<rparr> demoCtx demoShelf)) = map h (documents demoShelf)"
proof -
  have "\<forall>j v. documents (others demoRun j v) = documents v" by (simp add: demoRun_def)
  from updateDocument_scope [OF prod.collapse [symmetric] this] show ?thesis by blast
qed

text \<open>C32. Listing pages through exactly the matching documents. While nobody writes, the pages 1 to
  \<open>totalPages\<close>, each asked for by a query of its own, are one after the other: every live document of
  the caller that is in the folder, has the status and contains the text asked for, each once and no
  other, in the requested order, with equal ones by their id; and the total counts them. This holds
  although the database may find the rows in another order in every query, so that without the id
  pages could overlap.\<close>

theorem listDocuments_pages:
  assumes "database_ok db" and "quiet e" and "0 < q_limit q" and "distinct (map d_id (documents w))"
    and "listDocuments e db u q ctx w = (Inr pg, w')"
    and "\<And>p. set (ds p) = set (documents w) \<and> distinct (map d_id (ds p))"
  shows "\<exists>xs. concat (map (\<lambda>p. case fst (listDocuments e db u (q\<lparr>q_page := p\<rparr>) ctx (w\<lparr>documents := ds p\<rparr>)) of
                 Inr x \<Rightarrow> dp_items x | Inl _ \<Rightarrow> []) [1..<Suc (dp_totalPages pg)]) = xs
    \<and> distinct (map d_id xs) \<and> dp_total pg = length xs \<and> sorted_wrt (listed_before db (q_sort q) (q_order q)) xs
    \<and> (\<forall>d. d \<in> set xs \<longleftrightarrow> d \<in> set (documents w) \<and> d_userId d = u \<and> d_deletedAt d = None
        \<and> (\<forall>f. q_folderId q = Some f \<longrightarrow> d_folderId d = f) \<and> (\<forall>s. q_status q = Some s \<longrightarrow> d_status d = s)
        \<and> (\<forall>t. q_search q = Some t \<and> t \<noteq> [] \<longrightarrow> containsInsensitive db t (d_title d)
             \<or> (\<exists>x. d_description d = Some x \<and> containsInsensitive db t x)))"
proof -
  let ?le = "documentOrder db (q_sort q) (q_order q)" and ?P = "listWhere db u q"
  let ?xs = "orderBy ?le (filter ?P (documents w))"
  have same: "orderBy ?le (filter ?P (ds p)) = ?xs" for p
    using assms(4,6) by (intro documents_arranged [OF assms(1)]) (auto simp: distinct_map_filter)
  have count: "length (filter ?P (documents w)) = length ?xs" by simp
  have items: "fst (listDocuments e db u (q\<lparr>q_page := p\<rparr>) ctx (w\<lparr>documents := ds p\<rparr>))
      = Inr \<lparr>dp_items = pageOf p (q_limit q) ?xs, dp_page = p, dp_limit = q_limit q,
             dp_total = length ?xs, dp_totalPages = ceilDiv (length ?xs) (q_limit q)\<rparr>" for p
    using listDocuments_answer [OF assms(2,5), of p "ds p"] same [of p] length_orderBy [of ?le "filter ?P (ds p)"]
    by (simp add: findMany_def countRows_def)
  have total: "dp_total pg = length ?xs" "dp_totalPages pg = ceilDiv (length ?xs) (q_limit q)"
    using listDocuments_total [OF assms(2,5)] by (simp_all add: countRows_def)
  have "concat (map (\<lambda>p. pageOf p (q_limit q) ?xs) [1..<Suc (ceilDiv (length ?xs) (q_limit q))]) = ?xs"
    using assms(3) by (rule concat_all_pages)
  moreover have "distinct (map d_id ?xs)" unfolding distinct_orderBy using assms(4) by (simp add: distinct_map_filter)
  moreover have "sorted_wrt (listed_before db (q_sort q) (q_order q)) ?xs"
    by (rule sorted_wrt_mono_rel [OF _ documents_sorted [OF assms(1)]]) (rule documentOrder_listed [OF assms(1)])
  moreover have "d \<in> set ?xs \<longleftrightarrow> d \<in> set (documents w) \<and> d_userId d = u \<and> d_deletedAt d = None
        \<and> (\<forall>f. q_folderId q = Some f \<longrightarrow> d_folderId d = f) \<and> (\<forall>s. q_status q = Some s \<longrightarrow> d_status d = s)
        \<and> (\<forall>t. q_search q = Some t \<and> t \<noteq> [] \<longrightarrow> containsInsensitive db t (d_title d)
             \<or> (\<exists>x. d_description d = Some x \<and> containsInsensitive db t x))" for d
    by (auto simp: listWhere_def truthy_def split: option.splits if_splits)
  ultimately show ?thesis using total by (intro exI [of _ ?xs]) (simp only: items sum.case DocumentPage.select_convs, blast)
qed

text \<open>Two documents of the same second on pages of one, found in opposite orders by the two queries.\<close>

definition demoOrder :: database where
  "demoOrder = \<lparr>byText = lexordp_eq, byId = lexordp_eq, containsInsensitive = (\<lambda>a b. a = b)\<rparr>"

theorem listDocuments_pages_witness:
  "concat (map (\<lambda>p. case fst (listDocuments demoRun demoOrder [7]
       \<lparr>q_page = p, q_limit = 1, q_folderId = None, q_status = None, q_search = None, q_sort = SortCreatedAt, q_order = Desc\<rparr>
       demoCtx (demoShelf\<lparr>documents := (if p = 1 then [demoDocument\<lparr>d_id := [4]\<rparr>, demoDocument]
         else [demoDocument, demoDocument\<lparr>d_id := [4]\<rparr>])\<rparr>)) of Inr x \<Rightarrow> dp_items x | Inl _ \<Rightarrow> []) [1..<3])
     = [demoDocument, demoDocument\<lparr>d_id := [4]\<rparr>]"
proof -
  let ?q = "\<lparr>q_page = 1, q_limit = 1, q_folderId = None, q_status = None, q_search = None, q_sort = SortCreatedAt, q_order = Desc\<rparr>"
  let ?b = "demoDocument\<lparr>d_id := [4]\<rparr>"
  let ?w = "demoShelf\<lparr>documents := [demoDocument, ?b]\<rparr>" and ?ds = "\<lambda>p. if p = (1 :: nat) then [?b, demoDocument] else [demoDocument, ?b]"
  have ids: "d_id demoDocument = [3]" "d_id ?b = [4]" by (simp_all add: demoDocument_def)
  from ids have other: "demoDocument \<noteq> ?b" by fastforce
  have run: "quiet demoRun" by (simp add: quiet_def demoRun_def)
  have ok: "database_ok demoOrder"
    using lexordp_eq_linear by (auto simp: database_ok_def demoOrder_def intro: lexordp_eq_trans lexordp_eq_antisym)
  obtain pg w' where pg: "listDocuments demoRun demoOrder [7] ?q demoCtx ?w = (Inr pg, w')"
    by (simp add: listDocuments_def Let_def)
  have rows: "set (?ds p) = set (documents ?w) \<and> distinct (map d_id (?ds p))" for p by (auto simp: ids)
  have lim: "0 < q_limit ?q" and dist: "distinct (map d_id (documents ?w))" by (simp_all add: ids)
  obtain xs where xs:
    "concat (map (\<lambda>p. case fst (listDocuments demoRun demoOrder [7] (?q\<lparr>q_page := p\<rparr>) demoCtx (?w\<lparr>documents := ?ds p\<rparr>)) of
       Inr x \<Rightarrow> dp_items x | Inl _ \<Rightarrow> []) [1..<Suc (dp_totalPages pg)]) = xs"
    "distinct (map d_id xs)" "dp_total pg = length xs" "sorted_wrt (listed_before demoOrder (q_sort ?q) (q_order ?q)) xs"
    "\<forall>d. d \<in> set xs \<longleftrightarrow> d \<in> set (documents ?w) \<and> d_userId d = [7] \<and> d_deletedAt d = None
        \<and> (\<forall>f. q_folderId ?q = Some f \<longrightarrow> d_folderId d = f) \<and> (\<forall>s. q_status ?q = Some s \<longrightarrow> d_status d = s)
        \<and> (\<forall>t. q_search ?q = Some t \<and> t \<noteq> [] \<longrightarrow> containsInsensitive demoOrder t (d_title d)
             \<or> (\<exists>x. d_description d = Some x \<and> containsInsensitive demoOrder t x))"
    using listDocuments_pages [where ds = ?ds, OF ok run lim dist pg rows] by (elim exE conjE) (rule that)
  have mem: "d \<in> set xs \<longleftrightarrow> d = demoDocument \<or> d = ?b" for d
  proof -
    have "d \<in> set xs \<longleftrightarrow> d \<in> set (documents ?w) \<and> d_userId d = [7] \<and> d_deletedAt d = None" using spec [OF xs(5), of d] by simp
    moreover have "d_userId demoDocument = [7]" "d_deletedAt demoDocument = None" by (simp_all add: demoDocument_def)
    ultimately show ?thesis by auto
  qed
  have "xs = [demoDocument, ?b]"
  proof (rule sorted_unique [OF xs(4)])
    show "sorted_wrt (listed_before demoOrder (q_sort ?q) (q_order ?q)) [demoDocument, ?b]"
      by (simp add: listed_before_def sort_key_less_def ids demoOrder_def demoDocument_def)
    show "set xs = set [demoDocument, ?b]" "distinct [demoDocument, ?b]" using mem other by auto
    show "distinct xs" using xs(2) by (simp add: distinct_map)
    show "a = b" if "a \<in> set xs" "b \<in> set xs" "listed_before demoOrder (q_sort ?q) (q_order ?q) a b"
        "listed_before demoOrder (q_sort ?q) (q_order ?q) b a" for a b
      using that mem by (auto simp: listed_before_def sort_key_less_def ids demoOrder_def)
  qed
  moreover have "dp_totalPages pg = 2" using listDocuments_total [OF run pg] xs(3) calculation
    by (simp add: ceilDiv_def)
  ultimately show ?thesis using xs(1) by (simp add: numeral_3_eq_3)
qed

end
