(* ===== verification/Ocr_Jobs.thy ===== *)
theory Ocr_Jobs
  imports Documents
begin

text \<open>
  Recognition jobs and their pages: \<open>ocr/ocr-job.service.ts\<close>. Every operation is one statement or
  one transaction of the database and so one step on the state; the time \<open>now\<close> is what its clock
  reads return. The operations that change a job do so under a condition on its status. The section
  on the life cycle gives the abstract machine of a job's status and shows that every operation
  implements it; the preorder \<open>job_le\<close> says what stays of a job, in particular that a finished job
  never changes again.
\<close>

section \<open>Data\<close>

definition ACTIVE_OCR_STATUSES :: "OcrJobStatus list" where
  "ACTIVE_OCR_STATUSES = [QUEUED, PROCESSING]"

definition TERMINAL_OCR_STATUSES :: "OcrJobStatus list" where
  "TERMINAL_OCR_STATUSES = [COMPLETED, PARTIAL, FAILED, CANCELLED]"

record PageQuery =
  pq_page :: nat
  pq_limit :: nat
  pq_pageNumber :: "nat option"

record ExtractedPage =
  x_pageNumber :: nat
  x_status :: OcrPageStatus
  x_method :: "OcrExtractionMethod option"
  x_text :: "jsstring option"
  x_confidence :: "rat option"
  x_charCount :: nat
  x_truncated :: bool
  x_errorCode :: "string option"

definition isActive :: "OcrJob \<Rightarrow> bool" where
  "isActive j \<longleftrightarrow> j_status j \<in> set ACTIVE_OCR_STATUSES"

definition isTerminal :: "OcrJob \<Rightarrow> bool" where
  "isTerminal j \<longleftrightarrow> j_status j \<in> set TERMINAL_OCR_STATUSES"

text \<open>A conditional update of jobs; \<open>@updatedAt\<close> is written with it.\<close>

definition updateJobs :: "(OcrJob \<Rightarrow> bool) \<Rightarrow> (OcrJob \<Rightarrow> OcrJob) \<Rightarrow> time \<Rightarrow> World \<Rightarrow> nat \<times> World" where
  "updateJobs p f now w =
     (let (n, rows) = updateMany p (\<lambda>j. f j\<lparr>j_updatedAt := now\<rparr>) (ocrJobs w)
      in (n, w\<lparr>ocrJobs := rows\<rparr>))"

section \<open>Queries\<close>

text \<open>\<open>findFirst\<close> with an \<open>orderBy\<close>.\<close>

definition firstBy :: "('a \<Rightarrow> 'a \<Rightarrow> bool) \<Rightarrow> ('a \<Rightarrow> bool) \<Rightarrow> 'a list \<Rightarrow> 'a option" where
  "firstBy le p t = (case orderBy le (findMany p t) of [] \<Rightarrow> None | x # _ \<Rightarrow> Some x)"

definition newestFirst :: "database \<Rightarrow> OcrJob \<Rightarrow> OcrJob \<Rightarrow> bool" where
  "newestFirst db a b \<longleftrightarrow> j_createdAt b < j_createdAt a
     \<or> (j_createdAt a = j_createdAt b \<and> byId db (j_id b) (j_id a))"

definition latestForDocument :: "database \<Rightarrow> uuid \<Rightarrow> uuid \<Rightarrow> World \<Rightarrow> OcrJob option" where
  "latestForDocument db documentId userId w =
     firstBy (newestFirst db) (\<lambda>j. j_documentId j = documentId \<and> j_userId j = userId) (ocrJobs w)"

definition findOwnedJob :: "uuid \<Rightarrow> uuid \<Rightarrow> uuid \<Rightarrow> World \<Rightarrow> OcrJob option" where
  "findOwnedJob jobId documentId userId w =
     findFirst (\<lambda>j. j_id j = jobId \<and> j_documentId j = documentId \<and> j_userId j = userId) (ocrJobs w)"

definition activeForDocument :: "uuid \<Rightarrow> World \<Rightarrow> OcrJob option" where
  "activeForDocument documentId w =
     firstBy (\<lambda>a b. j_createdAt b \<le> j_createdAt a) (\<lambda>j. j_documentId j = documentId \<and> isActive j) (ocrJobs w)"

definition latestForLanguage :: "database \<Rightarrow> uuid \<Rightarrow> jsstring \<Rightarrow> World \<Rightarrow> OcrJob option" where
  "latestForLanguage db documentId language w =
     firstBy (newestFirst db) (\<lambda>j. j_documentId j = documentId \<and> j_language j = language) (ocrJobs w)"

definition countActiveForUser :: "uuid \<Rightarrow> World \<Rightarrow> nat" where
  "countActiveForUser userId w = countRows (\<lambda>j. j_userId j = userId \<and> isActive j) (ocrJobs w)"

definition countForDocument :: "uuid \<Rightarrow> World \<Rightarrow> nat" where
  "countForDocument documentId w = countRows (\<lambda>j. j_documentId j = documentId) (ocrJobs w)"

definition pageWhere :: "uuid \<Rightarrow> PageQuery \<Rightarrow> OcrPage \<Rightarrow> bool" where
  "pageWhere jobId q p \<longleftrightarrow> p_ocrJobId p = jobId
     \<and> (case pq_pageNumber q of None \<Rightarrow> True | Some n \<Rightarrow> p_pageNumber p = n)"

definition jobPages :: "uuid \<Rightarrow> PageQuery \<Rightarrow> World \<Rightarrow> OcrPage list \<times> nat" where
  "jobPages jobId q w =
     (pageOf (pq_page q) (pq_limit q)
        (orderBy (\<lambda>a b. p_pageNumber a \<le> p_pageNumber b) (findMany (pageWhere jobId q) (ocrPages w))),
      countRows (pageWhere jobId q) (ocrPages w))"

definition findJobById :: "uuid \<Rightarrow> World \<Rightarrow> OcrJob option" where
  "findJobById jobId w = findFirst (\<lambda>j. j_id j = jobId) (ocrJobs w)"

definition findQueued :: "World \<Rightarrow> OcrJob list" where
  "findQueued w = take 500 (orderBy (\<lambda>a b. j_createdAt a \<le> j_createdAt b)
     (findMany (\<lambda>j. j_status j = QUEUED) (ocrJobs w)))"

text \<open>\<open>heartbeat_at IS NULL OR heartbeat_at < staleBefore\<close>.\<close>

definition staleAt :: "time \<Rightarrow> OcrJob \<Rightarrow> bool" where
  "staleAt staleBefore j \<longleftrightarrow> (case j_heartbeatAt j of None \<Rightarrow> True | Some t \<Rightarrow> t < staleBefore)"

definition findStaleProcessing :: "time \<Rightarrow> time \<Rightarrow> World \<Rightarrow> OcrJob list" where
  "findStaleProcessing now staleMs w = take 500 (orderBy (\<lambda>a b. j_createdAt a \<le> j_createdAt b)
     (findMany (\<lambda>j. j_status j = PROCESSING \<and> staleAt (now - staleMs) j) (ocrJobs w)))"

section \<open>Transitions\<close>

text \<open>In \<open>claim\<close> the process compares with its own clock (\<open>now\<close>) and the database writes its own
  (\<open>dbNow\<close>).\<close>

definition claim :: "uuid \<Rightarrow> time \<Rightarrow> time \<Rightarrow> time \<Rightarrow> World \<Rightarrow> bool \<times> World" where
  "claim jobId staleMs now dbNow w =
     (let (n, w') = updateJobs
            (\<lambda>j. j_id j = jobId
                 \<and> (j_status j = QUEUED \<or> (j_status j = PROCESSING \<and> staleAt (now - staleMs) j)))
            (\<lambda>j. j\<lparr>j_status := PROCESSING,
                   j_startedAt := (case j_startedAt j of None \<Rightarrow> Some dbNow | Some t \<Rightarrow> Some t),
                   j_heartbeatAt := Some dbNow,
                   j_attemptCount := j_attemptCount j + 1,
                   j_errorCode := None,
                   j_errorMessage := None\<rparr>) dbNow w
      in (n = 1, w'))"

definition heartbeat :: "uuid \<Rightarrow> time \<Rightarrow> World \<Rightarrow> World" where
  "heartbeat jobId now w =
     snd (updateJobs (\<lambda>j. j_id j = jobId \<and> j_status j = PROCESSING)
            (\<lambda>j. j\<lparr>j_heartbeatAt := Some now\<rparr>) now w)"

definition setTotalPages :: "uuid \<Rightarrow> uuid \<Rightarrow> nat \<Rightarrow> time \<Rightarrow> World \<Rightarrow> World" where
  "setTotalPages jobId documentId totalPages now w =
     (let w1 = snd (updateJobs (\<lambda>j. j_id j = jobId \<and> j_status j = PROCESSING)
                 (\<lambda>j. j\<lparr>j_totalPages := Some totalPages, j_heartbeatAt := Some now\<rparr>) now w)
      in w1\<lparr>documents := snd (updateMany (\<lambda>d. d_id d = documentId \<and> d_deletedAt d = None)
              (\<lambda>d. d\<lparr>d_pageCount := Some totalPages, d_updatedAt := now\<rparr>) (documents w1))\<rparr>)"

record Progress =
  lastPage :: nat
  progressChars :: nat

definition persistedProgress :: "uuid \<Rightarrow> World \<Rightarrow> Progress" where
  "persistedProgress jobId w =
     (let ps = findMany (\<lambda>p. p_ocrJobId p = jobId) (ocrPages w)
      in \<lparr>lastPage = foldr max (map p_pageNumber ps) 0, progressChars = sum_list (map p_charCount ps)\<rparr>)"

definition pageKey :: "OcrPage \<Rightarrow> uuid \<times> nat" where
  "pageKey p = (p_ocrJobId p, p_pageNumber p)"

definition pageRow :: "uuid \<Rightarrow> ExtractedPage \<Rightarrow> OcrPage" where
  "pageRow jobId x = \<lparr>p_ocrJobId = jobId, p_pageNumber = x_pageNumber x, p_status = x_status x,
     p_method = x_method x, p_text = x_text x, p_confidence = x_confidence x,
     p_charCount = x_charCount x, p_truncated = x_truncated x, p_errorCode = x_errorCode x\<rparr>"

definition persistPage :: "uuid \<Rightarrow> ExtractedPage \<Rightarrow> time \<Rightarrow> World \<Rightarrow> unit outcome" where
  "persistPage jobId x dbNow w =
     (if findJobById jobId w = None then (Inl (Internal ''P2003''), w)
      else
        (let w1 = w\<lparr>ocrPages := upsertRow pageKey (pageRow jobId x) (ocrPages w)\<rparr>;
             ps = findMany (\<lambda>p. p_ocrJobId p = jobId) (ocrPages w1);
             cnt = length ps;
             failed = length (filter (\<lambda>p. p_status p = PAGE_FAILED) ps)
         in (Inr (),
             snd (updateJobs (\<lambda>j. j_id j = jobId \<and> j_status j = PROCESSING)
               (\<lambda>j. j\<lparr>j_processedPages := min (case j_totalPages j of None \<Rightarrow> cnt | Some t \<Rightarrow> t) cnt,
                      j_failedPages := failed,
                      j_heartbeatAt := Some dbNow\<rparr>) dbNow w1))))"

text \<open>The collation of \<open>localeCompare\<close> on the error codes, which consist of capital letters and
  underscores: an underscore sorts before every letter.\<close>

fun codeLe :: "string \<Rightarrow> string \<Rightarrow> bool" where
  "codeLe [] b = True"
| "codeLe (x # a) [] = False"
| "codeLe (x # a) (y # b) =
     (let k = (\<lambda>c. if c = CHR ''_'' then 0 else of_char c :: nat)
      in k x < k y \<or> (k x = k y \<and> codeLe a b))"

text \<open>\<open>None\<close> is the \<open>TypeError\<close> of indexing the first entry of an empty list.\<close>

definition mostCommon :: "string list \<Rightarrow> string option" where
  "mostCommon values =
     (let counts = map (\<lambda>v. (v, length (filter ((=) v) values))) (unique_in_order values);
          sorted = orderBy (\<lambda>a b. snd b < snd a \<or> (snd a = snd b \<and> codeLe (fst a) (fst b))) counts
      in case sorted of [] \<Rightarrow> None | c # _ \<Rightarrow> Some (fst c))"

definition finalStatus :: "OcrPage list \<Rightarrow> OcrJobStatus" where
  "finalStatus pages =
     (let failed = filter (\<lambda>p. p_status p = PAGE_FAILED) pages
      in if length pages = 0 \<or> length failed = length pages then FAILED
         else if length failed > 0 then PARTIAL else COMPLETED)"

definition finalMethod :: "OcrPage list \<Rightarrow> OcrExtractionMethod option" where
  "finalMethod pages =
     (case unique_in_order (concat (map (\<lambda>p. case p_method p of None \<Rightarrow> [] | Some m \<Rightarrow> [m]) pages)) of
        [] \<Rightarrow> None
      | [m] \<Rightarrow> Some m
      | _ \<Rightarrow> Some MIXED)"

definition finalize :: "uuid \<Rightarrow> time \<Rightarrow> World \<Rightarrow> OcrJob option \<times> World" where
  "finalize jobId now w =
     (let pages = findMany (\<lambda>p. p_ocrJobId p = jobId) (ocrPages w);
          failed = filter (\<lambda>p. p_status p = PAGE_FAILED) pages;
          status = finalStatus pages;
          dominantError =
            (if length failed > 0
             then mostCommon (map (\<lambda>p. case p_errorCode p of None \<Rightarrow> ''OCR_PROCESSING_FAILED'' | Some c \<Rightarrow> c) failed)
             else None);
          (n, w') = updateJobs (\<lambda>j. j_id j = jobId \<and> j_status j = PROCESSING)
            (\<lambda>j. j\<lparr>j_status := status,
                   j_extractionMethod := finalMethod pages,
                   j_errorCode := (if status = COMPLETED then None else dominantError),
                   j_errorMessage := (if status = COMPLETED then None
                      else if status = PARTIAL
                      then Some (nat_str (length failed) @ '' of '' @ nat_str (length pages)
                                 @ '' pages could not be processed'')
                      else Some ''No page could be processed''),
                   j_completedAt := Some now,
                   j_heartbeatAt := Some now,
                   j_processedPages := length pages,
                   j_failedPages := length failed\<rparr>) now w
      in if n \<noteq> 1 then (None, w') else (findJobById jobId w', w'))"

definition failJob :: "uuid \<Rightarrow> string \<Rightarrow> string \<Rightarrow> time \<Rightarrow> World \<Rightarrow> bool \<times> World" where
  "failJob jobId errorCode errorMessage now w =
     (let (n, w') = updateJobs (\<lambda>j. j_id j = jobId \<and> isActive j)
            (\<lambda>j. j\<lparr>j_status := FAILED, j_errorCode := Some errorCode,
                   j_errorMessage := Some (take 500 errorMessage),
                   j_completedAt := Some now, j_heartbeatAt := Some now\<rparr>) now w
      in (n = 1, w'))"

definition requeue :: "uuid \<Rightarrow> string \<Rightarrow> string \<Rightarrow> time \<Rightarrow> World \<Rightarrow> bool \<times> World" where
  "requeue jobId errorCode errorMessage now w =
     (let (n, w') = updateJobs (\<lambda>j. j_id j = jobId \<and> j_status j = PROCESSING)
            (\<lambda>j. j\<lparr>j_status := QUEUED, j_errorCode := Some errorCode,
                   j_errorMessage := Some (take 500 errorMessage), j_heartbeatAt := Some now\<rparr>) now w
      in (n = 1, w'))"

definition cancelJob :: "uuid \<Rightarrow> string \<Rightarrow> string \<Rightarrow> time \<Rightarrow> World \<Rightarrow> bool \<times> World" where
  "cancelJob jobId errorCode errorMessage now w =
     (let (n, w') = updateJobs (\<lambda>j. j_id j = jobId \<and> isActive j)
            (\<lambda>j. j\<lparr>j_status := CANCELLED, j_errorCode := Some errorCode,
                   j_errorMessage := Some (take 500 errorMessage),
                   j_completedAt := Some now, j_heartbeatAt := Some now\<rparr>) now w
      in (n = 1, w'))"

definition recover :: "uuid \<Rightarrow> time \<Rightarrow> time \<Rightarrow> World \<Rightarrow> bool \<times> World" where
  "recover jobId staleMs now w =
     (let (n, w') = updateJobs
            (\<lambda>j. j_id j = jobId \<and> j_status j = PROCESSING \<and> staleAt (now - staleMs) j)
            (\<lambda>j. j\<lparr>j_status := QUEUED, j_heartbeatAt := Some now\<rparr>) now w
      in (n = 1, w'))"

section \<open>What stays of a job\<close>

definition job_le :: "OcrJob \<Rightarrow> OcrJob \<Rightarrow> bool" where
  "job_le j j' \<longleftrightarrow> j_id j' = j_id j \<and> j_documentId j' = j_documentId j \<and> j_userId j' = j_userId j
     \<and> j_language j' = j_language j \<and> j_maxAttempts j' = j_maxAttempts j \<and> j_createdAt j' = j_createdAt j
     \<and> j_attemptCount j \<le> j_attemptCount j'
     \<and> (j_startedAt j \<noteq> None \<longrightarrow> j_startedAt j' = j_startedAt j)
     \<and> (isTerminal j \<longrightarrow> j' = j)"

interpretation job: row_preorder job_le
  by unfold_locales (auto simp: job_le_def)

lemma status_cases: "isActive j \<longleftrightarrow> \<not> isTerminal j"
  by (cases "j_status j") (simp_all add: isActive_def isTerminal_def ACTIVE_OCR_STATUSES_def TERMINAL_OCR_STATUSES_def)

lemmas statuses = isActive_def isTerminal_def ACTIVE_OCR_STATUSES_def TERMINAL_OCR_STATUSES_def

text \<open>What the columns of a stored job say together: it has an end exactly when it is finished; a
  job in processing has a start and a heartbeat; a completed job has no failed page and no error, a
  partial one has both failed and other pages.\<close>

definition job_row_ok :: "OcrJob \<Rightarrow> bool" where
  "job_row_ok j \<longleftrightarrow> (isTerminal j \<longleftrightarrow> j_completedAt j \<noteq> None)
     \<and> (j_status j = PROCESSING \<longrightarrow> j_startedAt j \<noteq> None \<and> j_heartbeatAt j \<noteq> None \<and> 0 < j_attemptCount j)
     \<and> (j_status j = COMPLETED \<longrightarrow> j_failedPages j = 0 \<and> 0 < j_processedPages j \<and> j_errorCode j = None)
     \<and> (j_status j = PARTIAL \<longrightarrow> 0 < j_failedPages j \<and> j_failedPages j < j_processedPages j \<and> j_errorCode j \<noteq> None)
     \<and> (j_status j \<in> {COMPLETED, PARTIAL} \<longrightarrow> j_startedAt j \<noteq> None \<and> 0 < j_attemptCount j)"

definition jobs_wf :: "World \<Rightarrow> bool" where
  "jobs_wf w \<longleftrightarrow> distinct (map j_id (ocrJobs w)) \<and> list_all job_row_ok (ocrJobs w)
     \<and> distinct (map pageKey (ocrPages w)) \<and> p_ocrJobId ` set (ocrPages w) \<subseteq> j_id ` set (ocrJobs w)"

definition jobs_step :: "World \<Rightarrow> World \<Rightarrow> bool" where
  "jobs_step w w' \<longleftrightarrow> (jobs_wf w \<longrightarrow> jobs_wf w' \<and> evolves job_le (ocrJobs w) (ocrJobs w'))"

lemma jobs_step_same: "ocrJobs w' = ocrJobs w \<Longrightarrow> ocrPages w' = ocrPages w \<Longrightarrow> jobs_step w w'"
  by (simp add: jobs_step_def jobs_wf_def job.evolves_refl)

lemma jobs_step_trans [trans]: "jobs_step u v \<Longrightarrow> jobs_step v w \<Longrightarrow> jobs_step u w"
  unfolding jobs_step_def using job.evolves_trans by blast

lemma updateJobs_frame [simp]:
  "documents (snd (updateJobs p f now w)) = documents w" "ocrPages (snd (updateJobs p f now w)) = ocrPages w"
  "folders (snd (updateJobs p f now w)) = folders w" "users (snd (updateJobs p f now w)) = users w"
  "queueEntries (snd (updateJobs p f now w)) = queueEntries w" "events (snd (updateJobs p f now w)) = events w"
  "refreshTokens (snd (updateJobs p f now w)) = refreshTokens w"
  "deletedObjects (snd (updateJobs p f now w)) = deletedObjects w"
  by (simp_all add: updateJobs_def updateMany_def)

lemma updateJobs_rows:
  "ocrJobs (snd (updateJobs p f now w)) = map (\<lambda>j. if p j then (f j)\<lparr>j_updatedAt := now\<rparr> else j) (ocrJobs w)"
  by (simp add: updateJobs_def updateMany_def)

lemma updateJobs_count: "fst (updateJobs p f now w) = length (filter p (ocrJobs w))"
  by (simp add: updateJobs_def updateMany_def)

lemma ocr_frame_upd [simp]:
  "jobs_wf (w\<lparr>documents := d\<rparr>) = jobs_wf w" "jobs_wf (w\<lparr>queueEntries := q\<rparr>) = jobs_wf w"
  "jobs_wf (w\<lparr>events := ev\<rparr>) = jobs_wf w"
  by (simp_all add: jobs_wf_def)

lemma job_row_ok_updated [simp]: "job_row_ok (j\<lparr>j_updatedAt := t\<rparr>) = job_row_ok j"
  by (simp add: job_row_ok_def isTerminal_def)

text \<open>A conditional write is a step when it is one on every row it selects, and it selects no
  finished row.\<close>

lemma updateJobs_step:
  assumes "\<And>j. p j \<Longrightarrow> job_row_ok j \<Longrightarrow> job_row_ok (f j)"
    and "\<And>j. p j \<Longrightarrow> job_le j ((f j)\<lparr>j_updatedAt := now\<rparr>)"
  shows "jobs_step w (snd (updateJobs p f now w))"
proof -
  let ?g = "\<lambda>j. (f j)\<lparr>j_updatedAt := now\<rparr>"
  have rows: "ocrJobs (snd (updateJobs p f now w)) = snd (updateMany p ?g (ocrJobs w))"
    by (simp add: updateJobs_def updateMany_def)
  have "j_id (f j) = j_id j" if "p j" for j
    using assms(2) [OF that] by (simp add: job_le_def)
  then have ids: "map j_id (map (\<lambda>j. if p j then ?g j else j) (ocrJobs w)) = map j_id (ocrJobs w)"
    by simp
  have "j_id ` set (map (\<lambda>j. if p j then ?g j else j) (ocrJobs w)) = j_id ` set (ocrJobs w)"
    using arg_cong [OF ids, of set] by (simp only: set_map)
  moreover have "list_all job_row_ok (map (\<lambda>j. if p j then ?g j else j) (ocrJobs w))"
    if "list_all job_row_ok (ocrJobs w)"
    using that assms(1) by (auto simp: list_all_iff)
  ultimately have "jobs_wf w \<longrightarrow> jobs_wf (snd (updateJobs p f now w))"
    unfolding jobs_wf_def updateJobs_rows updateJobs_frame ids by blast
  moreover have "evolves job_le (ocrJobs w) (ocrJobs (snd (updateJobs p f now w)))"
    unfolding rows by (rule job.evolves_updateMany) (rule assms(2))
  ultimately show ?thesis by (simp add: jobs_step_def)
qed

section \<open>Every operation is a step\<close>

lemma claim_step: "jobs_step w (snd (claim i s now db w))"
proof -
  have "snd (claim i s now db w) = snd (updateJobs
            (\<lambda>j. j_id j = i \<and> (j_status j = QUEUED \<or> (j_status j = PROCESSING \<and> staleAt (now - s) j)))
            (\<lambda>j. j\<lparr>j_status := PROCESSING,
                   j_startedAt := (case j_startedAt j of None \<Rightarrow> Some db | Some t \<Rightarrow> Some t),
                   j_heartbeatAt := Some db, j_attemptCount := j_attemptCount j + 1,
                   j_errorCode := None, j_errorMessage := None\<rparr>) db w)"
    by (simp add: claim_def case_prod_unfold Let_def)
  then show ?thesis
    by (simp only:) (rule updateJobs_step, auto simp: job_row_ok_def job_le_def statuses split: option.splits)
qed

lemma heartbeat_step: "jobs_step w (heartbeat i now w)"
  unfolding heartbeat_def
  by (rule updateJobs_step) (auto simp: job_row_ok_def job_le_def statuses)

lemma setTotalPages_step: "jobs_step w (setTotalPages i d n now w)"
proof -
  have "jobs_step w (snd (updateJobs (\<lambda>j. j_id j = i \<and> j_status j = PROCESSING)
                 (\<lambda>j. j\<lparr>j_totalPages := Some n, j_heartbeatAt := Some now\<rparr>) now w))"
    by (rule updateJobs_step) (auto simp: job_row_ok_def job_le_def statuses)
  then show ?thesis
    by (rule jobs_step_trans) (simp add: setTotalPages_def Let_def jobs_step_same)
qed

lemma failJob_step: "jobs_step w (snd (failJob i c m now w))"
  unfolding failJob_def case_prod_unfold Let_def snd_conv
  by (rule updateJobs_step) (auto simp: job_row_ok_def job_le_def statuses)

lemma cancelJob_step: "jobs_step w (snd (cancelJob i c m now w))"
  unfolding cancelJob_def case_prod_unfold Let_def snd_conv
  by (rule updateJobs_step) (auto simp: job_row_ok_def job_le_def statuses)

lemma requeue_step: "jobs_step w (snd (requeue i c m now w))"
  unfolding requeue_def case_prod_unfold Let_def snd_conv
  by (rule updateJobs_step) (auto simp: job_row_ok_def job_le_def statuses)

lemma recover_step: "jobs_step w (snd (recover i s now w))"
  unfolding recover_def case_prod_unfold Let_def snd_conv
  by (rule updateJobs_step) (auto simp: job_row_ok_def job_le_def statuses)

lemma findJobById_Some: "findJobById i w = Some j \<Longrightarrow> j \<in> set (ocrJobs w) \<and> j_id j = i"
  unfolding findJobById_def by (rule findFirst_SomeD)

lemma pageKey_pageRow [simp]: "pageKey (pageRow i x) = (i, x_pageNumber x)"
  by (simp add: pageKey_def pageRow_def)

lemma persistPage_step: "jobs_step w (snd (persistPage i x db w))"
proof (cases "findJobById i w")
  case None
  then show ?thesis by (simp add: persistPage_def jobs_step_same)
next
  case (Some j)
  let ?w1 = "w\<lparr>ocrPages := upsertRow pageKey (pageRow i x) (ocrPages w)\<rparr>"
  have "i \<in> j_id ` set (ocrJobs w)" using findJobById_Some [OF Some] by blast
  then have "p_ocrJobId ` set (upsertRow pageKey (pageRow i x) (ocrPages w)) \<subseteq> j_id ` set (ocrJobs w)"
    if "p_ocrJobId ` set (ocrPages w) \<subseteq> j_id ` set (ocrJobs w)"
    using that by (auto simp: set_upsertRow pageRow_def)
  then have "jobs_step w ?w1"
    by (simp add: jobs_step_def jobs_wf_def upsertRow_distinct job.evolves_refl)
  moreover have "jobs_step ?w1 (snd (persistPage i x db w))"
    unfolding persistPage_def using Some
    by (simp only: option.distinct if_False Let_def snd_conv, intro updateJobs_step)
       (auto simp: job_row_ok_def job_le_def statuses)
  ultimately show ?thesis by (rule jobs_step_trans)
qed

text \<open>The status derived from the pages, and the error code that goes with it.\<close>

definition failedOf :: "OcrPage list \<Rightarrow> OcrPage list" where
  "failedOf pages = filter (\<lambda>p. p_status p = PAGE_FAILED) pages"

lemma length_failedOf: "length (failedOf pages) \<le> length pages"
  by (simp add: failedOf_def)

lemma length_filter_all: "length (filter P xs) = length xs \<longleftrightarrow> (\<forall>x\<in>set xs. P x)"
  using length_filter_less [of _ xs P] by (cases "\<forall>x\<in>set xs. P x") force+

lemma finalStatus_cases:
  "finalStatus pages =
     (if \<forall>p\<in>set pages. p_status p = PAGE_FAILED then FAILED
      else if \<exists>p\<in>set pages. p_status p = PAGE_FAILED then PARTIAL else COMPLETED)"
proof -
  have "length (failedOf pages) = length pages \<longleftrightarrow> (\<forall>p\<in>set pages. p_status p = PAGE_FAILED)"
    unfolding failedOf_def by (rule length_filter_all)
  moreover have "0 < length (failedOf pages) \<longleftrightarrow> (\<exists>p\<in>set pages. p_status p = PAGE_FAILED)"
    by (auto simp: failedOf_def filter_empty_conv)
  ultimately show ?thesis
    unfolding finalStatus_def Let_def failedOf_def by (cases pages) auto
qed

lemma mostCommon_Some: "vs \<noteq> [] \<Longrightarrow> \<exists>c. mostCommon vs = Some c \<and> c \<in> set vs"
proof -
  assume ne: "vs \<noteq> []"
  let ?c = "map (\<lambda>v. (v, length (filter ((=) v) vs))) (unique_in_order vs)"
  let ?s = "orderBy (\<lambda>a b. snd b < snd a \<or> (snd a = snd b \<and> codeLe (fst a) (fst b))) ?c"
  have "set ?s = set ?c" by simp
  moreover have "?c \<noteq> []" using ne by simp
  ultimately obtain x xs where x: "?s = x # xs" by (cases ?s) auto
  then have "x \<in> set ?c" using \<open>set ?s = set ?c\<close> by (metis list.set_intros(1))
  then have "fst x \<in> set vs" by auto
  then show ?thesis using x by (simp add: mostCommon_def Let_def)
qed

definition dominantError :: "OcrPage list \<Rightarrow> string option" where
  "dominantError pages =
     (if length (failedOf pages) > 0
      then mostCommon (map (\<lambda>p. case p_errorCode p of None \<Rightarrow> ''OCR_PROCESSING_FAILED'' | Some c \<Rightarrow> c) (failedOf pages))
      else None)"

definition finalRow :: "OcrPage list \<Rightarrow> time \<Rightarrow> OcrJob \<Rightarrow> OcrJob" where
  "finalRow pages now j = j\<lparr>j_status := finalStatus pages,
     j_extractionMethod := finalMethod pages,
     j_errorCode := (if finalStatus pages = COMPLETED then None else dominantError pages),
     j_errorMessage := (if finalStatus pages = COMPLETED then None
        else if finalStatus pages = PARTIAL
        then Some (nat_str (length (failedOf pages)) @ '' of '' @ nat_str (length pages)
                   @ '' pages could not be processed'')
        else Some ''No page could be processed''),
     j_completedAt := Some now, j_heartbeatAt := Some now,
     j_processedPages := length pages, j_failedPages := length (failedOf pages)\<rparr>"

definition pagesOf :: "uuid \<Rightarrow> World \<Rightarrow> OcrPage list" where
  "pagesOf i w = findMany (\<lambda>p. p_ocrJobId p = i) (ocrPages w)"

lemma finalize_unfold:
  "finalize i now w =
     (let (n, w') = updateJobs (\<lambda>j. j_id j = i \<and> j_status j = PROCESSING) (finalRow (pagesOf i w) now) now w
      in if n \<noteq> 1 then (None, w') else (findJobById i w', w'))"
  by (simp only: finalize_def finalRow_def [abs_def] pagesOf_def failedOf_def dominantError_def Let_def)

lemma finalRow_ok:
  assumes "job_row_ok j" and "j_status j = PROCESSING"
  shows "job_row_ok (finalRow pages now j)"
proof -
  have d: "dominantError pages \<noteq> None" if "finalStatus pages = PARTIAL"
  proof -
    have "failedOf pages \<noteq> []"
      using that by (auto simp: finalStatus_cases failedOf_def filter_empty_conv split: if_splits)
    then show ?thesis
      using mostCommon_Some [of "map (\<lambda>p. case p_errorCode p of None \<Rightarrow> ''OCR_PROCESSING_FAILED'' | Some c \<Rightarrow> c) (failedOf pages)"]
      by (auto simp: dominantError_def)
  qed
  have len: "finalStatus pages = COMPLETED \<Longrightarrow> length (failedOf pages) = 0 \<and> 0 < length pages"
    "finalStatus pages = PARTIAL \<Longrightarrow> 0 < length (failedOf pages) \<and> length (failedOf pages) < length pages"
    "finalStatus pages \<in> {COMPLETED, PARTIAL, FAILED}"
    by (auto simp: finalStatus_def failedOf_def Let_def split: if_splits
        intro: le_neq_trans [OF length_filter_le])
  then show ?thesis
    using assms d by (auto simp: finalRow_def job_row_ok_def statuses)
qed

lemma finalize_step: "jobs_step w (snd (finalize i now w))"
proof -
  have "jobs_step w (snd (updateJobs (\<lambda>j. j_id j = i \<and> j_status j = PROCESSING) (finalRow (pagesOf i w) now) now w))"
    by (rule updateJobs_step) (simp add: finalRow_ok, auto simp: job_le_def finalRow_def statuses)
  then show ?thesis by (auto simp: finalize_unfold Let_def case_prod_unfold)
qed

section \<open>Sequences of operations\<close>

text \<open>The operations of workers and of the reconciler on jobs, as data, so that any interleaving of
  theirs is a list.\<close>

datatype job_op =
    Claim uuid time time time
  | Heartbeat uuid time
  | SetTotalPages uuid uuid nat time
  | PersistPage uuid ExtractedPage time
  | Finalize uuid time
  | Fail uuid string string time
  | Requeue uuid string string time
  | Cancel uuid string string time
  | Recover uuid time time

fun perform :: "job_op \<Rightarrow> World \<Rightarrow> World" where
  "perform (Claim i s now db) w = snd (claim i s now db w)"
| "perform (Heartbeat i now) w = heartbeat i now w"
| "perform (SetTotalPages i d n now) w = setTotalPages i d n now w"
| "perform (PersistPage i x db) w = snd (persistPage i x db w)"
| "perform (Finalize i now) w = snd (finalize i now w)"
| "perform (Fail i c m now) w = snd (failJob i c m now w)"
| "perform (Requeue i c m now) w = snd (requeue i c m now w)"
| "perform (Cancel i c m now) w = snd (cancelJob i c m now w)"
| "perform (Recover i s now) w = snd (recover i s now w)"

lemma perform_step: "jobs_step w (perform op w)"
  by (cases op) (simp_all add: claim_step heartbeat_step setTotalPages_step persistPage_step finalize_step
      failJob_step requeue_step cancelJob_step recover_step)

lemma performs_step: "jobs_step w (fold perform ops w)"
proof (induction ops arbitrary: w)
  case (Cons op ops)
  then show ?case using jobs_step_trans [OF perform_step [of w op]] by simp
qed (simp add: jobs_step_same)

section \<open>The life cycle of a job\<close>

text \<open>The abstract machine: a status and the number of attempts. An attempt takes a waiting job, or
  takes over one in processing; it ends in a result, in a release for another attempt, or in an
  abort; an abort is possible while waiting too.\<close>

inductive life :: "OcrJobStatus \<times> nat \<Rightarrow> OcrJobStatus \<times> nat \<Rightarrow> bool" where
  take: "s \<in> {QUEUED, PROCESSING} \<Longrightarrow> life (s, n) (PROCESSING, Suc n)"
| finish: "t \<in> {COMPLETED, PARTIAL, FAILED} \<Longrightarrow> life (PROCESSING, n) (t, n)"
| release: "life (PROCESSING, n) (QUEUED, n)"
| abort: "s \<in> {QUEUED, PROCESSING} \<Longrightarrow> t \<in> {FAILED, CANCELLED} \<Longrightarrow> life (s, n) (t, n)"

inductive_simps life_from: "life (s, n) x"

definition absJob :: "OcrJob \<Rightarrow> OcrJobStatus \<times> nat" where
  "absJob j = (j_status j, j_attemptCount j)"

lemma life_active: "life (s, n) x \<Longrightarrow> s \<in> set ACTIVE_OCR_STATUSES"
  by (auto simp: life_from ACTIVE_OCR_STATUSES_def)

lemma life_end: "life\<^sup>*\<^sup>* (s, n) x \<Longrightarrow> s \<in> set TERMINAL_OCR_STATUSES \<Longrightarrow> x = (s, n)"
  by (erule converse_rtranclpE) (auto dest: life_active simp: ACTIVE_OCR_STATUSES_def TERMINAL_OCR_STATUSES_def)

lemma life_attempts: "life\<^sup>*\<^sup>* x y \<Longrightarrow> snd x \<le> snd y"
  by (induction rule: rtranclp_induct) (auto elim: life.cases)

text \<open>From its creation on, a job that has been worked on has an attempt to show for it.\<close>

lemma life_from_start:
  "life\<^sup>*\<^sup>* (QUEUED, 0) y \<Longrightarrow> fst y \<in> {PROCESSING, COMPLETED, PARTIAL} \<Longrightarrow> 0 < snd y"
  by (induction rule: rtranclp_induct) (auto elim: life.cases)

definition simulates :: "World \<Rightarrow> World \<Rightarrow> bool" where
  "simulates w w' \<longleftrightarrow> list_all2 (\<lambda>j j'. j_id j' = j_id j \<and> life\<^sup>*\<^sup>* (absJob j) (absJob j')) (ocrJobs w) (ocrJobs w')"

lemma simulates_same: "ocrJobs w' = ocrJobs w \<Longrightarrow> simulates w w'"
  by (simp add: simulates_def list_all2_same)

lemma simulates_trans: "simulates u v \<Longrightarrow> simulates v w \<Longrightarrow> simulates u w"
  unfolding simulates_def by (rule list_all2_trans) (auto intro: rtranclp_trans)

lemma updateJobs_simulates:
  assumes "\<And>j. p j \<Longrightarrow> j_id (f j) = j_id j \<and> life\<^sup>*\<^sup>* (absJob j) (absJob (f j))"
  shows "simulates w (snd (updateJobs p f now w))"
  using assms by (auto simp: simulates_def updateJobs_rows list_all2_map2 list_all2_same absJob_def)

lemma life_refl: "absJob x = absJob y \<Longrightarrow> life\<^sup>*\<^sup>* (absJob x) (absJob y)"
  by simp

lemma finalStatus_final: "finalStatus pages \<in> {COMPLETED, PARTIAL, FAILED}"
  by (simp add: finalStatus_cases)

lemma perform_simulates: "simulates w (perform op w)"
proof (cases op)
  case (Claim i s now db)
  show ?thesis
    unfolding Claim perform.simps claim_def case_prod_unfold Let_def snd_conv
    by (rule updateJobs_simulates) (auto simp: absJob_def intro!: r_into_rtranclp life.take)
next
  case (SetTotalPages i d n now)
  have "simulates w (snd (updateJobs (\<lambda>j. j_id j = i \<and> j_status j = PROCESSING)
                 (\<lambda>j. j\<lparr>j_totalPages := Some n, j_heartbeatAt := Some now\<rparr>) now w))"
    by (rule updateJobs_simulates) (simp add: absJob_def)
  then show ?thesis
    unfolding SetTotalPages perform.simps
    by (rule simulates_trans) (simp add: setTotalPages_def Let_def simulates_same)
next
  case (PersistPage i x db)
  show ?thesis
  proof (cases "findJobById i w")
    case (Some j)
    let ?w1 = "w\<lparr>ocrPages := upsertRow pageKey (pageRow i x) (ocrPages w)\<rparr>"
    have "simulates ?w1 (perform op w)"
      unfolding PersistPage perform.simps persistPage_def using Some
      by (simp only: option.distinct if_False Let_def snd_conv, intro updateJobs_simulates)
         (simp add: absJob_def)
    moreover have "simulates w ?w1" by (simp add: simulates_same)
    ultimately show ?thesis using simulates_trans by blast
  qed (simp add: PersistPage persistPage_def simulates_same)
next
  case (Finalize i now)
  have "simulates w (snd (updateJobs (\<lambda>j. j_id j = i \<and> j_status j = PROCESSING) (finalRow (pagesOf i w) now) now w))"
    using finalStatus_final
    by (intro updateJobs_simulates) (auto simp: absJob_def finalRow_def intro!: r_into_rtranclp life.finish)
  then show ?thesis by (auto simp: Finalize finalize_unfold Let_def case_prod_unfold)
next
  case (Fail i c m now)
  show ?thesis
    unfolding Fail perform.simps failJob_def case_prod_unfold Let_def snd_conv
    by (rule updateJobs_simulates) (auto simp: absJob_def statuses intro!: r_into_rtranclp life.abort)
next
  case (Cancel i c m now)
  show ?thesis
    unfolding Cancel perform.simps cancelJob_def case_prod_unfold Let_def snd_conv
    by (rule updateJobs_simulates) (auto simp: absJob_def statuses intro!: r_into_rtranclp life.abort)
next
  case (Requeue i c m now)
  show ?thesis
    unfolding Requeue perform.simps requeue_def case_prod_unfold Let_def snd_conv
    by (rule updateJobs_simulates) (auto simp: absJob_def intro!: r_into_rtranclp life.release)
next
  case (Recover i s now)
  show ?thesis
    unfolding Recover perform.simps recover_def case_prod_unfold Let_def snd_conv
    by (rule updateJobs_simulates) (auto simp: absJob_def intro!: r_into_rtranclp life.release)
next
  case (Heartbeat i now)
  show ?thesis
    unfolding Heartbeat perform.simps heartbeat_def
    by (rule updateJobs_simulates) (simp add: absJob_def)
qed

lemma performs_simulate: "simulates w (fold perform ops w)"
proof (induction ops arbitrary: w)
  case (Cons op ops)
  then show ?case using simulates_trans [OF perform_simulates [of w op]] by simp
qed (simp add: simulates_same)

section \<open>Single jobs\<close>

lemma job_unique:
  "jobs_wf w \<Longrightarrow> j \<in> set (ocrJobs w) \<Longrightarrow> j' \<in> set (ocrJobs w) \<Longrightarrow> j_id j = j_id j' \<Longrightarrow> j = j'"
  by (auto simp: jobs_wf_def distinct_map dest: inj_onD)

lemma findJobById_iff: "jobs_wf w \<Longrightarrow> findJobById i w = Some j \<longleftrightarrow> j \<in> set (ocrJobs w) \<and> j_id j = i"
proof
  assume wf: "jobs_wf w" and j: "j \<in> set (ocrJobs w) \<and> j_id j = i"
  then obtain x where x: "findJobById i w = Some x"
    unfolding findJobById_def by (cases "findFirst (\<lambda>j. j_id j = i) (ocrJobs w)") (auto dest: findFirst_NoneD)
  then have "x = j" using job_unique [OF wf] findJobById_Some [OF x] j by blast
  with x show "findJobById i w = Some j" by simp
qed (rule findJobById_Some)

text \<open>A conditional update on the job with a given id changes it when its condition holds, and is
  counted then; it changes no other job.\<close>

lemma updateJobs_one:
  assumes wf: "jobs_wf w" and j: "j \<in> set (ocrJobs w)" and p: "\<And>x. p x \<Longrightarrow> j_id x = j_id j"
  shows "fst (updateJobs p f now w) = (if p j then 1 else 0)"
    and "ocrJobs (snd (updateJobs p f now w)) =
         map (\<lambda>x. if x = j \<and> p j then (f j)\<lparr>j_updatedAt := now\<rparr> else x) (ocrJobs w)"
proof -
  have only: "p x \<longleftrightarrow> x = j \<and> p j" if "x \<in> set (ocrJobs w)" for x
    using job_unique [OF wf that j] p by blast
  have same: "p x \<longleftrightarrow> j_id x = j_id j \<and> p j" if "x \<in> set (ocrJobs w)" for x
    using job_unique [OF wf that j] p by blast
  have "length (filter (\<lambda>x. j_id x = j_id j) (ocrJobs w)) = 1"
    using wf j by (intro unique_count) (auto simp: jobs_wf_def)
  moreover have "filter p (ocrJobs w) = (if p j then filter (\<lambda>x. j_id x = j_id j) (ocrJobs w) else [])"
  proof (cases "p j")
    case True
    then show ?thesis using same by (auto intro: filter_cong)
  next
    case False
    then show ?thesis using same by (simp add: filter_empty_conv)
  qed
  ultimately show "fst (updateJobs p f now w) = (if p j then 1 else 0)"
    by (simp add: updateJobs_count)
  show "ocrJobs (snd (updateJobs p f now w)) =
      map (\<lambda>x. if x = j \<and> p j then (f j)\<lparr>j_updatedAt := now\<rparr> else x) (ocrJobs w)"
    unfolding updateJobs_rows by (rule map_cong [OF refl]) (auto simp: only)
qed

text \<open>A job that can be claimed at a given time.\<close>

definition claimable :: "time \<Rightarrow> time \<Rightarrow> OcrJob \<Rightarrow> bool" where
  "claimable staleMs now j \<longleftrightarrow> j_status j = QUEUED \<or> (j_status j = PROCESSING \<and> staleAt (now - staleMs) j)"

definition claimedRow :: "time \<Rightarrow> OcrJob \<Rightarrow> OcrJob" where
  "claimedRow db j = j\<lparr>j_status := PROCESSING,
     j_startedAt := (case j_startedAt j of None \<Rightarrow> Some db | Some t \<Rightarrow> Some t),
     j_heartbeatAt := Some db, j_attemptCount := j_attemptCount j + 1,
     j_errorCode := None, j_errorMessage := None\<rparr>"

lemma claim_unfold:
  "claim i s now db w =
     (let (n, w') = updateJobs (\<lambda>j. j_id j = i \<and> claimable s now j) (claimedRow db) db w in (n = 1, w'))"
  by (simp only: claim_def claimable_def claimedRow_def [abs_def])

lemma claim_one:
  assumes "jobs_wf w" and "j \<in> set (ocrJobs w)"
  shows "fst (claim (j_id j) s now db w) = claimable s now j"
    and "ocrJobs (snd (claim (j_id j) s now db w)) =
      map (\<lambda>x. if x = j \<and> claimable s now j then (claimedRow db j)\<lparr>j_updatedAt := db\<rparr> else x) (ocrJobs w)"
  using updateJobs_one [OF assms, of "\<lambda>x. j_id x = j_id j \<and> claimable s now x" "claimedRow db" db]
  by (simp_all add: claim_unfold case_prod_unfold Let_def)

lemma claim_missing: "(\<And>j. j \<in> set (ocrJobs w) \<Longrightarrow> j_id j \<noteq> i) \<Longrightarrow> \<not> fst (claim i s now db w)"
proof -
  assume "\<And>j. j \<in> set (ocrJobs w) \<Longrightarrow> j_id j \<noteq> i"
  then have "filter (\<lambda>j. j_id j = i \<and> claimable s now j) (ocrJobs w) = []" by (auto simp: filter_empty_conv)
  then show ?thesis by (simp add: claim_unfold case_prod_unfold Let_def updateJobs_count)
qed

lemma finalize_one:
  assumes "jobs_wf w" and "j \<in> set (ocrJobs w)"
  shows "j_status j = PROCESSING \<Longrightarrow>
      fst (finalize (j_id j) now w) = Some ((finalRow (pagesOf (j_id j) w) now j)\<lparr>j_updatedAt := now\<rparr>)"
    and "j_status j \<noteq> PROCESSING \<Longrightarrow>
      fst (finalize (j_id j) now w) = None \<and> ocrJobs (snd (finalize (j_id j) now w)) = ocrJobs w"
proof -
  let ?f = "finalRow (pagesOf (j_id j) w) now"
  let ?p = "\<lambda>x. j_id x = j_id j \<and> j_status x = PROCESSING"
  let ?w = "snd (updateJobs ?p ?f now w)"
  note one = updateJobs_one [OF assms, of ?p ?f now]
  have fin: "finalize (j_id j) now w =
      (if fst (updateJobs ?p ?f now w) \<noteq> 1 then (None, ?w) else (findJobById (j_id j) ?w, ?w))"
    by (simp add: finalize_unfold Let_def case_prod_unfold)
  show "fst (finalize (j_id j) now w) = None \<and> ocrJobs (snd (finalize (j_id j) now w)) = ocrJobs w"
    if "j_status j \<noteq> PROCESSING"
    using that one by (simp add: fin)
  show "fst (finalize (j_id j) now w) = Some ((?f j)\<lparr>j_updatedAt := now\<rparr>)" if pr: "j_status j = PROCESSING"
  proof -
    have "jobs_wf ?w"
      using finalize_step [of w "j_id j" now] assms(1) pr one by (simp add: fin jobs_step_def)
    moreover have "(?f j)\<lparr>j_updatedAt := now\<rparr> \<in> set (ocrJobs ?w)"
      using assms(2) pr by (force simp: one(2))
    moreover have "j_id ((?f j)\<lparr>j_updatedAt := now\<rparr>) = j_id j" by (simp add: finalRow_def)
    ultimately have "findJobById (j_id j) ?w = Some ((?f j)\<lparr>j_updatedAt := now\<rparr>)"
      using findJobById_iff by blast
    then show ?thesis using pr one(1) by (simp add: fin)
  qed
qed

definition methodsOf :: "OcrPage list \<Rightarrow> OcrExtractionMethod set" where
  "methodsOf pages = {m. \<exists>p\<in>set pages. p_method p = Some m}"

lemma finalMethod_cases:
  "finalMethod pages = (if methodsOf pages = {} then None
     else if \<exists>m. methodsOf pages = {m} then Some (THE m. methodsOf pages = {m}) else Some MIXED)"
proof -
  let ?u = "unique_in_order (concat (map (\<lambda>p. case p_method p of None \<Rightarrow> [] | Some m \<Rightarrow> [m]) pages))"
  have set: "set ?u = methodsOf pages"
    by (force simp: methodsOf_def split: option.splits)
  have d: "distinct ?u" by simp
  consider "?u = []" | m where "?u = [m]" | m n r where "?u = m # n # r"
    by (metis list.exhaust)
  then show ?thesis
  proof cases
    case 1
    have "methodsOf pages = {}" using set unfolding 1 by simp
    then show ?thesis unfolding finalMethod_def 1 by simp
  next
    case (2 m)
    have "methodsOf pages = {m}" using set unfolding 2 by simp
    then show ?thesis unfolding finalMethod_def 2 by simp
  next
    case (3 m n r)
    have "m \<in> methodsOf pages" "n \<in> methodsOf pages" "m \<noteq> n" using set d unfolding 3 by auto
    then show ?thesis unfolding finalMethod_def 3 by auto
  qed
qed

text \<open>The stored pages as a map from job and page number.\<close>

definition pageMap :: "World \<Rightarrow> uuid \<times> nat \<Rightarrow> OcrPage option" where
  "pageMap w = (\<lambda>k. lookupRow pageKey k (ocrPages w))"

lemma persistPage_pages:
  "findJobById i w \<noteq> None \<Longrightarrow> ocrPages (snd (persistPage i x db w)) = upsertRow pageKey (pageRow i x) (ocrPages w)"
  by (auto simp: persistPage_def Let_def)

lemma persistPage_ids: "map j_id (ocrJobs (snd (persistPage i x db w))) = map j_id (ocrJobs w)"
  by (simp add: persistPage_def Let_def updateJobs_rows)

lemma findJobById_defined: "findJobById i w \<noteq> None \<longleftrightarrow> i \<in> set (map j_id (ocrJobs w))"
  unfolding findJobById_def tbl.find_none by auto

lemma persistPage_map:
  "findJobById i w \<noteq> None \<Longrightarrow>
     pageMap (snd (persistPage i x db w)) = (pageMap w)((i, x_pageNumber x) \<mapsto> pageRow i x)"
  by (auto simp: pageMap_def persistPage_pages ups.lookup_put)

section \<open>A concrete job\<close>

definition demoJob :: OcrJob where
  "demoJob = \<lparr>j_id = [5], j_documentId = [3], j_userId = [7], j_status = QUEUED, j_language = js ''eng'',
     j_extractionMethod = None, j_totalPages = None, j_processedPages = 0, j_failedPages = 0,
     j_errorCode = None, j_errorMessage = None, j_attemptCount = 0, j_maxAttempts = 3,
     j_heartbeatAt = None, j_startedAt = None, j_completedAt = None, j_createdAt = 0, j_updatedAt = 0\<rparr>"

definition demoPage :: ExtractedPage where
  "demoPage = \<lparr>x_pageNumber = 1, x_status = PAGE_COMPLETED, x_method = Some OCR, x_text = Some [65],
     x_confidence = None, x_charCount = 1, x_truncated = False, x_errorCode = None\<rparr>"

definition demoBench :: World where
  "demoBench = demoShelf\<lparr>ocrJobs := [demoJob]\<rparr>"

lemma demoBench_sel [simp]: "ocrJobs demoBench = [demoJob]" "ocrPages demoBench = []"
  by (simp_all add: demoBench_def demoShelf_def demoLibrary_def emptyWorld_def)

lemma demoJob_sel [simp]: "j_id demoJob = [5]" "j_status demoJob = QUEUED"
  by (simp_all add: demoJob_def)

lemma demoBench_wf: "jobs_wf demoBench"
  by (simp add: jobs_wf_def job_row_ok_def demoJob_def statuses)

definition demoRunning :: World where
  "demoRunning = snd (claim [5] 60 100 100 demoBench)"

lemma demoRunning_wf: "jobs_wf demoRunning"
  using claim_step [of demoBench "[5]" 60 100 100] demoBench_wf by (simp add: jobs_step_def demoRunning_def)

lemma demoRunning_jobs: "ocrJobs demoRunning = [(claimedRow 100 demoJob)\<lparr>j_updatedAt := 100\<rparr>]" "ocrPages demoRunning = []"
proof -
  have "ocrJobs (snd (claim (j_id demoJob) 60 100 100 demoBench)) = [(claimedRow 100 demoJob)\<lparr>j_updatedAt := 100\<rparr>]"
    by (subst claim_one(2) [OF demoBench_wf]) (simp_all add: claimable_def)
  then show "ocrJobs demoRunning = [(claimedRow 100 demoJob)\<lparr>j_updatedAt := 100\<rparr>]" by (simp add: demoRunning_def)
  show "ocrPages demoRunning = []"
    by (simp add: demoRunning_def claim_unfold case_prod_unfold Let_def)
qed

section \<open>Properties\<close>

text \<open>C17. Every sequence of the operations on jobs, in whatever order workers, retries and the
  reconciler issue them and for whichever ids and clocks, implements the life cycle: seen through
  its status and attempt count, each stored job moves along zero or more steps of the abstract
  machine, and no job appears, disappears or changes its id.\<close>

theorem jobs_refine_lifecycle:
  "list_all2 (\<lambda>j j'. j_id j' = j_id j \<and> life\<^sup>*\<^sup>* (absJob j) (absJob j'))
     (ocrJobs w) (ocrJobs (fold perform ops w))"
  using performs_simulate by (simp add: simulates_def)

text \<open>A finished job is immutable, and the table stays consistent: after any sequence of
  operations the row of a completed, partial, failed or cancelled job is still there exactly as it
  was; ids and page keys stay unique, every page has its job, and the columns of each job agree
  with its status.\<close>

theorem finished_jobs_immutable:
  assumes "jobs_wf w" and "j \<in> set (ocrJobs w)" and "isTerminal j"
  shows "findJobById (j_id j) (fold perform ops w) = Some j \<and> jobs_wf (fold perform ops w)"
proof -
  have *: "jobs_wf (fold perform ops w)" "evolves job_le (ocrJobs w) (ocrJobs (fold perform ops w))"
    using performs_step [of w ops] assms(1) by (auto simp: jobs_step_def)
  then obtain j' where "j' \<in> set (ocrJobs (fold perform ops w))" "job_le j j'"
    using job.evolves_row assms(2) by blast
  then have "j \<in> set (ocrJobs (fold perform ops w))" using assms(3) by (simp add: job_le_def)
  then show ?thesis using * findJobById_iff by blast
qed

theorem finished_jobs_immutable_witness:
  "findJobById [5] (fold perform [Claim [5] 60 200 200, Requeue [5] ''E'' ''m'' 201, Finalize [5] 202]
      (demoBench\<lparr>ocrJobs := [demoJob\<lparr>j_status := CANCELLED, j_completedAt := Some 9\<rparr>]\<rparr>))
   = Some (demoJob\<lparr>j_status := CANCELLED, j_completedAt := Some 9\<rparr>)"
proof -
  let ?j = "demoJob\<lparr>j_status := CANCELLED, j_completedAt := Some 9\<rparr>"
  let ?w = "demoBench\<lparr>ocrJobs := [?j]\<rparr>"
  have "jobs_wf ?w" by (simp add: jobs_wf_def job_row_ok_def demoJob_def statuses)
  moreover have "?j \<in> set (ocrJobs ?w)" "isTerminal ?j" by (simp_all add: statuses)
  ultimately show ?thesis
    using finished_jobs_immutable [of ?w ?j "[Claim [5] 60 200 200, Requeue [5] ''E'' ''m'' 201, Finalize [5] 202]"]
    by simp
qed

text \<open>C18. Claiming is exclusive. An attempt starts exactly when the job waits or the heartbeat of its
  processing is stale; it then is in processing with one more attempt, and a second claim of it is
  refused and changes no job as long as that heartbeat is not stale.\<close>

theorem claim_exclusive:
  assumes "jobs_wf w" and "j \<in> set (ocrJobs w)"
  shows "fst (claim (j_id j) staleMs now db w) = claimable staleMs now j
    \<and> (claimable staleMs now j \<longrightarrow>
         findJobById (j_id j) (snd (claim (j_id j) staleMs now db w)) = Some ((claimedRow db j)\<lparr>j_updatedAt := db\<rparr>)
         \<and> (now' - staleMs \<le> db \<longrightarrow>
              \<not> fst (claim (j_id j) staleMs now' db' (snd (claim (j_id j) staleMs now db w)))
              \<and> ocrJobs (snd (claim (j_id j) staleMs now' db' (snd (claim (j_id j) staleMs now db w))))
                = ocrJobs (snd (claim (j_id j) staleMs now db w))))"
proof (intro conjI impI)
  show "fst (claim (j_id j) staleMs now db w) = claimable staleMs now j"
    by (rule claim_one(1) [OF assms])
  assume c: "claimable staleMs now j"
  let ?j = "(claimedRow db j)\<lparr>j_updatedAt := db\<rparr>" and ?w = "snd (claim (j_id j) staleMs now db w)"
  have wf: "jobs_wf ?w" using claim_step [of w "j_id j" staleMs now db] assms(1) by (simp add: jobs_step_def)
  have mem: "?j \<in> set (ocrJobs ?w)" using assms(2) c by (force simp: claim_one(2) [OF assms])
  have id: "j_id ?j = j_id j" by (simp add: claimedRow_def)
  show "findJobById (j_id j) ?w = Some ?j" using findJobById_iff [OF wf] mem id by blast
  assume "now' - staleMs \<le> db"
  then have no: "\<not> claimable staleMs now' ?j" by (simp add: claimable_def claimedRow_def staleAt_def)
  show "\<not> fst (claim (j_id j) staleMs now' db' ?w)"
    using claim_one(1) [OF wf mem] no id by metis
  show "ocrJobs (snd (claim (j_id j) staleMs now' db' ?w)) = ocrJobs ?w"
    using claim_one(2) [OF wf mem, of staleMs now' db'] no id by simp
qed

theorem claim_exclusive_witness:
  "fst (claim [5] 60 100 100 demoBench) \<and> \<not> fst (claim [5] 60 150 150 (snd (claim [5] 60 100 100 demoBench)))"
  using claim_exclusive [OF demoBench_wf, of demoJob 60 100 100 150 150] by (simp add: claimable_def)

text \<open>The result a finished job reports for its pages.\<close>

definition reports :: "OcrPage list \<Rightarrow> OcrJob \<Rightarrow> bool" where
  "reports pages r \<longleftrightarrow>
      (j_status r = COMPLETED \<longleftrightarrow> pages \<noteq> [] \<and> (\<forall>p\<in>set pages. p_status p \<noteq> PAGE_FAILED))
      \<and> (j_status r = PARTIAL \<longleftrightarrow> (\<exists>p\<in>set pages. p_status p = PAGE_FAILED) \<and> (\<exists>p\<in>set pages. p_status p \<noteq> PAGE_FAILED))
      \<and> (j_status r = FAILED \<longleftrightarrow> (\<forall>p\<in>set pages. p_status p = PAGE_FAILED))
      \<and> j_processedPages r = length pages \<and> j_failedPages r = length (failedOf pages)
      \<and> (j_extractionMethod r = None \<longleftrightarrow> methodsOf pages = {})
      \<and> (\<forall>m. methodsOf pages = {m} \<longrightarrow> j_extractionMethod r = Some m)
      \<and> ((\<exists>m n. m \<noteq> n \<and> {m, n} \<subseteq> methodsOf pages) \<longrightarrow> j_extractionMethod r = Some MIXED)"

lemma finalRow_reports: "reports pages ((finalRow pages now j)\<lparr>j_updatedAt := now\<rparr>)"
proof -
  let ?r = "(finalRow pages now j)\<lparr>j_updatedAt := now\<rparr>"
  have "(j_extractionMethod ?r = None \<longleftrightarrow> methodsOf pages = {})
      \<and> (\<forall>m. methodsOf pages = {m} \<longrightarrow> j_extractionMethod ?r = Some m)
      \<and> ((\<exists>m n. m \<noteq> n \<and> {m, n} \<subseteq> methodsOf pages) \<longrightarrow> j_extractionMethod ?r = Some MIXED)"
    by (auto simp: finalRow_def finalMethod_cases)
  moreover have "(j_status ?r = COMPLETED \<longleftrightarrow> pages \<noteq> [] \<and> (\<forall>p\<in>set pages. p_status p \<noteq> PAGE_FAILED))
      \<and> (j_status ?r = PARTIAL \<longleftrightarrow> (\<exists>p\<in>set pages. p_status p = PAGE_FAILED) \<and> (\<exists>p\<in>set pages. p_status p \<noteq> PAGE_FAILED))
      \<and> (j_status ?r = FAILED \<longleftrightarrow> (\<forall>p\<in>set pages. p_status p = PAGE_FAILED))"
    by (cases pages) (auto simp: finalRow_def finalStatus_cases)
  moreover have "j_processedPages ?r = length pages \<and> j_failedPages ?r = length (failedOf pages)"
    by (simp add: finalRow_def)
  ultimately show ?thesis unfolding reports_def by argo
qed

text \<open>C19. A job is finished from its stored pages. While it is in processing, finishing it returns it
  completed exactly when there are pages and none failed, partial exactly when some failed and some
  did not, and failed exactly when none succeeded; the counters are the numbers of pages, the
  method is the one its pages used and mixed when they used several. A job that is not in
  processing is left alone.\<close>

theorem finalize_outcome:
  assumes "jobs_wf w" and "j \<in> set (ocrJobs w)"
  shows "(j_status j = PROCESSING \<longrightarrow>
      (\<exists>r. fst (finalize (j_id j) now w) = Some r \<and> reports (pagesOf (j_id j) w) r))
    \<and> (j_status j \<noteq> PROCESSING \<longrightarrow>
      fst (finalize (j_id j) now w) = None \<and> ocrJobs (snd (finalize (j_id j) now w)) = ocrJobs w)"
  using finalize_one [OF assms] finalRow_reports by blast

theorem finalize_outcome_witness:
  "\<exists>r. fst (finalize [5] 120 (snd (persistPage [5] demoPage 110 demoRunning))) = Some r
     \<and> j_status r = COMPLETED \<and> j_processedPages r = 1 \<and> j_extractionMethod r = Some OCR"
proof -
  let ?w = "snd (persistPage [5] demoPage 110 demoRunning)"
  have wf: "jobs_wf ?w"
    using persistPage_step [of demoRunning "[5]" demoPage 110] demoRunning_wf by (simp add: jobs_step_def)
  have find: "findJobById [5] demoRunning \<noteq> None"
    by (simp add: findJobById_def findFirst_def demoRunning_jobs claimedRow_def)
  then have pages: "pagesOf [5] ?w = [pageRow [5] demoPage]"
    by (simp add: pagesOf_def findMany_def persistPage_pages demoRunning_jobs upsertRow_def createRow_def pageRow_def)
  obtain j where j: "j \<in> set (ocrJobs ?w)" "j_id j = [5]" "j_status j = PROCESSING"
    using find by (simp add: persistPage_def Let_def updateJobs_rows demoRunning_jobs claimedRow_def)
  have "methodsOf [pageRow [5] demoPage] = {OCR}"
    by (auto simp: methodsOf_def pageRow_def demoPage_def)
  then show ?thesis
    using finalize_outcome [OF wf j(1), of 120] j(2,3) pages
    by (auto simp: pageRow_def demoPage_def reports_def)
qed

text \<open>Storing a page result is an update of the map from job and page number to results: the row of
  that key is the new result, no other page changes, and storing a redelivered result again leaves
  the same map. The counters of a job in processing are recomputed from the stored pages, and the
  progress it shows never exceeds its number of pages.\<close>

theorem persistPage_refines_map:
  assumes "findJobById i w \<noteq> None" and "w' = snd (persistPage i x db w)"
  shows "fst (persistPage i x db w) = Inr ()
    \<and> pageMap w' = (pageMap w)((i, x_pageNumber x) \<mapsto> pageRow i x)
    \<and> pageMap (snd (persistPage i x db' w')) = pageMap w'
    \<and> (\<forall>j\<in>set (ocrJobs w'). j_id j = i \<and> j_status j = PROCESSING \<longrightarrow>
         j_failedPages j = length (failedOf (pagesOf i w'))
         \<and> (case j_totalPages j of None \<Rightarrow> j_processedPages j = length (pagesOf i w')
            | Some n \<Rightarrow> j_processedPages j = min n (length (pagesOf i w'))))"
proof -
  have map: "pageMap w' = (pageMap w)((i, x_pageNumber x) \<mapsto> pageRow i x)"
    unfolding assms(2) by (rule persistPage_map [OF assms(1)])
  have "findJobById i w' \<noteq> None"
    using assms(1) unfolding assms(2) findJobById_defined persistPage_ids .
  then have again: "pageMap (snd (persistPage i x db' w')) = pageMap w'"
    using persistPage_map [of i w' x db'] map by auto
  have "\<forall>j\<in>set (ocrJobs w'). j_id j = i \<and> j_status j = PROCESSING \<longrightarrow>
         j_failedPages j = length (failedOf (pagesOf i w'))
         \<and> (case j_totalPages j of None \<Rightarrow> j_processedPages j = length (pagesOf i w')
            | Some n \<Rightarrow> j_processedPages j = min n (length (pagesOf i w')))"
    using assms(1) unfolding assms(2) persistPage_def
    by (auto simp: Let_def updateJobs_rows pagesOf_def failedOf_def split: option.splits)
  then show ?thesis using map again assms(1) by (simp add: persistPage_def Let_def)
qed

theorem persistPage_refines_map_witness:
  "pageMap (snd (persistPage [5] demoPage 110 demoRunning)) ([5], 1) = Some (pageRow [5] demoPage)"
proof -
  have "findJobById [5] demoRunning \<noteq> None"
    by (simp add: findJobById_def findFirst_def demoRunning_jobs claimedRow_def)
  then show ?thesis
    using persistPage_refines_map [of "[5]" demoRunning "snd (persistPage [5] demoPage 110 demoRunning)" demoPage 110]
    by (simp add: demoPage_def)
qed

text \<open>The condition on the status protects the job but not its pages: storing a result for a
  finished job leaves the job as it is and still replaces the page, so a worker that lost its claim
  can overwrite a published result.\<close>

theorem persistPage_after_end:
  assumes "jobs_wf w" and "j \<in> set (ocrJobs w)" and "isTerminal j"
  shows "ocrJobs (snd (persistPage (j_id j) x db w)) = ocrJobs w
    \<and> pageMap (snd (persistPage (j_id j) x db w)) (j_id j, x_pageNumber x) = Some (pageRow (j_id j) x)"
proof -
  have f: "findJobById (j_id j) w = Some j" using findJobById_iff [OF assms(1)] assms(2) by blast
  have "\<not> (j_id k = j_id j \<and> j_status k = PROCESSING)" if "k \<in> set (ocrJobs w)" for k
    using job_unique [OF assms(1) that assms(2)] assms(3) by (auto simp: statuses)
  then have "ocrJobs (snd (persistPage (j_id j) x db w)) = ocrJobs w"
    using f by (auto simp: persistPage_def Let_def updateJobs_rows intro!: map_idI)
  then show ?thesis using persistPage_map [of "j_id j" w x db] f by simp
qed

theorem persistPage_after_end_witness:
  "pageMap (snd (persistPage [5] demoPage 300
      (demoBench\<lparr>ocrJobs := [demoJob\<lparr>j_status := COMPLETED, j_completedAt := Some 9, j_processedPages := 1,
         j_attemptCount := 1, j_startedAt := Some 1\<rparr>]\<rparr>))) ([5], 1) = Some (pageRow [5] demoPage)"
proof -
  let ?j = "demoJob\<lparr>j_status := COMPLETED, j_completedAt := Some 9, j_processedPages := 1,
         j_attemptCount := 1, j_startedAt := Some 1\<rparr>"
  let ?w = "demoBench\<lparr>ocrJobs := [?j]\<rparr>"
  have "jobs_wf ?w" by (simp add: jobs_wf_def job_row_ok_def demoJob_def statuses)
  moreover have "?j \<in> set (ocrJobs ?w)" "isTerminal ?j" by (simp_all add: statuses)
  ultimately show ?thesis
    using persistPage_after_end [of ?w ?j demoPage 300] by (simp add: demoPage_def)
qed

end
