(* ===== verification/Text_Tools.thy ===== *)
theory Text_Tools
  imports Js_Strings Complex_Main "HOL-Library.Sublist"
begin

text \<open>
  Post-processing of extracted text: \<open>ocr/tools/text.ts\<close>. Each \<open>replace\<close> with a global pattern is
  a recursive function on the string; the Unicode tables are the parameter \<open>unicode\<close>. The share of
  letters and digits is compared as an exact quotient.
\<close>

section \<open>Definitions\<close>

record NativeTextRule =
  minChars :: nat
  minAlphanumericRatio :: rat

record TruncatedText =
  tt_text :: jsstring
  tt_truncated :: bool
  tt_charCount :: nat

text \<open>\<open>replace(/\r\n?/g, '\n')\<close>.\<close>

fun unify_newlines :: "jsstring \<Rightarrow> jsstring" where
  "unify_newlines [] = []"
| "unify_newlines [c] = (if c = 13 then [10] else [c])"
| "unify_newlines (c # d # s) =
     (if c = 13 then (if d = 10 then 10 # unify_newlines s else 10 # unify_newlines (d # s))
      else c # unify_newlines (d # s))"

text \<open>The class \<open>[\u0000-\u0008\u000B\u000C\u000E-\u001F\u007F]\<close>: tab, line feed and carriage
  return are not in it.\<close>

definition is_text_control :: "jschar \<Rightarrow> bool" where
  "is_text_control c \<longleftrightarrow> c \<le> 8 \<or> c = 11 \<or> c = 12 \<or> (14 \<le> c \<and> c \<le> 31) \<or> c = 127"

definition is_line_blank :: "jschar \<Rightarrow> bool" where
  "is_line_blank c \<longleftrightarrow> c = 32 \<or> c = 9 \<or> c = 0xA0"

text \<open>\<open>replace(/\n{3,}/g, '\n\n')\<close>.\<close>

function collapse_newlines :: "jsstring \<Rightarrow> jsstring" where
  "collapse_newlines s =
     (case s of
        [] \<Rightarrow> []
      | c # r \<Rightarrow>
          if c = 10
          then (if length (takeWhile ((=) 10) s) \<ge> 3 then [10, 10] else takeWhile ((=) 10) s)
               @ collapse_newlines (dropWhile ((=) 10) r)
          else c # collapse_newlines r)"
  by pat_completeness auto
termination
  by (relation "measure length") (auto simp: less_Suc_eq_le length_dropWhile_le)

declare collapse_newlines.simps [simp del]

definition normalizeExtractedText :: "unicode \<Rightarrow> jsstring \<Rightarrow> jsstring" where
  "normalizeExtractedText U raw =
     (let s = remove_class is_text_control (unify_newlines (nfc U raw));
          lines = map (strip_end is_line_blank) (split_on 10 s)
      in trim (collapse_newlines (join_with [10] lines)))"

text \<open>\<open>replace(/\s+/g, ' ')\<close>.\<close>

function collapse_spaces :: "jsstring \<Rightarrow> jsstring" where
  "collapse_spaces [] = []"
| "collapse_spaces (c # s) =
     (if is_js_space c then 32 # collapse_spaces (dropWhile is_js_space s) else c # collapse_spaces s)"
  by pat_completeness auto
termination
  by (relation "measure length") (auto simp: less_Suc_eq_le length_dropWhile_le)

definition isNativeTextUsable :: "unicode \<Rightarrow> jsstring \<Rightarrow> NativeTextRule \<Rightarrow> bool" where
  "isNativeTextUsable U text rule =
     (let collapsed = trim (collapse_spaces text);
          chars = filter (\<lambda>p. p \<noteq> [32]) (code_points collapsed);
          nonSpace = length chars;
          alphanumeric = length (filter (letter_or_number U) chars)
      in if length collapsed < minChars rule then False
         else if nonSpace = 0 then False
         else rat_of_nat alphanumeric / rat_of_nat nonSpace \<ge> minAlphanumericRatio rule)"

definition truncateText :: "jsstring \<Rightarrow> nat \<Rightarrow> TruncatedText" where
  "truncateText text maxChars =
     (let chars = code_points text
      in if length chars \<le> maxChars
         then \<lparr>tt_text = text, tt_truncated = False, tt_charCount = length chars\<rparr>
         else \<lparr>tt_text = concat (take maxChars chars), tt_truncated = True, tt_charCount = maxChars\<rparr>)"

definition normalizeForComparison :: "unicode \<Rightarrow> jsstring \<Rightarrow> jsstring" where
  "normalizeForComparison U text = trim (collapse_spaces (toLowerCase U text))"

section \<open>Line endings and control characters\<close>

lemma set_unify_newlines: "set (unify_newlines s) \<subseteq> insert 10 (set s - {13})"
  by (induction s rule: unify_newlines.induct) auto

lemma unify_newlines_fixed: "13 \<notin> set s \<Longrightarrow> unify_newlines s = s"
  by (induction s rule: unify_newlines.induct) auto

lemma set_join_with: "set (join_with sep ws) \<subseteq> set sep \<union> \<Union> (set ` set ws)"
  by (induction sep ws rule: join_with.induct) auto

section \<open>Runs of line feeds\<close>

abbreviation three_newlines :: jsstring where
  "three_newlines \<equiv> [10, 10, 10]"

lemma collapse_newlines_hd: "collapse_newlines s \<noteq> [] \<Longrightarrow> hd (collapse_newlines s) = hd s"
  by (cases s) (subst collapse_newlines.simps, simp add: collapse_newlines.simps)+

lemma collapse_newlines_Nil [simp]: "collapse_newlines [] = []"
  by (simp add: collapse_newlines.simps)

text \<open>A line feed run, shortened, in front of a text that begins with another character.\<close>

lemma collapse_newlines_run:
  "\<exists>run rest. collapse_newlines (10 # r) = run @ rest \<and> rest = collapse_newlines (dropWhile ((=) 10) r)
     \<and> (run = [10] \<or> run = [10, 10]) \<and> (rest = [] \<or> hd rest \<noteq> 10)"
proof -
  let ?t = "takeWhile ((=) 10) r"
  let ?run = "if length (10 # ?t) \<ge> 3 then [10, 10] else 10 # ?t"
  have shape: "?t = replicate (length ?t) 10"
    by (rule replicate_eqI) (auto dest: set_takeWhileD)
  have run: "?run = [10] \<or> ?run = [10, 10]"
  proof (cases "length ?t")
    case (Suc k)
    show ?thesis
    proof (cases k)
      case 0
      with Suc shape have "?t = [10]" by simp
      then show ?thesis by simp
    qed (simp add: Suc)
  qed simp
  let ?rest = "collapse_newlines (dropWhile ((=) 10) r)"
  have "hd ?rest \<noteq> 10" if ne: "?rest \<noteq> []"
  proof -
    have "dropWhile ((=) 10) r \<noteq> []" using ne collapse_newlines_Nil by metis
    then have "10 \<noteq> hd (dropWhile ((=) 10) r)" by (rule hd_dropWhile)
    then show ?thesis using collapse_newlines_hd [OF ne] by simp
  qed
  then have "?rest = [] \<or> hd ?rest \<noteq> 10" by blast
  moreover have "collapse_newlines (10 # r) = ?run @ ?rest"
    by (subst collapse_newlines.simps) simp
  ultimately show ?thesis using run by blast
qed

lemma collapse_newlines_other: "c \<noteq> 10 \<Longrightarrow> collapse_newlines (c # r) = c # collapse_newlines r"
  by (subst collapse_newlines.simps) simp

lemma set_collapse_newlines: "set (collapse_newlines s) \<subseteq> set s"
proof (induction s rule: collapse_newlines.induct)
  case (1 s)
  show ?case
  proof (cases s)
    case (Cons c r)
    show ?thesis
    proof (cases "c = 10")
      case True
      obtain run rest where "collapse_newlines (10 # r) = run @ rest"
        "rest = collapse_newlines (dropWhile ((=) 10) r)" "run = [10] \<or> run = [10, 10]"
        using collapse_newlines_run by blast
      moreover have "set (dropWhile ((=) 10) r) \<subseteq> set r" by (auto dest: set_dropWhileD)
      ultimately show ?thesis using 1(1) Cons True by auto
    next
      case False
      then show ?thesis using 1(2) Cons by (auto simp: collapse_newlines_other)
    qed
  qed simp
qed

lemma run_no_three:
  assumes "run = [10] \<or> run = [10, 10]" and "rest = [] \<or> hd rest \<noteq> 10"
    and "\<not> sublist three_newlines rest"
  shows "\<not> sublist three_newlines (run @ rest)"
  using assms by (cases rest) (auto simp: sublist_Cons_right)

lemma no_three_newlines: "\<not> sublist three_newlines (collapse_newlines s)"
proof (induction s rule: collapse_newlines.induct)
  case (1 s)
  show ?case
  proof (cases s)
    case (Cons c r)
    show ?thesis
    proof (cases "c = 10")
      case True
      obtain run rest where *: "collapse_newlines (10 # r) = run @ rest"
        "rest = collapse_newlines (dropWhile ((=) 10) r)" "run = [10] \<or> run = [10, 10]"
        "rest = [] \<or> hd rest \<noteq> 10"
        using collapse_newlines_run by blast
      have "\<not> sublist three_newlines rest" using 1(1) Cons True *(2) by simp
      then show ?thesis using run_no_three [OF *(3,4)] *(1) Cons True by metis
    next
      case False
      then show ?thesis using 1 Cons by (auto simp: collapse_newlines_other sublist_Cons_right)
    qed
  qed simp
qed

lemma collapse_newlines_fixed: "\<not> sublist three_newlines s \<Longrightarrow> collapse_newlines s = s"
proof (induction s rule: collapse_newlines.induct)
  case (1 s)
  show ?case
  proof (cases s)
    case (Cons c r)
    show ?thesis
    proof (cases "c = 10")
      case True
      let ?t = "takeWhile ((=) 10) r"
      have split: "s = (10 # ?t) @ dropWhile ((=) 10) r" using Cons True by simp
      have "\<not> sublist three_newlines (dropWhile ((=) 10) r)"
        using 1(3) split by (metis sublist_append)
      then have IH: "collapse_newlines (dropWhile ((=) 10) r) = dropWhile ((=) 10) r"
        using 1(1) Cons True by simp
      have short: "length ?t < 2"
      proof (rule ccontr)
        assume "\<not> length ?t < 2"
        then obtain a b u where t: "?t = a # b # u"
          by (metis (no_types, lifting) One_nat_def Suc_1 length_Cons less_2_cases_iff list.size(3) neq_Nil_conv)
        then have "a = 10" "b = 10" by (metis list.set_intros set_takeWhileD)+
        with t split have "s = three_newlines @ u @ dropWhile ((=) 10) r" by simp
        with 1(3) show False by (metis sublist_appendI append_Nil)
      qed
      have "collapse_newlines s = (10 # ?t) @ collapse_newlines (dropWhile ((=) 10) r)"
        unfolding Cons True using short by (subst collapse_newlines.simps) simp
      then show ?thesis using IH split by simp
    next
      case False
      then show ?thesis using 1 Cons by (auto simp: collapse_newlines_other sublist_Cons_right)
    qed
  qed simp
qed

section \<open>Ends of lines\<close>

text \<open>No line of a text joined from stripped lines ends in a blank.\<close>

lemma join_no_blank_before_newline:
  assumes "\<And>w. w \<in> set ws \<Longrightarrow> 10 \<notin> set w \<and> (w = [] \<or> \<not> is_line_blank (last w))"
    and "is_line_blank b"
  shows "\<not> sublist [b, 10] (join_with [10] ws)"
  using assms(1)
proof (induction "[10] :: jsstring" ws rule: join_with.induct)
  case 1
  then show ?case by simp
next
  case (2 w)
  then have "10 \<notin> set w" by simp
  then show ?case using set_mono_sublist [of "[b, 10]" w] by auto
next
  case (3 w v ws)
  have no: "\<not> sublist [b, 10] w" using 3(2) set_mono_sublist [of "[b, 10]" w] by force
  have IH: "\<not> sublist [b, 10] (join_with [10] (v # ws))" using 3 by auto
  have b10: "b \<noteq> 10" using assms(2) by (auto simp: is_line_blank_def)
  have last: "\<not> suffix [b] w"
    using 3(2) [of w] assms(2) by (auto simp: suffix_def)
  show ?case
  proof
    assume "sublist [b, 10] (join_with [10] (w # v # ws))"
    then have "sublist [b, 10] (w @ 10 # join_with [10] (v # ws))" by simp
    then consider "sublist [b, 10] (10 # join_with [10] (v # ws))"
      | x y where "[b, 10] = x @ y" "suffix x w" "prefix y (10 # join_with [10] (v # ws))"
      using no by (auto simp: sublist_append)
    then show False
    proof cases
      case 1
      then show False using IH b10 by (auto simp: sublist_Cons_right)
    next
      case 2
      then consider "x = []" "y = [b, 10]" | "x = [b]" | "x = [b, 10]"
        by (auto simp: Cons_eq_append_conv)
      then show False
      proof cases
        case 1
        with 2 show False using b10 by simp
      next
        case 2
        then show False using last \<open>suffix x w\<close> by simp
      next
        case 3
        then show False using no \<open>suffix x w\<close> by (blast dest: suffix_imp_sublist)
      qed
    qed
  qed
qed

lemma collapse_newlines_pair:
  assumes "\<not> sublist [b, 10] s" and "b \<noteq> 10"
  shows "\<not> sublist [b, 10] (collapse_newlines s)"
  using assms(1)
proof (induction s rule: collapse_newlines.induct)
  case (1 s)
  show ?case
  proof (cases s)
    case (Cons c r)
    show ?thesis
    proof (cases "c = 10")
      case True
      obtain run rest where *: "collapse_newlines (10 # r) = run @ rest"
        "rest = collapse_newlines (dropWhile ((=) 10) r)" "run = [10] \<or> run = [10, 10]"
        "rest = [] \<or> hd rest \<noteq> 10"
        using collapse_newlines_run by blast
      have "sublist (dropWhile ((=) 10) r) s"
        unfolding Cons by (metis suffix_dropWhile suffix_imp_sublist sublist_Cons_right)
      then have "\<not> sublist [b, 10] (dropWhile ((=) 10) r)"
        using 1(3) sublist_order.order.trans by blast
      then have "\<not> sublist [b, 10] rest" using 1 Cons True * by simp
      with * Cons True assms(2) show ?thesis by (auto simp: sublist_Cons_right)
    next
      case False
      have no: "\<not> sublist [b, 10] r" using 1(3) Cons by (auto simp: sublist_Cons_right)
      then have IH: "\<not> sublist [b, 10] (collapse_newlines r)" using 1(2) Cons False by simp
      have "\<not> prefix [b, 10] (c # collapse_newlines r)"
      proof
        assume "prefix [b, 10] (c # collapse_newlines r)"
        then have cb: "c = b" and p: "prefix [10] (collapse_newlines r)" by auto
        then have "collapse_newlines r \<noteq> []" "hd (collapse_newlines r) = 10"
          by (auto simp: prefix_def)
        then have "r \<noteq> []" "hd r = 10" using collapse_newlines_hd [of r] by auto
        then have "prefix [b, 10] s" using Cons cb by (cases r) auto
        with 1(3) show False by blast
      qed
      with IH Cons False show ?thesis by (auto simp: collapse_newlines_other sublist_Cons_right)
    qed
  qed simp
qed

lemma sublist_trim: "sublist (trim s) s"
proof -
  obtain suf where "dropWhile is_js_space s = trim s @ suf"
    using strip_end_prefix [of "dropWhile is_js_space s" is_js_space] unfolding trim_def by blast
  then have "s = takeWhile is_js_space s @ trim s @ suf" by (metis takeWhile_dropWhile_id)
  then show ?thesis by (metis sublist_appendI)
qed

text \<open>A line of a text is its last line, or is followed by a line feed.\<close>

lemma split_on_line: "w \<in> set (split_on c s) \<Longrightarrow> suffix w s \<or> sublist (w @ [c]) s"
proof (induction s arbitrary: w)
  case (Cons x xs)
  obtain v vs where v: "split_on c xs = v # vs" by (cases "split_on c xs") auto
  have first: "prefix v xs \<and> (v = xs \<or> prefix (v @ [c]) xs)"
    using join_split [of c xs] unfolding v by (cases vs) (auto simp: prefix_def)
  show ?case
  proof (cases "x = c \<or> w \<in> set vs")
    case True
    with Cons v have "w = [] \<or> w \<in> set (split_on c xs)" by (auto split: if_splits)
    then show ?thesis
    proof
      assume "w \<in> set (split_on c xs)"
      then show ?thesis using Cons.IH by (auto simp: suffix_Cons sublist_Cons_right)
    qed simp
  next
    case False
    with Cons v have "w = x # v" by (auto split: if_splits)
    then show ?thesis using first by (auto simp: sublist_Cons_right)
  qed
qed simp

section \<open>White space and code points\<close>

lemma space_not_surrogate: "is_js_space c \<Longrightarrow> \<not> high_surrogate c \<and> \<not> low_surrogate c"
  by (auto simp: is_js_space_def high_surrogate_def low_surrogate_def word_le_nat_alt)

lemma code_points_Cons:
  "\<not> (high_surrogate c \<and> s \<noteq> [] \<and> low_surrogate (hd s)) \<Longrightarrow> code_points (c # s) = [c] # code_points s"
  by (cases s) auto

lemma code_points_snoc_space:
  "is_js_space c \<Longrightarrow> code_points (s @ [c]) = code_points s @ [[c]]"
  by (induction s rule: code_points.induct) (auto dest: space_not_surrogate)

definition visible :: "jsstring \<Rightarrow> jsstring list" where
  "visible s = filter (\<lambda>p. \<not> (\<forall>c\<in>set p. is_js_space c)) (code_points s)"

lemma visible_space_Cons [simp]: "is_js_space c \<Longrightarrow> visible (c # s) = visible s"
  by (simp add: visible_def code_points_Cons space_not_surrogate)

lemma visible_dropWhile: "visible (dropWhile is_js_space s) = visible s"
  by (induction s) auto

lemma visible_snoc_space: "is_js_space c \<Longrightarrow> visible (s @ [c]) = visible s"
  by (simp add: visible_def code_points_snoc_space)

lemma visible_strip_end: "visible (strip_end is_js_space s) = visible s"
  by (induction s rule: rev_induct) (auto simp: strip_end_def visible_snoc_space)

lemma visible_trim: "visible (trim s) = visible s"
  by (simp add: trim_def visible_strip_end visible_dropWhile)

lemma collapse_spaces_hd: "s \<noteq> [] \<Longrightarrow> collapse_spaces s \<noteq> [] \<and>
    hd (collapse_spaces s) = (if is_js_space (hd s) then 32 else hd s)"
  by (cases s) auto

lemma is_js_space_32: "is_js_space 32"
  by (simp add: is_js_space_def)

lemma visible_collapse_spaces: "visible (collapse_spaces s) = visible s"
proof (induction s rule: code_points.induct)
  case (2 c)
  then show ?case by (simp add: is_js_space_32 visible_def code_points_Cons space_not_surrogate)
next
  case (3 c d s)
  show ?case
  proof (cases "is_js_space c")
    case True
    then have "collapse_spaces (c # d # s)
        = (if is_js_space d then collapse_spaces (d # s) else 32 # collapse_spaces (d # s))" by simp
    then have "visible (collapse_spaces (c # d # s)) = visible (collapse_spaces (d # s))"
      using is_js_space_32 visible_space_Cons by presburger
    moreover have "visible (collapse_spaces (d # s)) = visible (d # s)"
      using 3(2) space_not_surrogate [OF True] by blast
    ultimately show ?thesis using True by simp
  next
    case c: False
    show ?thesis
    proof (cases "high_surrogate c \<and> low_surrogate d")
      case True
      then have "\<not> is_js_space d" using space_not_surrogate by blast
      with True c 3 show ?thesis by (simp add: visible_def)
    next
      case False
      have "\<not> low_surrogate (32 :: jschar)"
        using space_not_surrogate [OF is_js_space_32] by blast
      then have "\<not> (high_surrogate c \<and> low_surrogate (hd (collapse_spaces (d # s))))"
        using False collapse_spaces_hd [of "d # s"] by auto
      then have "visible (c # collapse_spaces (d # s)) = [c] # visible (collapse_spaces (d # s))"
        using c by (simp add: visible_def code_points_Cons)
      moreover have "visible (c # d # s) = [c] # visible (d # s)"
        using False c by (simp add: visible_def)
      ultimately show ?thesis using 3 False c by simp
    qed
  qed
qed (simp add: visible_def)

lemma collapse_spaces_only_32: "c \<in> set (collapse_spaces s) \<Longrightarrow> is_js_space c \<Longrightarrow> c = 32"
  by (induction s rule: collapse_spaces.induct) (auto split: if_splits)

lemma set_code_points: "p \<in> set (code_points s) \<Longrightarrow> set p \<subseteq> set s"
  by (metis UN_upper concat_code_points set_concat)

text \<open>In a collapsed text the single spaces are exactly the code points that are white space.\<close>

lemma visible_collapsed:
  assumes "\<And>c. c \<in> set s \<Longrightarrow> is_js_space c \<Longrightarrow> c = 32"
  shows "filter (\<lambda>p. p \<noteq> [32]) (code_points s) = visible s"
  unfolding visible_def
proof (rule filter_cong [OF refl])
  fix p assume p: "p \<in> set (code_points s)"
  have "p = [32]" if sp: "\<forall>c\<in>set p. is_js_space c"
  proof -
    have all: "\<forall>c\<in>set p. c = 32" using assms set_code_points [OF p] sp by blast
    from code_points_length [OF p] show ?thesis
    proof
      assume "length p = 2"
      with p have "\<exists>c\<in>set p. high_surrogate c"
        by (induction s rule: code_points.induct) (auto split: if_splits)
      with all have "high_surrogate 32" by auto
      then show ?thesis using space_not_surrogate [OF is_js_space_32] by blast
    next
      assume "length p = 1"
      with all show ?thesis by (cases p) auto
    qed
  qed
  then show "(p \<noteq> [32]) = (\<not> (\<forall>c\<in>set p. is_js_space c))"
    by (auto simp: is_js_space_32)
qed

section \<open>Properties\<close>

text \<open>What a stored text looks like, and that such a text is left alone.\<close>

definition normal_text :: "jsstring \<Rightarrow> bool" where
  "normal_text t \<longleftrightarrow> 13 \<notin> set t \<and> filter is_text_control t = [] \<and> \<not> sublist three_newlines t
     \<and> \<not> sublist [32, 10] t \<and> \<not> sublist [9, 10] t \<and> \<not> sublist [0xA0, 10] t \<and> trim t = t"

lemma normalizeExtractedText_shape: "normal_text (normalizeExtractedText U raw)"
proof -
  let ?s = "remove_class is_text_control (unify_newlines (nfc U raw))"
  let ?ws = "map (strip_end is_line_blank) (split_on 10 ?s)"
  let ?c = "collapse_newlines (join_with [10] ?ws)"
  have t: "normalizeExtractedText U raw = trim ?c"
    by (simp add: normalizeExtractedText_def Let_def)
  let ?ok = "{c. c \<noteq> 13 \<and> \<not> is_text_control c}"
  have ten: "10 \<in> ?ok" by (simp add: is_text_control_def word_le_nat_alt)
  have "set ?s \<subseteq> ?ok"
    using set_unify_newlines [of "nfc U raw"] by (auto simp: remove_class_def)
  moreover have "set w \<subseteq> set ?s" if "w \<in> set ?ws" for w
  proof -
    from that obtain v where "v \<in> set (split_on 10 ?s)" "w = strip_end is_line_blank v" by auto
    then show ?thesis using set_strip_end split_on_mem by (metis order_trans)
  qed
  ultimately have "\<Union> (set ` set ?ws) \<subseteq> ?ok" by blast
  moreover have "set [10] \<subseteq> ?ok" using ten by simp
  ultimately have "set [10] \<union> \<Union> (set ` set ?ws) \<subseteq> ?ok" by (rule Un_least [rotated])
  then have "set (join_with [10] ?ws) \<subseteq> ?ok"
    by (rule order_trans [OF set_join_with])
  then have chars: "set (trim ?c) \<subseteq> ?ok"
    using set_trim [of ?c] set_collapse_newlines [of "join_with [10] ?ws"] by blast
  have lines: "10 \<notin> set w \<and> (w = [] \<or> \<not> is_line_blank (last w))" if "w \<in> set ?ws" for w
  proof -
    from that obtain v where v: "v \<in> set (split_on 10 ?s)" "w = strip_end is_line_blank v" by auto
    have "10 \<notin> set v" using v(1) by (rule split_on_no_sep)
    then have "10 \<notin> set w" using set_strip_end [of is_line_blank v] v(2) by blast
    then show ?thesis using v(2) last_strip_end [of is_line_blank v] by blast
  qed
  have "\<not> sublist [b, 10] (trim ?c)" if "is_line_blank b" for b
  proof -
    have "b \<noteq> 10" using that by (auto simp: is_line_blank_def)
    then have "\<not> sublist [b, 10] ?c"
      using collapse_newlines_pair join_no_blank_before_newline [OF lines that] by blast
    then show ?thesis using sublist_trim sublist_order.order.trans by blast
  qed
  moreover have "\<not> sublist three_newlines (trim ?c)"
    using no_three_newlines sublist_trim sublist_order.order.trans by blast
  ultimately show ?thesis
    using chars unfolding t normal_text_def
    by (auto simp: trim_idem filter_empty_conv is_line_blank_def)
qed

lemma normal_text_fixed:
  assumes "normal_text t" and "nfc U t = t"
  shows "normalizeExtractedText U t = t"
proof -
  have "unify_newlines t = t" "remove_class is_text_control t = t"
    using assms(1) by (auto simp: normal_text_def remove_class_def filter_id_conv filter_empty_conv
        intro: unify_newlines_fixed)
  moreover have "strip_end is_line_blank w = w" if w: "w \<in> set (split_on 10 t)" for w
  proof (rule strip_end_fixed, rule ccontr)
    assume *: "\<not> (w = [] \<or> \<not> is_line_blank (last w))"
    then have wl: "w = butlast w @ [last w]" by simp
    from split_on_line [OF w] show False
    proof
      assume "suffix w t"
      then have "t \<noteq> []" "last t = last w" using * by (auto simp: suffix_def)
      moreover have "is_js_space (last w)" using * by (auto simp: is_line_blank_def is_js_space_def)
      ultimately show False using assms(1) trim_ends [of t] by (simp add: normal_text_def)
    next
      assume "sublist (w @ [10]) t"
      moreover have "sublist [last w, 10] (w @ [10])"
        using wl by (metis append.assoc append_Cons append_Nil append_Nil2 sublist_appendI)
      ultimately have "sublist [last w, 10] t" using sublist_order.order.trans by blast
      then show False using * assms(1) by (auto simp: normal_text_def is_line_blank_def)
    qed
  qed
  ultimately show ?thesis
    using assms unfolding normalizeExtractedText_def normal_text_def
    by (simp add: map_idI join_split collapse_newlines_fixed)
qed

text \<open>Extracted text is stored in a normal form: no carriage return or control character, no
  blank in front of a line feed, at most one empty line in a row, no white space at either end.
  Whatever the Unicode tables, a text in that form that is also in normalisation form C is left
  unchanged, so normalising twice is normalising once there.\<close>

theorem normalizeExtractedText_normal:
  "normal_text (normalizeExtractedText U raw)
     \<and> (nfc U (normalizeExtractedText U raw) = normalizeExtractedText U raw
        \<longrightarrow> normalizeExtractedText U (normalizeExtractedText U raw) = normalizeExtractedText U raw)"
  using normalizeExtractedText_shape normal_text_fixed by blast

theorem normalizeExtractedText_normal_witness:
  "normalizeExtractedText ascii_unicode [65, 32, 13, 10, 10, 9, 10, 0, 10, 66, 12, 10]
     = [65, 10, 10, 66]
   \<and> normalizeExtractedText ascii_unicode [65, 10, 10, 66] = [65, 10, 10, 66]"
proof -
  have 1: "normalizeExtractedText ascii_unicode [65, 32, 13, 10, 10, 9, 10, 0, 10, 66, 12, 10]
      = [65, 10, 10, 66]" by code_simp
  have "nfc ascii_unicode [65, 10, 10, 66] = [65, 10, 10, 66]" by (simp add: ascii_unicode_def)
  then show ?thesis
    using normalizeExtractedText_normal
      [of ascii_unicode "[65, 32, 13, 10, 10, 9, 10, 0, 10, 66, 12, 10]"] 1 by simp
qed

text \<open>The order of the steps matters for that condition: the control characters are removed after
  the string was composed, so a letter and a combining mark that a control character kept apart are
  stored uncomposed.\<close>

lemma control_between_letter_and_mark:
  assumes "nfc U [0x65, 0, 0x301] = [0x65, 0, 0x301]" and "nfc U [0x65, 0x301] = [0xE9]"
  shows "nfc U (normalizeExtractedText U [0x65, 0, 0x301]) \<noteq> normalizeExtractedText U [0x65, 0, 0x301]"
proof -
  have "normalizeExtractedText U [0x65, 0, 0x301] = [0x65, 0x301]"
    unfolding normalizeExtractedText_def assms(1) by code_simp
  then show ?thesis using assms(2) by simp
qed

text \<open>Truncation cuts at a code point, never inside a surrogate pair: the stored text is the
  longest prefix of at most \<open>maxChars\<close> code points, the recorded count is its number of code
  points, and the flag says whether anything was cut.\<close>

theorem truncateText_exact:
  "code_points (tt_text (truncateText text maxChars)) = take maxChars (code_points text)
     \<and> prefix (tt_text (truncateText text maxChars)) text
     \<and> tt_charCount (truncateText text maxChars) = length (code_points (tt_text (truncateText text maxChars)))
     \<and> tt_charCount (truncateText text maxChars) \<le> maxChars
     \<and> tt_truncated (truncateText text maxChars) = (tt_text (truncateText text maxChars) \<noteq> text)"
proof (cases "length (code_points text) \<le> maxChars")
  case True
  then show ?thesis by (simp add: truncateText_def)
next
  case False
  let ?c = "concat (take maxChars (code_points text))"
  have cp: "code_points ?c = take maxChars (code_points text)" by (rule code_points_take)
  have "text = ?c @ concat (drop maxChars (code_points text))"
    by (metis append_take_drop_id concat_append concat_code_points)
  moreover have "?c \<noteq> text"
  proof
    assume "?c = text"
    with cp have "take maxChars (code_points text) = code_points text" by metis
    then have "length (take maxChars (code_points text)) = length (code_points text)" by presburger
    with False show False by simp
  qed
  ultimately show ?thesis using False cp by (simp add: truncateText_def prefixI)
qed

text \<open>The rule for a usable native text layer, stated over the page's own text: the layer is
  used exactly when its collapsed length reaches the minimum, it has a visible character, and the
  letters and digits reach the configured share of its visible characters. Collapsing and trimming
  white space does not change what is counted, and a blank layer is never used.\<close>

theorem isNativeTextUsable_rule:
  "isNativeTextUsable U text rule \<longleftrightarrow>
     minChars rule \<le> length (trim (collapse_spaces text)) \<and> visible text \<noteq> []
     \<and> minAlphanumericRatio rule * rat_of_nat (length (visible text))
         \<le> rat_of_nat (length (filter (letter_or_number U) (visible text)))"
proof -
  have "filter (\<lambda>p. p \<noteq> [32]) (code_points (trim (collapse_spaces text))) = visible text"
    using visible_collapsed [of "trim (collapse_spaces text)"] set_trim collapse_spaces_only_32
      visible_trim visible_collapse_spaces by (metis subset_iff)
  then show ?thesis
    by (auto simp: isNativeTextUsable_def Let_def not_less pos_le_divide_eq)
qed

end
