(* ===== verification/Ocr_Errors.thy ===== *)
theory Ocr_Errors
  imports Schema Text_Tools
begin

text \<open>
  Error codes, exceptions and configuration of text recognition: \<open>ocr/ocr.errors.ts\<close> and the
  \<open>OcrConfig\<close> of \<open>config/configuration.ts\<close>. The numbers of the configuration are natural numbers:
  the validation of the environment admits no negative ones.
\<close>

section \<open>Codes\<close>

definition OcrErrorCodes :: "string list" where
  "OcrErrorCodes = [''OCR_NOT_FOUND'', ''OCR_NOT_READY'', ''OCR_ALREADY_PROCESSING'',
     ''OCR_UNSUPPORTED_LANGUAGE'', ''OCR_UNSUPPORTED_FILE_TYPE'', ''OCR_FILE_TOO_LARGE'',
     ''OCR_PAGE_LIMIT_EXCEEDED'', ''OCR_PAGE_TOO_LARGE'', ''OCR_INVALID_FILE'',
     ''OCR_PROCESSING_TIMEOUT'', ''OCR_PROCESSING_FAILED'', ''OCR_STORAGE_ERROR'',
     ''OCR_TEXT_LIMIT_EXCEEDED'', ''OCR_WORKER_INTERRUPTED'', ''OCR_DOCUMENT_UNAVAILABLE'',
     ''OCR_DOCUMENT_NOT_READY'', ''OCR_RETRY_NOT_ALLOWED'', ''OCR_TOO_MANY_JOBS'', ''OCR_UNAVAILABLE'']"

definition PERMANENT_OCR_ERROR_CODES :: "string list" where
  "PERMANENT_OCR_ERROR_CODES = [''OCR_UNSUPPORTED_FILE_TYPE'', ''OCR_FILE_TOO_LARGE'',
     ''OCR_PAGE_LIMIT_EXCEEDED'', ''OCR_PAGE_TOO_LARGE'', ''OCR_INVALID_FILE'',
     ''OCR_DOCUMENT_UNAVAILABLE'', ''OCR_UNSUPPORTED_LANGUAGE'']"

section \<open>Failures of processing\<close>

datatype ErrorScope = JobScope | PageScope

record OcrProcessingError =
  pe_code :: string
  pe_message :: string
  pe_permanent :: bool
  pe_detail :: "jsstring option"
  pe_scope :: ErrorScope

text \<open>What a step of the worker can throw: a processing error, an error of the object storage, or
  any other error, with its message.\<close>

datatype thrown = Processing OcrProcessingError | StorageException string | OtherError string

definition permanent :: "string \<Rightarrow> string \<Rightarrow> jsstring option \<Rightarrow> OcrProcessingError" where
  "permanent code message detail = \<lparr>pe_code = code, pe_message = message, pe_permanent = True,
     pe_detail = detail, pe_scope = JobScope\<rparr>"

definition transient :: "string \<Rightarrow> string \<Rightarrow> jsstring option \<Rightarrow> OcrProcessingError" where
  "transient code message detail = \<lparr>pe_code = code, pe_message = message, pe_permanent = False,
     pe_detail = detail, pe_scope = JobScope\<rparr>"

definition forPage :: "OcrProcessingError \<Rightarrow> OcrProcessingError" where
  "forPage e = e\<lparr>pe_scope := PageScope\<rparr>"

section \<open>Answers of the API\<close>

definition ocrNotFound :: failure where
  "ocrNotFound = appException 404 ''OCR_NOT_FOUND'' ''No OCR job exists for this document''"

definition ocrNotReady :: "string \<Rightarrow> failure" where
  "ocrNotReady status = appException 409 ''OCR_NOT_READY''
     (''OCR results are not available yet (job is '' @ status @ '')'')"

definition ocrAlreadyProcessing :: failure where
  "ocrAlreadyProcessing = appException 409 ''OCR_ALREADY_PROCESSING''
     ''An OCR job with a different language configuration is already active for this document''"

definition ocrUnsupportedLanguage :: "string list \<Rightarrow> failure" where
  "ocrUnsupportedLanguage available = appException 400 ''OCR_UNSUPPORTED_LANGUAGE''
     (''Unsupported OCR language; available: '' @ join_with '', '' available)"

definition ocrUnsupportedFileType :: failure where
  "ocrUnsupportedFileType = appException 415 ''OCR_UNSUPPORTED_FILE_TYPE''
     ''OCR supports PDF, JPEG, PNG and WebP documents only''"

definition ocrFileTooLarge :: "nat \<Rightarrow> failure" where
  "ocrFileTooLarge maxBytes = appException 413 ''OCR_FILE_TOO_LARGE''
     (''Documents larger than '' @ nat_str maxBytes @ '' bytes cannot be processed'')"

definition ocrPageLimitExceeded :: "nat \<Rightarrow> failure" where
  "ocrPageLimitExceeded maxPages = appException 413 ''OCR_PAGE_LIMIT_EXCEEDED''
     (''Documents with more than '' @ nat_str maxPages @ '' pages cannot be processed'')"

definition ocrDocumentNotReady :: failure where
  "ocrDocumentNotReady = appException 409 ''OCR_DOCUMENT_NOT_READY''
     ''The document has no completed upload; finish the upload before requesting OCR''"

definition ocrRetryNotAllowed :: "string \<Rightarrow> failure" where
  "ocrRetryNotAllowed message = appException 409 ''OCR_RETRY_NOT_ALLOWED'' message"

definition ocrTooManyJobs :: "string \<Rightarrow> failure" where
  "ocrTooManyJobs message = appException 429 ''OCR_TOO_MANY_JOBS'' message"

definition ocrUnavailable :: failure where
  "ocrUnavailable = appException 503 ''OCR_UNAVAILABLE'' ''OCR is currently unavailable''"

section \<open>Configuration\<close>

record RateLimitRule =
  rl_limit :: nat
  rl_windowSeconds :: nat

record OcrConfig =
  oc_enabled :: bool
  oc_workerEnabled :: bool
  oc_defaultLanguage :: jsstring
  oc_supportedLanguages :: "jsstring list"
  oc_maxLanguagesPerJob :: nat
  oc_queueName :: jsstring
  oc_concurrency :: nat
  oc_maxAttempts :: nat
  oc_retryBackoffMs :: nat
  oc_jobTimeoutMs :: nat
  oc_pageTimeoutMs :: nat
  oc_staleJobMs :: nat
  oc_reconcileIntervalMs :: nat
  oc_maxFileSizeBytes :: nat
  oc_maxPdfPages :: nat
  oc_renderDpi :: nat
  oc_maxRenderPixels :: nat
  oc_maxImagePixels :: nat
  oc_maxTextPerPage :: nat
  oc_maxTextPerDocument :: nat
  oc_maxActiveJobsPerUser :: nat
  oc_maxJobsPerDocument :: nat
  oc_nativeText :: NativeTextRule
  oc_tesseractPath :: jsstring
  oc_popplerPath :: "jsstring option"
  oc_tessdataPrefix :: "jsstring option"
  oc_tmpDir :: "jsstring option"
  oc_requestRate :: RateLimitRule

text \<open>A small configuration for the examples.\<close>

definition demoConfig :: OcrConfig where
  "demoConfig = \<lparr>oc_enabled = True, oc_workerEnabled = True, oc_defaultLanguage = js ''eng'',
     oc_supportedLanguages = [js ''eng''], oc_maxLanguagesPerJob = 3, oc_queueName = js ''q'', oc_concurrency = 1,
     oc_maxAttempts = 3, oc_retryBackoffMs = 5000, oc_jobTimeoutMs = 600000, oc_pageTimeoutMs = 60000,
     oc_staleJobMs = 120000, oc_reconcileIntervalMs = 60000, oc_maxFileSizeBytes = 1000, oc_maxPdfPages = 5,
     oc_renderDpi = 150, oc_maxRenderPixels = 20000000, oc_maxImagePixels = 1000, oc_maxTextPerPage = 2,
     oc_maxTextPerDocument = 3, oc_maxActiveJobsPerUser = 5, oc_maxJobsPerDocument = 20,
     oc_nativeText = \<lparr>minChars = 2, minAlphanumericRatio = 1 / 2\<rparr>, oc_tesseractPath = js ''tesseract'',
     oc_popplerPath = None, oc_tessdataPrefix = None, oc_tmpDir = None,
     oc_requestRate = \<lparr>rl_limit = 10, rl_windowSeconds = 60\<rparr>\<rparr>"

lemma permanent_sel [simp]:
  "pe_code (permanent c m d) = c" "pe_message (permanent c m d) = m" "pe_permanent (permanent c m d)"
  "pe_detail (permanent c m d) = d"
  by (simp_all add: permanent_def)

lemma transient_sel [simp]:
  "pe_code (transient c m d) = c" "pe_message (transient c m d) = m" "\<not> pe_permanent (transient c m d)"
  "pe_detail (transient c m d) = d"
  by (simp_all add: transient_def)

lemma forPage_sel [simp]:
  "pe_code (forPage e) = pe_code e" "pe_message (forPage e) = pe_message e"
  "pe_permanent (forPage e) = pe_permanent e" "pe_detail (forPage e) = pe_detail e"
  by (simp_all add: forPage_def)

end
