(* ===== verification/Ocr_Service.thy ===== *)
theory Ocr_Service
  imports Ocr_Jobs Ocr_Errors
begin

text \<open>
  The side of text recognition that faces the API: the languages on offer
  (\<open>ocr/ocr-languages.service.ts\<close>), the producer side of the job queue (\<open>ocr/ocr-queue.service.ts\<close>),
  the use cases (\<open>ocr/ocr.service.ts\<close>) and the shapes that leave the API
  (\<open>ocr/ocr.serializer.ts\<close>).

  The queue library is a parameter, the record \<open>bullmq\<close>, with the documented behaviour the service
  relies on as the predicate \<open>bull_ok\<close>; the installed languages come from the recognition engine.
  A job is created in a transaction under a lock on the document: its statements are separate steps,
  and \<open>lock_held\<close> says what others can do in between.
\<close>

section \<open>Languages\<close>

record OcrEngineInfo =
  en_name :: jsstring
  en_version :: "jsstring option"
  en_installedLanguages :: "jsstring list"

record LanguageAvailability =
  la_available :: "jsstring list"
  la_missing :: "jsstring list"
  la_defaultAvailable :: bool
  la_defaultLanguage :: jsstring
  la_checkedAt :: time

text \<open>\<open>/^[a-z]{3}(_[a-z]+)?$/\<close>.\<close>

definition LANGUAGE_CODE :: "jsstring \<Rightarrow> bool" where
  "LANGUAGE_CODE s \<longleftrightarrow> 3 \<le> length s \<and> list_all is_lower (take 3 s)
     \<and> (case drop 3 s of [] \<Rightarrow> True | c # r \<Rightarrow> c = 95 \<and> r \<noteq> [] \<and> list_all is_lower r)"

definition REFRESH_MS :: int where
  "REFRESH_MS = 60000"

definition probe :: "OcrConfig \<Rightarrow> OcrEngineInfo option \<Rightarrow> time \<Rightarrow> LanguageAvailability" where
  "probe cfg info now =
     (let installed = (case info of None \<Rightarrow> [] | Some i \<Rightarrow> en_installedLanguages i);
          configured = oc_supportedLanguages cfg;
          available = filter (\<lambda>c. c \<in> set installed) configured;
          missing = filter (\<lambda>c. c \<notin> set installed) configured;
          defaultCodes = split_on 43 (oc_defaultLanguage cfg)
      in \<lparr>la_available = available, la_missing = missing,
          la_defaultAvailable = list_all (\<lambda>c. c \<in> set available) defaultCodes,
          la_defaultLanguage = oc_defaultLanguage cfg, la_checkedAt = now\<rparr>)"

text \<open>The cache is the state of the service; \<open>info\<close> is what the engine answers to a probe, \<open>now\<close> the
  clock at the check and \<open>later\<close> at the end of the probe.\<close>

definition availability ::
  "OcrConfig \<Rightarrow> OcrEngineInfo option \<Rightarrow> bool \<Rightarrow> time \<Rightarrow> time \<Rightarrow> LanguageAvailability option
     \<Rightarrow> LanguageAvailability \<times> LanguageAvailability option" where
  "availability cfg info force now later cache =
     (case cache of
        Some a \<Rightarrow>
          if \<not> force \<and> now - la_checkedAt a < REFRESH_MS then (a, cache)
          else (let b = probe cfg info later in (b, Some b))
      | None \<Rightarrow> (let b = probe cfg info later in (b, Some b)))"

definition languageText :: "jsstring \<Rightarrow> string" where
  "languageText s = map (\<lambda>c. char_of (unat c)) s"

definition resolve :: "OcrConfig \<Rightarrow> LanguageAvailability \<Rightarrow> jsstring option \<Rightarrow> failure + jsstring" where
  "resolve cfg av requested =
     (let available = la_available av
      in if length available = 0 then Inl ocrUnavailable
         else
           (let t = trim (case requested of None \<Rightarrow> [] | Some r \<Rightarrow> r);
                raw = (if t \<noteq> [] then t else oc_defaultLanguage cfg);
                codes = unique_in_order (map trim (split_on 43 raw))
            in if length codes = 0 \<or> length codes > oc_maxLanguagesPerJob cfg
                  \<or> list_ex (\<lambda>c. \<not> LANGUAGE_CODE c \<or> c \<notin> set available) codes
               then Inl (ocrUnsupportedLanguage (map languageText available))
               else Inr (join_with [43] codes)))"

section \<open>Queue\<close>

record bullmq =
  addEntry :: "uuid \<Rightarrow> World \<Rightarrow> string + World"
  entryState :: "uuid \<Rightarrow> World \<Rightarrow> string + QueueState option"
  dropEntry :: "uuid \<Rightarrow> World \<Rightarrow> string + World"

definition PENDING_STATES :: "QueueState list" where
  "PENDING_STATES = [Waiting, Active, Delayed, Prioritized, WaitingChildren]"

definition enqueue :: "bullmq \<Rightarrow> uuid \<Rightarrow> World \<Rightarrow> string + World" where
  "enqueue q ocrJobId w = addEntry q ocrJobId w"

definition isPending :: "bullmq \<Rightarrow> uuid \<Rightarrow> World \<Rightarrow> string + bool" where
  "isPending q ocrJobId w =
     (case entryState q ocrJobId w of
        Inl e \<Rightarrow> Inl e
      | Inr None \<Rightarrow> Inr False
      | Inr (Some s) \<Rightarrow> Inr (s \<in> set PENDING_STATES))"

definition removeStaleEntry :: "bullmq \<Rightarrow> uuid \<Rightarrow> World \<Rightarrow> string + World" where
  "removeStaleEntry q ocrJobId w =
     (case entryState q ocrJobId w of
        Inl e \<Rightarrow> Inl e
      | Inr None \<Rightarrow> Inr w
      | Inr (Some s) \<Rightarrow>
          if s \<notin> set PENDING_STATES
          then (case dropEntry q ocrJobId w of Inl _ \<Rightarrow> Inr w | Inr w' \<Rightarrow> Inr w')
          else Inr w)"

definition removeQueueEntry :: "bullmq \<Rightarrow> uuid \<Rightarrow> World \<Rightarrow> string + World" where
  "removeQueueEntry q ocrJobId w =
     (case entryState q ocrJobId w of
        Inl e \<Rightarrow> Inl e
      | Inr None \<Rightarrow> Inr w
      | Inr (Some _) \<Rightarrow> (case dropEntry q ocrJobId w of Inl _ \<Rightarrow> Inr w | Inr w' \<Rightarrow> Inr w'))"

text \<open>The documented behaviour of the library: adding an id that is present changes nothing and adding
  another makes it wait; the state of an entry is read without changing it; only a removed entry
  disappears. No call touches the database.\<close>

definition bull_ok :: "bullmq \<Rightarrow> bool" where
  "bull_ok q \<longleftrightarrow>
     (\<forall>i w w'. addEntry q i w = Inr w' \<longrightarrow>
        (\<exists>entries. w' = w\<lparr>queueEntries := entries\<rparr>)
        \<and> (\<forall>k. entryState q k w' = (if k = i \<and> entryState q i w = Inr None then Inr (Some Waiting) else entryState q k w)))
     \<and> (\<forall>i w w'. dropEntry q i w = Inr w' \<longrightarrow>
        (\<exists>entries. w' = w\<lparr>queueEntries := entries\<rparr>)
        \<and> (\<forall>k. entryState q k w' = (if k = i then Inr None else entryState q k w)))"

section \<open>Use cases\<close>

datatype OcrRequestOutcome = Created | ActiveJob | Existing

record OcrRequestResult =
  rr_job :: OcrJob
  rr_outcome :: OcrRequestOutcome

record OcrResults =
  rs_job :: OcrJob
  rs_pages :: "OcrPage list"
  rs_page :: nat
  rs_limit :: nat
  rs_total :: nat
  rs_totalPages :: nat

record RequestOcrDto =
  rq_language :: "jsstring option"
  rq_forceReprocess :: "bool option"

record OcrResultsQueryDto =
  oq_page :: nat
  oq_limit :: nat
  oq_pageNumber :: "nat option"
  oq_jobId :: "uuid option"

definition SUPPORTED_MIME_TYPES :: "string list" where
  "SUPPORTED_MIME_TYPES = [''application/pdf'', ''image/jpeg'', ''image/png'', ''image/webp'']"

definition RETRYABLE_STATUSES :: "OcrJobStatus list" where
  "RETRYABLE_STATUSES = [FAILED, PARTIAL]"

fun statusText :: "OcrJobStatus \<Rightarrow> string" where
  "statusText QUEUED = ''QUEUED''"
| "statusText PROCESSING = ''PROCESSING''"
| "statusText COMPLETED = ''COMPLETED''"
| "statusText PARTIAL = ''PARTIAL''"
| "statusText FAILED = ''FAILED''"
| "statusText CANCELLED = ''CANCELLED''"

definition assertProcessable :: "OcrConfig \<Rightarrow> Document \<Rightarrow> failure option" where
  "assertProcessable cfg document =
     (if d_status document \<noteq> READY \<or> \<not> truthy (d_storageKey document) \<or> \<not> truthy (d_mimeType document)
      then Some ocrDocumentNotReady
      else if the (d_mimeType document) \<notin> set (map js SUPPORTED_MIME_TYPES) then Some ocrUnsupportedFileType
      else if (case d_fileSize document of None \<Rightarrow> False | Some n \<Rightarrow> n > int (oc_maxFileSizeBytes cfg))
      then Some (ocrFileTooLarge (oc_maxFileSizeBytes cfg))
      else if (case d_pageCount document of None \<Rightarrow> False | Some n \<Rightarrow> n > oc_maxPdfPages cfg)
      then Some (ocrPageLimitExceeded (oc_maxPdfPages cfg))
      else None)"

text \<open>The two counts are two statements; \<open>i\<close> is the first of the steps of others in between.\<close>

definition assertQuota :: "run \<Rightarrow> nat \<Rightarrow> OcrConfig \<Rightarrow> uuid \<Rightarrow> uuid \<Rightarrow> World \<Rightarrow> failure option \<times> World" where
  "assertQuota e i cfg userId documentId w =
     (if countActiveForUser userId w \<ge> oc_maxActiveJobsPerUser cfg
      then (Some (ocrTooManyJobs (''At most '' @ nat_str (oc_maxActiveJobsPerUser cfg)
              @ '' OCR jobs can be queued or processing at once'')), w)
      else
        (let w1 = others e i w
         in if countForDocument documentId w1 \<ge> oc_maxJobsPerDocument cfg
            then (Some (ocrTooManyJobs (''This document has reached the limit of ''
                    @ nat_str (oc_maxJobsPerDocument cfg) @ '' OCR jobs'')), w1)
            else (None, w1)))"

definition createJob :: "run \<Rightarrow> OcrConfig \<Rightarrow> uuid \<Rightarrow> uuid \<Rightarrow> jsstring \<Rightarrow> World \<Rightarrow> OcrJob outcome" where
  "createJob e cfg userId documentId language w =
     (let row = \<lparr>j_id = freshId e 0, j_documentId = documentId, j_userId = userId, j_status = QUEUED,
                 j_language = language, j_extractionMethod = None, j_totalPages = None, j_processedPages = 0,
                 j_failedPages = 0, j_errorCode = None, j_errorMessage = None, j_attemptCount = 0,
                 j_maxAttempts = oc_maxAttempts cfg, j_heartbeatAt = None, j_startedAt = None,
                 j_completedAt = None, j_createdAt = clock e 0, j_updatedAt = clock e 0\<rparr>
      in if findJobById (freshId e 0) w \<noteq> None then (Inl P2002, w)
         else if findUserById userId w = None \<or> findFirst (\<lambda>d. d_id d = documentId) (documents w) = None
         then (Inl (Internal ''P2003''), w)
         else (Inr row, w\<lparr>ocrJobs := createRow row (ocrJobs w)\<rparr>))"

definition schedule :: "bullmq \<Rightarrow> OcrJob \<Rightarrow> World \<Rightarrow> World" where
  "schedule q job w = (case enqueue q (j_id job) w of Inl _ \<Rightarrow> w | Inr w' \<Rightarrow> w')"

text \<open>Creation of a job under the quotas, the last statements of both transactions. A failure leaves
  nothing written: the only write is the last statement.\<close>

definition createUnderQuota :: "run \<Rightarrow> OcrConfig \<Rightarrow> uuid \<Rightarrow> uuid \<Rightarrow> jsstring \<Rightarrow> World \<Rightarrow> OcrJob outcome" where
  "createUnderQuota e cfg userId documentId language w =
     (case assertQuota e 4 cfg userId documentId w of
        (Some f, w1) \<Rightarrow> (Inl f, w1)
      | (None, w1) \<Rightarrow> createJob e cfg userId documentId language (others e 5 w1))"

definition requestTx ::
  "run \<Rightarrow> database \<Rightarrow> OcrConfig \<Rightarrow> uuid \<Rightarrow> uuid \<Rightarrow> jsstring \<Rightarrow> bool \<Rightarrow> World \<Rightarrow> OcrRequestResult outcome" where
  "requestTx e db cfg userId documentId language force w =
     (case activeForDocument documentId w of
        Some active \<Rightarrow>
          if j_language active = language then (Inr \<lparr>rr_job = active, rr_outcome = ActiveJob\<rparr>, w)
          else (Inl ocrAlreadyProcessing, w)
      | None \<Rightarrow>
          (let w1 = others e 2 w;
               latest = (if force then None else latestForLanguage db documentId language w1);
               finished = (case latest of None \<Rightarrow> False | Some l \<Rightarrow> j_status l = COMPLETED \<or> j_status l = PARTIAL)
           in if finished then (Inr \<lparr>rr_job = the latest, rr_outcome = Existing\<rparr>, w1)
              else (case createUnderQuota e cfg userId documentId language (others e 3 w1) of
                      (Inl f, w2) \<Rightarrow> (Inl f, w2)
                    | (Inr job, w2) \<Rightarrow> (Inr \<lparr>rr_job = job, rr_outcome = Created\<rparr>, w2))))"

definition requestOcr ::
  "run \<Rightarrow> database \<Rightarrow> OcrConfig \<Rightarrow> bullmq \<Rightarrow> LanguageAvailability \<Rightarrow> uuid \<Rightarrow> uuid \<Rightarrow> RequestOcrDto
     \<Rightarrow> RequestContext \<Rightarrow> World \<Rightarrow> OcrRequestResult outcome" where
  "requestOcr e db cfg q av userId documentId dto ctx w =
     (if \<not> oc_enabled cfg then (Inl ocrUnavailable, w)
      else
        (case getOwnedDocument userId documentId ctx w of
           (Inl f, w1) \<Rightarrow> (Inl f, w1)
         | (Inr document, w1) \<Rightarrow>
             (case resolve cfg av (rq_language dto) of
                Inl f \<Rightarrow> (Inl f, others e 0 w1)
              | Inr language \<Rightarrow>
                  (case assertProcessable cfg document of
                     Some f \<Rightarrow> (Inl f, others e 0 w1)
                   | None \<Rightarrow>
                       (let force = (rq_forceReprocess dto = Some True)
                        in case requestTx e db cfg userId documentId language force (others e 1 (others e 0 w1)) of
                             (Inl f, w2) \<Rightarrow> (Inl f, w2)
                           | (Inr result, w2) \<Rightarrow>
                               if rr_outcome result = Created
                               then (Inr result,
                                     recordEvent (folderEvent OCR_JOB_REQUESTED userId ctx None
                                       [(''documentId'', DText documentId), (''ocrJobId'', DText (j_id (rr_job result))),
                                        (''language'', DText language), (''forceReprocess'', DBool force)])
                                       (schedule q (rr_job result) (others e 6 w2)))
                               else (Inr result, w2))))))"

definition ocrStatus :: "run \<Rightarrow> database \<Rightarrow> uuid \<Rightarrow> uuid \<Rightarrow> RequestContext \<Rightarrow> World \<Rightarrow> OcrJob outcome" where
  "ocrStatus e db userId documentId ctx w =
     (case getOwnedDocument userId documentId ctx w of
        (Inl f, w1) \<Rightarrow> (Inl f, w1)
      | (Inr _, w1) \<Rightarrow>
          (let w2 = others e 0 w1
           in case latestForDocument db documentId userId w2 of
                None \<Rightarrow> (Inl ocrNotFound, w2)
              | Some job \<Rightarrow> (Inr job, w2)))"

definition ocrResults ::
  "run \<Rightarrow> database \<Rightarrow> uuid \<Rightarrow> uuid \<Rightarrow> OcrResultsQueryDto \<Rightarrow> RequestContext \<Rightarrow> World \<Rightarrow> OcrResults outcome" where
  "ocrResults e db userId documentId query ctx w =
     (case getOwnedDocument userId documentId ctx w of
        (Inl f, w1) \<Rightarrow> (Inl f, w1)
      | (Inr _, w1) \<Rightarrow>
          (let w2 = others e 0 w1
           in case (if truthy (oq_jobId query)
                    then findOwnedJob (the (oq_jobId query)) documentId userId w2
                    else latestForDocument db documentId userId w2) of
                None \<Rightarrow> (Inl ocrNotFound, w2)
              | Some job \<Rightarrow>
                  if j_status job = QUEUED \<or> j_status job = PROCESSING
                  then (Inl (ocrNotReady (statusText (j_status job))), w2)
                  else
                    (let w3 = others e 1 w2;
                         (items, total) = jobPages (j_id job)
                           \<lparr>pq_page = oq_page query, pq_limit = oq_limit query, pq_pageNumber = oq_pageNumber query\<rparr> w3
                     in (Inr \<lparr>rs_job = job, rs_pages = items, rs_page = oq_page query, rs_limit = oq_limit query,
                              rs_total = total, rs_totalPages = ceilDiv total (oq_limit query)\<rparr>, w3))))"

definition retryTx ::
  "run \<Rightarrow> database \<Rightarrow> OcrConfig \<Rightarrow> LanguageAvailability \<Rightarrow> uuid \<Rightarrow> uuid \<Rightarrow> World \<Rightarrow> OcrJob outcome" where
  "retryTx e db cfg av userId documentId w =
     (case latestForDocument db documentId userId w of
        None \<Rightarrow> (Inl ocrNotFound, w)
      | Some latest \<Rightarrow>
          if j_status latest \<notin> set RETRYABLE_STATUSES
          then (Inl (ocrRetryNotAllowed (''Only FAILED or PARTIAL jobs can be retried (latest job is ''
                  @ statusText (j_status latest) @ '')'')), w)
          else if (case j_errorCode latest of None \<Rightarrow> False | Some c \<Rightarrow> c \<noteq> [] \<and> c \<in> set PERMANENT_OCR_ERROR_CODES)
          then (Inl (ocrRetryNotAllowed (''The latest job failed with a permanent error (''
                  @ the (j_errorCode latest) @ ''); the document cannot be processed as-is'')), w)
          else
            (case resolve cfg av (Some (j_language latest)) of
               Inl f \<Rightarrow> (Inl f, w)
             | Inr _ \<Rightarrow>
                 createUnderQuota e cfg userId documentId (j_language latest) (others e 3 (others e 2 w))))"

definition retryOcr ::
  "run \<Rightarrow> database \<Rightarrow> OcrConfig \<Rightarrow> bullmq \<Rightarrow> LanguageAvailability \<Rightarrow> uuid \<Rightarrow> uuid \<Rightarrow> RequestContext
     \<Rightarrow> World \<Rightarrow> OcrJob outcome" where
  "retryOcr e db cfg q av userId documentId ctx w =
     (if \<not> oc_enabled cfg then (Inl ocrUnavailable, w)
      else
        (case getOwnedDocument userId documentId ctx w of
           (Inl f, w1) \<Rightarrow> (Inl f, w1)
         | (Inr document, w1) \<Rightarrow>
             (case assertProcessable cfg document of
                Some f \<Rightarrow> (Inl f, w1)
              | None \<Rightarrow>
                  (case retryTx e db cfg av userId documentId (others e 1 (others e 0 w1)) of
                     (Inl f, w2) \<Rightarrow> (Inl f, w2)
                   | (Inr job, w2) \<Rightarrow>
                       (Inr job,
                        recordEvent (folderEvent OCR_RETRY_REQUESTED userId ctx None
                          [(''documentId'', DText documentId), (''ocrJobId'', DText (j_id job)),
                           (''language'', DText (j_language job))])
                          (schedule q job (others e 6 w2)))))))"

section \<open>Shapes that leave the API\<close>

record OcrJobDto =
  jd_id :: uuid
  jd_documentId :: uuid
  jd_status :: OcrJobStatus
  jd_language :: jsstring
  jd_extractionMethod :: "OcrExtractionMethod option"
  jd_totalPages :: "nat option"
  jd_processedPages :: nat
  jd_failedPages :: nat
  jd_progress :: "rat option"
  jd_attemptCount :: nat
  jd_maxAttempts :: nat
  jd_errorCode :: "string option"
  jd_errorMessage :: "string option"
  jd_createdAt :: time
  jd_startedAt :: "time option"
  jd_completedAt :: "time option"
  jd_updatedAt :: time

text \<open>\<open>Math.round\<close>.\<close>

definition mathRound :: "rat \<Rightarrow> int" where
  "mathRound q = \<lfloor>q + 1 / 2\<rfloor>"

definition toOcrJobDto :: "OcrJob \<Rightarrow> OcrJobDto" where
  "toOcrJobDto job = \<lparr>jd_id = j_id job, jd_documentId = j_documentId job, jd_status = j_status job,
     jd_language = j_language job, jd_extractionMethod = j_extractionMethod job, jd_totalPages = j_totalPages job,
     jd_processedPages = j_processedPages job, jd_failedPages = j_failedPages job,
     jd_progress = (case j_totalPages job of
        None \<Rightarrow> None
      | Some n \<Rightarrow> if n > 0
          then Some (min 100 (of_int (mathRound (of_nat (j_processedPages job) / of_nat n * 1000)) / 10))
          else None),
     jd_attemptCount = j_attemptCount job, jd_maxAttempts = j_maxAttempts job, jd_errorCode = j_errorCode job,
     jd_errorMessage = j_errorMessage job, jd_createdAt = j_createdAt job, jd_startedAt = j_startedAt job,
     jd_completedAt = j_completedAt job, jd_updatedAt = j_updatedAt job\<rparr>"

record OcrPageDto =
  pd_pageNumber :: nat
  pd_status :: OcrPageStatus
  pd_method :: "OcrExtractionMethod option"
  pd_text :: "jsstring option"
  pd_confidence :: "rat option"
  pd_charCount :: nat
  pd_truncated :: bool
  pd_errorCode :: "string option"

definition toOcrPageDto :: "OcrPage \<Rightarrow> OcrPageDto" where
  "toOcrPageDto p = \<lparr>pd_pageNumber = p_pageNumber p, pd_status = p_status p, pd_method = p_method p,
     pd_text = p_text p, pd_confidence = p_confidence p, pd_charCount = p_charCount p,
     pd_truncated = p_truncated p, pd_errorCode = p_errorCode p\<rparr>"

section \<open>Facts on the queries\<close>

lemma set_sorted_rows: "set (orderBy le (findMany p t)) = {x \<in> set t. p x}"
  by (auto simp: findMany_def)

lemma firstBy_None: "firstBy le p t = None \<longleftrightarrow> (\<forall>x\<in>set t. \<not> p x)"
  using set_sorted_rows [of le p t]
  by (cases "orderBy le (findMany p t)") (auto simp: firstBy_def)

lemma firstBy_Some: "firstBy le p t = Some x \<Longrightarrow> x \<in> set t \<and> p x"
  using set_sorted_rows [of le p t]
  by (cases "orderBy le (findMany p t)") (auto simp: firstBy_def)

definition activeCount :: "uuid \<Rightarrow> World \<Rightarrow> nat" where
  "activeCount d w = countRows (\<lambda>j. j_documentId j = d \<and> isActive j) (ocrJobs w)"

lemma activeForDocument_None: "activeForDocument d w = None \<longleftrightarrow> activeCount d w = 0"
  by (auto simp: activeForDocument_def firstBy_None activeCount_def countRows_def filter_empty_conv)

lemma activeForDocument_Some:
  "activeForDocument d w = Some j \<Longrightarrow> j \<in> set (ocrJobs w) \<and> j_documentId j = d \<and> isActive j"
  unfolding activeForDocument_def by (drule firstBy_Some) simp

lemma latestForLanguage_Some:
  "latestForLanguage db d l w = Some j \<Longrightarrow> j \<in> set (ocrJobs w) \<and> j_documentId j = d \<and> j_language j = l"
  unfolding latestForLanguage_def by (drule firstBy_Some) simp

lemma latestForDocument_Some:
  "latestForDocument db d u w = Some j \<Longrightarrow> j \<in> set (ocrJobs w) \<and> j_documentId j = d \<and> j_userId j = u"
  unfolding latestForDocument_def by (drule firstBy_Some) simp

section \<open>What the lock on a document guarantees\<close>

text \<open>What no operation on jobs changes, and what it can only end: the activity of a job.\<close>

definition tag :: "OcrJob \<Rightarrow> uuid \<times> uuid \<times> uuid \<times> jsstring \<times> time" where
  "tag j = (j_id j, j_documentId j, j_userId j, j_language j, j_createdAt j)"

definition fades :: "World \<Rightarrow> World \<Rightarrow> bool" where
  "fades w w' \<longleftrightarrow> list_all2 (\<lambda>j j'. tag j' = tag j \<and> (isActive j' \<longrightarrow> isActive j)) (ocrJobs w) (ocrJobs w')"

lemma fades_same: "ocrJobs w' = ocrJobs w \<Longrightarrow> fades w w'"
  by (simp add: fades_def list_all2_same)

lemma fades_trans: "fades u v \<Longrightarrow> fades v w \<Longrightarrow> fades u w"
  unfolding fades_def by (rule list_all2_trans) auto

lemma perform_tags: "map tag (ocrJobs (perform op w)) = map tag (ocrJobs w)"
proof (cases op)
  case (PersistPage i x db)
  then show ?thesis
    by (cases "findJobById i w") (simp_all add: persistPage_def Let_def updateJobs_rows tag_def)
next
  case (Finalize i now)
  then show ?thesis by (simp add: finalize_unfold finalRow_def Let_def case_prod_unfold updateJobs_rows tag_def)
qed (simp_all add: claim_def heartbeat_def setTotalPages_def failJob_def requeue_def cancelJob_def recover_def Let_def
      case_prod_unfold updateJobs_rows tag_def)

lemma perform_fades: "fades w (perform op w)"
  unfolding fades_def list_all2_conv_all_nth
proof (intro conjI allI impI)
  note sim = perform_simulates [of w op, unfolded simulates_def list_all2_conv_all_nth]
  show len: "length (ocrJobs w) = length (ocrJobs (perform op w))" using sim by blast
  fix k assume k: "k < length (ocrJobs w)"
  show "tag (ocrJobs (perform op w) ! k) = tag (ocrJobs w ! k)"
    using arg_cong [OF perform_tags [of op w], of "\<lambda>ts. ts ! k"] k len by simp
  assume "isActive (ocrJobs (perform op w) ! k)"
  then show "isActive (ocrJobs w ! k)"
    using sim k life_end [of "j_status (ocrJobs w ! k)" "j_attemptCount (ocrJobs w ! k)"]
    unfolding status_cases isTerminal_def absJob_def by fastforce
qed

text \<open>The steps that others can take while a transaction holds the lock on the document \<open>d\<close>: whatever
  leaves the jobs alone, every operation on jobs, and the creation of a job for another document. Only
  the transactions that the lock keeps out create one for \<open>d\<close>.\<close>

inductive unlocked :: "uuid \<Rightarrow> World \<Rightarrow> World \<Rightarrow> bool" for d where
  elsewhere: "ocrJobs w' = ocrJobs w \<Longrightarrow> unlocked d w w'"
| operation: "unlocked d w (perform op w)"
| creation: "d' \<noteq> d \<Longrightarrow> unlocked d w (snd (createJob e cfg u d' l w))"
| sequence: "unlocked d u v \<Longrightarrow> unlocked d v w \<Longrightarrow> unlocked d u w"

definition lock_held :: "run \<Rightarrow> uuid \<Rightarrow> bool" where
  "lock_held e d \<longleftrightarrow> (\<forall>i\<in>{2, 3, 4, 5}. \<forall>v. unlocked d v (others e i v))"

lemma createJob_rows:
  "ocrJobs (snd (createJob e cfg u d l w)) = ocrJobs w
   \<or> (\<exists>r. ocrJobs (snd (createJob e cfg u d l w)) = ocrJobs w @ [r] \<and> j_documentId r = d)"
  by (auto simp: createJob_def Let_def createRow_def)

lemma fades_counts:
  assumes "fades w w'"
  shows "activeCount d w' \<le> activeCount d w" and "countForDocument d w' = countForDocument d w"
    and "countActiveForUser u w' \<le> countActiveForUser u w"
  using assms unfolding fades_def activeCount_def countForDocument_def countActiveForUser_def countRows_def
  by (induction rule: list_all2_induct) (auto simp: tag_def)

text \<open>So, while the lock is held, the document gets no active job and no further job.\<close>

lemma unlocked_counts: "unlocked d w w' \<Longrightarrow> activeCount d w' \<le> activeCount d w \<and> countForDocument d w' = countForDocument d w"
proof (induction rule: unlocked.induct)
  case (elsewhere w' w)
  then show ?case by (simp add: activeCount_def countForDocument_def)
next
  case (operation w op)
  then show ?case using fades_counts [OF perform_fades] by simp
next
  case (creation d' w e cfg u l)
  then show ?case
    using createJob_rows [of e cfg u d' l w] by (auto simp: activeCount_def countForDocument_def countRows_def)
qed simp

lemma lock_heldD:
  assumes "lock_held e d" and "i \<in> {2, 3, 4, 5}"
  shows "activeCount d (others e i v) \<le> activeCount d v" and "countForDocument d (others e i v) = countForDocument d v"
  using unlocked_counts assms unfolding lock_held_def by blast+

text \<open>Requests and retries for other documents are such steps, with all that happens while they wait.\<close>

lemma createUnderQuota_unlocked:
  assumes "d' \<noteq> d" and "\<And>i v. unlocked d v (others e i v)"
  shows "unlocked d w (snd (createUnderQuota e cfg u d' l w))"
proof -
  obtain f w1 where q: "assertQuota e 4 cfg u d' w = (f, w1)" by fastforce
  then have w1: "unlocked d w w1"
    using assms(2) unlocked.elsewhere [of w w] by (auto simp: assertQuota_def Let_def split: if_splits)
  then have "unlocked d w (snd (createJob e cfg u d' l (others e 5 w1)))"
    using unlocked.sequence [OF _ unlocked.sequence [OF assms(2) unlocked.creation [OF assms(1)]]] by blast
  then show ?thesis using q w1 by (simp add: createUnderQuota_def split: option.split)
qed

lemma transactions_unlocked:
  assumes "d' \<noteq> d" and "\<And>i v. unlocked d v (others e i v)"
  shows "unlocked d w (snd (requestTx e db cfg u d' l force w))" and "unlocked d w (snd (retryTx e db cfg av u d' w))"
proof -
  note c = createUnderQuota_unlocked [OF assms]
  have seq: "unlocked d w (snd (createUnderQuota e cfg u d' x (others e 3 (others e 2 w))))" for x
    using unlocked.sequence [OF assms(2) unlocked.sequence [OF assms(2) c]] .
  show "unlocked d w (snd (requestTx e db cfg u d' l force w))"
    using seq [of l] assms(2) unlocked.elsewhere [of w w] unfolding requestTx_def Let_def
    by (cases "createUnderQuota e cfg u d' l (others e 3 (others e 2 w))")
      (auto split: option.split sum.split)
  show "unlocked d w (snd (retryTx e db cfg av u d' w))"
    using seq unlocked.elsewhere [of w w] unfolding retryTx_def by (auto split: option.split sum.split)
qed

section \<open>The transactions\<close>

lemma createJob_cases:
  assumes "createJob e cfg u d l w = (res, w')"
  shows "(\<exists>f. res = Inl f \<and> w' = w) \<or> (\<exists>job. res = Inr job \<and> w' = w\<lparr>ocrJobs := ocrJobs w @ [job]\<rparr>
      \<and> j_status job = QUEUED \<and> j_documentId job = d \<and> j_userId job = u \<and> j_language job = l
      \<and> j_attemptCount job = 0 \<and> j_maxAttempts job = oc_maxAttempts cfg \<and> j_id job = freshId e 0
      \<and> findJobById (freshId e 0) w = None)"
  using assms by (auto simp: createJob_def Let_def createRow_def split: if_splits)

lemma activeCount_append:
  "activeCount d (w\<lparr>ocrJobs := ocrJobs w @ [job]\<rparr>) = activeCount d w + (if j_documentId job = d \<and> isActive job then 1 else 0)"
  by (simp add: activeCount_def countRows_def)

lemma countForDocument_append:
  "countForDocument d (w\<lparr>ocrJobs := ocrJobs w @ [job]\<rparr>) = countForDocument d w + (if j_documentId job = d then 1 else 0)"
  by (simp add: countForDocument_def countRows_def)

lemma countActiveForUser_append:
  "countActiveForUser u (w\<lparr>ocrJobs := ocrJobs w @ [job]\<rparr>) = countActiveForUser u w + (if j_userId job = u \<and> isActive job then 1 else 0)"
  by (simp add: countActiveForUser_def countRows_def)

text \<open>Nobody starts a job of the account between the check of the quota and the creation.\<close>

definition alone_in_account :: "run \<Rightarrow> uuid \<Rightarrow> bool" where
  "alone_in_account e u \<longleftrightarrow> (\<forall>i\<in>{4, 5}. \<forall>v. countActiveForUser u (others e i v) \<le> countActiveForUser u v)"

text \<open>A creation is refused when a quota is used up or the database refuses the row, and otherwise adds the
  one active job of the document.\<close>

definition refused_creation :: "OcrConfig \<Rightarrow> uuid \<Rightarrow> uuid \<Rightarrow> World \<Rightarrow> failure \<Rightarrow> bool" where
  "refused_creation cfg u d w f \<longleftrightarrow> f \<in> {P2002, Internal ''P2003''}
     \<or> (\<exists>m. f = ocrTooManyJobs m) \<and> (oc_maxActiveJobsPerUser cfg \<le> countActiveForUser u w
          \<or> oc_maxJobsPerDocument cfg \<le> countForDocument d w)"

definition new_job :: "run \<Rightarrow> OcrConfig \<Rightarrow> uuid \<Rightarrow> uuid \<Rightarrow> jsstring \<Rightarrow> World \<Rightarrow> OcrJob \<Rightarrow> World \<Rightarrow> bool" where
  "new_job e cfg u d l w job w' \<longleftrightarrow> activeCount d w' = 1 \<and> job \<in> set (ocrJobs w') \<and> j_status job = QUEUED
     \<and> j_documentId job = d \<and> j_userId job = u \<and> j_language job = l \<and> j_attemptCount job = 0
     \<and> j_maxAttempts job = oc_maxAttempts cfg
     \<and> countActiveForUser u w < oc_maxActiveJobsPerUser cfg \<and> countForDocument d w' \<le> oc_maxJobsPerDocument cfg
     \<and> (alone_in_account e u \<longrightarrow> countActiveForUser u w' \<le> oc_maxActiveJobsPerUser cfg)"

lemma assertQuota_cases:
  assumes "assertQuota e 4 cfg u d w = (q, w1)" and "lock_held e d"
  shows "activeCount d w1 \<le> activeCount d w \<and> countForDocument d w1 = countForDocument d w
    \<and> (case q of Some f \<Rightarrow> refused_creation cfg u d w f
       | None \<Rightarrow> countActiveForUser u w < oc_maxActiveJobsPerUser cfg \<and> countForDocument d w < oc_maxJobsPerDocument cfg
           \<and> w1 = others e 4 w)"
  using assms(1) lock_heldD [OF assms(2), of 4 w]
  by (auto simp: assertQuota_def Let_def refused_creation_def split: if_splits)

lemma createUnderQuota_cases:
  assumes "createUnderQuota e cfg u d l w = (res, w')" and "lock_held e d" and "activeCount d w = 0"
  shows "case res of Inl f \<Rightarrow> activeCount d w' = 0 \<and> refused_creation cfg u d w f | Inr job \<Rightarrow> new_job e cfg u d l w job w'"
proof -
  obtain q w1 where q: "assertQuota e 4 cfg u d w = (q, w1)" by fastforce
  note quota = assertQuota_cases [OF q assms(2)]
  show ?thesis
  proof (cases q)
    case (Some f)
    then show ?thesis using assms(1,3) q quota by (auto simp: createUnderQuota_def)
  next
    case None
    let ?v = "others e 5 w1"
    have counts: "activeCount d ?v = 0" "countForDocument d ?v < oc_maxJobsPerDocument cfg"
      "countActiveForUser u w < oc_maxActiveJobsPerUser cfg" "w1 = others e 4 w"
      using lock_heldD [OF assms(2), of 5 w1] quota assms(3) None by auto
    have user: "countActiveForUser u ?v \<le> countActiveForUser u w" if "alone_in_account e u"
      using that le_trans unfolding alone_in_account_def counts(4) by blast
    have "createJob e cfg u d l ?v = (res, w')" using assms(1) q None by (simp add: createUnderQuota_def)
    then consider f where "res = Inl f" "w' = ?v" "f \<in> {P2002, Internal ''P2003''}"
      | job where "res = Inr job" "w' = ?v\<lparr>ocrJobs := ocrJobs ?v @ [job]\<rparr>" "j_status job = QUEUED" "j_documentId job = d"
          "j_userId job = u" "j_language job = l" "j_attemptCount job = 0" "j_maxAttempts job = oc_maxAttempts cfg"
      using createJob_cases [of e cfg u d l ?v res w'] by (auto simp: createJob_def Let_def split: if_splits)
    then show ?thesis
    proof cases
      case 1
      then show ?thesis using counts(1) by (simp add: refused_creation_def)
    next
      case 2
      then show ?thesis using counts user
        by (auto simp: new_job_def activeCount_append countForDocument_append countActiveForUser_append statuses)
    qed
  qed
qed

section \<open>Languages\<close>

lemma lower_plain: "is_lower c \<Longrightarrow> \<not> is_js_space c \<and> c \<noteq> 43"
  by (auto simp: is_lower_def is_js_space_def word_le_nat_alt)

lemma LANGUAGE_CODE_chars: "LANGUAGE_CODE s \<Longrightarrow> c \<in> set s \<Longrightarrow> is_lower c \<or> c = 95"
proof -
  assume s: "LANGUAGE_CODE s" and c: "c \<in> set s"
  have "c \<in> set (take 3 s @ drop 3 s)" using c by (simp only: append_take_drop_id)
  then consider "c \<in> set (take 3 s)" | "c \<in> set (drop 3 s)" unfolding set_append by blast
  then show ?thesis
    by cases (use s in \<open>auto simp: LANGUAGE_CODE_def list_all_iff split: list.splits\<close>)
qed

lemma LANGUAGE_CODE_no_space: "LANGUAGE_CODE s \<Longrightarrow> c \<in> set s \<Longrightarrow> \<not> is_js_space c \<and> c \<noteq> 43"
proof -
  assume "LANGUAGE_CODE s" "c \<in> set s"
  then have "is_lower c \<or> c = 95" by (rule LANGUAGE_CODE_chars)
  moreover have "\<not> is_js_space 95" by (simp add: is_js_space_def word_le_nat_alt)
  ultimately show ?thesis using lower_plain [of c] by auto
qed

lemma LANGUAGE_CODE_plain: "LANGUAGE_CODE s \<Longrightarrow> s \<noteq> [] \<and> 43 \<notin> set s \<and> trim s = s"
proof -
  assume s: "LANGUAGE_CODE s"
  have plain: "\<not> is_js_space c \<and> c \<noteq> 43" if "c \<in> set s" for c
    using LANGUAGE_CODE_no_space [OF s that] .
  have "s \<noteq> []" using s by (auto simp: LANGUAGE_CODE_def)
  moreover from this have "trim s = s" using plain by (intro trim_fixed) auto
  ultimately show ?thesis using plain by blast
qed

lemma split_join:
  assumes "ws \<noteq> []" and "\<And>w. w \<in> set ws \<Longrightarrow> c \<notin> set w"
  shows "split_on c (join_with [c] ws) = ws"
  using assms
proof (induction "[c]" ws rule: join_with.induct)
  case (2 w)
  then show ?case by (simp add: split_on_absent)
next
  case (3 w v ws)
  then show ?case by (simp add: split_on_append)
qed simp

definition canonical :: "OcrConfig \<Rightarrow> LanguageAvailability \<Rightarrow> jsstring list \<Rightarrow> bool" where
  "canonical cfg av codes \<longleftrightarrow> codes \<noteq> [] \<and> distinct codes \<and> length codes \<le> oc_maxLanguagesPerJob cfg
     \<and> list_all LANGUAGE_CODE codes \<and> set codes \<subseteq> set (la_available av)"

lemma resolve_codes:
  assumes "resolve cfg av r = Inr l"
  shows "\<exists>codes. l = join_with [43] codes \<and> canonical cfg av codes"
proof -
  define t where "t = trim (case r of None \<Rightarrow> [] | Some x \<Rightarrow> x)"
  define codes where "codes = unique_in_order (map trim (split_on 43 (if t \<noteq> [] then t else oc_defaultLanguage cfg)))"
  have "l = join_with [43] codes \<and> length codes \<le> oc_maxLanguagesPerJob cfg
      \<and> \<not> list_ex (\<lambda>c. \<not> LANGUAGE_CODE c \<or> c \<notin> set (la_available av)) codes"
    using assms unfolding resolve_def Let_def t_def [symmetric] codes_def [symmetric]
    by (auto split: if_splits)
  moreover have "codes \<noteq> []" "distinct codes" by (simp_all add: codes_def)
  ultimately show ?thesis by (auto simp: canonical_def list_ex_iff list_all_iff)
qed

lemma join_codes_trim:
  assumes "codes \<noteq> []" and "list_all LANGUAGE_CODE codes"
  shows "trim (join_with [43] codes) = join_with [43] codes \<and> join_with [43] codes \<noteq> []"
proof -
  have plus: "\<not> is_js_space 43" by (simp add: is_js_space_def word_le_nat_alt)
  have chars: "\<not> is_js_space c" if "c \<in> set (join_with [43] codes)" for c
  proof -
    from that set_join_with [of "[43]" codes] have "c = 43 \<or> (\<exists>w\<in>set codes. c \<in> set w)" by auto
    then show ?thesis using assms(2) plus LANGUAGE_CODE_no_space by (auto simp: list_all_iff)
  qed
  have "join_with [43] codes \<noteq> []"
    using assms LANGUAGE_CODE_plain by (cases codes rule: list.exhaust; cases "tl codes") (auto simp: list_all_iff)
  moreover from this have "trim (join_with [43] codes) = join_with [43] codes"
    using chars by (intro trim_fixed) auto
  ultimately show ?thesis by blast
qed

lemma resolve_canonical_fixed:
  assumes "canonical cfg av codes"
  shows "resolve cfg av (Some (join_with [43] codes)) = Inr (join_with [43] codes)"
proof -
  have ok: "list_all LANGUAGE_CODE codes" "codes \<noteq> []" "distinct codes" using assms by (auto simp: canonical_def)
  note t = join_codes_trim [OF ok(2,1)]
  have "split_on 43 (join_with [43] codes) = codes"
    using ok LANGUAGE_CODE_plain by (intro split_join) (auto simp: list_all_iff)
  moreover have "map trim codes = codes" using ok(1) LANGUAGE_CODE_plain by (intro map_idI) (auto simp: list_all_iff)
  moreover have "unique_in_order codes = codes" by (rule unique_in_order_distinct [OF ok(3)])
  moreover have "la_available av \<noteq> []" "length codes \<le> oc_maxLanguagesPerJob cfg"
    "\<not> list_ex (\<lambda>c. \<not> LANGUAGE_CODE c \<or> c \<notin> set (la_available av)) codes"
    using assms by (auto simp: canonical_def list_ex_iff list_all_iff)
  ultimately show ?thesis using t ok(2) by (simp add: resolve_def Let_def)
qed

section \<open>Concrete instances\<close>

text \<open>The queue as a list of entries in the state, and one that cannot be reached.\<close>

definition plainQueue :: bullmq where
  "plainQueue = \<lparr>addEntry = (\<lambda>i w. Inr (if list_ex (\<lambda>x. fst x = i) (queueEntries w) then w
        else w\<lparr>queueEntries := queueEntries w @ [(i, Waiting)]\<rparr>)),
     entryState = (\<lambda>i w. Inr (map_option snd (findFirst (\<lambda>x. fst x = i) (queueEntries w)))),
     dropEntry = (\<lambda>i w. Inr (w\<lparr>queueEntries := filter (\<lambda>x. fst x \<noteq> i) (queueEntries w)\<rparr>))\<rparr>"

lemma findFirst_filter_key:
  "findFirst (\<lambda>x. key x = k) (filter (\<lambda>x. key x \<noteq> i) t) = (if k = i then None else findFirst (\<lambda>x. key x = k) t)"
  by (induction t) (auto simp: findFirst_def)

lemma plainQueue_ok: "bull_ok plainQueue"
proof -
  have 1: "findFirst (\<lambda>x. fst x = k) (queueEntries w @ [(i, Waiting)]) =
      (if k = i then Some (i, Waiting) else findFirst (\<lambda>x. fst x = k) (queueEntries w))"
    if "\<not> list_ex (\<lambda>x. fst x = i) (queueEntries w)" for k i w
  proof -
    have "findFirst (\<lambda>x. fst x = i) (queueEntries w) = None"
      using that by (auto simp: tbl.find_none list_ex_iff)
    moreover have "findFirst (\<lambda>x. fst x = k) [(i, Waiting)] = (if k = i then Some (i, Waiting) else None)"
      by (auto simp: findFirst_def)
    ultimately show ?thesis by (auto simp: findFirst_append split: option.splits)
  qed
  have 2: "findFirst (\<lambda>x. fst x = i) (queueEntries w) = None \<longleftrightarrow> \<not> list_ex (\<lambda>x. fst x = i) (queueEntries w)" for i w
    by (auto simp: tbl.find_none list_ex_iff)
  have "\<exists>entries. w = w\<lparr>queueEntries := entries\<rparr>" for w :: World by (rule exI [of _ "queueEntries w"]) simp
  then show ?thesis
    unfolding bull_ok_def plainQueue_def by (auto simp: findFirst_filter_key 1 2)
qed

definition demoDb :: database where
  "demoDb = \<lparr>byText = (\<lambda>a b. map unat a = map unat b), byId = (\<lambda>a b. length a \<le> length b),
     containsInsensitive = (\<lambda>a b. a = b)\<rparr>"

definition demoLanguages :: LanguageAvailability where
  "demoLanguages = \<lparr>la_available = [js ''ind'', js ''eng''], la_missing = [], la_defaultAvailable = True,
     la_defaultLanguage = js ''eng'', la_checkedAt = 0\<rparr>"

lemma demoRun_locked: "lock_held demoRun d"
  by (simp add: lock_held_def demoRun_def unlocked.elsewhere)

section \<open>Properties\<close>

text \<open>C38. The policy for duplicate requests. Under the lock on the document, a request never adds a
  second active job: it returns the active job when the languages agree and refuses when they do not;
  it returns the newest finished job of the language unless told to process again; and only when no
  job of the document is active does it create one, in the queue with no attempt made, which is then
  the only active one. It creates one only under the quotas: the account had fewer active jobs than
  its limit when the quota was checked, and keeps to the limit when nobody else starts a job of the
  account meanwhile; the document stays within its number of jobs. A request that ends without a job
  met a used-up quota, or the row could not be stored.\<close>

theorem request_policy:
  assumes "lock_held e documentId" and "requestTx e db cfg userId documentId language force w = (res, w')"
  shows "activeCount documentId w' \<le> max 1 (activeCount documentId w)
    \<and> (activeCount documentId w > 0 \<longrightarrow> w' = w)
    \<and> (case res of
         Inl f \<Rightarrow>
           if activeCount documentId w > 0
           then f = ocrAlreadyProcessing \<and> (\<exists>a\<in>set (ocrJobs w). j_documentId a = documentId \<and> isActive a \<and> j_language a \<noteq> language)
           else activeCount documentId w' = 0
             \<and> refused_creation cfg userId documentId (others e 3 (others e 2 w)) f
       | Inr r \<Rightarrow> j_documentId (rr_job r) = documentId \<and> j_language (rr_job r) = language
           \<and> (case rr_outcome r of
                ActiveJob \<Rightarrow> isActive (rr_job r) \<and> rr_job r \<in> set (ocrJobs w)
              | Existing \<Rightarrow> \<not> force \<and> j_status (rr_job r) \<in> {COMPLETED, PARTIAL} \<and> activeCount documentId w' = 0
              | Created \<Rightarrow> activeCount documentId w' = 1 \<and> rr_job r \<in> set (ocrJobs w') \<and> j_status (rr_job r) = QUEUED
                  \<and> j_userId (rr_job r) = userId \<and> j_attemptCount (rr_job r) = 0
                  \<and> j_maxAttempts (rr_job r) = oc_maxAttempts cfg
                  \<and> countActiveForUser userId (others e 3 (others e 2 w)) < oc_maxActiveJobsPerUser cfg
                  \<and> (alone_in_account e userId \<longrightarrow> countActiveForUser userId w' \<le> oc_maxActiveJobsPerUser cfg)
                  \<and> countForDocument documentId w' \<le> oc_maxJobsPerDocument cfg))"
proof (cases "activeForDocument documentId w")
  case (Some active)
  then have "activeCount documentId w \<noteq> 0" using activeForDocument_None [of documentId w] by simp
  then show ?thesis
    using assms(2) Some activeForDocument_Some [OF Some] by (auto simp: requestTx_def split: if_splits)
next
  case None
  then have zero: "activeCount documentId w = 0" by (simp add: activeForDocument_None)
  let ?w1 = "others e 2 w"
  let ?latest = "if force then None else latestForLanguage db documentId language ?w1"
  have z1: "activeCount documentId ?w1 = 0" using lock_heldD(1) [OF assms(1), of 2 w] zero by simp
  have z2: "activeCount documentId (others e 3 ?w1) = 0" using lock_heldD(1) [OF assms(1), of 3 ?w1] z1 by simp
  show ?thesis
  proof (cases "\<exists>l. ?latest = Some l \<and> (j_status l = COMPLETED \<or> j_status l = PARTIAL)")
    case True
    then obtain l where l: "?latest = Some l" "j_status l = COMPLETED \<or> j_status l = PARTIAL" by blast
    then have "\<not> force" "latestForLanguage db documentId language ?w1 = Some l" by (auto split: if_splits)
    then show ?thesis
      using assms(2) None l z1 zero latestForLanguage_Some [of db documentId language ?w1 l]
      by (auto simp: requestTx_def Let_def)
  next
    case False
    obtain res' w2 where c: "createUnderQuota e cfg userId documentId language (others e 3 ?w1) = (res', w2)" by fastforce
    have r: "requestTx e db cfg userId documentId language force w =
        (case res' of Inl f \<Rightarrow> (Inl f, w2) | Inr job \<Rightarrow> (Inr \<lparr>rr_job = job, rr_outcome = Created\<rparr>, w2))"
      using None False c unfolding requestTx_def Let_def by (auto split: option.splits sum.splits)
    show ?thesis
      using createUnderQuota_cases [OF c assms(1) z2] assms(2) zero unfolding r by (cases res') (auto simp: new_job_def)
  qed
qed

theorem request_policy_witness:
  "activeCount [3] (snd (requestTx demoRun demoDb demoConfig [7] [3] (js ''eng'') False demoBench)) \<le> 1"
proof -
  have "activeCount [3] demoBench = 1" by (simp add: activeCount_def countRows_def demoJob_def statuses)
  then show ?thesis
    using request_policy [OF demoRun_locked prod.collapse [symmetric], of "[3]" demoDb demoConfig "[7]" "js ''eng''" False demoBench]
    by simp
qed

text \<open>A resolved language is canonical: distinct codes of the right form, all installed and
  configured, at most as many as allowed, joined by plus signs. Resolving it again, as a retry does,
  gives the same text, and nothing else is ever accepted.\<close>

theorem resolve_canonical:
  "(\<forall>l. resolve cfg av requested = Inr l \<longrightarrow>
      (\<exists>codes. l = join_with [43] codes \<and> canonical cfg av codes) \<and> resolve cfg av (Some l) = Inr l)
   \<and> (\<forall>codes. canonical cfg av codes \<longrightarrow> resolve cfg av (Some (join_with [43] codes)) = Inr (join_with [43] codes))
   \<and> (\<forall>f. resolve cfg av requested = Inl f \<longrightarrow>
      f = (if la_available av = [] then ocrUnavailable else ocrUnsupportedLanguage (map languageText (la_available av))))"
proof (intro conjI allI impI)
  fix l assume l: "resolve cfg av requested = Inr l"
  then show codes: "\<exists>codes. l = join_with [43] codes \<and> canonical cfg av codes" by (rule resolve_codes)
  then show "resolve cfg av (Some l) = Inr l" using resolve_canonical_fixed by blast
next
  fix codes assume "canonical cfg av codes"
  then show "resolve cfg av (Some (join_with [43] codes)) = Inr (join_with [43] codes)"
    by (rule resolve_canonical_fixed)
next
  fix f assume "resolve cfg av requested = Inl f"
  then show "f = (if la_available av = [] then ocrUnavailable else ocrUnsupportedLanguage (map languageText (la_available av)))"
    by (auto simp: resolve_def Let_def split: if_splits)
qed

theorem resolve_canonical_witness:
  "resolve demoConfig demoLanguages (Some (join_with [43] [js ''eng'', js ''ind''])) = Inr (join_with [43] [js ''eng'', js ''ind''])"
proof -
  have "LANGUAGE_CODE (js ''eng'') \<and> LANGUAGE_CODE (js ''ind'') \<and> js ''eng'' \<noteq> js ''ind''" by code_simp
  then have "canonical demoConfig demoLanguages [js ''eng'', js ''ind'']"
    by (simp add: canonical_def demoConfig_def demoLanguages_def)
  then show ?thesis using resolve_canonical [of demoConfig demoLanguages None] by blast
qed

text \<open>A document of somebody else, or a deleted one, gives the same answer as a missing one from
  every use case of recognition, and no job, page or queue entry changes: a job id alone never
  grants access.\<close>

theorem ocr_foreign_is_missing:
  assumes "\<forall>d\<in>set (documents w). d_id d = documentId \<longrightarrow> d_userId d \<noteq> userId \<or> d_deletedAt d \<noteq> None"
    and "oc_enabled cfg"
  shows "fst (ocrStatus e db userId documentId ctx w) = Inl documentNotFound
    \<and> fst (ocrResults e db userId documentId query ctx w) = Inl documentNotFound
    \<and> fst (requestOcr e db cfg q av userId documentId dto ctx w) = Inl documentNotFound
    \<and> fst (retryOcr e db cfg q av userId documentId ctx w) = Inl documentNotFound
    \<and> (\<forall>w'\<in>{snd (ocrStatus e db userId documentId ctx w), snd (ocrResults e db userId documentId query ctx w),
              snd (requestOcr e db cfg q av userId documentId dto ctx w), snd (retryOcr e db cfg q av userId documentId ctx w)}.
         ocrJobs w' = ocrJobs w \<and> ocrPages w' = ocrPages w \<and> queueEntries w' = queueEntries w)"
proof (cases rule: own.get_cases [of userId documentId ctx w])
  case (found d)
  then show ?thesis using assms(1) by blast
next
  case (missing evs)
  then show ?thesis
    using assms(2) by (simp add: ocrStatus_def ocrResults_def requestOcr_def retryOcr_def)
qed

theorem ocr_foreign_is_missing_witness:
  "fst (ocrResults demoRun demoDb [8] [3] \<lparr>oq_page = 1, oq_limit = 10, oq_pageNumber = None, oq_jobId = Some [5]\<rparr> demoCtx demoBench)
     = Inl documentNotFound"
proof -
  have "\<forall>d\<in>set (documents demoBench). d_id d = [3] \<longrightarrow> d_userId d \<noteq> [8] \<or> d_deletedAt d \<noteq> None"
    by (simp add: demoBench_def demoShelf_def demoDocument_def)
  moreover have "oc_enabled demoConfig" by (simp add: demoConfig_def)
  ultimately show ?thesis
    using ocr_foreign_is_missing [of demoBench "[3]" "[8]" demoConfig demoRun demoDb demoCtx
        "\<lparr>oq_page = 1, oq_limit = 10, oq_pageNumber = None, oq_jobId = Some [5]\<rparr>" plainQueue demoLanguages
        "\<lparr>rq_language = None, rq_forceReprocess = None\<rparr>"] by blast
qed

text \<open>Results are returned only to the owner of a live document, for a finished job of that document
  and that owner; the pages returned are pages of that job in ascending order, at most as many as
  asked for. A job in the queue or in processing answers not ready.\<close>

theorem ocrResults_scope:
  assumes "ocrResults e db userId documentId query ctx w = (Inr r, w')"
  shows "(\<exists>d\<in>set (documents w). d_id d = documentId \<and> d_userId d = userId \<and> d_deletedAt d = None)
    \<and> isTerminal (rs_job r) \<and> j_documentId (rs_job r) = documentId \<and> j_userId (rs_job r) = userId
    \<and> (truthy (oq_jobId query) \<longrightarrow> j_id (rs_job r) = the (oq_jobId query))
    \<and> (\<forall>p\<in>set (rs_pages r). p_ocrJobId p = j_id (rs_job r) \<and> p \<in> set (ocrPages w'))
    \<and> sorted_wrt (\<lambda>a b. p_pageNumber a \<le> p_pageNumber b) (rs_pages r)
    \<and> length (rs_pages r) \<le> oq_limit query
    \<and> rs_total r = countRows (pageWhere (j_id (rs_job r)) \<lparr>pq_page = oq_page query, pq_limit = oq_limit query,
         pq_pageNumber = oq_pageNumber query\<rparr>) (ocrPages w')"
proof (cases rule: own.get_cases [of userId documentId ctx w])
  case (found d)
  let ?w2 = "others e 0 w"
  let ?pick = "if truthy (oq_jobId query) then findOwnedJob (the (oq_jobId query)) documentId userId ?w2
      else latestForDocument db documentId userId ?w2"
  let ?q = "\<lparr>pq_page = oq_page query, pq_limit = oq_limit query, pq_pageNumber = oq_pageNumber query\<rparr>"
  obtain job where job: "?pick = Some job" "\<not> (j_status job = QUEUED \<or> j_status job = PROCESSING)"
      "w' = others e 1 ?w2"
      "r = \<lparr>rs_job = job, rs_pages = fst (jobPages (j_id job) ?q w'), rs_page = oq_page query, rs_limit = oq_limit query,
            rs_total = snd (jobPages (j_id job) ?q w'), rs_totalPages = ceilDiv (snd (jobPages (j_id job) ?q w')) (oq_limit query)\<rparr>"
    using assms found(1) by (auto simp: ocrResults_def Let_def case_prod_unfold split: option.splits if_splits)
  have own: "j_documentId job = documentId \<and> j_userId job = userId \<and> (truthy (oq_jobId query) \<longrightarrow> j_id job = the (oq_jobId query))"
    using job(1) by (auto simp: findOwnedJob_def split: if_splits dest!: findFirst_SomeD latestForDocument_Some)
  have fin: "isTerminal job" using job(2) by (cases "j_status job") (auto simp: statuses)
  let ?le = "\<lambda>a b :: OcrPage. p_pageNumber a \<le> p_pageNumber b"
  let ?rows = "orderBy ?le (findMany (pageWhere (j_id job) ?q) (ocrPages w'))"
  have pages: "fst (jobPages (j_id job) ?q w') = pageOf (oq_page query) (oq_limit query) ?rows"
    by (simp add: jobPages_def)
  have sub: "set (pageOf (oq_page query) (oq_limit query) ?rows) \<subseteq> set ?rows" by (rule set_pageOf)
  have sorted: "sorted_wrt ?le ?rows" by (rule sorted_orderBy) auto
  then have "sorted_wrt ?le (pageOf (oq_page query) (oq_limit query) ?rows)"
    unfolding pageOf_def by (intro sorted_wrt_take sorted_wrt_drop)
  then show ?thesis
    using own fin found job(4) pages sub length_pageOf [of "oq_page query" "oq_limit query" ?rows]
    by (auto simp: jobPages_def findMany_def pageWhere_def)
next
  case (missing evs)
  then show ?thesis using assms by (simp add: ocrResults_def)
qed

theorem ocrResults_scope_witness:
  "isTerminal (rs_job (case fst (ocrResults demoRun demoDb [7] [3]
       \<lparr>oq_page = 1, oq_limit = 10, oq_pageNumber = None, oq_jobId = None\<rparr> demoCtx
       (demoBench\<lparr>ocrJobs := [demoJob\<lparr>j_status := CANCELLED\<rparr>]\<rparr>)) of Inr r \<Rightarrow> r))"
proof -
  let ?w = "demoBench\<lparr>ocrJobs := [demoJob\<lparr>j_status := CANCELLED\<rparr>]\<rparr>"
  let ?q = "\<lparr>oq_page = 1, oq_limit = 10, oq_pageNumber = None, oq_jobId = None\<rparr>"
  have "getOwnedDocument [7] [3] demoCtx ?w = (Inr demoDocument, ?w)"
    by (simp add: getOwnedDocument_def ownLive_def findFirst_def demoBench_def demoShelf_def demoDocument_def)
  moreover have "latestForDocument demoDb [3] [7] ?w = Some (demoJob\<lparr>j_status := CANCELLED\<rparr>)"
    by (simp add: latestForDocument_def firstBy_def findMany_def orderBy_def demoJob_def)
  ultimately obtain r where r: "ocrResults demoRun demoDb [7] [3] ?q demoCtx ?w = (Inr r, ?w)"
    by (simp add: ocrResults_def demoRun_def truthy_def case_prod_unfold Let_def)
  then show ?thesis using ocrResults_scope [OF r] by simp
qed

text \<open>A retry succeeds only for the newest job of the document and its owner, when that job failed
  or is partial with an error that a retry can cure; it creates a new job in the queue with the same
  language and a full budget of attempts. A job that is active, completed or cancelled, and a
  permanent error, are refused.\<close>

theorem retry_outcome:
  assumes "retryTx e db cfg av userId documentId w = (res, w')"
  shows "(case res of
      Inr job \<Rightarrow> (\<exists>latest. latestForDocument db documentId userId w = Some latest \<and> j_status latest \<in> {FAILED, PARTIAL}
          \<and> (\<forall>c. j_errorCode latest = Some c \<longrightarrow> c \<notin> set PERMANENT_OCR_ERROR_CODES)
          \<and> j_language job = j_language latest)
        \<and> j_documentId job = documentId \<and> j_userId job = userId \<and> j_status job = QUEUED \<and> j_attemptCount job = 0
        \<and> j_maxAttempts job = oc_maxAttempts cfg \<and> job \<in> set (ocrJobs w')
    | Inl f \<Rightarrow> (latestForDocument db documentId userId w = None \<longrightarrow> f = ocrNotFound)
        \<and> (\<forall>latest. latestForDocument db documentId userId w = Some latest \<and> j_status latest \<notin> {FAILED, PARTIAL}
             \<longrightarrow> ex_code (case f of App x \<Rightarrow> x) = ''OCR_RETRY_NOT_ALLOWED''))"
proof (cases "latestForDocument db documentId userId w")
  case None
  then show ?thesis using assms by (auto simp: retryTx_def)
next
  case (Some latest)
  show ?thesis
  proof (cases "j_status latest \<in> {FAILED, PARTIAL}")
    case False
    then show ?thesis
      using assms Some by (auto simp: retryTx_def RETRYABLE_STATUSES_def ocrRetryNotAllowed_def)
  next
    case True
    show ?thesis
    proof (cases res)
      case (Inl f)
      then show ?thesis using Some True by auto
    next
      case (Inr job)
      have code: "\<forall>c. j_errorCode latest = Some c \<longrightarrow> c \<notin> set PERMANENT_OCR_ERROR_CODES"
        using assms Some True Inr
        by (auto simp: retryTx_def RETRYABLE_STATUSES_def PERMANENT_OCR_ERROR_CODES_def split: if_splits option.splits)
      have "createUnderQuota e cfg userId documentId (j_language latest) (others e 3 (others e 2 w)) = (Inr job, w')"
        using assms Some Inr by (auto simp: retryTx_def split: if_splits option.splits sum.splits)
      then obtain v where "createJob e cfg userId documentId (j_language latest) v = (Inr job, w')"
        by (auto simp: createUnderQuota_def split: prod.splits option.splits)
      then show ?thesis
        using createJob_cases [of e cfg userId documentId "j_language latest" v "Inr job" w'] Some True code Inr by auto
    qed
  qed
qed

theorem retry_outcome_witness:
  "ex_code (case fst (retryTx demoRun demoDb demoConfig demoLanguages [7] [3] demoBench) of Inl f \<Rightarrow> case f of App x \<Rightarrow> x)
     = ''OCR_RETRY_NOT_ALLOWED''"
proof -
  have l: "latestForDocument demoDb [3] [7] demoBench = Some demoJob"
    by (simp add: latestForDocument_def firstBy_def findMany_def orderBy_def demoJob_def)
  then obtain f where f: "retryTx demoRun demoDb demoConfig demoLanguages [7] [3] demoBench = (Inl f, demoBench)"
    by (simp add: retryTx_def RETRYABLE_STATUSES_def)
  then show ?thesis using retry_outcome [OF f] l by simp
qed

end
