(* ===== verification/Settings.thy ===== *)
theory Settings
  imports Auth Ocr_Service
begin

text \<open>
  The settings: \<open>config/configuration.ts\<close> reads them from the environment, \<open>config/env.validation.ts\<close>
  decides at start-up whether the environment is acceptable. The environment is a map from names to
  texts. The loaders read the texts as they are, with \<open>parseInt\<close>, and not the values the validation
  converted. Conversions of the validation library are the parameter \<open>joi\<close>.
\<close>

section \<open>Reading numbers and lists\<close>

type_synonym env = "string \<Rightarrow> jsstring option"

definition digitsValue :: "jsstring \<Rightarrow> nat" where
  "digitsValue ds = foldl (\<lambda>n c. 10 * n + (unat c - 48)) 0 ds"

text \<open>\<open>Number.parseInt(text, 10)\<close>; \<open>None\<close> is \<open>NaN\<close>.\<close>

definition parseInt10 :: "jsstring \<Rightarrow> int option" where
  "parseInt10 text =
     (let t = dropWhile is_js_space text;
          negative = (case t of c # _ \<Rightarrow> c = 45 | [] \<Rightarrow> False);
          r = (case t of c # cs \<Rightarrow> if c = 45 \<or> c = 43 then cs else t | [] \<Rightarrow> []);
          ds = takeWhile is_digit r
      in if ds = [] then None
         else Some (if negative then - int (digitsValue ds) else int (digitsValue ds)))"

definition toInt :: "jsstring option \<Rightarrow> int \<Rightarrow> int" where
  "toInt value fallback =
     (case parseInt10 (case value of Some v \<Rightarrow> v | None \<Rightarrow> []) of None \<Rightarrow> fallback | Some n \<Rightarrow> n)"

text \<open>\<open>Number.parseFloat\<close> on decimal literals with an optional exponent; the literal \<open>Infinity\<close>, which
  the validation refuses, is left out.\<close>

definition fractionValue :: "jsstring \<Rightarrow> rat" where
  "fractionValue ds = of_nat (digitsValue ds) / 10 ^ length ds"

definition exponentOf :: "jsstring \<Rightarrow> int" where
  "exponentOf s =
     (case s of
        c # cs \<Rightarrow>
          if c = 101 \<or> c = 69
          then (let neg = (case cs of d # _ \<Rightarrow> d = 45 | [] \<Rightarrow> False);
                    r = (case cs of d # ds \<Rightarrow> if d = 45 \<or> d = 43 then ds else cs | [] \<Rightarrow> []);
                    e = int (digitsValue (takeWhile is_digit r))
                in if neg then - e else e)
          else 0
      | [] \<Rightarrow> 0)"

definition scale10 :: "rat \<Rightarrow> int \<Rightarrow> rat" where
  "scale10 q e = (if 0 \<le> e then q * 10 ^ nat e else q / 10 ^ nat (- e))"

definition parseFloat :: "jsstring \<Rightarrow> rat option" where
  "parseFloat text =
     (let t = dropWhile is_js_space text;
          negative = (case t of c # _ \<Rightarrow> c = 45 | [] \<Rightarrow> False);
          r = (case t of c # cs \<Rightarrow> if c = 45 \<or> c = 43 then cs else t | [] \<Rightarrow> []);
          whole = takeWhile is_digit r;
          r1 = dropWhile is_digit r;
          dot = (case r1 of c # _ \<Rightarrow> c = 46 | [] \<Rightarrow> False);
          frac = (if dot then takeWhile is_digit (tl r1) else []);
          r2 = (if dot then dropWhile is_digit (tl r1) else r1);
          q = scale10 (of_nat (digitsValue whole) + fractionValue frac) (exponentOf r2)
      in if whole = [] \<and> frac = [] then None else Some (if negative then - q else q))"

definition toFloat :: "jsstring option \<Rightarrow> rat \<Rightarrow> rat" where
  "toFloat value fallback =
     (case parseFloat (case value of Some v \<Rightarrow> v | None \<Rightarrow> []) of None \<Rightarrow> fallback | Some q \<Rightarrow> q)"

definition toBool :: "unicode \<Rightarrow> jsstring option \<Rightarrow> bool \<Rightarrow> bool" where
  "toBool U value fallback =
     (case value of
        None \<Rightarrow> fallback
      | Some v \<Rightarrow> if v = [] then fallback
          else toLowerCase U v \<in> set [js ''1'', js ''true'', js ''yes'', js ''on''])"

definition envEmptyToNull :: "jsstring option \<Rightarrow> jsstring option" where
  "envEmptyToNull value =
     (case value of None \<Rightarrow> None | Some v \<Rightarrow> if trim v = [] then None else Some (trim v))"

definition parseCodeList :: "unicode \<Rightarrow> jsstring option \<Rightarrow> jsstring list \<Rightarrow> jsstring list" where
  "parseCodeList U value fallback =
     (let parsed = filter (\<lambda>c. c \<noteq> [])
            (map (\<lambda>code. toLowerCase U (trim code)) (split_on 44 (case value of Some v \<Rightarrow> v | None \<Rightarrow> [])))
      in if length parsed > 0 then unique_in_order parsed else fallback)"

definition DEFAULT_ALLOWED_MIME_TYPES :: "jsstring list" where
  "DEFAULT_ALLOWED_MIME_TYPES = map js [''application/pdf'', ''image/jpeg'', ''image/png'', ''image/webp'']"

definition parseMimeList :: "unicode \<Rightarrow> jsstring option \<Rightarrow> jsstring list" where
  "parseMimeList U value =
     (let parsed = filter (\<lambda>c. c \<noteq> [])
            (map (\<lambda>ty. toLowerCase U (trim ty)) (split_on 44 (case value of Some v \<Rightarrow> v | None \<Rightarrow> [])))
      in if length parsed > 0 then unique_in_order parsed else DEFAULT_ALLOWED_MIME_TYPES)"

text \<open>\<open>value?.trim() || fallback\<close>.\<close>

definition trimmedOr :: "jsstring option \<Rightarrow> jsstring \<Rightarrow> jsstring" where
  "trimmedOr value fallback =
     (case value of None \<Rightarrow> fallback | Some v \<Rightarrow> if trim v = [] then fallback else trim v)"

section \<open>Durations\<close>

definition DURATION_UNITS :: "jschar \<Rightarrow> nat option" where
  "DURATION_UNITS c = map_of [(115, 1), (109, 60), (104, 3600), (100, 86400)] (ascii_lower c)"

definition invalidDuration :: "jsstring \<Rightarrow> jsstring" where
  "invalidDuration value = js ''Invalid duration \"'' @ value @ js ''\". Use a number of seconds or <n>[s|m|h|d].''"

text \<open>The pattern \<open>^\s*(\d+)\s*([smhd])?\s*$\<close>, without regard to case.\<close>

definition parseDurationSeconds :: "jsstring \<Rightarrow> jsstring + nat" where
  "parseDurationSeconds value =
     (let t = dropWhile is_js_space value;
          ds = takeWhile is_digit t;
          r = dropWhile is_js_space (dropWhile is_digit t)
      in if ds = [] then Inl (invalidDuration value)
         else (case r of
                 [] \<Rightarrow> Inr (digitsValue ds)
               | c # r' \<Rightarrow>
                   (case DURATION_UNITS c of
                      Some u \<Rightarrow> if list_all is_js_space r' then Inr (digitsValue ds * u) else Inl (invalidDuration value)
                    | None \<Rightarrow> Inl (invalidDuration value))))"

section \<open>Loaders\<close>

text \<open>Counters are natural numbers in the settings of recognition; \<open>nat\<close> changes no value that the
  validation accepts.\<close>

definition rule :: "env \<Rightarrow> string \<Rightarrow> int \<Rightarrow> string \<Rightarrow> int \<Rightarrow> RateLimitRule" where
  "rule env k1 d1 k2 d2 = \<lparr>rl_limit = nat (toInt (env k1) d1), rl_windowSeconds = nat (toInt (env k2) d2)\<rparr>"

record AuthSettings = AuthConfig +
  rate_login :: RateLimitRule
  rate_register :: RateLimitRule
  rate_refresh :: RateLimitRule

definition loadAuthConfig :: "env \<Rightarrow> jsstring + AuthSettings" where
  "loadAuthConfig env =
     (case parseDurationSeconds (case env ''JWT_ACCESS_EXPIRES_IN'' of Some v \<Rightarrow> v | None \<Rightarrow> js ''15m'') of
        Inl e \<Rightarrow> Inl e
      | Inr a \<Rightarrow>
          (case parseDurationSeconds (case env ''JWT_REFRESH_EXPIRES_IN'' of Some v \<Rightarrow> v | None \<Rightarrow> js ''30d'') of
             Inl e \<Rightarrow> Inl e
           | Inr r \<Rightarrow> Inr
               \<lparr>accessSecret = (case env ''JWT_ACCESS_SECRET'' of Some v \<Rightarrow> v | None \<Rightarrow> []),
                refreshSecret = (case env ''JWT_REFRESH_SECRET'' of Some v \<Rightarrow> v | None \<Rightarrow> []),
                accessTtlSeconds = int a, refreshTtlSeconds = int r,
                rate_login = rule env ''AUTH_LOGIN_RATE_LIMIT'' 10 ''AUTH_LOGIN_RATE_WINDOW'' 60,
                rate_register = rule env ''AUTH_REGISTER_RATE_LIMIT'' 5 ''AUTH_REGISTER_RATE_WINDOW'' 60,
                rate_refresh = rule env ''AUTH_REFRESH_RATE_LIMIT'' 20 ''AUTH_REFRESH_RATE_WINDOW'' 60\<rparr>))"

record S3StorageConfig =
  s3_endpoint :: "jsstring option"
  s3_publicEndpoint :: "jsstring option"
  s3_region :: jsstring
  s3_bucket :: jsstring
  s3_accessKey :: jsstring
  s3_secretKey :: jsstring
  s3_forcePathStyle :: bool

record StorageConfig =
  st_provider :: jsstring
  st_s3 :: S3StorageConfig
  st_uploadUrlTtlSeconds :: int
  st_downloadUrlTtlSeconds :: int
  st_autoCreateBucket :: bool

definition loadStorageConfig :: "unicode \<Rightarrow> env \<Rightarrow> StorageConfig" where
  "loadStorageConfig U env =
     \<lparr>st_provider = (case env ''STORAGE_PROVIDER'' of Some v \<Rightarrow> v | None \<Rightarrow> js ''s3''),
      st_s3 = \<lparr>s3_endpoint = envEmptyToNull (env ''S3_ENDPOINT''),
               s3_publicEndpoint = envEmptyToNull (env ''S3_PUBLIC_ENDPOINT''),
               s3_region = (case env ''S3_REGION'' of Some v \<Rightarrow> v | None \<Rightarrow> js ''us-east-1''),
               s3_bucket = (case env ''S3_BUCKET'' of Some v \<Rightarrow> v | None \<Rightarrow> []),
               s3_accessKey = (case env ''S3_ACCESS_KEY'' of Some v \<Rightarrow> v | None \<Rightarrow> []),
               s3_secretKey = (case env ''S3_SECRET_KEY'' of Some v \<Rightarrow> v | None \<Rightarrow> []),
               s3_forcePathStyle = toBool U (env ''S3_FORCE_PATH_STYLE'') True\<rparr>,
      st_uploadUrlTtlSeconds = toInt (env ''S3_PRESIGNED_UPLOAD_EXPIRES_SECONDS'') 900,
      st_downloadUrlTtlSeconds = toInt (env ''S3_PRESIGNED_DOWNLOAD_EXPIRES_SECONDS'') 300,
      st_autoCreateBucket = toBool U (env ''S3_AUTO_CREATE_BUCKET'') (env ''NODE_ENV'' \<noteq> Some (js ''production''))\<rparr>"

record DocumentsSettings =
  dc_maxFileSizeBytes :: int
  dc_allowedMimeTypes :: "jsstring list"
  dc_presign :: RateLimitRule

definition loadDocumentsConfig :: "unicode \<Rightarrow> env \<Rightarrow> DocumentsSettings" where
  "loadDocumentsConfig U env =
     \<lparr>dc_maxFileSizeBytes = toInt (env ''MAX_DOCUMENT_FILE_SIZE_BYTES'') 52428800,
      dc_allowedMimeTypes = parseMimeList U (env ''ALLOWED_DOCUMENT_MIME_TYPES''),
      dc_presign = rule env ''DOCUMENT_PRESIGN_RATE_LIMIT'' 30 ''DOCUMENT_PRESIGN_RATE_WINDOW'' 60\<rparr>"

definition DEFAULT_OCR_LANGUAGES :: "jsstring list" where
  "DEFAULT_OCR_LANGUAGES = map js [''ind'', ''eng'', ''msa'', ''ara'', ''chi_sim'', ''jpn'', ''kor'', ''deu'', ''fra'', ''spa'']"

definition loadOcrConfig :: "unicode \<Rightarrow> env \<Rightarrow> OcrConfig" where
  "loadOcrConfig U env =
     \<lparr>oc_enabled = toBool U (env ''OCR_ENABLED'') True,
      oc_workerEnabled = toBool U (env ''OCR_WORKER_ENABLED'') True,
      oc_defaultLanguage = trimmedOr (env ''OCR_DEFAULT_LANGUAGE'') (js ''ind+eng''),
      oc_supportedLanguages = parseCodeList U (env ''OCR_SUPPORTED_LANGUAGES'') DEFAULT_OCR_LANGUAGES,
      oc_maxLanguagesPerJob = nat (toInt (env ''OCR_MAX_LANGUAGES_PER_JOB'') 3),
      oc_queueName = trimmedOr (env ''OCR_QUEUE_NAME'') (js ''docuai-ocr''),
      oc_concurrency = nat (toInt (env ''OCR_MAX_CONCURRENCY'') 1),
      oc_maxAttempts = nat (toInt (env ''OCR_MAX_RETRIES'') 2 + 1),
      oc_retryBackoffMs = nat (toInt (env ''OCR_RETRY_BACKOFF_MS'') 5000),
      oc_jobTimeoutMs = nat (toInt (env ''OCR_JOB_TIMEOUT_MS'') 600000),
      oc_pageTimeoutMs = nat (toInt (env ''OCR_PAGE_TIMEOUT_MS'') 60000),
      oc_staleJobMs = nat (toInt (env ''OCR_STALE_JOB_MS'') 120000),
      oc_reconcileIntervalMs = nat (toInt (env ''OCR_RECONCILE_INTERVAL_MS'') 60000),
      oc_maxFileSizeBytes = nat (toInt (env ''OCR_MAX_FILE_SIZE_BYTES'')
        (toInt (env ''MAX_DOCUMENT_FILE_SIZE_BYTES'') 52428800)),
      oc_maxPdfPages = nat (toInt (env ''OCR_MAX_PDF_PAGES'') 100),
      oc_renderDpi = nat (toInt (env ''OCR_RENDER_DPI'') 150),
      oc_maxRenderPixels = nat (toInt (env ''OCR_MAX_RENDER_PIXELS'') 20000000),
      oc_maxImagePixels = nat (toInt (env ''OCR_MAX_IMAGE_PIXELS'') 25000000),
      oc_maxTextPerPage = nat (toInt (env ''OCR_MAX_TEXT_PER_PAGE'') 200000),
      oc_maxTextPerDocument = nat (toInt (env ''OCR_MAX_TEXT_PER_DOCUMENT'') 2000000),
      oc_maxActiveJobsPerUser = nat (toInt (env ''OCR_MAX_ACTIVE_JOBS_PER_USER'') 5),
      oc_maxJobsPerDocument = nat (toInt (env ''OCR_MAX_JOBS_PER_DOCUMENT'') 20),
      oc_nativeText = \<lparr>minChars = nat (toInt (env ''OCR_NATIVE_TEXT_MIN_CHARS'') 20),
                       minAlphanumericRatio = toFloat (env ''OCR_NATIVE_TEXT_MIN_ALNUM_RATIO'') (1 / 2)\<rparr>,
      oc_tesseractPath = trimmedOr (env ''OCR_TESSERACT_PATH'') (js ''tesseract''),
      oc_popplerPath = envEmptyToNull (env ''OCR_POPPLER_PATH''),
      oc_tessdataPrefix = envEmptyToNull (env ''OCR_TESSDATA_PREFIX''),
      oc_tmpDir = envEmptyToNull (env ''OCR_TMP_DIR''),
      oc_requestRate = rule env ''OCR_REQUEST_RATE_LIMIT'' 10 ''OCR_REQUEST_RATE_WINDOW'' 60\<rparr>"

record AppConfig =
  ac_nodeEnv :: jsstring
  ac_port :: int
  ac_apiPrefix :: jsstring
  ac_trustProxy :: bool
  ac_corsOrigins :: "jsstring list"
  ac_logLevel :: jsstring
  ac_databaseUrl :: jsstring
  ac_redisUrl :: jsstring
  ac_throttleLimit :: int
  ac_throttleTtlSeconds :: int
  ac_swaggerEnabled :: bool
  ac_auth :: AuthSettings
  ac_storage :: StorageConfig
  ac_documents :: DocumentsSettings
  ac_ocr :: OcrConfig

definition loadConfiguration :: "unicode \<Rightarrow> env \<Rightarrow> jsstring + AppConfig" where
  "loadConfiguration U env =
     (let nodeEnv = (case env ''NODE_ENV'' of Some v \<Rightarrow> v | None \<Rightarrow> js ''development'')
      in case loadAuthConfig env of
           Inl e \<Rightarrow> Inl e
         | Inr auth \<Rightarrow> Inr
             \<lparr>ac_nodeEnv = nodeEnv,
              ac_port = toInt (env ''PORT'') 4310,
              ac_apiPrefix = (case env ''API_PREFIX'' of Some v \<Rightarrow> v | None \<Rightarrow> js ''api/v1''),
              ac_trustProxy = toBool U (env ''TRUST_PROXY'') False,
              ac_corsOrigins = filter (\<lambda>o'. o' \<noteq> [])
                (map trim (split_on 44 (case env ''CORS_ORIGINS'' of Some v \<Rightarrow> v | None \<Rightarrow> []))),
              ac_logLevel = (case env ''LOG_LEVEL'' of Some v \<Rightarrow> v
                             | None \<Rightarrow> if nodeEnv = js ''production'' then js ''log'' else js ''debug''),
              ac_databaseUrl = (case env ''DATABASE_URL'' of Some v \<Rightarrow> v | None \<Rightarrow> []),
              ac_redisUrl = (case env ''REDIS_URL'' of Some v \<Rightarrow> v | None \<Rightarrow> js ''redis://localhost:6379/0''),
              ac_throttleLimit = toInt (env ''THROTTLE_LIMIT'') 100,
              ac_throttleTtlSeconds = toInt (env ''THROTTLE_TTL'') 60,
              ac_swaggerEnabled = toBool U (env ''SWAGGER_ENABLED'') (nodeEnv \<noteq> js ''production''),
              ac_auth = auth,
              ac_storage = loadStorageConfig U env,
              ac_documents = loadDocumentsConfig U env,
              ac_ocr = loadOcrConfig U env\<rparr>)"

section \<open>Validation\<close>

text \<open>The conversions of the validation library: the number or truth value it takes a text for (given the
  texts that count as true and as false beside the usual ones), and whether it accepts a text as a URI
  with one of the schemes.\<close>

record joi =
  joi_number :: "jsstring \<Rightarrow> rat option"
  joi_boolean :: "jsstring list \<Rightarrow> jsstring list \<Rightarrow> jsstring \<Rightarrow> bool option"
  joi_uri :: "string list \<Rightarrow> jsstring \<Rightarrow> bool"

definition numberRule :: "joi \<Rightarrow> rat \<Rightarrow> rat option \<Rightarrow> jsstring option \<Rightarrow> bool" where
  "numberRule J lo hi v =
     (case v of None \<Rightarrow> True
      | Some s \<Rightarrow> (case joi_number J s of None \<Rightarrow> False
          | Some q \<Rightarrow> lo \<le> q \<and> (case hi of None \<Rightarrow> True | Some h \<Rightarrow> q \<le> h)))"

definition integerRule :: "joi \<Rightarrow> int \<Rightarrow> int option \<Rightarrow> jsstring option \<Rightarrow> bool" where
  "integerRule J lo hi v =
     (case v of None \<Rightarrow> True
      | Some s \<Rightarrow> (case joi_number J s of None \<Rightarrow> False
          | Some q \<Rightarrow> q = of_int \<lfloor>q\<rfloor> \<and> lo \<le> \<lfloor>q\<rfloor> \<and> (case hi of None \<Rightarrow> True | Some h \<Rightarrow> \<lfloor>q\<rfloor> \<le> h)))"

text \<open>An entry of the schema for a whole number: its name and bounds.\<close>

type_synonym integer_entry = "string \<times> int \<times> int option"

definition integerEntries :: "joi \<Rightarrow> env \<Rightarrow> integer_entry list \<Rightarrow> bool" where
  "integerEntries J env es = list_all (\<lambda>(k, lo, hi). integerRule J lo hi (env k)) es"

definition booleanRule :: "joi \<Rightarrow> bool \<Rightarrow> jsstring option \<Rightarrow> bool" where
  "booleanRule J allowEmpty v =
     (case v of None \<Rightarrow> True
      | Some s \<Rightarrow> (allowEmpty \<and> s = [])
          \<or> joi_boolean J [js ''1'', js ''yes'', js ''on''] [js ''0'', js ''no'', js ''off''] s \<noteq> None)"

text \<open>A text that is present is not empty, unless the entry allows it.\<close>

definition textRule :: "bool \<Rightarrow> bool \<Rightarrow> (jsstring \<Rightarrow> bool) \<Rightarrow> jsstring option \<Rightarrow> bool" where
  "textRule required allowEmpty P v =
     (case v of None \<Rightarrow> \<not> required | Some s \<Rightarrow> if s = [] then allowEmpty else P s)"

definition isProduction :: "env \<Rightarrow> bool" where
  "isProduction env \<longleftrightarrow> env ''NODE_ENV'' = Some (js ''production'')"

definition DURATION_PATTERN :: "jsstring \<Rightarrow> bool" where
  "DURATION_PATTERN s \<longleftrightarrow> takeWhile is_digit s \<noteq> []
     \<and> (case dropWhile is_digit s of [] \<Rightarrow> True | [c] \<Rightarrow> DURATION_UNITS c \<noteq> None | _ \<Rightarrow> False)"

definition PLACEHOLDER_SECRETS :: "jsstring list" where
  "PLACEHOLDER_SECRETS = map js [''CHANGE_ME_TO_A_LONG_RANDOM_SECRET'', ''CHANGE_ME_TO_ANOTHER_LONG_RANDOM_SECRET'']"

definition DEV_ONLY_SECRETS :: "jsstring list" where
  "DEV_ONLY_SECRETS = map js [''dev-only-insecure-access-secret-do-not-use-in-production'',
     ''dev-only-insecure-refresh-secret-do-not-use-in-production'']"

definition PLACEHOLDER_STORAGE_CREDENTIALS :: "jsstring list" where
  "PLACEHOLDER_STORAGE_CREDENTIALS = map js [''CHANGE_ME'']"

definition DEV_ONLY_STORAGE_CREDENTIALS :: "jsstring list" where
  "DEV_ONLY_STORAGE_CREDENTIALS = map js [''docuai-storage'', ''docuai-storage-secret-dev'']"

text \<open>The patterns on lists: every part is a code, or a media type, with white space around it where the
  pattern allows it.\<close>

definition OCR_LANGUAGE_LIST_PATTERN :: "jsstring \<Rightarrow> bool" where
  "OCR_LANGUAGE_LIST_PATTERN s \<longleftrightarrow> list_all LANGUAGE_CODE (split_on 43 s)"

definition OCR_LANGUAGE_CSV_PATTERN :: "jsstring \<Rightarrow> bool" where
  "OCR_LANGUAGE_CSV_PATTERN s \<longleftrightarrow> list_all (\<lambda>p. LANGUAGE_CODE (trim p)) (split_on 44 s)"

definition is_mime_char :: "jschar \<Rightarrow> bool" where
  "is_mime_char c \<longleftrightarrow> is_upper c \<or> is_lower c \<or> is_digit c \<or> c \<in> set [33, 35, 36, 38, 94, 95, 46, 43, 45]"

definition MIME_TYPE_LIST_PATTERN :: "jsstring \<Rightarrow> bool" where
  "MIME_TYPE_LIST_PATTERN s \<longleftrightarrow> list_all (\<lambda>p.
     case split_on 47 (trim p) of
       [a, b] \<Rightarrow> a \<noteq> [] \<and> b \<noteq> [] \<and> list_all is_mime_char a \<and> list_all is_mime_char b
     | _ \<Rightarrow> False) (split_on 44 s)"

definition is_lower_alnum :: "jschar \<Rightarrow> bool" where
  "is_lower_alnum c \<longleftrightarrow> is_lower c \<or> is_digit c"

definition bucketPattern :: "jsstring \<Rightarrow> bool" where
  "bucketPattern s \<longleftrightarrow> 3 \<le> length s \<and> length s \<le> 63 \<and> is_lower_alnum (hd s) \<and> is_lower_alnum (last s)
     \<and> list_all (\<lambda>c. is_lower_alnum c \<or> c = 46 \<or> c = 45) s"

definition queuePattern :: "jsstring \<Rightarrow> bool" where
  "queuePattern s \<longleftrightarrow> 2 \<le> length s \<and> length s \<le> 64 \<and> is_lower_alnum (hd s)
     \<and> list_all (\<lambda>c. is_lower_alnum c \<or> c = 95 \<or> c = 45) (tl s)"

subsection \<open>The schema, section by section\<close>

definition coreIntegers :: "integer_entry list" where
  "coreIntegers = [(''PORT'', 1, Some 65535), (''THROTTLE_LIMIT'', 1, None), (''THROTTLE_TTL'', 1, None)]"

definition coreSchema :: "joi \<Rightarrow> env \<Rightarrow> bool" where
  "coreSchema J env \<longleftrightarrow>
     textRule False False (\<lambda>s. s \<in> set (map js [''development'', ''test'', ''production''])) (env ''NODE_ENV'')
     \<and> integerEntries J env coreIntegers
     \<and> textRule False False (\<lambda>_. True) (env ''API_PREFIX'')
     \<and> booleanRule J False (env ''TRUST_PROXY'')
     \<and> textRule False True (\<lambda>_. True) (env ''CORS_ORIGINS'')
     \<and> textRule False False (\<lambda>s. s \<in> set (map js [''fatal'', ''error'', ''warn'', ''log'', ''debug'', ''verbose'']))
         (env ''LOG_LEVEL'')
     \<and> textRule True False (joi_uri J [''postgresql'', ''postgres'']) (env ''DATABASE_URL'')
     \<and> textRule False False (joi_uri J [''postgresql'', ''postgres'']) (env ''TEST_DATABASE_URL'')
     \<and> textRule True False (joi_uri J [''redis'', ''rediss'']) (env ''REDIS_URL'')
     \<and> booleanRule J False (env ''SWAGGER_ENABLED'')"

definition authIntegers :: "integer_entry list" where
  "authIntegers = [(''AUTH_LOGIN_RATE_LIMIT'', 1, None), (''AUTH_LOGIN_RATE_WINDOW'', 1, None),
     (''AUTH_REGISTER_RATE_LIMIT'', 1, None), (''AUTH_REGISTER_RATE_WINDOW'', 1, None),
     (''AUTH_REFRESH_RATE_LIMIT'', 1, None), (''AUTH_REFRESH_RATE_WINDOW'', 1, None)]"

definition secretRule :: "env \<Rightarrow> jsstring \<Rightarrow> bool" where
  "secretRule env s \<longleftrightarrow> 32 \<le> length s \<and> s \<notin> set PLACEHOLDER_SECRETS
     \<and> (isProduction env \<longrightarrow> s \<notin> set DEV_ONLY_SECRETS)"

definition authSchema :: "joi \<Rightarrow> env \<Rightarrow> bool" where
  "authSchema J env \<longleftrightarrow>
     textRule True False (secretRule env) (env ''JWT_ACCESS_SECRET'')
     \<and> textRule True False (\<lambda>s. secretRule env s \<and> Some s \<noteq> env ''JWT_ACCESS_SECRET'') (env ''JWT_REFRESH_SECRET'')
     \<and> textRule False False DURATION_PATTERN (env ''JWT_ACCESS_EXPIRES_IN'')
     \<and> textRule False False DURATION_PATTERN (env ''JWT_REFRESH_EXPIRES_IN'')
     \<and> integerEntries J env authIntegers"

definition storageIntegers :: "integer_entry list" where
  "storageIntegers = [(''S3_PRESIGNED_UPLOAD_EXPIRES_SECONDS'', 60, Some 3600),
     (''S3_PRESIGNED_DOWNLOAD_EXPIRES_SECONDS'', 60, Some 900)]"

definition credentialRule :: "env \<Rightarrow> nat \<Rightarrow> jsstring \<Rightarrow> bool" where
  "credentialRule env n s \<longleftrightarrow> n \<le> length s \<and> s \<notin> set PLACEHOLDER_STORAGE_CREDENTIALS
     \<and> (isProduction env \<longrightarrow> s \<notin> set DEV_ONLY_STORAGE_CREDENTIALS)"

definition storageSchema :: "joi \<Rightarrow> env \<Rightarrow> bool" where
  "storageSchema J env \<longleftrightarrow>
     textRule False False (\<lambda>s. s = js ''s3'') (env ''STORAGE_PROVIDER'')
     \<and> textRule False True (joi_uri J [''http'', ''https'']) (env ''S3_ENDPOINT'')
     \<and> textRule False True (joi_uri J [''http'', ''https'']) (env ''S3_PUBLIC_ENDPOINT'')
     \<and> textRule False False (\<lambda>s. 1 \<le> length s) (env ''S3_REGION'')
     \<and> textRule True False bucketPattern (env ''S3_BUCKET'')
     \<and> textRule False False bucketPattern (env ''TEST_S3_BUCKET'')
     \<and> textRule True False (credentialRule env 3) (env ''S3_ACCESS_KEY'')
     \<and> textRule True False (credentialRule env 8) (env ''S3_SECRET_KEY'')
     \<and> booleanRule J False (env ''S3_FORCE_PATH_STYLE'')
     \<and> integerEntries J env storageIntegers
     \<and> booleanRule J True (env ''S3_AUTO_CREATE_BUCKET'')"

definition documentIntegers :: "integer_entry list" where
  "documentIntegers = [(''MAX_DOCUMENT_FILE_SIZE_BYTES'', 1024, Some (5 * 1024 * 1024 * 1024)),
     (''DOCUMENT_PRESIGN_RATE_LIMIT'', 1, None), (''DOCUMENT_PRESIGN_RATE_WINDOW'', 1, None)]"

definition documentSchema :: "joi \<Rightarrow> env \<Rightarrow> bool" where
  "documentSchema J env \<longleftrightarrow> integerEntries J env documentIntegers
     \<and> textRule False True MIME_TYPE_LIST_PATTERN (env ''ALLOWED_DOCUMENT_MIME_TYPES'')"

definition ocrIntegers :: "integer_entry list" where
  "ocrIntegers = [(''OCR_MAX_LANGUAGES_PER_JOB'', 1, Some 5), (''OCR_MAX_CONCURRENCY'', 1, Some 8),
     (''OCR_MAX_RETRIES'', 0, Some 10), (''OCR_RETRY_BACKOFF_MS'', 100, None),
     (''OCR_JOB_TIMEOUT_MS'', 10000, Some 7200000), (''OCR_PAGE_TIMEOUT_MS'', 5000, Some 900000),
     (''OCR_STALE_JOB_MS'', 10000, None), (''OCR_RECONCILE_INTERVAL_MS'', 5000, None),
     (''OCR_MAX_FILE_SIZE_BYTES'', 1024, Some (5 * 1024 * 1024 * 1024)), (''OCR_MAX_PDF_PAGES'', 1, Some 2000),
     (''OCR_RENDER_DPI'', 72, Some 600), (''OCR_MAX_RENDER_PIXELS'', 250000, Some 200000000),
     (''OCR_MAX_IMAGE_PIXELS'', 250000, Some 200000000), (''OCR_MAX_TEXT_PER_PAGE'', 1000, Some 10000000),
     (''OCR_MAX_TEXT_PER_DOCUMENT'', 1000, Some 100000000), (''OCR_MAX_ACTIVE_JOBS_PER_USER'', 1, None),
     (''OCR_MAX_JOBS_PER_DOCUMENT'', 1, None), (''OCR_NATIVE_TEXT_MIN_CHARS'', 1, None),
     (''OCR_REQUEST_RATE_LIMIT'', 1, None), (''OCR_REQUEST_RATE_WINDOW'', 1, None)]"

definition ocrSchema :: "joi \<Rightarrow> env \<Rightarrow> bool" where
  "ocrSchema J env \<longleftrightarrow>
     booleanRule J True (env ''OCR_ENABLED'') \<and> booleanRule J True (env ''OCR_WORKER_ENABLED'')
     \<and> textRule False True OCR_LANGUAGE_LIST_PATTERN (env ''OCR_DEFAULT_LANGUAGE'')
     \<and> textRule False True OCR_LANGUAGE_CSV_PATTERN (env ''OCR_SUPPORTED_LANGUAGES'')
     \<and> textRule False False queuePattern (env ''OCR_QUEUE_NAME'')
     \<and> integerEntries J env ocrIntegers
     \<and> numberRule J 0 (Some 1) (env ''OCR_NATIVE_TEXT_MIN_ALNUM_RATIO'')
     \<and> list_all (\<lambda>k. textRule False True (\<lambda>_. True) (env k))
         [''OCR_TESSERACT_PATH'', ''OCR_POPPLER_PATH'', ''OCR_TESSDATA_PREFIX'', ''OCR_TMP_DIR'']"

definition envValidationSchema :: "joi \<Rightarrow> env \<Rightarrow> bool" where
  "envValidationSchema J env \<longleftrightarrow> coreSchema J env \<and> authSchema J env \<and> storageSchema J env
     \<and> documentSchema J env \<and> ocrSchema J env"

section \<open>Validated numbers\<close>

text \<open>A setting written as a plain decimal number, and the documented behaviour of the library for such
  texts.\<close>

definition decimal :: "jsstring \<Rightarrow> bool" where
  "decimal s \<longleftrightarrow> s \<noteq> [] \<and> length s \<le> 15 \<and> list_all is_digit s"

definition allIntegers :: "integer_entry list" where
  "allIntegers = coreIntegers @ authIntegers @ storageIntegers @ documentIntegers @ ocrIntegers"

text \<open>A setting that is absent or such a number, and an environment in which every numeric setting is.\<close>

definition digits_only :: "env \<Rightarrow> string \<Rightarrow> bool" where
  "digits_only env k \<longleftrightarrow> (case env k of None \<Rightarrow> True | Some s \<Rightarrow> decimal s)"

definition plain :: "env \<Rightarrow> bool" where
  "plain env \<longleftrightarrow> list_all (\<lambda>(k, lo, hi). digits_only env k) allIntegers"

definition joi_ok :: "joi \<Rightarrow> bool" where
  "joi_ok J \<longleftrightarrow> (\<forall>s. decimal s \<longrightarrow> joi_number J s = Some (of_nat (digitsValue s)))"

lemma digit_class: "is_digit c \<Longrightarrow> \<not> is_js_space c \<and> c \<noteq> 45 \<and> c \<noteq> 43"
  by (auto simp: is_digit_def is_js_space_def word_le_nat_alt)

lemma parseInt10_decimal:
  assumes "decimal s"
  shows "parseInt10 s = Some (int (digitsValue s))"
proof -
  obtain c cs where s: "s = c # cs" using assms by (cases s) (auto simp: decimal_def)
  have d: "is_digit c" "list_all is_digit cs" using assms by (auto simp: decimal_def s)
  have tw: "takeWhile is_digit cs = cs" using d(2) by (simp add: list_all_iff takeWhile_eq_all_conv)
  show ?thesis using digit_class [OF d(1)] d(1) by (simp add: parseInt10_def Let_def s tw)
qed

text \<open>What a whole number in the schema guarantees for the loaded value.\<close>

lemma valid_integers:
  "envValidationSchema J env \<Longrightarrow> integerEntries J env allIntegers"
  by (simp add: envValidationSchema_def coreSchema_def authSchema_def storageSchema_def documentSchema_def
      ocrSchema_def integerEntries_def allIntegers_def)

lemma plain_digits: "plain env \<Longrightarrow> (k, lo, hi) \<in> set allIntegers \<Longrightarrow> digits_only env k"
  by (auto simp: plain_def list_all_iff)

lemma loaded_integer:
  assumes "joi_ok J" and "envValidationSchema J env" and "digits_only env k"
    and "(k, lo, hi) \<in> set allIntegers" and "lo \<le> d" and "case hi of None \<Rightarrow> True | Some h \<Rightarrow> d \<le> h"
  shows "lo \<le> toInt (env k) d \<and> (case hi of None \<Rightarrow> True | Some h \<Rightarrow> toInt (env k) d \<le> h)"
proof (cases "env k")
  case None
  have "toInt (env k) d = d" by (simp add: None toInt_def parseInt10_def)
  then show ?thesis using assms(5,6) by (simp only:)
next
  case (Some s)
  have "decimal s" using assms(3) Some by (simp add: digits_only_def)
  then have "joi_number J s = Some (of_nat (digitsValue s))" "toInt (env k) d = int (digitsValue s)"
    using assms(1) Some by (simp_all add: joi_ok_def toInt_def parseInt10_decimal)
  moreover have "integerRule J lo hi (Some s)"
    using bspec [OF valid_integers [OF assms(2), unfolded integerEntries_def list_all_iff] assms(4)] Some by simp
  ultimately show ?thesis by (cases hi) (simp_all add: integerRule_def)
qed

lemmas integer_tables = allIntegers_def coreIntegers_def authIntegers_def storageIntegers_def documentIntegers_def
  ocrIntegers_def

section \<open>Durations\<close>

lemma DURATION_UNITS_plain: "DURATION_UNITS c \<noteq> None \<Longrightarrow> \<not> is_js_space c"
proof -
  assume "DURATION_UNITS c \<noteq> None"
  then have "ascii_lower c \<in> {115, 109, 104, 100}" by (auto simp: DURATION_UNITS_def split: if_splits)
  then have "is_upper c \<or> is_lower c" by (auto simp: ascii_lower_def is_lower_def split: if_splits)
  then show ?thesis by (auto simp: is_upper_def is_lower_def is_js_space_def word_le_nat_alt)
qed

lemma duration_accepted:
  assumes "DURATION_PATTERN s"
  shows "\<exists>n. parseDurationSeconds s = Inr n"
proof -
  let ?ds = "takeWhile is_digit s" and ?r = "dropWhile is_digit s"
  have ne: "?ds \<noteq> []" and r: "case ?r of [] \<Rightarrow> True | [c] \<Rightarrow> DURATION_UNITS c \<noteq> None | _ \<Rightarrow> False"
    using assms by (simp_all add: DURATION_PATTERN_def)
  obtain c cs where "s = c # cs" "is_digit c" using ne by (cases s) (auto split: if_splits)
  then have t: "dropWhile is_js_space s = s" using digit_class by simp
  consider "?r = []" | u where "?r = [u]" "DURATION_UNITS u \<noteq> None"
    using r by (cases ?r rule: list.exhaust; cases "tl ?r") auto
  then show ?thesis
  proof cases
    case 1
    show ?thesis unfolding parseDurationSeconds_def Let_def t 1 using ne by simp
  next
    case (2 u)
    then have "\<not> is_js_space u" using DURATION_UNITS_plain by blast
    moreover obtain n where "DURATION_UNITS u = Some n" using 2(2) by blast
    ultimately show ?thesis unfolding parseDurationSeconds_def Let_def t 2(1) using ne by simp
  qed
qed

lemma default_durations: "parseDurationSeconds (js ''15m'') = Inr 900" "parseDurationSeconds (js ''30d'') = Inr 2592000"
proof -
  have "js ''15m'' = [49, 53, 109]" "js ''30d'' = [51, 48, 100]" by code_simp+
  then show "parseDurationSeconds (js ''15m'') = Inr 900" "parseDurationSeconds (js ''30d'') = Inr 2592000"
    by (simp_all add: parseDurationSeconds_def Let_def is_js_space_def is_digit_def DURATION_UNITS_def ascii_lower_def
        is_upper_def digitsValue_def word_le_nat_alt)
qed

section \<open>Properties\<close>

text \<open>An environment with the required settings and nothing else.\<close>

definition demoEnv :: env where
  "demoEnv = map_of [(''DATABASE_URL'', js ''postgres://h''), (''REDIS_URL'', js ''redis://h''),
     (''JWT_ACCESS_SECRET'', replicate 32 97), (''JWT_REFRESH_SECRET'', replicate 32 98),
     (''S3_BUCKET'', [97, 98, 99]), (''S3_ACCESS_KEY'', [97, 98, 99]), (''S3_SECRET_KEY'', replicate 8 97),
     (''OCR_MAX_RETRIES'', [51])]"

definition demoJoi :: joi where
  "demoJoi = \<lparr>joi_number = (\<lambda>s. if decimal s then Some (of_nat (digitsValue s)) else None),
     joi_boolean = (\<lambda>t f s. if s \<in> set t then Some True else if s \<in> set f then Some False else None),
     joi_uri = (\<lambda>schemes s. True)\<rparr>"

lemma demoJoi_ok: "joi_ok demoJoi"
  by (simp add: joi_ok_def demoJoi_def)

text \<open>The validation reads a number as JavaScript does, the configuration with \<open>parseInt\<close>: a setting such as
  \<open>1e2\<close> is validated as 100 and loaded as 1, here a resolution far below the validated range.\<close>

definition exponentJoi :: joi where
  "exponentJoi = demoJoi\<lparr>joi_number := (\<lambda>s. if s = js ''1e2'' then Some 100 else joi_number demoJoi s)\<rparr>"

lemma exponent_below_range:
  "joi_ok exponentJoi"
  "envValidationSchema exponentJoi (demoEnv(''OCR_RENDER_DPI'' \<mapsto> js ''1e2''))"
  "oc_renderDpi (loadOcrConfig ascii_unicode (demoEnv(''OCR_RENDER_DPI'' \<mapsto> js ''1e2''))) = 1"
proof -
  have "\<not> decimal (js ''1e2'')" by code_simp
  then show "joi_ok exponentJoi" by (auto simp: joi_ok_def exponentJoi_def demoJoi_def)
  show "envValidationSchema exponentJoi (demoEnv(''OCR_RENDER_DPI'' \<mapsto> js ''1e2''))" by code_simp
  have "toInt (Some (js ''1e2'')) 150 = 1" by code_simp
  then show "oc_renderDpi (loadOcrConfig ascii_unicode (demoEnv(''OCR_RENDER_DPI'' \<mapsto> js ''1e2''))) = 1"
    by (simp add: loadOcrConfig_def)
qed

text \<open>C31. An environment that passes the validation gives usable settings. The durations parse; the two
  token secrets differ, are long, are not the placeholders that ship with the program, and in
  production not the development defaults. Each of the following numeric settings is in its range
  when it is absent or written with decimal digits only (another notation can pass the validation
  and be loaded as another number, see \<open>exponent_below_range\<close>): URLs live between one minute and one
  hour or fifteen minutes, there is at least one attempt and one page, a resolution that can be
  rendered, room for text, and time before a job counts as stale.\<close>

theorem validated_settings:
  assumes "joi_ok J" and "envValidationSchema J env"
  shows "(\<exists>auth. loadAuthConfig env = Inr auth \<and> accessSecret auth \<noteq> refreshSecret auth
      \<and> (\<forall>s\<in>{accessSecret auth, refreshSecret auth}. 32 \<le> length s \<and> s \<notin> set PLACEHOLDER_SECRETS
           \<and> (isProduction env \<longrightarrow> s \<notin> set DEV_ONLY_SECRETS)))
    \<and> (digits_only env ''S3_PRESIGNED_UPLOAD_EXPIRES_SECONDS'' \<longrightarrow> st_uploadUrlTtlSeconds (loadStorageConfig U env) \<in> {60..3600})
    \<and> (digits_only env ''S3_PRESIGNED_DOWNLOAD_EXPIRES_SECONDS'' \<longrightarrow> st_downloadUrlTtlSeconds (loadStorageConfig U env) \<in> {60..900})
    \<and> (digits_only env ''OCR_MAX_RETRIES'' \<longrightarrow> oc_maxAttempts (loadOcrConfig U env) \<in> {1..11})
    \<and> (digits_only env ''OCR_MAX_PDF_PAGES'' \<longrightarrow> oc_maxPdfPages (loadOcrConfig U env) \<in> {1..2000})
    \<and> (digits_only env ''OCR_RENDER_DPI'' \<longrightarrow> oc_renderDpi (loadOcrConfig U env) \<in> {72..600})
    \<and> (digits_only env ''OCR_MAX_TEXT_PER_PAGE'' \<longrightarrow> 1000 \<le> oc_maxTextPerPage (loadOcrConfig U env))
    \<and> (digits_only env ''OCR_STALE_JOB_MS'' \<longrightarrow> 10000 \<le> oc_staleJobMs (loadOcrConfig U env))"
proof -
  note range = loaded_integer [OF assms]
  have auth: "authSchema J env" using assms(2) by (simp add: envValidationSchema_def)
  have dur: "\<exists>n. parseDurationSeconds (case env k of Some v \<Rightarrow> v | None \<Rightarrow> d) = Inr n"
    if "textRule False False DURATION_PATTERN (env k)" "\<exists>n. parseDurationSeconds d = Inr n" for k d
    using that duration_accepted by (auto simp: textRule_def split: option.splits if_splits)
  obtain a r where ar: "parseDurationSeconds (case env ''JWT_ACCESS_EXPIRES_IN'' of Some v \<Rightarrow> v | None \<Rightarrow> js ''15m'') = Inr a"
      "parseDurationSeconds (case env ''JWT_REFRESH_EXPIRES_IN'' of Some v \<Rightarrow> v | None \<Rightarrow> js ''30d'') = Inr r"
    using auth dur default_durations unfolding authSchema_def by blast
  obtain s1 s2 where s: "env ''JWT_ACCESS_SECRET'' = Some s1" "env ''JWT_REFRESH_SECRET'' = Some s2"
      "secretRule env s1" "secretRule env s2" "s1 \<noteq> s2"
    using auth by (auto simp: authSchema_def textRule_def split: option.splits if_splits)
  have "\<exists>auth. loadAuthConfig env = Inr auth \<and> accessSecret auth = s1 \<and> refreshSecret auth = s2"
    unfolding loadAuthConfig_def ar sum.case s(1,2) by simp
  then have "\<exists>auth. loadAuthConfig env = Inr auth \<and> accessSecret auth \<noteq> refreshSecret auth
      \<and> (\<forall>s\<in>{accessSecret auth, refreshSecret auth}. 32 \<le> length s \<and> s \<notin> set PLACEHOLDER_SECRETS
           \<and> (isProduction env \<longrightarrow> s \<notin> set DEV_ONLY_SECRETS))"
    using s(3,4,5) unfolding secretRule_def by force
  moreover have "digits_only env ''S3_PRESIGNED_UPLOAD_EXPIRES_SECONDS'' \<longrightarrow> st_uploadUrlTtlSeconds (loadStorageConfig U env) \<in> {60..3600}"
    using range [of "''S3_PRESIGNED_UPLOAD_EXPIRES_SECONDS''" 60 "Some 3600" 900]
    by (simp add: loadStorageConfig_def integer_tables)
  moreover have "digits_only env ''S3_PRESIGNED_DOWNLOAD_EXPIRES_SECONDS'' \<longrightarrow> st_downloadUrlTtlSeconds (loadStorageConfig U env) \<in> {60..900}"
    using range [of "''S3_PRESIGNED_DOWNLOAD_EXPIRES_SECONDS''" 60 "Some 900" 300]
    by (simp add: loadStorageConfig_def integer_tables)
  moreover have "digits_only env ''OCR_MAX_RETRIES'' \<longrightarrow> oc_maxAttempts (loadOcrConfig U env) \<in> {1..11}"
    using range [of "''OCR_MAX_RETRIES''" 0 "Some 10" 2] by (simp add: loadOcrConfig_def integer_tables) linarith
  moreover have "digits_only env ''OCR_MAX_PDF_PAGES'' \<longrightarrow> oc_maxPdfPages (loadOcrConfig U env) \<in> {1..2000}"
    using range [of "''OCR_MAX_PDF_PAGES''" 1 "Some 2000" 100] by (simp add: loadOcrConfig_def integer_tables) linarith
  moreover have "digits_only env ''OCR_RENDER_DPI'' \<longrightarrow> oc_renderDpi (loadOcrConfig U env) \<in> {72..600}"
    using range [of "''OCR_RENDER_DPI''" 72 "Some 600" 150] by (simp add: loadOcrConfig_def integer_tables) linarith
  moreover have "digits_only env ''OCR_MAX_TEXT_PER_PAGE'' \<longrightarrow> 1000 \<le> oc_maxTextPerPage (loadOcrConfig U env)"
    using range [of "''OCR_MAX_TEXT_PER_PAGE''" 1000 "Some 10000000" 200000]
    by (simp add: loadOcrConfig_def integer_tables) linarith
  moreover have "digits_only env ''OCR_STALE_JOB_MS'' \<longrightarrow> 10000 \<le> oc_staleJobMs (loadOcrConfig U env)"
    using range [of "''OCR_STALE_JOB_MS''" 10000 None 120000] by (simp add: loadOcrConfig_def integer_tables) linarith
  ultimately show ?thesis by (intro conjI)
qed

lemma demoEnv_valid: "plain demoEnv" "envValidationSchema demoJoi demoEnv"
  by code_simp+

theorem validated_settings_witness:
  "oc_maxAttempts (loadOcrConfig ascii_unicode demoEnv) \<in> {1..11} \<and> oc_renderDpi (loadOcrConfig ascii_unicode demoEnv) \<in> {72..600}"
proof -
  have "digits_only demoEnv ''OCR_MAX_RETRIES''" "digits_only demoEnv ''OCR_RENDER_DPI''" by code_simp+
  then show ?thesis using validated_settings [OF demoJoi_ok demoEnv_valid(2), of ascii_unicode] by blast
qed

end
