(* ===== verification/Document_Files.thy ===== *)
theory Document_Files
  imports Documents
begin

text \<open>
  The upload and download life cycle: \<open>documents/document-files.service.ts\<close>. Object storage is a
  parameter (the record \<open>storage\<close>): what its calls answer, failures included. The keys the service
  deletes are logged in \<open>deletedObjects\<close>. Between the load, the calls to storage and the conditional
  writes other requests act through \<open>others e\<close>.

  The lemmas show that a declaration that is accepted is within the configured limits, that a
  document that is answered as completed is ready and was verified against the stored object, that
  the file of a ready document is never replaced, and that downloads are signed for ready
  documents of the caller only.
\<close>

section \<open>Object storage\<close>

record UploadUrlRequest =
  uur_key :: jsstring
  uur_contentType :: jsstring
  uur_contentLength :: int
  uur_expiresInSeconds :: nat

record DownloadUrlRequest =
  dur_key :: jsstring
  dur_expiresInSeconds :: nat
  dur_responseContentType :: jsstring
  dur_responseContentDisposition :: jsstring

record PresignedUrl =
  ps_url :: jsstring
  ps_method :: string
  ps_headers :: "(string \<times> jsstring) list"
  ps_expiresAt :: time
  ps_expiresInSeconds :: nat

record StoredObjectMetadata =
  so_size :: int
  so_contentType :: "jsstring option"
  so_etag :: "jsstring option"

record storage =
  headObject :: "jsstring \<Rightarrow> failure + StoredObjectMetadata option"
  deleteObject :: "jsstring \<Rightarrow> failure option"
  presignUpload :: "UploadUrlRequest \<Rightarrow> failure + PresignedUrl"
  presignDownload :: "DownloadUrlRequest \<Rightarrow> failure + PresignedUrl"

record DocumentsConfig =
  maxFileSizeBytes :: nat
  allowedMimeTypes :: "string list"
  uploadUrlTtlSeconds :: nat
  downloadUrlTtlSeconds :: nat

text \<open>A best-effort removal: a failure is logged by the caller and otherwise ignored.\<close>

definition tryDelete :: "storage \<Rightarrow> jsstring \<Rightarrow> World \<Rightarrow> World" where
  "tryDelete st key w =
     (case deleteObject st key of None \<Rightarrow> w\<lparr>deletedObjects := deletedObjects w @ [key]\<rparr> | Some _ \<Rightarrow> w)"

section \<open>Validation of the declaration\<close>

record CreateUploadUrlDto =
  cu_fileName :: jsstring
  cu_contentType :: jsstring
  cu_fileSize :: int

definition MAX_SAFE_INTEGER :: int where
  "MAX_SAFE_INTEGER = 9007199254740991"

definition validateContentType :: "unicode \<Rightarrow> DocumentsConfig \<Rightarrow> jsstring \<Rightarrow> failure + jsstring" where
  "validateContentType uc cfg raw =
     (let contentType = normalizeMimeType uc raw
      in if contentType \<notin> set (map js (allowedMimeTypes cfg))
         then Inl (unsupportedFileType (''Unsupported file type; allowed: '' @ join_with '', '' (allowedMimeTypes cfg)))
         else Inr contentType)"

definition validateFileSize :: "DocumentsConfig \<Rightarrow> int \<Rightarrow> failure + int" where
  "validateFileSize cfg fileSize =
     (if \<bar>fileSize\<bar> > MAX_SAFE_INTEGER \<or> fileSize < 1
      then Inl (appException 400 ''VALIDATION_ERROR'' ''fileSize must be a positive integer'')
      else if fileSize > int (maxFileSizeBytes cfg) then Inl (fileTooLarge (maxFileSizeBytes cfg))
      else Inr fileSize)"

definition validateFileName :: "unicode \<Rightarrow> jsstring \<Rightarrow> jsstring \<Rightarrow> failure + jsstring" where
  "validateFileName uc raw contentType =
     (case sanitizeFileName uc raw of
        None \<Rightarrow> Inl (appException 400 ''VALIDATION_ERROR'' ''fileName is not a valid file name'')
      | Some fileName \<Rightarrow>
          if fileName = [] then Inl (appException 400 ''VALIDATION_ERROR'' ''fileName is not a valid file name'')
          else
            (let impliedType = mimeTypeForExtension (extensionOf uc fileName)
             in if (case impliedType of None \<Rightarrow> False | Some (MimeString t) \<Rightarrow> t \<noteq> [] \<and> t \<noteq> contentType
                    | Some InheritedMember \<Rightarrow> True)
                then Inl (unsupportedFileType ''The file extension does not match the declared content type'')
                else Inr fileName))"

section \<open>Handlers\<close>

definition UPLOADABLE_STATUSES :: "DocumentStatus list" where
  "UPLOADABLE_STATUSES = [DRAFT, UPLOADING, FAILED_DOC]"

definition uploadable :: "uuid \<Rightarrow> uuid \<Rightarrow> Document \<Rightarrow> bool" where
  "uploadable userId documentId d \<longleftrightarrow> ownLive userId documentId d \<and> d_status d \<in> set UPLOADABLE_STATUSES"

text \<open>The conditional update of \<open>createUploadUrl\<close>; the key is under a unique index.\<close>

definition declareUpload ::
  "uuid \<Rightarrow> uuid \<Rightarrow> jsstring \<Rightarrow> jsstring \<Rightarrow> int \<Rightarrow> jsstring \<Rightarrow> time \<Rightarrow> World \<Rightarrow> nat outcome" where
  "declareUpload userId documentId storageKey contentType fileSize fileName now w =
     (let (n, ds) = updateMany (uploadable userId documentId)
            (\<lambda>d. d\<lparr>d_status := UPLOADING, d_storageKey := Some storageKey, d_mimeType := Some contentType,
                   d_fileSize := Some fileSize, d_originalName := Some fileName, d_pageCount := None,
                   d_updatedAt := now\<rparr>) (documents w)
      in if 0 < n \<and> findFirst (\<lambda>d. d_storageKey d = Some storageKey \<and> \<not> uploadable userId documentId d) (documents w) \<noteq> None
         then (Inl P2002, w)
         else (Inr n, w\<lparr>documents := ds\<rparr>))"

text \<open>The object of a superseded upload is removed, best effort.\<close>

definition removeSuperseded :: "run \<Rightarrow> storage \<Rightarrow> Document \<Rightarrow> jsstring \<Rightarrow> World \<Rightarrow> World" where
  "removeSuperseded e st current storageKey w =
     (if truthy (d_storageKey current) \<and> d_storageKey current \<noteq> Some storageKey
      then tryDelete st (the (d_storageKey current)) (others e 1 w) else w)"

text \<open>\<open>createUploadUrl\<close> from the conditional update on.\<close>

definition grantUpload ::
  "run \<Rightarrow> storage \<Rightarrow> DocumentsConfig \<Rightarrow> uuid \<Rightarrow> uuid \<Rightarrow> RequestContext \<Rightarrow> jsstring \<Rightarrow> int \<Rightarrow> jsstring \<Rightarrow> Document
   \<Rightarrow> jsstring \<Rightarrow> World \<Rightarrow> (PresignedUrl \<times> Document) outcome" where
  "grantUpload e st cfg userId documentId ctx contentType fileSize fileName current storageKey w =
     (case declareUpload userId (d_id current) storageKey contentType fileSize fileName (clock e 0) (others e 0 w) of
        (Inl f, w2) \<Rightarrow> (Inl f, w2)
      | (Inr n, w2) \<Rightarrow>
        if n \<noteq> 1 then (Inl (invalidUpload ''The document changed concurrently; retry''), w2)
        else
          (let w3 = removeSuperseded e st current storageKey w2
           in case presignUpload st \<lparr>uur_key = storageKey, uur_contentType = contentType,
                     uur_contentLength = fileSize, uur_expiresInSeconds = uploadUrlTtlSeconds cfg\<rparr> of
                Inl f \<Rightarrow> (Inl f, w3)
              | Inr presigned \<Rightarrow>
                  (case getOwnedDocument userId documentId ctx (others e 2 w3) of
                     (Inl f, w4) \<Rightarrow> (Inl f, w4)
                   | (Inr document, w4) \<Rightarrow>
                       (Inr (presigned, document),
                        recordEvent (folderEvent UPLOAD_URL_CREATED userId ctx None
                          [(''documentId'', DText (d_id document)), (''contentType'', DText contentType),
                           (''fileSize'', DNumber fileSize),
                           (''expiresInSeconds'', DNumber (int (ps_expiresInSeconds presigned)))]) w4))))"

definition createUploadUrl ::
  "run \<Rightarrow> unicode \<Rightarrow> storage \<Rightarrow> DocumentsConfig \<Rightarrow> uuid \<Rightarrow> uuid \<Rightarrow> CreateUploadUrlDto \<Rightarrow> RequestContext \<Rightarrow> World
   \<Rightarrow> (PresignedUrl \<times> Document) outcome" where
  "createUploadUrl e uc st cfg userId documentId dto ctx w =
     (case validateContentType uc cfg (cu_contentType dto) of
        Inl f \<Rightarrow> (Inl f, w)
      | Inr contentType \<Rightarrow>
     (case validateFileSize cfg (cu_fileSize dto) of
        Inl f \<Rightarrow> (Inl f, w)
      | Inr fileSize \<Rightarrow>
     (case validateFileName uc (cu_fileName dto) contentType of
        Inl f \<Rightarrow> (Inl f, w)
      | Inr fileName \<Rightarrow>
     (case getOwnedDocument userId documentId ctx w of
        (Inl f, w1) \<Rightarrow> (Inl f, w1)
      | (Inr current, w1) \<Rightarrow>
          if d_status current \<notin> set UPLOADABLE_STATUSES
          then (Inl (invalidUpload ''This document already has a file; create a new document to upload another one''), w1)
          else
            (case buildStorageKey e 0 userId (d_id current) of
               Inl f \<Rightarrow> (Inl f, w1)
             | Inr storageKey \<Rightarrow>
                 grantUpload e st cfg userId documentId ctx contentType fileSize fileName current storageKey w1)))))"

text \<open>\<open>replace(/^"|"$/g, '')\<close>\<close>

definition stripQuotes :: "jsstring \<Rightarrow> jsstring" where
  "stripQuotes s =
     (let t = (if s \<noteq> [] \<and> hd s = 34 then tl s else s)
      in if t \<noteq> [] \<and> last t = 34 then butlast t else t)"

definition storedTypeOf :: "unicode \<Rightarrow> StoredObjectMetadata \<Rightarrow> jsstring option" where
  "storedTypeOf uc head =
     (if truthy (so_contentType head) then Some (normalizeMimeType uc (the (so_contentType head))) else None)"

text \<open>The contradictions between the declaration and the stored object, in the order of the code.\<close>

definition uploadProblems ::
  "unicode \<Rightarrow> DocumentsConfig \<Rightarrow> Document \<Rightarrow> StoredObjectMetadata \<Rightarrow> jsstring option \<Rightarrow> string list" where
  "uploadProblems uc cfg current head dtoEtag =
     (let declaredSize = (case d_fileSize current of None \<Rightarrow> 0 | Some s \<Rightarrow> s);
          storedType = storedTypeOf uc head;
          etag = map_option stripQuotes dtoEtag
      in (if so_size head \<noteq> declaredSize then [''size_mismatch''] else [])
         @ (if so_size head > int (maxFileSizeBytes cfg) then [''too_large''] else [])
         @ (if storedType \<noteq> None \<and> storedType \<noteq> d_mimeType current then [''type_mismatch''] else [])
         @ (if storedType \<noteq> None \<and> the storedType \<notin> set (map js (allowedMimeTypes cfg)) then [''type_not_allowed''] else [])
         @ (if truthy etag \<and> truthy (so_etag head) \<and> the etag \<noteq> the (so_etag head) then [''etag_mismatch''] else []))"

definition uploadingUnder :: "uuid \<Rightarrow> Document \<Rightarrow> Document \<Rightarrow> bool" where
  "uploadingUnder userId current d \<longleftrightarrow> d_id d = d_id current \<and> d_userId d = userId
     \<and> d_status d = UPLOADING \<and> d_storageKey d = d_storageKey current"

definition rejectUpload ::
  "run \<Rightarrow> storage \<Rightarrow> uuid \<Rightarrow> Document \<Rightarrow> string list \<Rightarrow> RequestContext \<Rightarrow> World \<Rightarrow> World" where
  "rejectUpload e st userId document problems ctx w =
     (let w1 = w\<lparr>documents := snd (updateMany (uploadingUnder userId document)
                   (\<lambda>d. d\<lparr>d_status := FAILED_DOC, d_updatedAt := clock e 1\<rparr>) (documents w))\<rparr>;
          w2 = (if truthy (d_storageKey document)
                then tryDelete st (the (d_storageKey document)) (others e 2 w1) else w1)
      in recordEvent (folderEvent UPLOAD_REJECTED userId ctx (Some (join_with '','' problems))
           [(''documentId'', DText (d_id document))]) w2)"

definition completeUpload ::
  "run \<Rightarrow> unicode \<Rightarrow> storage \<Rightarrow> DocumentsConfig \<Rightarrow> uuid \<Rightarrow> uuid \<Rightarrow> jsstring option \<Rightarrow> RequestContext \<Rightarrow> World
   \<Rightarrow> Document outcome" where
  "completeUpload e uc st cfg userId documentId dtoEtag ctx w =
     (case getOwnedDocument userId documentId ctx w of (Inl f, w1) \<Rightarrow> (Inl f, w1) | (Inr current, w1) \<Rightarrow>
        if d_status current = READY then (Inr current, w1)
        else if d_status current \<noteq> UPLOADING \<or> \<not> truthy (d_storageKey current)
        then (Inl (invalidUpload ''No upload is in progress for this document; request an upload URL first''), w1)
        else
     (case headObject st (the (d_storageKey current)) of Inl f \<Rightarrow> (Inl f, others e 0 w1)
      | Inr None \<Rightarrow> (Inl uploadNotFound, others e 0 w1)
      | Inr (Some head) \<Rightarrow>
        (let problems = uploadProblems uc cfg current head dtoEtag;
             storedType = storedTypeOf uc head
         in if problems \<noteq> []
            then (Inl (invalidUpload
                    ''The uploaded file does not match the declared metadata; request a new upload URL and upload again''),
                  rejectUpload e st userId current problems ctx (others e 0 w1))
            else
              (let v = others e 0 w1;
                   (n, ds) = updateMany (\<lambda>d. uploadingUnder userId current d \<and> d_deletedAt d = None)
                     (\<lambda>d. d\<lparr>d_status := READY, d_fileSize := Some (so_size head),
                            d_mimeType := (case storedType of Some t \<Rightarrow> Some t | None \<Rightarrow> d_mimeType current),
                            d_updatedAt := clock e 0\<rparr>) (documents v)
               in case getOwnedDocument userId documentId ctx (others e 1 (v\<lparr>documents := ds\<rparr>)) of
                    (Inl f, w3) \<Rightarrow> (Inl f, w3)
                  | (Inr document, w3) \<Rightarrow>
                      if n \<noteq> 1 \<and> d_status document \<noteq> READY
                      then (Inl (invalidUpload ''The document changed concurrently; retry''), w3)
                      else (Inr document,
                            if n = 1
                            then recordEvent (folderEvent UPLOAD_COMPLETED userId ctx None
                                   [(''documentId'', DText (d_id document)), (''fileSize'', DNumber (so_size head)),
                                    (''contentType'', idDetail (d_mimeType document))]) w3
                            else w3)))))"

record DownloadUrlResult =
  dl_presigned :: PresignedUrl
  dl_fileName :: jsstring
  dl_contentType :: jsstring
  dl_fileSize :: int

definition createDownloadUrl ::
  "storage \<Rightarrow> DocumentsConfig \<Rightarrow> uuid \<Rightarrow> uuid \<Rightarrow> RequestContext \<Rightarrow> World \<Rightarrow> DownloadUrlResult outcome" where
  "createDownloadUrl st cfg userId documentId ctx w =
     (case getOwnedDocument userId documentId ctx w of (Inl f, w1) \<Rightarrow> (Inl f, w1) | (Inr document, w1) \<Rightarrow>
        if d_status document \<noteq> READY \<or> \<not> truthy (d_storageKey document) \<or> \<not> truthy (d_mimeType document)
        then (Inl uploadNotReady, w1)
        else
          (let fileName = (case d_originalName document of Some n \<Rightarrow> n | None \<Rightarrow> d_id document)
           in case attachmentContentDisposition fileName of Inl f \<Rightarrow> (Inl f, w1) | Inr disposition \<Rightarrow>
             (case presignDownload st \<lparr>dur_key = the (d_storageKey document),
                     dur_expiresInSeconds = downloadUrlTtlSeconds cfg,
                     dur_responseContentType = the (d_mimeType document),
                     dur_responseContentDisposition = disposition\<rparr> of
                Inl f \<Rightarrow> (Inl f, w1)
              | Inr presigned \<Rightarrow>
                  (Inr \<lparr>dl_presigned = presigned, dl_fileName = fileName, dl_contentType = the (d_mimeType document),
                        dl_fileSize = (case d_fileSize document of None \<Rightarrow> 0 | Some s \<Rightarrow> s)\<rparr>,
                   recordEvent (folderEvent DOWNLOAD_URL_CREATED userId ctx None
                     [(''documentId'', DText (d_id document)),
                      (''expiresInSeconds'', DNumber (int (ps_expiresInSeconds presigned)))]) w1))))"

section \<open>Guarantees\<close>

lemma tryDelete_frame [simp]:
  "documents (tryDelete st k w) = documents w" "folders (tryDelete st k w) = folders w"
  by (simp_all add: tryDelete_def split: option.split)

lemma docs_step_tryDelete [simp]: "docs_step u (tryDelete st k w) = docs_step u w"
  by (rule docs_step_frame) simp

lemma buildStorageKey_nonempty: "buildStorageKey e i u d = Inr k \<Longrightarrow> k \<noteq> []"
  by (auto simp: buildStorageKey_def Let_def js_def split: if_splits)

lemma declareUpload_step:
  assumes "k \<noteq> []"
  shows "docs_step w (snd (declareUpload u i k ct sz nm now w))"
proof -
  have "docs_step w (w\<lparr>documents := snd (updateMany (uploadable u i)
            (\<lambda>d. d\<lparr>d_status := UPLOADING, d_storageKey := Some k, d_mimeType := Some ct,
                   d_fileSize := Some sz, d_originalName := Some nm, d_pageCount := None, d_updatedAt := now\<rparr>)
            (documents w))\<rparr>)"
    by (rule docs_step_update)
      (use assms in \<open>auto simp: uploadable_def UPLOADABLE_STATUSES_def ownLive_def doc_row_ok_def doc_le_def truthy_def\<close>)
  then show ?thesis by (auto simp: declareUpload_def case_prod_unfold Let_def docs_step_same)
qed

lemma rejectUpload_step:
  assumes "document_env e"
  shows "docs_step w (rejectUpload e st u d ps ctx w)"
proof -
  let ?w1 = "w\<lparr>documents := snd (updateMany (uploadingUnder u d)
                   (\<lambda>d. d\<lparr>d_status := FAILED_DOC, d_updatedAt := clock e 1\<rparr>) (documents w))\<rparr>"
  have "docs_step w ?w1"
    by (rule docs_step_update) (auto simp: uploadingUnder_def doc_row_ok_def doc_le_def)
  then show ?thesis
    using docs_step_trans [OF _ document_envD [OF assms]] by (simp add: rejectUpload_def Let_def)
qed

text \<open>The write that makes a document ready.\<close>

definition readyWrite :: "run \<Rightarrow> uuid \<Rightarrow> Document \<Rightarrow> StoredObjectMetadata \<Rightarrow> jsstring option \<Rightarrow> World \<Rightarrow> nat \<times> World" where
  "readyWrite e u c h t v =
     (let (n, ds) = updateMany (\<lambda>d. uploadingUnder u c d \<and> d_deletedAt d = None)
            (\<lambda>d. d\<lparr>d_status := READY, d_fileSize := Some (so_size h),
                   d_mimeType := (case t of Some x \<Rightarrow> Some x | None \<Rightarrow> d_mimeType c), d_updatedAt := clock e 0\<rparr>) (documents v)
      in (n, v\<lparr>documents := ds\<rparr>))"

lemma readyWrite_step: "d_mimeType c \<noteq> None \<Longrightarrow> docs_step v (snd (readyWrite e u c h t v))"
  unfolding readyWrite_def Let_def case_prod_unfold snd_conv
  by (rule docs_step_update) (auto simp: uploadingUnder_def doc_row_ok_def doc_le_def split: option.splits)

lemma completeUpload_cases:
  assumes "getOwnedDocument u i ctx w = (Inr c, w)" and "d_status c = UPLOADING" and "truthy (d_storageKey c)"
    and "headObject st (the (d_storageKey c)) = Inr (Some h)"
  shows "uploadProblems uc cfg c h etag \<noteq> [] \<Longrightarrow> \<exists>f. completeUpload e uc st cfg u i etag ctx w
      = (Inl f, rejectUpload e st u c (uploadProblems uc cfg c h etag) ctx (others e 0 w))"
    and "uploadProblems uc cfg c h etag = [] \<Longrightarrow>
      readyWrite e u c h (storedTypeOf uc h) (others e 0 w) = (n, v) \<Longrightarrow> getOwnedDocument u i ctx (others e 1 v) = (r, v') \<Longrightarrow>
      (case r of Inl f \<Rightarrow> completeUpload e uc st cfg u i etag ctx w = (Inl f, v')
       | Inr d \<Rightarrow> if n \<noteq> 1 \<and> d_status d \<noteq> READY then (\<exists>f. completeUpload e uc st cfg u i etag ctx w = (Inl f, v'))
           else (\<exists>evs. completeUpload e uc st cfg u i etag ctx w = (Inr d, v'\<lparr>events := events v' @ evs\<rparr>)))"
  using assms
  by (auto simp: completeUpload_def Let_def readyWrite_def case_prod_unfold recordEvent_def
      split: sum.splits intro: exI [of _ "[]"])

lemma completeUpload_step:
  assumes "document_env e"
  shows "docs_step w (snd (completeUpload e uc st cfg u i etag ctx w))"
proof (cases rule: own.get_cases [of u i ctx w])
  case (missing evs)
  then show ?thesis by (simp add: completeUpload_def docs_step_same)
next
  case (found c)
  have o0: "docs_step w (others e 0 w)" using document_envD [OF assms] .
  show ?thesis
  proof (cases "d_status c = UPLOADING \<and> truthy (d_storageKey c)
      \<and> (\<exists>h. headObject st (the (d_storageKey c)) = Inr (Some h))")
    case False
    with found(1) o0 show ?thesis
      by (auto simp: completeUpload_def docs_step_same split: sum.splits option.splits)
  next
    case True
    then obtain h where h: "headObject st (the (d_storageKey c)) = Inr (Some h)" by blast
    let ?t = "storedTypeOf uc h"
    show ?thesis
    proof (cases "uploadProblems uc cfg c h etag = []")
      case False
      with completeUpload_cases(1) [OF found(1) _ _ h] True obtain f where
        "completeUpload e uc st cfg u i etag ctx w
           = (Inl f, rejectUpload e st u c (uploadProblems uc cfg c h etag) ctx (others e 0 w))" by blast
      with docs_step_trans [OF o0 rejectUpload_step [OF assms]] show ?thesis by simp
    next
      case ok: True
      obtain n v where rw: "readyWrite e u c h ?t (others e 0 w) = (n, v)" by fastforce
      obtain r v' where g: "getOwnedDocument u i ctx (others e 1 v) = (r, v')" by fastforce
      have mime: "d_mimeType c \<noteq> None" if "documents_wf w"
        using that found(2) True by (auto simp: documents_wf_def doc_row_ok_def)
      have "docs_step w v'" if "documents_wf w"
        using docs_step_trans [OF docs_step_trans [OF docs_step_trans [OF o0 readyWrite_step [OF mime [OF that]]]
              document_envD [OF assms]] docs_step_same] rw getOwnedDocument_frame [OF g] by (metis snd_conv)
      moreover have "documents (snd (completeUpload e uc st cfg u i etag ctx w)) = documents v'"
        using completeUpload_cases(2) [OF found(1) _ _ h ok rw g] True
        by (auto split: sum.splits if_splits)
      ultimately show ?thesis by (simp add: docs_step_def documents_wf_def)
    qed
  qed
qed

lemma createUploadUrl_cases:
  obtains (refused) f evs where "createUploadUrl e uc st cfg u i dto ctx w = (Inl f, w\<lparr>events := events w @ evs\<rparr>)"
  | (granted) ct sz nm c k where "validateContentType uc cfg (cu_contentType dto) = Inr ct"
      "validateFileSize cfg (cu_fileSize dto) = Inr sz" "validateFileName uc (cu_fileName dto) ct = Inr nm"
      "getOwnedDocument u i ctx w = (Inr c, w)" "d_status c \<in> set UPLOADABLE_STATUSES"
      "buildStorageKey e 0 u (d_id c) = Inr k"
      "createUploadUrl e uc st cfg u i dto ctx w = grantUpload e st cfg u i ctx ct sz nm c k w"
proof (cases "\<exists>ct sz nm. validateContentType uc cfg (cu_contentType dto) = Inr ct
      \<and> validateFileSize cfg (cu_fileSize dto) = Inr sz \<and> validateFileName uc (cu_fileName dto) ct = Inr nm")
  case False
  then have "\<exists>f. createUploadUrl e uc st cfg u i dto ctx w = (Inl f, w\<lparr>events := events w @ []\<rparr>)"
    by (auto simp: createUploadUrl_def split: sum.splits)
  then show ?thesis using refused by blast
next
  case True
  then obtain ct sz nm where v: "validateContentType uc cfg (cu_contentType dto) = Inr ct"
    "validateFileSize cfg (cu_fileSize dto) = Inr sz" "validateFileName uc (cu_fileName dto) ct = Inr nm" by blast
  show ?thesis
  proof (cases rule: own.get_cases [of u i ctx w])
    case (missing evs)
    with v have "createUploadUrl e uc st cfg u i dto ctx w = (Inl documentNotFound, w\<lparr>events := events w @ evs\<rparr>)"
      by (simp add: createUploadUrl_def)
    then show ?thesis by (rule refused)
  next
    case (found c)
    show ?thesis
    proof (cases "\<exists>k. d_status c \<in> set UPLOADABLE_STATUSES \<and> buildStorageKey e 0 u (d_id c) = Inr k")
      case False
      then have "\<exists>f. createUploadUrl e uc st cfg u i dto ctx w = (Inl f, w\<lparr>events := events w @ []\<rparr>)"
        using v found(1) by (auto simp: createUploadUrl_def split: sum.splits)
      then show ?thesis using refused by blast
    next
      case True
      then obtain k where "d_status c \<in> set UPLOADABLE_STATUSES" "buildStorageKey e 0 u (d_id c) = Inr k" by blast
      with v found(1) show ?thesis by (intro granted [of ct sz nm c k]) (simp_all add: createUploadUrl_def)
    qed
  qed
qed

lemma removeSuperseded_step:
  assumes "document_env e"
  shows "docs_step w (removeSuperseded e st c k w)"
  using document_envD [OF assms, of w 1] by (simp add: removeSuperseded_def docs_step_same)

lemma grantUpload_step:
  assumes "document_env e" and "k \<noteq> []"
  shows "docs_step w (snd (grantUpload e st cfg u i ctx ct sz nm c k w))"
proof -
  obtain r2 w2 where d: "declareUpload u (d_id c) k ct sz nm (clock e 0) (others e 0 w) = (r2, w2)" by fastforce
  have s2: "docs_step w w2"
    using docs_step_trans [OF document_envD [OF assms(1)] declareUpload_step [OF assms(2)]] d by (metis snd_conv)
  define w3 where "w3 = removeSuperseded e st c k w2"
  have s3: "docs_step w w3" unfolding w3_def using docs_step_trans [OF s2 removeSuperseded_step [OF assms(1)]] .
  obtain r4 w4 where g: "getOwnedDocument u i ctx (others e 2 w3) = (r4, w4)" by fastforce
  have s4: "docs_step w w4"
    using docs_step_trans [OF docs_step_trans [OF s3 document_envD [OF assms(1)]] docs_step_same]
      getOwnedDocument_frame [OF g] by blast
  show ?thesis
    using s2 s3 s4 by (auto simp: grantUpload_def d Let_def w3_def [symmetric] g split: sum.splits)
qed

lemma createUploadUrl_step:
  assumes "document_env e"
  shows "docs_step w (snd (createUploadUrl e uc st cfg u i dto ctx w))"
proof (cases rule: createUploadUrl_cases [of e uc st cfg u i dto ctx w])
  case (refused f evs)
  then show ?thesis by (simp add: docs_step_same)
next
  case (granted ct sz nm c k)
  then show ?thesis using grantUpload_step [OF assms buildStorageKey_nonempty] by metis
qed

lemma grantUpload_InrD:
  assumes "grantUpload e st cfg u i ctx ct sz nm c k w = (Inr (ps, d), w')"
  shows "presignUpload st \<lparr>uur_key = k, uur_contentType = ct, uur_contentLength = sz,
      uur_expiresInSeconds = uploadUrlTtlSeconds cfg\<rparr> = Inr ps"
    and "\<exists>x\<in>set (documents (others e 0 w)). uploadable u (d_id c) x"
proof -
  obtain r2 w2 where d: "declareUpload u (d_id c) k ct sz nm (clock e 0) (others e 0 w) = (r2, w2)" by fastforce
  with assms obtain r2: "r2 = Inr 1"
    by (cases r2) (auto simp: grantUpload_def split: if_splits)
  then show "presignUpload st \<lparr>uur_key = k, uur_contentType = ct, uur_contentLength = sz,
      uur_expiresInSeconds = uploadUrlTtlSeconds cfg\<rparr> = Inr ps"
    using assms d by (auto simp: grantUpload_def Let_def split: sum.splits prod.splits)
  have "\<exists>f. fst (updateMany (uploadable u (d_id c)) f (documents (others e 0 w))) = 1"
    using d r2 by (auto simp: declareUpload_def case_prod_unfold Let_def split: if_splits)
  then show "\<exists>x\<in>set (documents (others e 0 w)). uploadable u (d_id c) x" using updateMany_one_ex by blast
qed

lemma validate_limits:
  "validateContentType uc cfg raw = Inr ct \<Longrightarrow> ct \<in> set (map js (allowedMimeTypes cfg))"
  "validateFileSize cfg n = Inr sz \<Longrightarrow> sz = n \<and> 1 \<le> sz \<and> sz \<le> int (maxFileSizeBytes cfg)"
  "validateFileName uc raw ct = Inr nm \<Longrightarrow> sanitizeFileName uc raw = Some nm"
  by (auto simp: validateContentType_def validateFileSize_def validateFileName_def Let_def
      split: if_splits option.splits)

lemma uploadProblems_none:
  assumes "uploadProblems uc cfg c h etag = []"
  shows "d_fileSize c = Some n \<Longrightarrow> so_size h = n" and "so_size h \<le> int (maxFileSizeBytes cfg)"
    and "storedTypeOf uc h = None \<or> (storedTypeOf uc h = d_mimeType c
           \<and> the (storedTypeOf uc h) \<in> set (map js (allowedMimeTypes cfg)))"
  using assms by (auto simp: uploadProblems_def Let_def split: if_splits)

text \<open>A row that is made ready stays ready for as long as it can be loaded.\<close>

lemma readyWrite_ready:
  assumes env: "document_env e" and wf: "documents_wf v" and rw: "readyWrite e u c h t v = (1, v')"
    and mime: "d_mimeType c \<noteq> None" and g: "getOwnedDocument u (d_id c) ctx (others e k v') = (Inr d, v'')"
  shows "d_status d = READY \<and> d_storageKey d = d_storageKey c \<and> d_fileSize d = Some (so_size h)"
proof -
  let ?p = "\<lambda>d. uploadingUnder u c d \<and> d_deletedAt d = None"
  let ?f = "\<lambda>d. d\<lparr>d_status := READY, d_fileSize := Some (so_size h),
                   d_mimeType := (case t of Some x \<Rightarrow> Some x | None \<Rightarrow> d_mimeType c), d_updatedAt := clock e 0\<rparr>"
  have n: "fst (updateMany ?p ?f (documents v)) = 1" and v': "documents v' = snd (updateMany ?p ?f (documents v))"
    using rw by (auto simp: readyWrite_def case_prod_unfold Let_def)
  obtain x where x: "x \<in> set (documents v)" "?p x" using updateMany_one_ex [OF n] by blast
  then have fx: "?f x \<in> set (documents v')" unfolding v' by (auto simp: set_updateMany)
  have wf': "documents_wf v'" using readyWrite_step [OF mime] wf rw by (metis docs_step_def snd_conv)
  have step: "documents_wf (others e k v') \<and> evolves doc_le (documents v') (documents (others e k v'))"
    using document_envD [OF env, of v' k] wf' by (simp add: docs_step_def)
  then obtain y where y: "y \<in> set (documents (others e k v'))" "doc_le (?f x) y" using doc.evolves_row fx by blast
  have d: "d \<in> set (documents (others e k v'))" "d_id d = d_id c" "d_deletedAt d = None"
    using own.get_found [OF g] by auto
  have "d_id y = d_id c" using y(2) x(2) by (auto simp: doc_le_def uploadingUnder_def)
  then have "d = y" using step d y(1) ownLive_unique by (metis documents_wf_def)
  with y(2) d(3) x(2) show ?thesis by (auto simp: doc_le_def fileOf_def uploadingUnder_def)
qed

lemma completeUpload_verified:
  assumes "completeUpload e uc st cfg u i etag ctx w = (Inr d, w')" and "document_env e" and "documents_wf w"
  shows "d \<in> set (documents w') \<and> ownLive u i d \<and> d_status d = READY
    \<and> (\<exists>c\<in>set (documents w). ownLive u i c \<and> (d_status c = READY \<or>
         (d_status c = UPLOADING \<and> (\<exists>h. headObject st (the (d_storageKey c)) = Inr (Some h)
            \<and> d_fileSize c = Some (so_size h) \<and> so_size h \<le> int (maxFileSizeBytes cfg)
            \<and> (storedTypeOf uc h = None \<or> (storedTypeOf uc h = d_mimeType c
                 \<and> the (storedTypeOf uc h) \<in> set (map js (allowedMimeTypes cfg))))))))"
proof (cases rule: own.get_cases [of u i ctx w])
  case (missing evs)
  with assms(1) show ?thesis by (simp add: completeUpload_def)
next
  case (found c)
  have live: "ownLive u i c" using found by (simp add: ownLive_def)
  show ?thesis
  proof (cases "d_status c = READY")
    case True
    with assms(1) found live show ?thesis by (auto simp: completeUpload_def)
  next
    case False
    with assms(1) found obtain h where up: "d_status c = UPLOADING" "truthy (d_storageKey c)"
      and h: "headObject st (the (d_storageKey c)) = Inr (Some h)"
      by (auto simp: completeUpload_def split: if_splits sum.splits option.splits)
    have ok: "uploadProblems uc cfg c h etag = []"
      using completeUpload_cases(1) [OF found(1) up h, of uc cfg etag e] assms(1) by auto
    obtain n v where rw: "readyWrite e u c h (storedTypeOf uc h) (others e 0 w) = (n, v)" by fastforce
    obtain r v' where g: "getOwnedDocument u i ctx (others e 1 v) = (r, v')" by fastforce
    from completeUpload_cases(2) [OF found(1) up h ok rw g] assms(1) obtain evs where
      r: "r = Inr d" "w' = v'\<lparr>events := events v' @ evs\<rparr>" "n = 1 \<or> d_status d = READY"
      by (auto split: sum.splits if_splits)
    have row: "d_mimeType c \<noteq> None" "d_fileSize c \<noteq> None"
      using found(2) up assms(3) by (auto simp: documents_wf_def doc_row_ok_def)
    have wf0: "documents_wf (others e 0 w)"
      using document_envD [OF assms(2)] assms(3) by (simp add: docs_step_def)
    have "d_status d = READY"
      using r(3) readyWrite_ready [OF assms(2) wf0 _ row(1)] rw g r(1) found(3) by metis
    moreover have "d \<in> set (documents w')" "ownLive u i d"
      using own.get_found [OF g [unfolded r(1)]] r(2) by (auto simp: ownLive_def)
    ultimately show ?thesis
      using found(2) live up(1) h uploadProblems_none [OF ok] row(2) by (intro conjI bexI [of _ c]) auto
  qed
qed

section \<open>A concrete upload\<close>

definition demoOwner :: uuid where
  "demoOwner = js ''11111111-1111-4111-8111-111111111111''"

definition demoDocId :: uuid where
  "demoDocId = js ''22222222-2222-4222-8222-222222222222''"

definition demoUpload :: "DocumentStatus \<Rightarrow> Document" where
  "demoUpload s = demoDocument\<lparr>d_id := demoDocId, d_userId := demoOwner, d_status := s, d_storageKey := Some [5],
     d_mimeType := Some (js ''image/png''), d_fileSize := Some 10, d_originalName := Some (js ''a.png'')\<rparr>"

definition demoDesk :: "DocumentStatus \<Rightarrow> World" where
  "demoDesk s = emptyWorld\<lparr>documents := [demoUpload s]\<rparr>"

definition demoUrl :: PresignedUrl where
  "demoUrl = \<lparr>ps_url = [], ps_method = ''PUT'', ps_headers = [], ps_expiresAt = 0, ps_expiresInSeconds = 900\<rparr>"

definition demoStorage :: storage where
  "demoStorage = \<lparr>headObject = (\<lambda>_. Inr (Some \<lparr>so_size = 10, so_contentType = Some (js ''image/png''), so_etag = None\<rparr>)),
     deleteObject = (\<lambda>_. None), presignUpload = (\<lambda>_. Inr demoUrl), presignDownload = (\<lambda>_. Inr demoUrl)\<rparr>"

definition demoLimits :: DocumentsConfig where
  "demoLimits = \<lparr>maxFileSizeBytes = 100, allowedMimeTypes = [''image/png''], uploadUrlTtlSeconds = 900,
     downloadUrlTtlSeconds = 300\<rparr>"

lemma demoDesk_wf: "s \<noteq> DELETED \<Longrightarrow> documents_wf (demoDesk s)"
  by (simp add: documents_wf_def demoDesk_def demoUpload_def demoDocument_def doc_row_ok_def truthy_def)

lemma demoDesk_runs:
  "fst (completeUpload demoRun ascii_unicode demoStorage demoLimits demoOwner demoDocId None demoCtx (demoDesk UPLOADING))
     = Inr (demoUpload READY\<lparr>d_updatedAt := 5\<rparr>)"
  "fst (createUploadUrl demoRun ascii_unicode demoStorage demoLimits demoOwner demoDocId
      \<lparr>cu_fileName = js ''a.png'', cu_contentType = js ''image/png'', cu_fileSize = 10\<rparr> demoCtx (demoDesk FAILED_DOC))
     = Inr (demoUrl, demoUpload UPLOADING\<lparr>d_updatedAt := 5,
         d_storageKey := Some (js ''users/11111111-1111-4111-8111-111111111111/documents/22222222-2222-4222-8222-222222222222/''
           @ concat (replicate 8 (js ''BwcH'')))\<rparr>)"
  "fst (createDownloadUrl demoStorage demoLimits demoOwner demoDocId demoCtx (demoDesk READY))
     = Inr \<lparr>dl_presigned = demoUrl, dl_fileName = js ''a.png'', dl_contentType = js ''image/png'', dl_fileSize = 10\<rparr>"
  by code_simp+

section \<open>Properties\<close>

text \<open>C26. Completing an upload is sound. When it answers with a document, that document is a live, ready
  document of the caller, and either it was ready already or the stored object was inspected
  and agrees with the declaration: same size, within the limit, and no type that differs or is not
  allowed. Requests that run in between cannot make it answer with anything else.\<close>

theorem completeUpload_sound:
  assumes "completeUpload e uc st cfg u i etag ctx w = (Inr d, w')" and "document_env e" and "documents_wf w"
  shows "d \<in> set (documents w') \<and> ownLive u i d \<and> d_status d = READY
    \<and> (\<exists>c\<in>set (documents w). ownLive u i c \<and> (d_status c = READY \<or>
         (d_status c = UPLOADING \<and> (\<exists>h. headObject st (the (d_storageKey c)) = Inr (Some h)
            \<and> d_fileSize c = Some (so_size h) \<and> so_size h \<le> int (maxFileSizeBytes cfg)
            \<and> (storedTypeOf uc h = None \<or> (storedTypeOf uc h = d_mimeType c
                 \<and> the (storedTypeOf uc h) \<in> set (map js (allowedMimeTypes cfg))))))))"
  by (rule completeUpload_verified [OF assms])

theorem completeUpload_sound_witness:
  "d_status (demoUpload READY\<lparr>d_updatedAt := 5\<rparr>) = READY
   \<and> fst (completeUpload demoRun ascii_unicode demoStorage demoLimits demoOwner demoDocId None demoCtx (demoDesk UPLOADING))
     = Inr (demoUpload READY\<lparr>d_updatedAt := 5\<rparr>)"
  using completeUpload_sound [OF _ demoRun_document_env demoDesk_wf [of UPLOADING]] demoDesk_runs(1)
  by (metis (no_types, lifting) DocumentStatus.distinct(17) prod.collapse)

text \<open>The upload handlers keep stored documents within the life cycle: asking for an upload URL and
  completing an upload, verified or rejected, keep every row well-formed and move it along
  \<open>doc_le\<close>; in particular neither replaces the file of a ready document nor touches a deleted one,
  even when the status changed after it was read.\<close>

theorem upload_handlers_evolve:
  assumes "document_env e" and "documents_wf w"
    and "w' \<in> {snd (createUploadUrl e uc st cfg u i dto ctx w), snd (completeUpload e uc st cfg u i etag ctx w)}"
  shows "documents_wf w' \<and> (\<exists>old new. documents w' = old @ new \<and> list_all2 doc_le (documents w) old)"
proof -
  have "docs_step w w'"
    using assms(3) createUploadUrl_step [OF assms(1)] completeUpload_step [OF assms(1)] by auto
  with assms(2) show ?thesis by (simp add: docs_step_def evolves_def)
qed

theorem upload_handlers_evolve_witness:
  "documents_wf (snd (completeUpload demoRun ascii_unicode demoStorage demoLimits demoOwner demoDocId None demoCtx
      (demoDesk UPLOADING)))"
proof -
  have "documents_wf (demoDesk UPLOADING)" by (rule demoDesk_wf) simp
  from upload_handlers_evolve [OF demoRun_document_env this] show ?thesis by blast
qed

text \<open>An upload URL is granted only within the limits: the type is allowed, the size is between one
  byte and the maximum, the stored name is the sanitised one, the row was the caller's own and
  open for an upload when it was written, and what is signed is a key the server generated with
  exactly the declared type and length.\<close>

theorem createUploadUrl_limits:
  assumes "createUploadUrl e uc st cfg u i dto ctx w = (Inr (ps, d), w')" and "random_ok e"
  shows "\<exists>k ct. presignUpload st \<lparr>uur_key = k, uur_contentType = ct, uur_contentLength = cu_fileSize dto,
        uur_expiresInSeconds = uploadUrlTtlSeconds cfg\<rparr> = Inr ps
    \<and> isServerGeneratedStorageKey k \<and> ct = normalizeMimeType uc (cu_contentType dto)
    \<and> ct \<in> set (map js (allowedMimeTypes cfg)) \<and> 1 \<le> cu_fileSize dto \<and> cu_fileSize dto \<le> int (maxFileSizeBytes cfg)
    \<and> sanitizeFileName uc (cu_fileName dto) \<noteq> None
    \<and> (\<exists>x\<in>set (documents (others e 0 w)). ownLive u i x \<and> d_status x \<in> {DRAFT, UPLOADING, FAILED_DOC})"
proof (cases rule: createUploadUrl_cases [of e uc st cfg u i dto ctx w])
  case (refused f evs)
  with assms(1) show ?thesis by simp
next
  case (granted ct sz nm c k)
  have grant: "grantUpload e st cfg u i ctx ct sz nm c k w = (Inr (ps, d), w')" using granted(7) assms(1) by simp
  have "isServerGeneratedStorageKey k" using storageKey_shape [OF assms(2) granted(6)] .
  moreover have "d_id c = i" using own.get_found [OF granted(4)] by simp
  moreover have "ct = normalizeMimeType uc (cu_contentType dto)"
    using granted(1) by (auto simp: validateContentType_def Let_def split: if_splits)
  ultimately show ?thesis
    using grantUpload_InrD [OF grant] validate_limits(1) [OF granted(1)] validate_limits(2) [OF granted(2)]
      validate_limits(3) [OF granted(3)]
    by (intro exI [of _ k] exI [of _ ct]) (auto simp: uploadable_def UPLOADABLE_STATUSES_def)
qed

theorem createUploadUrl_limits_witness:
  "sanitizeFileName ascii_unicode (js ''a.png'') \<noteq> None
   \<and> (\<exists>r. fst (createUploadUrl demoRun ascii_unicode demoStorage demoLimits demoOwner demoDocId
      \<lparr>cu_fileName = js ''a.png'', cu_contentType = js ''image/png'', cu_fileSize = 10\<rparr> demoCtx (demoDesk FAILED_DOC)) = Inr r)"
proof -
  obtain d w' where "createUploadUrl demoRun ascii_unicode demoStorage demoLimits demoOwner demoDocId
      \<lparr>cu_fileName = js ''a.png'', cu_contentType = js ''image/png'', cu_fileSize = 10\<rparr> demoCtx (demoDesk FAILED_DOC)
      = (Inr (demoUrl, d), w')" using demoDesk_runs(2) by (metis prod.collapse)
  moreover have "random_ok demoRun" by (simp add: random_ok_def demoRun_def)
  ultimately show ?thesis using createUploadUrl_limits by fastforce
qed

text \<open>A download URL is signed only for a live, ready document of the caller, for the key and the
  type of that document and with a header that the name cannot break out of; nothing is written.\<close>

theorem createDownloadUrl_scope:
  assumes "createDownloadUrl st cfg u i ctx w = (Inr r, w')"
  shows "\<exists>d\<in>set (documents w). ownLive u i d \<and> d_status d = READY
    \<and> (\<exists>k t disp. d_storageKey d = Some k \<and> d_mimeType d = Some t \<and> dl_contentType r = t
         \<and> attachmentContentDisposition (dl_fileName r) = Inr disp
         \<and> presignDownload st \<lparr>dur_key = k, dur_expiresInSeconds = downloadUrlTtlSeconds cfg,
              dur_responseContentType = t, dur_responseContentDisposition = disp\<rparr> = Inr (dl_presigned r))
    \<and> documents w' = documents w"
proof (cases rule: own.get_cases [of u i ctx w])
  case (missing evs)
  with assms show ?thesis by (simp add: createDownloadUrl_def)
next
  case (found d)
  with assms have ready: "d_status d = READY" "truthy (d_storageKey d)" "truthy (d_mimeType d)"
    by (auto simp: createDownloadUrl_def split: if_splits)
  let ?n = "case d_originalName d of Some n \<Rightarrow> n | None \<Rightarrow> d_id d"
  obtain disp where disp: "attachmentContentDisposition ?n = Inr disp"
    using assms found ready by (cases "attachmentContentDisposition ?n") (auto simp: createDownloadUrl_def)
  let ?q = "\<lparr>dur_key = the (d_storageKey d), dur_expiresInSeconds = downloadUrlTtlSeconds cfg,
      dur_responseContentType = the (d_mimeType d), dur_responseContentDisposition = disp\<rparr>"
  obtain ps where "presignDownload st ?q = Inr ps"
    using assms found ready disp by (cases "presignDownload st ?q") (auto simp: createDownloadUrl_def)
  with assms found ready disp show ?thesis
    by (intro bexI [of _ d])
      (auto simp: createDownloadUrl_def ownLive_def truthy_def split: option.splits)
qed

theorem createDownloadUrl_scope_witness:
  "documents (snd (createDownloadUrl demoStorage demoLimits demoOwner demoDocId demoCtx (demoDesk READY)))
     = documents (demoDesk READY)"
  using createDownloadUrl_scope [of demoStorage demoLimits demoOwner demoDocId demoCtx "demoDesk READY"] demoDesk_runs(3)
  by (metis prod.collapse)

text \<open>An unknown extension is meant not to matter, but the lookup of the implied type also finds the
  members every object inherits: a file with the extension \<open>constructor\<close> is refused whatever type
  it declares.\<close>

theorem inherited_extension_refused:
  "validateFileName ascii_unicode (js ''notes.constructor'') ct
     = Inl (unsupportedFileType ''The file extension does not match the declared content type'')"
proof -
  have "sanitizeFileName ascii_unicode (js ''notes.constructor'') = Some (js ''notes.constructor'')" by code_simp
  moreover have "mimeTypeForExtension (extensionOf ascii_unicode (js ''notes.constructor'')) = Some InheritedMember"
    by code_simp
  ultimately show ?thesis by (simp add: validateFileName_def js_def)
qed

end
