(* ===== verification/File_Signature.thy ===== *)
theory File_Signature
  imports Js_Strings
begin

unbundle bit_operations_syntax

text \<open>
  Format detection and image dimensions from the first bytes of a stored file:
  \<open>ocr/tools/file-signature.ts\<close>. A buffer is a list of bytes. Reading an element past its end
  gives \<open>undefined\<close> (\<open>None\<close>), and \<open>readUInt*\<close> past its end throws, which is the left value of
  the result; that neither ever happens here is one of the theorems. The marker loop of the JPEG
  reader is a recursive function with a termination proof.
\<close>

section \<open>Buffers\<close>

definition subarray :: "nat \<Rightarrow> nat \<Rightarrow> bytes \<Rightarrow> bytes" where
  "subarray i j b = take (j - i) (drop i b)"

definition latin1 :: "bytes \<Rightarrow> string" where
  "latin1 b = map (\<lambda>x. char_of (unat x)) b"

definition byteAt :: "bytes \<Rightarrow> nat \<Rightarrow> 8 word option" where
  "byteAt b i = (if i < length b then Some (b ! i) else None)"

definition byteIs :: "8 word option \<Rightarrow> 8 word \<Rightarrow> bool" where
  "byteIs m v \<longleftrightarrow> m = Some v"

definition byteIn :: "8 word option \<Rightarrow> 8 word \<Rightarrow> 8 word \<Rightarrow> bool" where
  "byteIn m lo hi \<longleftrightarrow> (case m of None \<Rightarrow> False | Some v \<Rightarrow> lo \<le> v \<and> v \<le> hi)"

text \<open>A read of \<open>n\<close> bytes as an unsigned number; \<open>ERR_OUT_OF_RANGE\<close> past the end.\<close>

definition bigEndian :: "bytes \<Rightarrow> nat" where
  "bigEndian b = foldl (\<lambda>n x. n * 256 + unat x) 0 b"

definition readBE :: "nat \<Rightarrow> bytes \<Rightarrow> nat \<Rightarrow> string + nat" where
  "readBE n b i = (if i + n \<le> length b then Inr (bigEndian (subarray i (i + n) b))
                   else Inl ''ERR_OUT_OF_RANGE'')"

definition readLE :: "nat \<Rightarrow> bytes \<Rightarrow> nat \<Rightarrow> string + nat" where
  "readLE n b i = (if i + n \<le> length b then Inr (bigEndian (rev (subarray i (i + n) b)))
                   else Inl ''ERR_OUT_OF_RANGE'')"

text \<open>The bit operations of the language work on 32-bit integers.\<close>

definition int32_and :: "nat \<Rightarrow> 32 word \<Rightarrow> nat" where
  "int32_and n bitMask = unat ((of_nat n :: 32 word) AND bitMask)"

definition int32_shr :: "nat \<Rightarrow> nat \<Rightarrow> nat" where
  "int32_shr n k = unat (drop_bit k (of_nat n :: 32 word))"

section \<open>Detection\<close>

datatype DetectedFormat = Pdf | Jpeg | Png | Webp

record ImageDimensions =
  imageWidth :: nat
  imageHeight :: nat

fun FORMAT_MIME_TYPES :: "DetectedFormat \<Rightarrow> string" where
  "FORMAT_MIME_TYPES Pdf = ''application/pdf''"
| "FORMAT_MIME_TYPES Jpeg = ''image/jpeg''"
| "FORMAT_MIME_TYPES Png = ''image/png''"
| "FORMAT_MIME_TYPES Webp = ''image/webp''"

definition SIGNATURE_PROBE_BYTES :: nat where
  "SIGNATURE_PROBE_BYTES = 64 * 1024"

definition PNG_SIGNATURE :: bytes where
  "PNG_SIGNATURE = [0x89, 0x50, 0x4e, 0x47, 0x0d, 0x0a, 0x1a, 0x0a]"

definition detectFormat :: "bytes \<Rightarrow> DetectedFormat option" where
  "detectFormat head =
     (if length head \<ge> 5 \<and> latin1 (subarray 0 5 head) = ''%PDF-'' then Some Pdf
      else if length head \<ge> 8 \<and> subarray 0 8 head = PNG_SIGNATURE then Some Png
      else if length head \<ge> 3 \<and> byteIs (byteAt head 0) 0xff \<and> byteIs (byteAt head 1) 0xd8
              \<and> byteIs (byteAt head 2) 0xff then Some Jpeg
      else if length head \<ge> 12 \<and> latin1 (subarray 0 4 head) = ''RIFF''
              \<and> latin1 (subarray 8 12 head) = ''WEBP'' then Some Webp
      else None)"

section \<open>Dimensions\<close>

definition validDimensions :: "nat \<Rightarrow> nat \<Rightarrow> ImageDimensions option" where
  "validDimensions width height =
     (if width > 0 \<and> height > 0 then Some \<lparr>imageWidth = width, imageHeight = height\<rparr> else None)"

text \<open>Sequencing of reads that may throw.\<close>

definition readThen :: "string + 'a \<Rightarrow> ('a \<Rightarrow> string + 'b) \<Rightarrow> string + 'b" where
  "readThen r f = (case r of Inl e \<Rightarrow> Inl e | Inr v \<Rightarrow> f v)"

definition pngDimensions :: "bytes \<Rightarrow> string + ImageDimensions option" where
  "pngDimensions head =
     (if length head < 24 then Inr None
      else if latin1 (subarray 12 16 head) \<noteq> ''IHDR'' then Inr None
      else readThen (readBE 4 head 16) (\<lambda>width.
             readThen (readBE 4 head 20) (\<lambda>height. Inr (validDimensions width height))))"

definition isStandalone :: "8 word option \<Rightarrow> bool" where
  "isStandalone marker \<longleftrightarrow> byteIs marker 0xd8 \<or> byteIn marker 0xd0 0xd7 \<or> byteIs marker 0x01"

definition isSof :: "8 word option \<Rightarrow> bool" where
  "isSof marker \<longleftrightarrow> byteIn marker 0xc0 0xcf \<and> \<not> byteIs marker 0xc4 \<and> \<not> byteIs marker 0xc8
     \<and> \<not> byteIs marker 0xcc"

function jpegLoop :: "bytes \<Rightarrow> nat \<Rightarrow> string + ImageDimensions option" where
  "jpegLoop head offset =
     (if \<not> offset + 9 \<le> length head then Inr None
      else if \<not> byteIs (byteAt head offset) 0xff then Inr None
      else let marker = byteAt head (offset + 1)
           in if byteIs marker 0xff then jpegLoop head (offset + 1)
              else if isStandalone marker then jpegLoop head (offset + 2)
              else if byteIs marker 0xd9 \<or> byteIs marker 0xda then Inr None
              else case readBE 2 head (offset + 2) of
                     Inl e \<Rightarrow> Inl e
                   | Inr len \<Rightarrow>
                       if len < 2 then Inr None
                       else if isSof marker
                       then readThen (readBE 2 head (offset + 5)) (\<lambda>height.
                              readThen (readBE 2 head (offset + 7)) (\<lambda>width.
                                Inr (validDimensions width height)))
                       else jpegLoop head (offset + (2 + len)))"
  by pat_completeness auto
termination
  by (relation "measure (\<lambda>(head, offset). length head - offset)") auto

declare jpegLoop.simps [simp del]

definition jpegDimensions :: "bytes \<Rightarrow> string + ImageDimensions option" where
  "jpegDimensions head = jpegLoop head 2"

definition webpDimensions :: "bytes \<Rightarrow> string + ImageDimensions option" where
  "webpDimensions head =
     (if length head < 30 then Inr None
      else let chunk = latin1 (subarray 12 16 head)
           in if chunk = ''VP8 '' then
                (if \<not> byteIs (byteAt head 23) 0x9d \<or> \<not> byteIs (byteAt head 24) 0x01
                    \<or> \<not> byteIs (byteAt head 25) 0x2a then Inr None
                 else readThen (readLE 2 head 26) (\<lambda>w.
                        readThen (readLE 2 head 28) (\<lambda>h.
                          Inr (validDimensions (int32_and w 0x3fff) (int32_and h 0x3fff)))))
              else if chunk = ''VP8L'' then
                (if \<not> byteIs (byteAt head 20) 0x2f then Inr None
                 else readThen (readLE 4 head 21) (\<lambda>bits.
                        Inr (validDimensions (int32_and bits 0x3fff + 1)
                               (int32_and (int32_shr bits 14) 0x3fff + 1))))
              else if chunk = ''VP8X'' then
                readThen (readLE 3 head 24) (\<lambda>w.
                  readThen (readLE 3 head 27) (\<lambda>h.
                    Inr (validDimensions (int32_and w 0xffffff + 1) (int32_and h 0xffffff + 1))))
              else Inr None)"

text \<open>For the PDF format the function is not called; its type excludes it.\<close>

definition readImageDimensions :: "DetectedFormat \<Rightarrow> bytes \<Rightarrow> string + ImageDimensions option" where
  "readImageDimensions fmt head =
     (case fmt of
        Png \<Rightarrow> pngDimensions head
      | Jpeg \<Rightarrow> jpegDimensions head
      | Webp \<Rightarrow> webpDimensions head
      | Pdf \<Rightarrow> Inr None)"

section \<open>Numbers in a buffer\<close>

text \<open>The encodings the readers invert, for numbers of the given width.\<close>

fun encodeBE :: "nat \<Rightarrow> nat \<Rightarrow> bytes" where
  "encodeBE 0 v = []"
| "encodeBE (Suc n) v = encodeBE n (v div 256) @ [of_nat (v mod 256)]"

definition encodeLE :: "nat \<Rightarrow> nat \<Rightarrow> bytes" where
  "encodeLE n v = rev (encodeBE n v)"

lemma length_encodeBE [simp]: "length (encodeBE n v) = n"
  by (induction n v rule: encodeBE.induct) auto

lemma bigEndian_snoc: "bigEndian (b @ [x]) = bigEndian b * 256 + unat x"
  by (simp add: bigEndian_def)

lemma unat_of_mod_256 [simp]: "unat (of_nat (v mod 256) :: 8 word) = v mod 256"
  by (simp add: unat_of_nat)

lemma bigEndian_encodeBE: "v < 256 ^ n \<Longrightarrow> bigEndian (encodeBE n v) = v"
proof (induction n v rule: encodeBE.induct)
  case (1 v)
  then show ?case by (simp add: bigEndian_def)
next
  case (2 n v)
  then have "v div 256 < 256 ^ n" by (simp add: less_mult_imp_div_less)
  with 2 show ?case by (simp add: bigEndian_snoc div_mult_mod_eq)
qed

lemma bigEndian_bound: "bigEndian b < 256 ^ length b"
proof (induction b rule: rev_induct)
  case (snoc x b)
  have "unat x < 256" by (rule unat_byte)
  then show ?case using snoc by (simp add: bigEndian_snoc)
qed (simp add: bigEndian_def)

lemma subarray_append [simp]:
  "i = length p \<Longrightarrow> j = i + length m \<Longrightarrow> subarray i j (p @ m @ r) = m"
  by (simp add: subarray_def)

lemma readBE_inverse:
  "i = length p \<Longrightarrow> v < 256 ^ n \<Longrightarrow> readBE n (p @ encodeBE n v @ r) i = Inr v"
  by (simp add: readBE_def bigEndian_encodeBE)

lemma readLE_inverse:
  "i = length p \<Longrightarrow> v < 256 ^ n \<Longrightarrow> readLE n (p @ encodeLE n v @ r) i = Inr v"
  by (simp add: readLE_def encodeLE_def bigEndian_encodeBE)

lemma readBE_ok: "i + n \<le> length b \<Longrightarrow> \<exists>v. readBE n b i = Inr v \<and> v < 256 ^ n"
  using bigEndian_bound [of "subarray i (i + n) b"] by (auto simp: readBE_def subarray_def)

lemma readLE_ok: "i + n \<le> length b \<Longrightarrow> \<exists>v. readLE n b i = Inr v \<and> v < 256 ^ n"
  using bigEndian_bound [of "rev (subarray i (i + n) b)"] by (auto simp: readLE_def subarray_def)

lemma int32_and_mask:
  assumes "m = 2 ^ k - 1" and "k < 32"
  shows "int32_and n m = n mod 2 ^ k"
proof -
  have "(of_nat n :: 32 word) AND m = take_bit k (of_nat n)"
    by (simp add: assms(1) take_bit_eq_mask mask_eq_exp_minus_1)
  then have "int32_and n m = take_bit k (unat (of_nat n :: 32 word))"
    by (simp only: int32_and_def unsigned_take_bit_eq)
  also have "\<dots> = n mod 2 ^ 32 mod 2 ^ k"
    by (simp add: unat_of_nat take_bit_eq_mod)
  also have "\<dots> = n mod 2 ^ k"
    using assms(2) by (intro mod_mod_cancel le_imp_power_dvd) simp
  finally show ?thesis .
qed

lemma int32_shr_small:
  assumes "n < 2 ^ 32"
  shows "int32_shr n k = n div 2 ^ k"
proof -
  have "int32_shr n k = drop_bit k (unat (of_nat n :: 32 word))"
    by (simp only: int32_shr_def unsigned_drop_bit_eq) (simp add: unat_of_nat take_bit_eq_mod)
  then show ?thesis using assms by (simp add: unat_of_nat drop_bit_eq_div)
qed

lemmas masks = int32_and_mask [where k = 14, simplified] int32_and_mask [where k = 24, simplified]

section \<open>No read leaves the buffer\<close>

definition readsWell :: "nat \<Rightarrow> string + ImageDimensions option \<Rightarrow> bool" where
  "readsWell bound r \<longleftrightarrow> (case r of
      Inl _ \<Rightarrow> False
    | Inr None \<Rightarrow> True
    | Inr (Some d) \<Rightarrow> 0 < imageWidth d \<and> imageWidth d \<le> bound \<and> 0 < imageHeight d \<and> imageHeight d \<le> bound)"

lemma readsWell_None [simp]: "readsWell bound (Inr None)"
  by (simp add: readsWell_def)

lemma readsWell_valid: "w \<le> bound \<Longrightarrow> h \<le> bound \<Longrightarrow> readsWell bound (Inr (validDimensions w h))"
  by (simp add: readsWell_def validDimensions_def)

lemma readsWell_readBE:
  "i + n \<le> length b \<Longrightarrow> (\<And>v. v < 256 ^ n \<Longrightarrow> readsWell bound (f v)) \<Longrightarrow> readsWell bound (readThen (readBE n b i) f)"
  using readBE_ok [of i n b] by (auto simp: readThen_def)

lemma readsWell_readLE:
  "i + n \<le> length b \<Longrightarrow> (\<And>v. v < 256 ^ n \<Longrightarrow> readsWell bound (f v)) \<Longrightarrow> readsWell bound (readThen (readLE n b i) f)"
  using readLE_ok [of i n b] by (auto simp: readThen_def)

lemmas reads_intros = readsWell_readBE readsWell_readLE readsWell_valid

lemma pngDimensions_reads: "readsWell (2 ^ 32 - 1) (pngDimensions head)"
  unfolding pngDimensions_def by (auto intro!: reads_intros)

lemma jpegLoop_reads: "readsWell (2 ^ 16 - 1) (jpegLoop head offset)"
proof (induction head offset rule: jpegLoop.induct)
  case (1 head offset)
  show ?case
  proof (cases "offset + 9 \<le> length head \<and> byteIs (byteAt head offset) 0xff")
    case True
    then obtain len where len: "readBE 2 head (offset + 2) = Inr len"
      using readBE_ok [of "offset + 2" 2 head] by auto
    have "readsWell (2 ^ 16 - 1) (readThen (readBE 2 head (offset + 5)) (\<lambda>height.
        readThen (readBE 2 head (offset + 7)) (\<lambda>width. Inr (validDimensions width height))))"
      using True by (auto intro!: reads_intros)
    then show ?thesis
      using True 1 len by (subst jpegLoop.simps) (simp add: Let_def)
  next
    case False
    then show ?thesis by (subst jpegLoop.simps) auto
  qed
qed

lemma webpDimensions_reads: "readsWell (2 ^ 24) (webpDimensions head)"
proof -
  have 14: "n mod 2 ^ 14 + 1 \<le> 2 ^ 24" for n :: nat
    using mod_less_divisor [of "2 ^ 14" n] by simp
  have 24: "n mod 2 ^ 24 + 1 \<le> 2 ^ 24" for n :: nat
    using mod_less_divisor [of "2 ^ 24" n] by simp
  show ?thesis
    unfolding webpDimensions_def Let_def
    using 14 24 by (auto intro!: reads_intros simp: masks intro: le_trans [OF _ 14] le_trans [OF _ 24])
qed

section \<open>Headers with known dimensions\<close>

definition pngHead :: "nat \<Rightarrow> nat \<Rightarrow> bytes" where
  "pngHead w h = PNG_SIGNATURE @ encodeBE 4 13 @ [0x49, 0x48, 0x44, 0x52] @ encodeBE 4 w @ encodeBE 4 h"

text \<open>What a JPEG file may hold between its first marker and its frame header.\<close>

datatype jpeg_part = Fill | Marker "8 word" | Segment "8 word" bytes

fun partBytes :: "jpeg_part \<Rightarrow> bytes" where
  "partBytes Fill = [0xff]"
| "partBytes (Marker m) = [0xff, m]"
| "partBytes (Segment m payload) = [0xff, m] @ encodeBE 2 (length payload + 2) @ payload"

fun partOk :: "jpeg_part \<Rightarrow> bool" where
  "partOk Fill = True"
| "partOk (Marker m) = isStandalone (Some m)"
| "partOk (Segment m payload) \<longleftrightarrow> m \<notin> set [0xff, 0xd9, 0xda] \<and> \<not> isStandalone (Some m) \<and> \<not> isSof (Some m)
     \<and> length payload + 2 < 65536"

definition frameBytes :: "8 word \<Rightarrow> nat \<Rightarrow> 8 word \<Rightarrow> nat \<Rightarrow> nat \<Rightarrow> bytes" where
  "frameBytes m len precision w h = [0xff, m] @ encodeBE 2 len @ [precision] @ encodeBE 2 h @ encodeBE 2 w"

definition jpegHead :: "jpeg_part list \<Rightarrow> bytes \<Rightarrow> bytes" where
  "jpegHead parts frame = [0xff, 0xd8] @ concat (map partBytes parts) @ frame"

lemma byteAt_append [simp]: "byteAt (p @ r) (length p + i) = byteAt r i"
  by (simp add: byteAt_def)

lemma byteAt_append_Suc [simp]: "byteAt (p @ r) (Suc (length p)) = byteAt r (Suc 0)"
  using byteAt_append [of p r 1] by simp

lemma readBE_append [simp]: "readBE n (p @ r) (length p + i) = readBE n r i"
  by (simp add: readBE_def subarray_def)

lemma readBE_append_2 [simp]: "readBE n (p @ r) (Suc (Suc (length p))) = readBE n r 2"
  using readBE_append [of n p r 2] by (simp add: numeral_2_eq_2)

lemma sof_marker:
  "isSof (Some m) \<Longrightarrow> m \<noteq> 0xff \<and> \<not> isStandalone (Some m) \<and> m \<noteq> 0xd9 \<and> m \<noteq> 0xda"
  by (auto simp: isSof_def isStandalone_def byteIn_def byteIs_def word_le_nat_alt)

lemma standalone_marker: "isStandalone (Some m) \<Longrightarrow> m \<noteq> 0xff"
  by (auto simp: isStandalone_def byteIn_def byteIs_def word_le_nat_alt)

lemma frame_read:
  assumes "isSof (Some m)" and "2 \<le> len" "len < 65536" and "0 < w" "w < 65536" "0 < h" "h < 65536"
  shows "jpegLoop (pre @ frameBytes m len precision w h @ rest) (length pre)
         = Inr (Some \<lparr>imageWidth = w, imageHeight = h\<rparr>)"
proof -
  let ?f = "frameBytes m len precision w h @ rest"
  have "readBE 2 ?f 2 = Inr len"
    using readBE_inverse [of 2 "[0xff, m]" len 2] assms(3) by (simp add: frameBytes_def)
  moreover have "readBE 2 ?f 5 = Inr h"
    using readBE_inverse [of 5 "[0xff, m] @ encodeBE 2 len @ [precision]" h 2] assms(7)
    by (simp add: frameBytes_def)
  moreover have "readBE 2 ?f 7 = Inr w"
    using readBE_inverse [of 7 "[0xff, m] @ encodeBE 2 len @ [precision] @ encodeBE 2 h" w 2] assms(5)
    by (simp add: frameBytes_def)
  moreover have "byteAt ?f 0 = Some 0xff" "byteAt ?f 1 = Some m" "9 \<le> length ?f"
    by (simp_all add: frameBytes_def byteAt_def)
  moreover have "byteAt (pre @ ?f) (length pre) = byteAt ?f 0"
    using byteAt_append [of pre ?f 0] by simp
  ultimately show ?thesis
    using sof_marker [OF assms(1)] assms
    by (subst jpegLoop.simps) (simp add: byteIs_def readThen_def validDimensions_def Let_def)
qed

lemma part_skipped:
  assumes "partOk p" and "9 \<le> length tail" and "byteAt tail 0 = Some 0xff"
  shows "jpegLoop (pre @ partBytes p @ tail) (length pre)
         = jpegLoop ((pre @ partBytes p) @ tail) (length (pre @ partBytes p))"
proof -
  let ?t = "partBytes p @ tail"
  have len: "length pre + 9 \<le> length (pre @ ?t)" using assms(2) by simp
  have first: "byteAt (pre @ ?t) (length pre) = Some 0xff"
    using byteAt_append [of pre ?t 0] by (cases p) (simp_all add: byteAt_def)
  have tail: "tail \<noteq> []" "tail ! 0 = 0xff" using assms(3) by (auto simp: byteAt_def split: if_splits)
  show ?thesis
  proof (cases p)
    case Fill
    then have "byteAt (pre @ ?t) (length pre + 1) = Some 0xff"
      using tail byteAt_append [of pre ?t 1] by (simp add: byteAt_def)
    then show ?thesis using len first Fill by (subst jpegLoop.simps) (simp add: byteIs_def Let_def)
  next
    case (Marker m)
    then have "byteAt (pre @ ?t) (length pre + 1) = Some m"
      using byteAt_append [of pre ?t 1] by (simp add: byteAt_def)
    then show ?thesis
      using len first Marker assms(1) standalone_marker by (subst jpegLoop.simps) (simp add: byteIs_def Let_def)
  next
    case (Segment m payload)
    then have m: "byteAt (pre @ ?t) (length pre + 1) = Some m"
      using byteAt_append [of pre ?t 1] by (simp add: byteAt_def)
    have "readBE 2 (pre @ ?t) (length pre + 2) = Inr (length payload + 2)"
      using Segment assms(1) readBE_append [of 2 pre ?t 2]
        readBE_inverse [of 2 "[0xff, m]" "length payload + 2" 2 "payload @ tail"] by simp
    then show ?thesis
      using len first m Segment assms(1) by (subst jpegLoop.simps) (simp add: byteIs_def Let_def)
  qed
qed

lemma parts_skipped:
  assumes "list_all partOk parts" and "9 \<le> length tail" and "byteAt tail 0 = Some 0xff"
  shows "jpegLoop (pre @ concat (map partBytes parts) @ tail) (length pre)
         = jpegLoop ((pre @ concat (map partBytes parts)) @ tail) (length (pre @ concat (map partBytes parts)))"
  using assms(1)
proof (induction parts arbitrary: pre)
  case (Cons p parts)
  let ?r = "concat (map partBytes parts) @ tail"
  have "byteAt ?r 0 = Some 0xff"
  proof (cases parts)
    case (Cons q qs)
    then show ?thesis by (cases q) (simp_all add: byteAt_def)
  qed (simp add: assms(3))
  then show ?case
    using part_skipped [of p ?r pre] assms(2) Cons.prems Cons.IH [of "pre @ partBytes p"] by simp
qed simp

lemma jpegDimensions_frame:
  assumes "list_all partOk parts" and "isSof (Some m)" and "2 \<le> len" "len < 65536"
    and "0 < w" "w < 65536" "0 < h" "h < 65536"
  shows "jpegDimensions (jpegHead parts (frameBytes m len precision w h @ rest))
         = Inr (Some \<lparr>imageWidth = w, imageHeight = h\<rparr>)"
proof -
  have "byteAt (frameBytes m len precision w h @ rest) 0 = Some 0xff"
    "9 \<le> length (frameBytes m len precision w h @ rest)"
    by (simp_all add: frameBytes_def byteAt_def)
  then have "jpegDimensions (jpegHead parts (frameBytes m len precision w h @ rest))
      = jpegLoop (([0xff, 0xd8] @ concat (map partBytes parts)) @ frameBytes m len precision w h @ rest)
          (length ([0xff, 0xd8] @ concat (map partBytes parts)))"
    using parts_skipped [OF assms(1), of "frameBytes m len precision w h @ rest" "[0xff, 0xd8]"]
    by (simp add: jpegDimensions_def jpegHead_def numeral_2_eq_2)
  then show ?thesis by (simp only: frame_read [OF assms(2-)])
qed

definition riffHead :: "bytes \<Rightarrow> bytes \<Rightarrow> bytes \<Rightarrow> bytes" where
  "riffHead sz tag body = [0x52, 0x49, 0x46, 0x46] @ take 4 (sz @ [0, 0, 0, 0])
     @ [0x57, 0x45, 0x42, 0x50] @ tag @ body"

text \<open>The three kinds of first chunk: extended, lossless and lossy. The four bytes behind the tag
  are its length; \<open>extra\<close> stands for the flag and scale bits next to the dimensions.\<close>

definition vp8xHead :: "bytes \<Rightarrow> 8 word \<Rightarrow> nat \<Rightarrow> nat \<Rightarrow> bytes" where
  "vp8xHead sz flags w h = riffHead sz [0x56, 0x50, 0x38, 0x58]
     ([10, 0, 0, 0, flags, 0, 0, 0] @ encodeLE 3 (w - 1) @ encodeLE 3 (h - 1))"

definition vp8lHead :: "bytes \<Rightarrow> nat \<Rightarrow> nat \<Rightarrow> nat \<Rightarrow> bytes" where
  "vp8lHead sz extra w h = riffHead sz [0x56, 0x50, 0x38, 0x4c]
     ([0, 0, 0, 0, 0x2f] @ encodeLE 4 ((w - 1) + 2 ^ 14 * (h - 1) + 2 ^ 28 * extra))"

definition vp8Head :: "bytes \<Rightarrow> nat \<Rightarrow> nat \<Rightarrow> nat \<Rightarrow> nat \<Rightarrow> bytes" where
  "vp8Head sz xscale yscale w h = riffHead sz [0x56, 0x50, 0x38, 0x20]
     ([0, 0, 0, 0, 0, 0, 0, 0x9d, 0x01, 0x2a] @ encodeLE 2 (w + 2 ^ 14 * xscale)
        @ encodeLE 2 (h + 2 ^ 14 * yscale))"

lemma take_4_pad: "\<exists>a b c d. take 4 (s @ [0, 0, 0, 0]) = [a, b, c, d]" for s :: bytes
proof -
  have four: "\<exists>a b c d. xs = [a, b, c, d]" if "length xs = 4" for xs :: bytes
    using that by (auto simp: numeral_eq_Suc length_Suc_conv)
  show ?thesis by (rule four) simp
qed

lemma riffHead_shape:
  "\<exists>a b c d. \<forall>tag body. riffHead sz tag body
    = [0x52, 0x49, 0x46, 0x46, a, b, c, d, 0x57, 0x45, 0x42, 0x50] @ tag @ body"
  using take_4_pad [of sz] unfolding riffHead_def by auto

lemma latin1_tags [simp]:
  "latin1 [0x49, 0x48, 0x44, 0x52] = ''IHDR''" "latin1 [0x56, 0x50, 0x38, 0x58] = ''VP8X''"
  "latin1 [0x56, 0x50, 0x38, 0x4c] = ''VP8L''" "latin1 [0x56, 0x50, 0x38, 0x20] = ''VP8 ''"
  "latin1 [0x52, 0x49, 0x46, 0x46] = ''RIFF''" "latin1 [0x57, 0x45, 0x42, 0x50] = ''WEBP''"
  by code_simp+

lemma low_part: "a < n \<Longrightarrow> (a + n * b) mod n = a \<and> (a + n * b) div n = b" for a b n :: nat
  by simp

lemma length_encodeLE [simp]: "length (encodeLE n v) = n"
  by (simp add: encodeLE_def)

lemma pngDimensions_head:
  assumes "0 < w" "w < 2 ^ 32" "0 < h" "h < 2 ^ 32"
  shows "pngDimensions (pngHead w h @ rest) = Inr (Some \<lparr>imageWidth = w, imageHeight = h\<rparr>)"
proof -
  let ?p = "PNG_SIGNATURE @ encodeBE 4 13 @ [0x49, 0x48, 0x44, 0x52]"
  have "subarray 12 16 (pngHead w h @ rest) = [0x49, 0x48, 0x44, 0x52]"
    using subarray_append [of 12 "PNG_SIGNATURE @ encodeBE 4 13" 16 "[0x49, 0x48, 0x44, 0x52]"]
    by (simp add: pngHead_def PNG_SIGNATURE_def)
  moreover have "readBE 4 (pngHead w h @ rest) 16 = Inr w"
    using readBE_inverse [of 16 ?p w 4] assms by (simp add: pngHead_def PNG_SIGNATURE_def)
  moreover have "readBE 4 (pngHead w h @ rest) 20 = Inr h"
    using readBE_inverse [of 20 "?p @ encodeBE 4 w" h 4] assms by (simp add: pngHead_def PNG_SIGNATURE_def)
  moreover have "24 \<le> length (pngHead w h @ rest)" by (simp add: pngHead_def PNG_SIGNATURE_def)
  ultimately show ?thesis using assms by (simp add: pngDimensions_def readThen_def validDimensions_def)
qed

lemma vp8xDimensions:
  assumes "0 < w" "w \<le> 2 ^ 24" "0 < h" "h \<le> 2 ^ 24"
  shows "webpDimensions (vp8xHead sz flags w h @ rest) = Inr (Some \<lparr>imageWidth = w, imageHeight = h\<rparr>)"
proof -
  obtain a b c d where head: "\<And>tag body. riffHead sz tag body
      = [0x52, 0x49, 0x46, 0x46, a, b, c, d, 0x57, 0x45, 0x42, 0x50] @ tag @ body"
    using riffHead_shape [of sz] by blast
  let ?p = "[0x52, 0x49, 0x46, 0x46, a, b, c, d, 0x57, 0x45, 0x42, 0x50, 0x56, 0x50, 0x38, 0x58,
      10, 0, 0, 0, flags, 0, 0, 0]"
  let ?head = "vp8xHead sz flags w h @ rest"
  have shape: "?head = ?p @ encodeLE 3 (w - 1) @ encodeLE 3 (h - 1) @ rest"
    by (simp add: vp8xHead_def head)
  have "readLE 3 ?head 24 = Inr (w - 1)" "readLE 3 ?head 27 = Inr (h - 1)"
    using readLE_inverse [of 24 ?p "w - 1" 3] readLE_inverse [of 27 "?p @ encodeLE 3 (w - 1)" "h - 1" 3]
      assms by (simp_all add: shape)
  moreover have "latin1 (subarray 12 16 ?head) = ''VP8X''"
    by (simp add: shape subarray_def)
  ultimately show ?thesis
    using assms by (simp add: webpDimensions_def shape readThen_def validDimensions_def masks)
qed

lemma vp8lDimensions:
  assumes "0 < w" "w \<le> 2 ^ 14" "0 < h" "h \<le> 2 ^ 14" "extra < 16" and "5 \<le> length rest"
  shows "webpDimensions (vp8lHead sz extra w h @ rest) = Inr (Some \<lparr>imageWidth = w, imageHeight = h\<rparr>)"
proof -
  obtain a b c d where head: "\<And>tag body. riffHead sz tag body
      = [0x52, 0x49, 0x46, 0x46, a, b, c, d, 0x57, 0x45, 0x42, 0x50] @ tag @ body"
    using riffHead_shape [of sz] by blast
  let ?p = "[0x52, 0x49, 0x46, 0x46, a, b, c, d, 0x57, 0x45, 0x42, 0x50, 0x56, 0x50, 0x38, 0x4c,
      0, 0, 0, 0, 0x2f]"
  let ?bits = "(w - 1) + 2 ^ 14 * (h - 1) + 2 ^ 28 * extra"
  let ?head = "vp8lHead sz extra w h @ rest"
  have shape: "?head = ?p @ encodeLE 4 ?bits @ rest"
    by (simp add: vp8lHead_def head)
  have wh: "w - 1 < 2 ^ 14" "h - 1 < 2 ^ 14" using assms by auto
  then have bits: "?bits < 2 ^ 32" using assms(5) by simp
  have "readLE 4 ?head 21 = Inr ?bits"
    using readLE_inverse [of 21 ?p ?bits 4] bits by (simp add: shape)
  moreover have split: "?bits = (w - 1) + 2 ^ 14 * ((h - 1) + 2 ^ 14 * extra)" by simp
  have "?bits mod 2 ^ 14 = w - 1" "?bits div 2 ^ 14 = (h - 1) + 2 ^ 14 * extra"
    unfolding split using low_part [OF wh(1)] by blast+
  moreover have "((h - 1) + 2 ^ 14 * extra) mod 2 ^ 14 = h - 1"
    using low_part [OF wh(2)] by blast
  moreover have "latin1 (subarray 12 16 ?head) = ''VP8L''"
    by (simp add: shape subarray_def)
  moreover have "byteAt ?head 20 = Some 0x2f" "30 \<le> length ?head"
    using assms(6) by (simp_all add: shape byteAt_def)
  ultimately show ?thesis
    using assms bits unfolding webpDimensions_def
    by (simp add: readThen_def validDimensions_def int32_and_mask [where k = 14] byteIs_def int32_shr_small)
qed

lemma vp8Dimensions:
  assumes "0 < w" "w < 2 ^ 14" "0 < h" "h < 2 ^ 14" "xscale < 4" "yscale < 4"
  shows "webpDimensions (vp8Head sz xscale yscale w h @ rest) = Inr (Some \<lparr>imageWidth = w, imageHeight = h\<rparr>)"
proof -
  obtain a b c d where head: "\<And>tag body. riffHead sz tag body
      = [0x52, 0x49, 0x46, 0x46, a, b, c, d, 0x57, 0x45, 0x42, 0x50] @ tag @ body"
    using riffHead_shape [of sz] by blast
  let ?p = "[0x52, 0x49, 0x46, 0x46, a, b, c, d, 0x57, 0x45, 0x42, 0x50, 0x56, 0x50, 0x38, 0x20,
      0, 0, 0, 0, 0, 0, 0, 0x9d, 0x01, 0x2a]"
  let ?W = "w + 2 ^ 14 * xscale" and ?H = "h + 2 ^ 14 * yscale"
  let ?head = "vp8Head sz xscale yscale w h @ rest"
  have shape: "?head = ?p @ encodeLE 2 ?W @ encodeLE 2 ?H @ rest"
    by (simp add: vp8Head_def head)
  have "?W < 256 ^ 2" "?H < 256 ^ 2" using assms by simp_all
  then have "readLE 2 ?head 26 = Inr ?W" "readLE 2 ?head 28 = Inr ?H"
    using readLE_inverse [of 26 ?p ?W 2] readLE_inverse [of 28 "?p @ encodeLE 2 ?W" ?H 2]
    by (simp_all add: shape)
  moreover have "?W mod 2 ^ 14 = w" "?H mod 2 ^ 14 = h" using assms by simp_all
  moreover have "latin1 (subarray 12 16 ?head) = ''VP8 ''"
    by (simp add: shape subarray_def)
  moreover have "byteAt ?head 23 = Some 0x9d" "byteAt ?head 24 = Some 0x01" "byteAt ?head 25 = Some 0x2a"
    "30 \<le> length ?head"
    by (simp_all add: shape byteAt_def)
  ultimately show ?thesis
    using assms unfolding webpDimensions_def
    by (simp add: readThen_def validDimensions_def masks byteIs_def)
qed

section \<open>Detection of the headers\<close>

lemma latin1_Cons: "latin1 (x # b) = char_of (unat x) # latin1 b"
  by (simp add: latin1_def)

lemma not_pdf: "char_of (0xff :: nat) \<noteq> CHR ''%''" "char_of (0x89 :: nat) \<noteq> CHR ''%''" "char_of (0x52 :: nat) \<noteq> CHR ''%''"
  by code_simp+

lemma detect_png: "detectFormat (pngHead w h @ rest) = Some Png"
  by (simp add: detectFormat_def pngHead_def PNG_SIGNATURE_def subarray_def latin1_Cons not_pdf)

lemma detect_jpeg:
  assumes "3 \<le> length (jpegHead parts frame)" and "byteAt frame 0 = Some 0xff"
  shows "detectFormat (jpegHead parts frame) = Some Jpeg"
proof -
  have "byteAt (concat (map partBytes parts) @ frame) 0 = Some 0xff"
  proof (cases parts)
    case (Cons q qs)
    then show ?thesis by (cases q) (simp_all add: byteAt_def)
  qed (simp add: assms(2))
  then have "byteAt (jpegHead parts frame) 2 = Some 0xff"
    by (simp add: jpegHead_def byteAt_def split: if_splits)
  moreover have "byteAt (jpegHead parts frame) 0 = Some 0xff" "byteAt (jpegHead parts frame) 1 = Some 0xd8"
    by (simp_all add: jpegHead_def byteAt_def)
  ultimately show ?thesis
    using assms(1)
    by (simp add: detectFormat_def byteIs_def jpegHead_def PNG_SIGNATURE_def subarray_def latin1_Cons not_pdf)
qed

lemma detect_webp: "detectFormat (riffHead sz tag body @ rest) = Some Webp"
proof -
  obtain a b c d where head: "riffHead sz tag body @ rest
      = [0x52, 0x49, 0x46, 0x46, a, b, c, d, 0x57, 0x45, 0x42, 0x50] @ tag @ body @ rest"
    using riffHead_shape [of sz] by fastforce
  show ?thesis
    unfolding head detectFormat_def
    by (simp add: byteAt_def byteIs_def PNG_SIGNATURE_def subarray_def)
       (simp add: latin1_Cons not_pdf)
qed

lemma detect_webp_kinds:
  "detectFormat (vp8xHead sz flags w h @ rest) = Some Webp"
  "detectFormat (vp8lHead sz extra w h @ rest) = Some Webp"
  "detectFormat (vp8Head sz xscale yscale w h @ rest) = Some Webp"
  by (simp_all only: vp8xHead_def vp8lHead_def vp8Head_def detect_webp)

section \<open>Properties\<close>

lemma readImageDimensions_reads: "readsWell (2 ^ 32 - 1) (readImageDimensions fmt head)"
proof -
  have mono: "readsWell a r \<Longrightarrow> a \<le> b \<Longrightarrow> readsWell b r" for a b r
    by (auto simp: readsWell_def split: sum.splits option.splits)
  show ?thesis
    using pngDimensions_reads [of head] mono [OF jpegLoop_reads [of head 2]]
      mono [OF webpDimensions_reads [of head]]
    by (cases fmt) (simp_all add: readImageDimensions_def jpegDimensions_def)
qed

text \<open>C39. The readers of image dimensions are total on every input, however short or malformed: the
  marker loop ends, no read goes past the end of the buffer, and a size that is returned has both
  sides positive and below 2^32.\<close>

theorem readImageDimensions_safe: "readsWell (2 ^ 32 - 1) (readImageDimensions fmt head)"
  by (rule readImageDimensions_reads)

text \<open>C40. Round trip: the format and the dimensions written into a header are the ones that are
  detected and read, for PNG, for JPEG behind any sequence of fill bytes, standalone markers and
  skipped segments, and for the three kinds of WebP chunk, whatever follows in the file.\<close>

theorem image_headers_recovered:
  assumes "0 < w" and "0 < h" and "list_all partOk parts" and "isSof (Some m)" and "2 \<le> len" "len < 65536"
    and "xscale < 4" "yscale < 4" "extra < 16" and "5 \<le> length rest"
  shows "(w < 2 ^ 32 \<and> h < 2 ^ 32 \<longrightarrow>
       detectFormat (pngHead w h @ rest) = Some Png
       \<and> readImageDimensions Png (pngHead w h @ rest) = Inr (Some \<lparr>imageWidth = w, imageHeight = h\<rparr>))
    \<and> (w < 2 ^ 16 \<and> h < 2 ^ 16 \<longrightarrow>
       detectFormat (jpegHead parts (frameBytes m len precision w h @ rest)) = Some Jpeg
       \<and> readImageDimensions Jpeg (jpegHead parts (frameBytes m len precision w h @ rest))
         = Inr (Some \<lparr>imageWidth = w, imageHeight = h\<rparr>))
    \<and> (w \<le> 2 ^ 24 \<and> h \<le> 2 ^ 24 \<longrightarrow>
       detectFormat (vp8xHead sz flags w h @ rest) = Some Webp
       \<and> readImageDimensions Webp (vp8xHead sz flags w h @ rest) = Inr (Some \<lparr>imageWidth = w, imageHeight = h\<rparr>))
    \<and> (w \<le> 2 ^ 14 \<and> h \<le> 2 ^ 14 \<longrightarrow>
       detectFormat (vp8lHead sz extra w h @ rest) = Some Webp
       \<and> readImageDimensions Webp (vp8lHead sz extra w h @ rest) = Inr (Some \<lparr>imageWidth = w, imageHeight = h\<rparr>))
    \<and> (w < 2 ^ 14 \<and> h < 2 ^ 14 \<longrightarrow>
       detectFormat (vp8Head sz xscale yscale w h @ rest) = Some Webp
       \<and> readImageDimensions Webp (vp8Head sz xscale yscale w h @ rest) = Inr (Some \<lparr>imageWidth = w, imageHeight = h\<rparr>))"
proof (intro conjI impI)
  have "byteAt (frameBytes m len precision w h @ rest) 0 = Some 0xff"
    by (simp add: frameBytes_def byteAt_def)
  then show "detectFormat (jpegHead parts (frameBytes m len precision w h @ rest)) = Some Jpeg"
    by (intro detect_jpeg) (simp_all add: jpegHead_def frameBytes_def)
qed (use assms in \<open>auto simp: readImageDimensions_def detect_png pngDimensions_head jpegDimensions_frame
      vp8xDimensions vp8lDimensions vp8Dimensions detect_webp_kinds\<close>)

theorem image_headers_recovered_witness:
  "readImageDimensions Png (pngHead 640 480 @ [1, 2, 3, 4, 5]) = Inr (Some \<lparr>imageWidth = 640, imageHeight = 480\<rparr>)
   \<and> readImageDimensions Jpeg (jpegHead [Segment 0xe0 [74, 70], Fill, Marker 1] (frameBytes 0xc2 11 8 640 480 @ [1, 2, 3, 4, 5]))
     = Inr (Some \<lparr>imageWidth = 640, imageHeight = 480\<rparr>)
   \<and> readImageDimensions Webp (vp8lHead [] 1 640 480 @ [1, 2, 3, 4, 5]) = Inr (Some \<lparr>imageWidth = 640, imageHeight = 480\<rparr>)
   \<and> readImageDimensions Webp (vp8Head [] 3 0 640 480 @ [1, 2, 3, 4, 5]) = Inr (Some \<lparr>imageWidth = 640, imageHeight = 480\<rparr>)"
proof -
  have parts: "list_all partOk [Segment 0xe0 [74, 70], Fill, Marker 1]"
    by (simp add: isStandalone_def isSof_def byteIn_def byteIs_def word_le_nat_alt)
  have sof: "isSof (Some 0xc2)"
    by (simp add: isSof_def byteIn_def byteIs_def word_le_nat_alt)
  show ?thesis
    using image_headers_recovered [OF _ _ parts sof, where w = 640 and h = 480 and len = 11
        and xscale = 3 and yscale = 0 and extra = 1 and rest = "[1, 2, 3, 4, 5]" and precision = 8
        and sz = "[]"] by simp
qed

lemma detectFormat_take:
  assumes "12 \<le> n"
  shows "detectFormat (take n file) = detectFormat file"
proof -
  have "subarray 0 k (take n file) = subarray 0 k file" if "k \<le> 12" for k
    using that assms by (simp add: subarray_def min_def)
  moreover have "subarray 8 12 (take n file) = subarray 8 12 file"
    using assms by (simp add: subarray_def drop_take min_def)
  moreover have "byteAt (take n file) i = byteAt file i" if "i < 12" for i
    using that assms by (simp add: byteAt_def)
  ultimately show ?thesis using assms by (simp add: detectFormat_def)
qed

text \<open>The probe of 64 KiB that is read from the file is enough to detect its format, and only the
  first twelve bytes decide it.\<close>

theorem detectFormat_by_prefix:
  "detectFormat (take SIGNATURE_PROBE_BYTES file) = detectFormat file
   \<and> detectFormat (take 12 file) = detectFormat file"
  by (simp add: detectFormat_take SIGNATURE_PROBE_BYTES_def)

end
