(* ===== verification/Ocr_Extraction.thy ===== *)
theory Ocr_Extraction
  imports Ocr_Errors Ocr_Jobs File_Signature
begin

text \<open>
  The extraction pipeline: \<open>ocr/ocr-extraction.service.ts\<close>. The PDF tools and the recognition
  engine are the record \<open>toolbox\<close>, the interface this service has to them: each call returns a
  value or throws. The asynchronous generator of pages is the list of the pages it yields, in order,
  together with the error that ended it, if one did; the worker stores each page as it comes. The
  clock reads of the loop are \<open>clk page k\<close>. Quotients of page sizes are exact.
\<close>

section \<open>Interface to the tools\<close>

text \<open>A page that \<open>pdfinfo\<close> listed has a width and a height; \<open>None\<close> is the number \<open>NaN\<close>.\<close>

record PdfInfo =
  pdf_pageCount :: nat
  pdf_pages :: "nat \<Rightarrow> (rat option \<times> rat option) option"

record OcrRecognizeResult =
  or_text :: jsstring
  or_confidence :: "rat option"
  or_wordCount :: nat

text \<open>The image of a rendered page is named by its number, the stored file by nothing.\<close>

datatype image = StoredFile | RenderedPage nat

text \<open>\<open>headError\<close> is what opening or reading the stored file throws, if it does; a resolution of
  \<open>None\<close> is \<open>NaN\<close>.\<close>

record toolbox =
  headError :: "thrown option"
  pdfInfo :: "int \<Rightarrow> thrown + PdfInfo"
  pdfText :: "nat \<Rightarrow> int \<Rightarrow> nat \<Rightarrow> thrown + jsstring list"
  renderPage :: "nat \<Rightarrow> nat option \<Rightarrow> int \<Rightarrow> thrown + image"
  recognize :: "image \<Rightarrow> jsstring \<Rightarrow> int \<Rightarrow> thrown + OcrRecognizeResult"

section \<open>Inspection\<close>

record InspectedFile =
  if_format :: DetectedFormat
  if_totalPages :: nat
  if_pdf :: "PdfInfo option"

definition mimeOf :: "DetectedFormat \<Rightarrow> string" where
  "mimeOf fmt = (if fmt = Pdf then ''application/pdf''
     else ''image/'' @ (case fmt of Jpeg \<Rightarrow> ''jpeg'' | Png \<Rightarrow> ''png'' | Webp \<Rightarrow> ''webp'' | Pdf \<Rightarrow> ''pdf''))"

fun formatName :: "DetectedFormat \<Rightarrow> string" where
  "formatName Pdf = ''pdf''"
| "formatName Jpeg = ''jpeg''"
| "formatName Png = ''png''"
| "formatName Webp = ''webp''"

definition readHead :: "toolbox \<Rightarrow> bytes \<Rightarrow> nat \<Rightarrow> thrown + bytes" where
  "readHead tb file n = (case headError tb of Some err \<Rightarrow> Inl err | None \<Rightarrow> Inr (take n file))"

definition inspect :: "OcrConfig \<Rightarrow> toolbox \<Rightarrow> bytes \<Rightarrow> jsstring option \<Rightarrow> thrown + InspectedFile" where
  "inspect cfg tb file expectedMimeType =
     (case readHead tb file SIGNATURE_PROBE_BYTES of Inl err \<Rightarrow> Inl err
      | Inr head \<Rightarrow> (case detectFormat head of
           None \<Rightarrow> Inl (Processing (permanent ''OCR_UNSUPPORTED_FILE_TYPE''
                     ''The stored file is not a PDF, JPEG, PNG or WebP document'' None))
         | Some fmt \<Rightarrow>
             if truthy expectedMimeType \<and> js (mimeOf fmt) \<noteq> the expectedMimeType
             then Inl (Processing (permanent ''OCR_UNSUPPORTED_FILE_TYPE''
                     ''The stored file does not match its declared type''
                     (Some (js ''declared '' @ the expectedMimeType @ js '', detected '' @ js (formatName fmt)))))
             else if fmt = Pdf then
               (case pdfInfo tb (int (oc_pageTimeoutMs cfg)) of
                  Inl e \<Rightarrow> Inl e
                | Inr pdf \<Rightarrow>
                    if pdf_pageCount pdf < 1
                    then Inl (Processing (permanent ''OCR_INVALID_FILE'' ''The PDF contains no pages'' None))
                    else if pdf_pageCount pdf > oc_maxPdfPages cfg
                    then Inl (Processing (permanent ''OCR_PAGE_LIMIT_EXCEEDED''
                           (''Documents with more than '' @ nat_str (oc_maxPdfPages cfg) @ '' pages cannot be processed'')
                           (Some (js (nat_str (pdf_pageCount pdf) @ '' pages'')))))
                    else Inr \<lparr>if_format = fmt, if_totalPages = pdf_pageCount pdf, if_pdf = Some pdf\<rparr>)
             else
               (case readImageDimensions fmt head of
                  Inl e \<Rightarrow> Inl (OtherError e)
                | Inr None \<Rightarrow> Inl (Processing (permanent ''OCR_INVALID_FILE'' ''The image header is malformed'' None))
                | Inr (Some dims) \<Rightarrow>
                    if imageWidth dims * imageHeight dims > oc_maxImagePixels cfg
                    then Inl (Processing (permanent ''OCR_PAGE_TOO_LARGE''
                           (''Images larger than '' @ nat_str (oc_maxImagePixels cfg) @ '' pixels cannot be processed'')
                           (Some (js (nat_str (imageWidth dims) @ ''x'' @ nat_str (imageHeight dims))))))
                    else Inr \<lparr>if_format = fmt, if_totalPages = 1, if_pdf = None\<rparr>)))"

section \<open>Pages\<close>

definition failedPage :: "nat \<Rightarrow> string \<Rightarrow> OcrExtractionMethod option \<Rightarrow> ExtractedPage" where
  "failedPage pageNumber errorCode method = \<lparr>x_pageNumber = pageNumber, x_status = PAGE_FAILED,
     x_method = method, x_text = None, x_confidence = None, x_charCount = 0, x_truncated = False,
     x_errorCode = Some errorCode\<rparr>"

definition storeText ::
  "nat \<Rightarrow> OcrExtractionMethod \<Rightarrow> jsstring \<Rightarrow> rat option \<Rightarrow> int \<Rightarrow> nat \<Rightarrow> ExtractedPage" where
  "storeText pageNumber method text confidence budget maxPerPage =
     (if text = [] then \<lparr>x_pageNumber = pageNumber, x_status = PAGE_EMPTY, x_method = Some method,
        x_text = Some [], x_confidence = confidence, x_charCount = 0, x_truncated = False, x_errorCode = None\<rparr>
      else if budget \<le> 0 then failedPage pageNumber ''OCR_TEXT_LIMIT_EXCEEDED'' (Some method)
      else (let cut = truncateText text (min maxPerPage (nat budget))
            in \<lparr>x_pageNumber = pageNumber, x_status = PAGE_COMPLETED, x_method = Some method,
                 x_text = Some (tt_text cut), x_confidence = confidence, x_charCount = tt_charCount cut,
                 x_truncated = tt_truncated cut, x_errorCode = None\<rparr>))"

definition startsWith :: "'a list \<Rightarrow> 'a list \<Rightarrow> bool" where
  "startsWith p s \<longleftrightarrow> take (length p) s = p"

text \<open>\<open>None\<close>: the error is not a page failure and is thrown on.\<close>

definition pageFailure :: "thrown \<Rightarrow> nat \<Rightarrow> ExtractedPage option" where
  "pageFailure err pageNumber =
     (case err of
        Processing e \<Rightarrow>
          if (case pe_detail e of None \<Rightarrow> False | Some d \<Rightarrow> startsWith (js ''Command not found'') d) then None
          else Some (failedPage pageNumber (pe_code e) None)
      | _ \<Rightarrow> None)"

definition pageBudget :: "OcrConfig \<Rightarrow> int \<Rightarrow> time \<Rightarrow> int" where
  "pageBudget cfg deadline now = max 1000 (min (int (oc_pageTimeoutMs cfg)) (deadline - now))"

definition MIN_RENDER_DPI :: nat where
  "MIN_RENDER_DPI = 50"

definition POINTS_PER_INCH :: rat where
  "POINTS_PER_INCH = 72"

text \<open>\<open>Math.floor(Math.sqrt(q))\<close> for a non-negative \<open>q\<close>, by its binary digits.\<close>

fun isqrt :: "nat \<Rightarrow> nat" where
  "isqrt n = (if n = 0 then 0
     else let r = 2 * isqrt (n div 4) in if (r + 1) * (r + 1) \<le> n then r + 1 else r)"

declare isqrt.simps [simp del]

definition floorSqrt :: "rat \<Rightarrow> nat" where
  "floorSqrt q = isqrt (nat \<lfloor>q\<rfloor>)"

text \<open>The detail, for the log only, prints the size of the page in front of the unit.\<close>

definition pageTooLarge :: OcrProcessingError where
  "pageTooLarge = forPage (permanent ''OCR_PAGE_TOO_LARGE''
     ''The page is too large to render within the configured limits'' (Some (js '' pt'')))"

text \<open>With a side of \<open>NaN\<close> every comparison is false and the resolution is \<open>NaN\<close>.\<close>

definition renderDpiFor :: "OcrConfig \<Rightarrow> PdfInfo \<Rightarrow> nat \<Rightarrow> thrown + nat option" where
  "renderDpiFor cfg pdf pageNumber =
     (case pdf_pages pdf (pageNumber - 1) of
        None \<Rightarrow> Inr (Some (oc_renderDpi cfg))
      | Some (Some widthPt, Some heightPt) \<Rightarrow>
          (let inches = (widthPt / POINTS_PER_INCH) * (heightPt / POINTS_PER_INCH)
           in if inches \<le> 0 then Inr (Some (oc_renderDpi cfg))
              else (let fitting = floorSqrt (of_nat (oc_maxRenderPixels cfg) / inches);
                        dpi = min (oc_renderDpi cfg) fitting
                    in if dpi < MIN_RENDER_DPI then Inl (Processing pageTooLarge) else Inr (Some dpi)))
      | Some _ \<Rightarrow> Inr None)"

record ExtractionInput =
  ei_inspected :: InspectedFile
  ei_language :: jsstring
  ei_deadline :: int
  ei_startPage :: nat
  ei_charBudget :: int

definition ocrPage ::
  "OcrConfig \<Rightarrow> unicode \<Rightarrow> toolbox \<Rightarrow> nat \<Rightarrow> image \<Rightarrow> ExtractionInput \<Rightarrow> int \<Rightarrow> time \<Rightarrow> thrown + ExtractedPage" where
  "ocrPage cfg U tb pageNumber img input budget now =
     (case recognize tb img (ei_language input) (pageBudget cfg (ei_deadline input) now) of
        Inr result \<Rightarrow>
          Inr (storeText pageNumber OCR (normalizeExtractedText U (or_text result)) (or_confidence result)
                 budget (oc_maxTextPerPage cfg))
      | Inl e \<Rightarrow> (case pageFailure e pageNumber of Some p \<Rightarrow> Inr p | None \<Rightarrow> Inl e))"

definition extractImage ::
  "OcrConfig \<Rightarrow> unicode \<Rightarrow> toolbox \<Rightarrow> (nat \<Rightarrow> nat \<Rightarrow> time) \<Rightarrow> ExtractionInput \<Rightarrow> ExtractedPage list \<times> thrown option" where
  "extractImage cfg U tb clk input =
     (if ei_startPage input > 1 then ([], None)
      else (case ocrPage cfg U tb 1 StoredFile input (ei_charBudget input) (clk 1 0) of
              Inl e \<Rightarrow> ([], Some e)
            | Inr page \<Rightarrow> ([page], None)))"

text \<open>One page of a PDF: the page and its text, or an error that ends the extraction.\<close>

definition extractPdfPage ::
  "OcrConfig \<Rightarrow> unicode \<Rightarrow> toolbox \<Rightarrow> (nat \<Rightarrow> nat \<Rightarrow> time) \<Rightarrow> ExtractionInput \<Rightarrow> PdfInfo \<Rightarrow> jsstring list
     \<Rightarrow> int \<Rightarrow> nat \<Rightarrow> thrown + ExtractedPage" where
  "extractPdfPage cfg U tb clk input pdf nativePages budget pageNumber =
     (if clk pageNumber 0 \<ge> ei_deadline input
      then Inr (failedPage pageNumber ''OCR_PROCESSING_TIMEOUT'' None)
      else
        (let native = normalizeExtractedText U
               (if pageNumber - 1 < length nativePages then nativePages ! (pageNumber - 1) else [])
         in if isNativeTextUsable U native (oc_nativeText cfg)
            then Inr (storeText pageNumber NATIVE_TEXT native None budget (oc_maxTextPerPage cfg))
            else
              (case (case renderDpiFor cfg pdf pageNumber of
                       Inl e \<Rightarrow> Inl e
                     | Inr dpi \<Rightarrow>
                         (case renderPage tb pageNumber dpi (pageBudget cfg (ei_deadline input) (clk pageNumber 1)) of
                            Inl e \<Rightarrow> Inl e
                          | Inr rendered \<Rightarrow> ocrPage cfg U tb pageNumber rendered input budget (clk pageNumber 2))) of
                 Inr page \<Rightarrow> Inr page
               | Inl e \<Rightarrow> (case pageFailure e pageNumber of Some p \<Rightarrow> Inr p | None \<Rightarrow> Inl e))))"

fun extractPdfPages ::
  "(int \<Rightarrow> nat \<Rightarrow> thrown + ExtractedPage) \<Rightarrow> int \<Rightarrow> nat list \<Rightarrow> ExtractedPage list \<times> thrown option" where
  "extractPdfPages onePage budget [] = ([], None)"
| "extractPdfPages onePage budget (n # ns) =
     (case onePage budget n of
        Inl e \<Rightarrow> ([], Some e)
      | Inr page \<Rightarrow>
          (let (rest, err) = extractPdfPages onePage (budget - int (x_charCount page)) ns
           in (page # rest, err)))"

definition extractPdf ::
  "OcrConfig \<Rightarrow> unicode \<Rightarrow> toolbox \<Rightarrow> (nat \<Rightarrow> nat \<Rightarrow> time) \<Rightarrow> ExtractionInput \<Rightarrow> PdfInfo \<Rightarrow> ExtractedPage list \<times> thrown option" where
  "extractPdf cfg U tb clk input pdf =
     (let total = pdf_pageCount pdf;
          loop = (\<lambda>nativePages. extractPdfPages
                    (extractPdfPage cfg U tb clk input pdf nativePages)
                    (ei_charBudget input) [ei_startPage input..<Suc total])
      in case pdfText tb total (max 1000 (min (int (oc_pageTimeoutMs cfg)) (ei_deadline input - clk 0 0)))
                (oc_maxTextPerDocument cfg * 4 + 1024 * 1024) of
           Inr nativePages \<Rightarrow> loop nativePages
         | Inl (Processing _) \<Rightarrow> loop (replicate total [])
         | Inl e \<Rightarrow> ([], Some e))"

text \<open>A PDF always comes with its description (\<open>pdf!\<close>).\<close>

definition extractPages ::
  "OcrConfig \<Rightarrow> unicode \<Rightarrow> toolbox \<Rightarrow> (nat \<Rightarrow> nat \<Rightarrow> time) \<Rightarrow> ExtractionInput \<Rightarrow> ExtractedPage list \<times> thrown option" where
  "extractPages cfg U tb clk input =
     (if if_format (ei_inspected input) = Pdf
      then (case if_pdf (ei_inspected input) of
              Some pdf \<Rightarrow> extractPdf cfg U tb clk input pdf
            | None \<Rightarrow> ([], Some (OtherError ''TypeError'')))
      else extractImage cfg U tb clk input)"

section \<open>Square roots\<close>

lemma isqrt_bounds: "isqrt n * isqrt n \<le> n \<and> n < Suc (isqrt n) * Suc (isqrt n)"
proof (induction n rule: isqrt.induct)
  case (1 n)
  show ?case
  proof (cases "n = 0")
    case True
    then show ?thesis by (simp add: isqrt.simps [of 0])
  next
    case False
    let ?q = "isqrt (n div 4)" and ?r = "2 * isqrt (n div 4)"
    from 1 [OF False] have IH: "?q * ?q \<le> n div 4" "n div 4 < Suc ?q * Suc ?q" by auto
    have low: "?r * ?r \<le> n" using IH(1) by (simp add: algebra_simps)
    have "4 * (n div 4 + 1) \<le> 4 * (Suc ?q * Suc ?q)" using IH(2) by simp
    moreover have "n < 4 * (n div 4 + 1)" by simp
    ultimately have high: "n < (?r + 2) * (?r + 2)" by (simp add: algebra_simps)
    have "isqrt n = (if (?r + 1) * (?r + 1) \<le> n then ?r + 1 else ?r)"
      using False by (subst isqrt.simps) (simp add: Let_def)
    then show ?thesis using low high by (auto simp: not_le)
  qed
qed

lemma isqrt_eqI: "k * k \<le> n \<Longrightarrow> n < Suc k * Suc k \<Longrightarrow> isqrt n = k"
proof (rule ccontr)
  assume k: "k * k \<le> n" "n < Suc k * Suc k" and "isqrt n \<noteq> k"
  then consider "Suc (isqrt n) \<le> k" | "Suc k \<le> isqrt n" by linarith
  then show False
  proof cases
    case 1
    then have "Suc (isqrt n) * Suc (isqrt n) \<le> k * k" by (intro mult_mono) auto
    then show False using k isqrt_bounds [of n] by linarith
  next
    case 2
    then have "Suc k * Suc k \<le> isqrt n * isqrt n" by (intro mult_mono) auto
    then show False using k isqrt_bounds [of n] by linarith
  qed
qed

lemma floorSqrt_square:
  assumes "0 \<le> q"
  shows "of_nat (floorSqrt q * floorSqrt q) \<le> q"
proof -
  have "floorSqrt q * floorSqrt q \<le> nat \<lfloor>q\<rfloor>"
    using isqrt_bounds [of "nat \<lfloor>q\<rfloor>"] by (simp add: floorSqrt_def)
  then have "int (floorSqrt q * floorSqrt q) \<le> \<lfloor>q\<rfloor>"
    using assms by linarith
  then show ?thesis by (metis le_floor_iff of_int_of_nat_eq)
qed

section \<open>Single pages\<close>

text \<open>The shape of a page result.\<close>

definition page_shape :: "nat \<Rightarrow> ExtractedPage \<Rightarrow> bool" where
  "page_shape maxPerPage p \<longleftrightarrow>
     (case x_status p of
        PAGE_FAILED \<Rightarrow> x_text p = None \<and> x_errorCode p \<noteq> None \<and> x_charCount p = 0 \<and> x_confidence p = None
      | PAGE_EMPTY \<Rightarrow> x_text p = Some [] \<and> x_errorCode p = None \<and> x_charCount p = 0 \<and> x_method p \<noteq> None
      | PAGE_COMPLETED \<Rightarrow> x_errorCode p = None \<and> x_method p \<noteq> None \<and> 0 < x_charCount p \<and> x_charCount p \<le> maxPerPage
          \<and> (\<exists>t. x_text p = Some t \<and> t \<noteq> [] \<and> x_charCount p = length (code_points t)))
     \<and> x_method p \<noteq> Some MIXED \<and> (x_method p = Some NATIVE_TEXT \<longrightarrow> x_confidence p = None)"

lemma failedPage_shape [simp]: "m \<noteq> Some MIXED \<Longrightarrow> page_shape k (failedPage n c m)"
  by (simp add: page_shape_def failedPage_def)

lemma failedPage_sel [simp]: "x_pageNumber (failedPage n c m) = n" "x_charCount (failedPage n c m) = 0"
  by (simp_all add: failedPage_def)

lemma code_points_Nil_iff [simp]: "code_points s = [] \<longleftrightarrow> s = []"
  by (metis code_points.simps(1) concat.simps(1) concat_code_points)

lemma truncate_count:
  "tt_charCount (truncateText t k) = length (code_points (tt_text (truncateText t k)))"
  "tt_charCount (truncateText t k) = min k (length (code_points t))"
  by (auto simp: truncateText_def Let_def code_points_take)

lemma storeText_shape:
  assumes "0 < k" and "m \<noteq> MIXED" and "m = NATIVE_TEXT \<longrightarrow> c = None"
  shows "page_shape k (storeText n m t c b k)" and "x_pageNumber (storeText n m t c b k) = n"
    and "int (x_charCount (storeText n m t c b k)) \<le> max 0 b"
proof -
  let ?cut = "truncateText t (min k (nat b))"
  have pos: "0 < tt_charCount ?cut" if "t \<noteq> []" "0 < b"
    using that assms(1) by (simp add: truncate_count(2))
  moreover have "tt_charCount ?cut \<le> k" by (simp add: truncate_count(2))
  ultimately show "page_shape k (storeText n m t c b k)"
    using assms truncate_count(1) [of t "min k (nat b)"] by (cases "t = []"; cases "0 < b")
      (auto simp: storeText_def page_shape_def Let_def failedPage_def)
  show "x_pageNumber (storeText n m t c b k) = n"
    by (simp add: storeText_def Let_def failedPage_def)
  show "int (x_charCount (storeText n m t c b k)) \<le> max 0 b"
    by (auto simp: storeText_def Let_def failedPage_def truncate_count(2))
qed

text \<open>What one page step may return.\<close>

definition page_for :: "OcrConfig \<Rightarrow> int \<Rightarrow> nat \<Rightarrow> thrown + ExtractedPage \<Rightarrow> bool" where
  "page_for cfg budget n r \<longleftrightarrow> (case r of Inl _ \<Rightarrow> True
     | Inr p \<Rightarrow> x_pageNumber p = n \<and> page_shape (oc_maxTextPerPage cfg) p \<and> int (x_charCount p) \<le> max 0 budget)"

lemma page_for_failure:
  "page_for cfg b n (case pageFailure e n of Some p \<Rightarrow> Inr p | None \<Rightarrow> Inl e)"
  by (auto simp: page_for_def pageFailure_def split: thrown.splits option.splits)

lemma page_for_Inl [simp]: "page_for cfg b n (Inl e)"
  by (simp add: page_for_def)

lemma page_for_failed [simp]: "page_for cfg b n (Inr (failedPage n c None))"
  by (simp add: page_for_def)

lemma page_for_store:
  "0 < oc_maxTextPerPage cfg \<Longrightarrow> m \<noteq> MIXED \<Longrightarrow> m = NATIVE_TEXT \<longrightarrow> c = None \<Longrightarrow>
     page_for cfg b n (Inr (storeText n m t c b (oc_maxTextPerPage cfg)))"
  by (simp add: page_for_def storeText_shape)

lemma ocrPage_for: "0 < oc_maxTextPerPage cfg \<Longrightarrow> page_for cfg b n (ocrPage cfg U tb n img input b now)"
  unfolding ocrPage_def by (simp add: page_for_failure page_for_store split: sum.split)

lemma extractPdfPage_for:
  assumes "0 < oc_maxTextPerPage cfg"
  shows "page_for cfg b n (extractPdfPage cfg U tb clk input pdf native b n)"
proof -
  have *: "page_for cfg b n (case r of Inr page \<Rightarrow> Inr page
      | Inl e \<Rightarrow> (case pageFailure e n of Some p \<Rightarrow> Inr p | None \<Rightarrow> Inl e))" if "page_for cfg b n r" for r
    using that by (auto simp: page_for_failure split: sum.split)
  have "page_for cfg b n (case renderDpiFor cfg pdf n of
             Inl e \<Rightarrow> Inl e
           | Inr dpi \<Rightarrow>
               (case renderPage tb n dpi (pageBudget cfg (ei_deadline input) (clk n 1)) of
                  Inl e \<Rightarrow> Inl e
                | Inr rendered \<Rightarrow> ocrPage cfg U tb n rendered input b (clk n 2)))"
    using ocrPage_for [OF assms] by (simp split: sum.split)
  note inner = * [OF this]
  show ?thesis
    unfolding extractPdfPage_def Let_def using inner assms by (simp add: page_for_store)
qed

section \<open>The whole extraction\<close>

lemma extractPdfPages_result:
  assumes "\<And>b n. page_for cfg b n (one b n)" and "extractPdfPages one b ns = (pages, err)"
  shows "map x_pageNumber pages = take (length pages) ns \<and> list_all (page_shape (oc_maxTextPerPage cfg)) pages
    \<and> int (sum_list (map x_charCount pages)) \<le> max 0 b \<and> (err = None \<longrightarrow> length pages = length ns)"
  using assms(2)
proof (induction ns arbitrary: b pages)
  case (Cons n ns)
  show ?case
  proof (cases "one b n")
    case (Inl e)
    then show ?thesis using Cons.prems by auto
  next
    case (Inr page)
    obtain rest where rest: "extractPdfPages one (b - int (x_charCount page)) ns = (rest, err)" "pages = page # rest"
      using Cons.prems Inr by (auto split: prod.splits)
    have "x_pageNumber page = n" "page_shape (oc_maxTextPerPage cfg) page" "int (x_charCount page) \<le> max 0 b"
      using assms(1) [of b n] Inr by (simp_all add: page_for_def)
    then show ?thesis using Cons.IH [OF rest(1)] rest(2) by auto
  qed
qed simp

text \<open>An inspected file is consistent when a PDF comes with its description and an image is one page;
  \<open>inspect\<close> returns no other.\<close>

definition inspected_ok :: "OcrConfig \<Rightarrow> InspectedFile \<Rightarrow> bool" where
  "inspected_ok cfg f \<longleftrightarrow> 1 \<le> if_totalPages f
     \<and> (if if_format f = Pdf
        then if_totalPages f \<le> oc_maxPdfPages cfg
             \<and> (\<exists>pdf. if_pdf f = Some pdf \<and> pdf_pageCount pdf = if_totalPages f)
        else if_totalPages f = 1)"

definition extraction_ok :: "OcrConfig \<Rightarrow> ExtractionInput \<Rightarrow> ExtractedPage list \<times> thrown option \<Rightarrow> bool" where
  "extraction_ok cfg input r \<longleftrightarrow> (case r of (pages, err) \<Rightarrow>
     map x_pageNumber pages = [ei_startPage input..<ei_startPage input + length pages]
     \<and> ei_startPage input + length pages \<le> max (ei_startPage input) (Suc (if_totalPages (ei_inspected input)))
     \<and> (err = None \<longrightarrow>
          ei_startPage input + length pages = max (ei_startPage input) (Suc (if_totalPages (ei_inspected input))))
     \<and> list_all (page_shape (oc_maxTextPerPage cfg)) pages
     \<and> int (sum_list (map x_charCount pages)) \<le> max 0 (ei_charBudget input))"

lemma extractPdf_ok:
  assumes "0 < oc_maxTextPerPage cfg" and "pdf_pageCount pdf = if_totalPages (ei_inspected input)"
  shows "extraction_ok cfg input (extractPdf cfg U tb clk input pdf)"
proof -
  let ?s = "ei_startPage input" and ?t = "if_totalPages (ei_inspected input)"
  have loop: "extraction_ok cfg input (extractPdfPages (extractPdfPage cfg U tb clk input pdf native)
      (ei_charBudget input) [?s..<Suc ?t])" for native
  proof -
    obtain pages err where r: "extractPdfPages (extractPdfPage cfg U tb clk input pdf native)
        (ei_charBudget input) [?s..<Suc ?t] = (pages, err)" by fastforce
    note * = extractPdfPages_result [OF extractPdfPage_for [OF assms(1)] r]
    have len: "length pages \<le> Suc ?t - ?s"
      using arg_cong [OF conjunct1 [OF *], of length] by (simp del: upt_Suc)
    have "take (length pages) [?s..<Suc ?t] = [?s..<?s + length pages]"
    proof (cases "?s \<le> Suc ?t")
      case True
      with len show ?thesis by (intro take_upt) simp
    next
      case False
      with len show ?thesis by simp
    qed
    then show ?thesis unfolding r extraction_ok_def using * len by (auto simp del: upt_Suc)
  qed
  have "extraction_ok cfg input ([], Some e)" for e
    by (simp add: extraction_ok_def)
  then show ?thesis
    using loop unfolding extractPdf_def Let_def assms(2) by (auto split: sum.split thrown.split)
qed

lemma extractImage_ok:
  assumes "0 < oc_maxTextPerPage cfg" and "1 \<le> ei_startPage input" and "if_totalPages (ei_inspected input) = 1"
  shows "extraction_ok cfg input (extractImage cfg U tb clk input)"
proof (cases "ei_startPage input > 1")
  case True
  then show ?thesis using assms(3) by (simp add: extractImage_def extraction_ok_def)
next
  case False
  then have s: "ei_startPage input = 1" using assms(2) by simp
  show ?thesis
  proof (cases "ocrPage cfg U tb 1 StoredFile input (ei_charBudget input) (clk 1 0)")
    case (Inl e)
    then show ?thesis using s by (simp add: extractImage_def extraction_ok_def)
  next
    case (Inr page)
    then have "page_for cfg (ei_charBudget input) 1 (Inr page)"
      using ocrPage_for [OF assms(1)] by metis
    then show ?thesis using s Inr assms(3) by (simp add: extractImage_def extraction_ok_def page_for_def)
  qed
qed

lemma extractPages_ok:
  assumes "0 < oc_maxTextPerPage cfg" and "1 \<le> ei_startPage input" and "inspected_ok cfg (ei_inspected input)"
  shows "extraction_ok cfg input (extractPages cfg U tb clk input)"
  using assms extractPdf_ok [OF assms(1)] extractImage_ok [OF assms(1,2)]
  by (auto simp: extractPages_def inspected_ok_def split: if_splits)

section \<open>Inspection\<close>

lemma mimeOf_table: "mimeOf fmt = FORMAT_MIME_TYPES fmt"
  by (cases fmt) (simp_all add: mimeOf_def)

lemma inspect_ok:
  assumes "inspect cfg tb file mime = Inr f"
  shows "inspected_ok cfg f"
  using assms unfolding inspect_def Let_def
  by (auto simp: inspected_ok_def split: option.splits if_splits sum.splits)

text \<open>Every refusal of an inspected file is about the file itself, unless the PDF tool or the reading
  failed.\<close>

lemma inspect_refusal:
  assumes "inspect cfg tb file mime = Inl err"
  shows "(\<exists>e. err = Processing e \<and> pe_permanent e \<and> pe_code e \<in> set PERMANENT_OCR_ERROR_CODES)
    \<or> pdfInfo tb (int (oc_pageTimeoutMs cfg)) = Inl err \<or> headError tb = Some err"
proof -
  have total: "readImageDimensions fmt (take SIGNATURE_PROBE_BYTES file) \<noteq> Inl x" for fmt x
    using readImageDimensions_reads [of fmt "take SIGNATURE_PROBE_BYTES file"] by (auto simp: readsWell_def)
  show ?thesis
    using assms total unfolding inspect_def readHead_def PERMANENT_OCR_ERROR_CODES_def
    by (auto split: option.splits if_splits sum.splits)
qed

section \<open>Properties\<close>

text \<open>Tools that describe a PDF of three square inches and recognise three letters in the stored file.\<close>

definition demoPdf :: PdfInfo where
  "demoPdf = \<lparr>pdf_pageCount = 3, pdf_pages = (\<lambda>_. Some (Some 72, Some 72))\<rparr>"

definition demoTools :: toolbox where
  "demoTools = \<lparr>headError = None, pdfInfo = (\<lambda>_. Inr demoPdf),
     pdfText = (\<lambda>n t m. Inr [js ''abc'', [], []]),
     renderPage = (\<lambda>n dpi t. Inr (RenderedPage n)),
     recognize = (\<lambda>img l t. if img = StoredFile
        then Inr \<lparr>or_text = js ''xyz'', or_confidence = Some 90, or_wordCount = 1\<rparr>
        else Inl (Processing (transient ''OCR_PROCESSING_TIMEOUT'' ''m'' None)))\<rparr>"

definition demoInput :: ExtractionInput where
  "demoInput = \<lparr>ei_inspected = \<lparr>if_format = Png, if_totalPages = 1, if_pdf = None\<rparr>,
     ei_language = js ''eng'', ei_deadline = 1000, ei_startPage = 1, ei_charBudget = 3\<rparr>"

lemma demo_sel [simp]:
  "oc_maxTextPerPage demoConfig = 2" "oc_maxPdfPages demoConfig = 5" "ei_startPage demoInput = 1"
  "ei_charBudget demoInput = 3" "ei_inspected demoInput = \<lparr>if_format = Png, if_totalPages = 1, if_pdf = None\<rparr>"
  by (simp_all add: demoConfig_def demoInput_def)

text \<open>C36. Extraction accounts for every page exactly once and in order, from the first page asked for:
  when it ends without an error it has yielded each page up to the last, and an error that ends it
  early ends it behind a contiguous run. Each result is either a text with its own length, an empty
  page, or a failure with a code and no text; no page mixes methods or exceeds the limit per page,
  and all texts together stay within the characters left for the document.\<close>

theorem extraction_exact:
  assumes "0 < oc_maxTextPerPage cfg" and "1 \<le> ei_startPage input" and "inspected_ok cfg (ei_inspected input)"
    and "ei_startPage input \<le> Suc (if_totalPages (ei_inspected input))"
    and "extractPages cfg U tb clk input = (pages, err)"
  shows "map x_pageNumber pages = [ei_startPage input..<ei_startPage input + length pages]
    \<and> (if err = None then ei_startPage input + length pages = Suc (if_totalPages (ei_inspected input))
       else ei_startPage input + length pages \<le> Suc (if_totalPages (ei_inspected input)))
    \<and> list_all (page_shape (oc_maxTextPerPage cfg)) pages
    \<and> int (sum_list (map x_charCount pages)) \<le> max 0 (ei_charBudget input)"
  using extractPages_ok [OF assms(1-3), of U tb clk] assms(4,5) by (simp add: extraction_ok_def max_def)

theorem extraction_exact_witness:
  "map x_pageNumber (fst (extractPages demoConfig ascii_unicode demoTools (\<lambda>_ _. 0) demoInput)) = [1]
   \<and> sum_list (map x_charCount (fst (extractPages demoConfig ascii_unicode demoTools (\<lambda>_ _. 0) demoInput))) \<le> 3"
proof -
  obtain p where r: "extractPages demoConfig ascii_unicode demoTools (\<lambda>_ _. 0) demoInput = ([p], None)"
    by (simp add: extractPages_def extractImage_def demoTools_def ocrPage_def)
  have "inspected_ok demoConfig (ei_inspected demoInput)"
    by (simp add: inspected_ok_def)
  then show ?thesis
    using extraction_exact [OF _ _ _ _ r] by (simp add: r)
qed

text \<open>The resolution a page is rendered at is at least 50 and at most the configured one, and a
  page of known size has at most the configured number of pixels at it; a page that would need less
  is refused as too large and not rendered.\<close>

theorem render_within_limits:
  assumes "renderDpiFor cfg pdf n = Inr (Some dpi)" and "MIN_RENDER_DPI \<le> oc_renderDpi cfg"
  shows "MIN_RENDER_DPI \<le> dpi \<and> dpi \<le> oc_renderDpi cfg
    \<and> (case pdf_pages pdf (n - 1) of
         Some (Some width, Some height) \<Rightarrow> 0 < width \<and> 0 < height \<longrightarrow>
           (of_nat dpi * width / 72) * (of_nat dpi * height / 72) \<le> of_nat (oc_maxRenderPixels cfg)
       | _ \<Rightarrow> True)"
proof (cases "pdf_pages pdf (n - 1)")
  case None
  then show ?thesis using assms by (simp add: renderDpiFor_def)
next
  case (Some size)
  obtain width height where size: "size = (Some width, Some height)"
    using assms(1) Some by (cases size) (auto simp: renderDpiFor_def split: option.splits)
  let ?inches = "(width / 72) * (height / 72)"
  show ?thesis
  proof (cases "?inches \<le> 0")
    case True
    then have "\<not> (0 < width \<and> 0 < height)" by (auto simp: mult_le_0_iff)
    then show ?thesis using Some size True assms by (auto simp: renderDpiFor_def POINTS_PER_INCH_def)
  next
    case False
    let ?q = "of_nat (oc_maxRenderPixels cfg) / ?inches"
    have dpi: "dpi = min (oc_renderDpi cfg) (floorSqrt ?q)" "MIN_RENDER_DPI \<le> dpi"
      using assms(1) Some size False
      by (auto simp: renderDpiFor_def POINTS_PER_INCH_def Let_def split: if_splits)
    have "of_nat (dpi * dpi) \<le> (of_nat (floorSqrt ?q * floorSqrt ?q) :: rat)"
      unfolding of_nat_le_iff using dpi(1) by (intro mult_mono) auto
    also have "\<dots> \<le> ?q" using False by (intro floorSqrt_square) auto
    finally have "of_nat (dpi * dpi) * ?inches \<le> of_nat (oc_maxRenderPixels cfg)"
      using False by (simp add: pos_le_divide_eq not_le)
    then show ?thesis using dpi Some size by (simp add: algebra_simps)
  qed
qed

theorem render_within_limits_witness:
  "renderDpiFor demoConfig demoPdf 1 = Inr (Some 150) \<and> MIN_RENDER_DPI \<le> (150 :: nat)
   \<and> (of_nat 150 * (72 :: rat) / 72) * (of_nat 150 * 72 / 72) \<le> of_nat (oc_maxRenderPixels demoConfig)"
proof -
  have s: "isqrt 20000000 = 4472" by (rule isqrt_eqI) simp_all
  have "renderDpiFor demoConfig demoPdf 1 = Inr (Some 150)"
    by (simp add: renderDpiFor_def demoPdf_def demoConfig_def POINTS_PER_INCH_def floorSqrt_def s MIN_RENDER_DPI_def)
  then show ?thesis
    using render_within_limits [of demoConfig demoPdf 1 150]
    by (simp add: demoPdf_def demoConfig_def MIN_RENDER_DPI_def)
qed

text \<open>C37. A file passes inspection only when its bytes have one of the four formats and that format is
  the declared type; a PDF then has between one page and the configured maximum, and an image has a
  readable size within the pixel limit and counts as one page. Every refusal is permanent and
  carries a code that excludes a retry, unless the PDF tool itself failed or the file could not be
  read.\<close>

theorem inspect_exact:
  "(\<forall>f. inspect cfg tb file mime = Inr f \<longrightarrow>
      detectFormat file = Some (if_format f)
      \<and> (truthy mime \<longrightarrow> mime = Some (js (FORMAT_MIME_TYPES (if_format f))))
      \<and> inspected_ok cfg f
      \<and> (if_format f \<noteq> Pdf \<longrightarrow> (\<exists>dims. readImageDimensions (if_format f) (take SIGNATURE_PROBE_BYTES file) = Inr (Some dims)
            \<and> imageWidth dims * imageHeight dims \<le> oc_maxImagePixels cfg)))
   \<and> (\<forall>err. inspect cfg tb file mime = Inl err \<longrightarrow>
      (\<exists>e. err = Processing e \<and> pe_permanent e \<and> pe_code e \<in> set PERMANENT_OCR_ERROR_CODES)
      \<or> pdfInfo tb (int (oc_pageTimeoutMs cfg)) = Inl err \<or> headError tb = Some err)"
proof (intro conjI allI impI)
  fix f assume f: "inspect cfg tb file mime = Inr f"
  have head: "readHead tb file SIGNATURE_PROBE_BYTES = Inr (take SIGNATURE_PROBE_BYTES file)"
    using f by (auto simp: inspect_def readHead_def split: option.splits)
  have det: "detectFormat (take SIGNATURE_PROBE_BYTES file) = detectFormat file"
    by (rule detectFormat_take) (simp add: SIGNATURE_PROBE_BYTES_def)
  note cases = f [unfolded inspect_def head sum.case det mimeOf_table]
  show "detectFormat file = Some (if_format f)"
    using cases by (auto split: option.splits if_splits sum.splits)
  show "mime = Some (js (FORMAT_MIME_TYPES (if_format f)))" if "truthy mime"
    using cases that by (cases mime) (auto simp: truthy_def split: option.splits if_splits sum.splits)
  show "inspected_ok cfg f" by (rule inspect_ok [OF f])
  show "\<exists>dims. readImageDimensions (if_format f) (take SIGNATURE_PROBE_BYTES file) = Inr (Some dims)
            \<and> imageWidth dims * imageHeight dims \<le> oc_maxImagePixels cfg" if "if_format f \<noteq> Pdf"
    using cases that by (auto split: option.splits if_splits sum.splits)
qed (use inspect_refusal in blast)

theorem inspect_exact_witness:
  "inspect demoConfig demoTools [0x25, 0x50, 0x44, 0x46, 0x2d] None
     = Inr \<lparr>if_format = Pdf, if_totalPages = 3, if_pdf = Some demoPdf\<rparr>
   \<and> detectFormat [0x25, 0x50, 0x44, 0x46, 0x2d] = Some Pdf"
proof -
  have "latin1 [0x25, 0x50, 0x44, 0x46, 0x2d] = ''%PDF-''" by code_simp
  then have "inspect demoConfig demoTools [0x25, 0x50, 0x44, 0x46, 0x2d] None
     = Inr \<lparr>if_format = Pdf, if_totalPages = 3, if_pdf = Some demoPdf\<rparr>"
    by (simp add: inspect_def readHead_def SIGNATURE_PROBE_BYTES_def detectFormat_def subarray_def truthy_def
        demoTools_def demoPdf_def demoConfig_def)
  then show ?thesis
    using inspect_exact [of demoConfig demoTools "[0x25, 0x50, 0x44, 0x46, 0x2d]" None] by simp
qed

end
