(* ===== verification/Ocr_Worker.thy ===== *)
theory Ocr_Worker
  imports Ocr_Service Ocr_Extraction
begin

text \<open>
  The worker and the reconciler: \<open>ocr/ocr-worker.service.ts\<close>. Processing one queue entry is the
  function \<open>process\<close>: it claims the job, downloads and inspects the file, extracts page after page,
  stores each and finishes the job; between any two of its steps other workers, requests and the
  heartbeat of the job itself may act (\<open>others\<close>). A worker that dies stops between two steps; what
  it leaves behind is a state like any other. The object storage is a parameter. Of the temporary
  directories the model has whether one could be created (\<open>tempDirError\<close>); removing one never fails a
  delivery. Log lines are not part of the model.
\<close>

section \<open>Download\<close>

text \<open>An object as a stream: its size and type if known, its chunks, and the error that ends the stream early,
  if one does.\<close>

record StoredObjectStream =
  ss_size :: "nat option"
  ss_contentType :: "jsstring option"
  ss_chunks :: "bytes list"
  ss_error :: "jsstring option"

type_synonym object_store = "jsstring \<Rightarrow> thrown + StoredObjectStream option"

definition tooLarge :: "nat \<Rightarrow> thrown" where
  "tooLarge maxBytes = Processing (permanent ''OCR_FILE_TOO_LARGE''
     (''Documents larger than '' @ nat_str maxBytes @ '' bytes cannot be processed'') None)"

text \<open>The limiter between the stream and the file; \<open>None\<close> when more than \<open>maxBytes\<close> arrive.\<close>

fun limiter :: "nat \<Rightarrow> nat \<Rightarrow> bytes list \<Rightarrow> bytes option" where
  "limiter maxBytes received [] = Some []"
| "limiter maxBytes received (chunk # rest) =
     (if received + length chunk > maxBytes then None
      else map_option (\<lambda>r. chunk @ r) (limiter maxBytes (received + length chunk) rest))"

definition download :: "object_store \<Rightarrow> jsstring \<Rightarrow> nat \<Rightarrow> thrown + bytes" where
  "download store storageKey maxBytes =
     (case store storageKey of
        Inl (StorageException m) \<Rightarrow>
          Inl (Processing (transient ''OCR_STORAGE_ERROR'' ''The document could not be read from storage'' None))
      | Inl e \<Rightarrow> Inl e
      | Inr None \<Rightarrow>
          Inl (Processing (permanent ''OCR_STORAGE_ERROR'' ''The stored file for this document is missing'' None))
      | Inr (Some object) \<Rightarrow>
          if (case ss_size object of None \<Rightarrow> False | Some n \<Rightarrow> n > maxBytes) then Inl (tooLarge maxBytes)
          else
            (case limiter maxBytes 0 (ss_chunks object) of
               None \<Rightarrow> Inl (tooLarge maxBytes)
             | Some file \<Rightarrow>
                 (case ss_error object of
                    None \<Rightarrow> Inr file
                  | Some m \<Rightarrow> Inl (Processing (transient ''OCR_STORAGE_ERROR''
                      ''The document could not be read from storage'' (Some m))))))"

section \<open>Failures\<close>

text \<open>What the queue library sees of a delivery: done, an error that it retries with backoff, or one
  that it does not retry.\<close>

datatype delivery = Done | RetryLater | Unrecoverable string

definition toProcessingError :: "thrown \<Rightarrow> OcrProcessingError" where
  "toProcessingError err =
     (case err of
        Processing e \<Rightarrow> e
      | StorageException m \<Rightarrow>
          transient ''OCR_STORAGE_ERROR'' ''The document could not be read from storage'' (Some (js m))
      | OtherError m \<Rightarrow>
          transient ''OCR_PROCESSING_FAILED'' ''Text extraction failed unexpectedly'' (Some (js (''Error: '' @ m))))"

definition handleFailure :: "OcrJob \<Rightarrow> thrown \<Rightarrow> time \<Rightarrow> World \<Rightarrow> delivery \<times> World" where
  "handleFailure job err now w =
     (let failure = toProcessingError err
      in if pe_permanent failure \<or> j_attemptCount job \<ge> j_maxAttempts job
         then (Unrecoverable (pe_code failure), snd (failJob (j_id job) (pe_code failure) (pe_message failure) now w))
         else (RetryLater, snd (requeue (j_id job) (pe_code failure) (pe_message failure) now w)))"

section \<open>Processing\<close>

fun persistAll :: "run \<Rightarrow> uuid \<Rightarrow> ExtractedPage list \<Rightarrow> World \<Rightarrow> thrown option \<times> World" where
  "persistAll e i [] w = (None, w)"
| "persistAll e i (p # ps) w =
     (case persistPage i p (clock e (20 + x_pageNumber p)) (others e (20 + x_pageNumber p) w) of
        (Inl _, w') \<Rightarrow> (Some (OtherError ''P2003''), w')
      | (Inr _, w') \<Rightarrow> persistAll e i ps w')"

definition pageClock :: "run \<Rightarrow> nat \<Rightarrow> nat \<Rightarrow> time" where
  "pageClock e n k = clock e (5000000 + 10 * n + k)"

text \<open>The pages of an inspected file, from the first one that is not stored yet, and the end of the
  job. \<open>None\<close> when it returns, and the error otherwise.\<close>

definition processFile ::
  "run \<Rightarrow> OcrConfig \<Rightarrow> unicode \<Rightarrow> toolbox \<Rightarrow> OcrJob \<Rightarrow> uuid \<Rightarrow> InspectedFile \<Rightarrow> World \<Rightarrow> thrown option \<times> World" where
  "processFile e cfg U tb job documentId inspected w =
     (let w1 = setTotalPages (j_id job) documentId (if_totalPages inspected) (clock e 4) (others e 5 w);
          w2 = others e 6 w1;
          progress = persistedProgress (j_id job) w2;
          (pages, err) = extractPages cfg U tb (pageClock e)
            \<lparr>ei_inspected = inspected, ei_language = j_language job,
             ei_deadline = clock e 5 + int (oc_jobTimeoutMs cfg),
             ei_startPage = lastPage progress + 1,
             ei_charBudget = int (oc_maxTextPerDocument cfg) - int (progressChars progress)\<rparr>;
          (stop, w3) = persistAll e (j_id job) pages w2
      in case stop of
           Some x \<Rightarrow> (Some x, w3)
         | None \<Rightarrow>
             (case err of
                Some x \<Rightarrow> (Some x, w3)
              | None \<Rightarrow> (None, snd (finalize (j_id job) (clock e 6) (others e 7 w3)))))"

text \<open>\<open>run\<close>: the checks on the document, the download and the inspection in front of that.\<close>

definition runJob ::
  "run \<Rightarrow> OcrConfig \<Rightarrow> unicode \<Rightarrow> object_store \<Rightarrow> (bytes \<Rightarrow> toolbox) \<Rightarrow> OcrJob \<Rightarrow> World \<Rightarrow> thrown option \<times> World" where
  "runJob e cfg U store tools job w =
     (case findFirst (\<lambda>d. d_id d = j_documentId job \<and> d_userId d = j_userId job \<and> d_deletedAt d = None) (documents w) of
        None \<Rightarrow>
          (None, snd (cancelJob (j_id job) ''OCR_DOCUMENT_UNAVAILABLE''
                   ''The document is no longer available for processing'' (clock e 3) (others e 4 w)))
      | Some document \<Rightarrow>
          if d_status document \<noteq> READY \<or> \<not> truthy (d_storageKey document)
          then (None, snd (cancelJob (j_id job) ''OCR_DOCUMENT_UNAVAILABLE''
                   ''The document is no longer available for processing'' (clock e 3) (others e 4 w)))
          else if (case d_fileSize document of None \<Rightarrow> False | Some n \<Rightarrow> n > int (oc_maxFileSizeBytes cfg))
          then (Some (tooLarge (oc_maxFileSizeBytes cfg)), w)
          else
            (case download store (the (d_storageKey document)) (oc_maxFileSizeBytes cfg) of
               Inl err \<Rightarrow> (Some err, w)
             | Inr file \<Rightarrow>
                 (case inspect cfg (tools file) file (d_mimeType document) of
                    Inl err \<Rightarrow> (Some err, w)
                  | Inr inspected \<Rightarrow>
                      processFile e cfg U (tools file) job (d_id document) inspected w)))"

text \<open>The timer that renews the heartbeat starts before the work directory is created, and creating it is
  not in the \<open>try\<close>. When that fails, the job stays in processing and nothing stops the timer: its
  heartbeats go on as steps of others in whatever runs later.\<close>

definition process ::
  "run \<Rightarrow> OcrConfig \<Rightarrow> unicode \<Rightarrow> object_store \<Rightarrow> (bytes \<Rightarrow> toolbox) \<Rightarrow> uuid \<Rightarrow> World \<Rightarrow> delivery \<times> World" where
  "process e cfg U store tools ocrJobId w =
     (case findJobById ocrJobId w of
        None \<Rightarrow> (Done, w)
      | Some job \<Rightarrow>
          if j_status job \<in> set TERMINAL_OCR_STATUSES then (Done, w)
          else
            (let (claimed, w1) = claim ocrJobId (int (oc_staleJobMs cfg)) (clock e 0) (clock e 1) (others e 0 w)
             in if \<not> claimed then (RetryLater, w1)
                else
                  (let w2 = others e 1 w1;
                       claimedJob = (case findJobById ocrJobId w2 of None \<Rightarrow> job | Some j \<Rightarrow> j)
                   in if j_attemptCount claimedJob > j_maxAttempts claimedJob
                      then (Unrecoverable ''OCR_WORKER_INTERRUPTED'',
                            snd (failJob ocrJobId ''OCR_WORKER_INTERRUPTED''
                              ''Processing was interrupted and the attempt budget is exhausted'' (clock e 2) (others e 2 w2)))
                      else
                        (case tempDirError e of
                           Some _ \<Rightarrow> (RetryLater, others e 3 w2)
                         | None \<Rightarrow>
                             (case runJob e cfg U store tools claimedJob (others e 3 w2) of
                                (None, w3) \<Rightarrow> (Done, w3)
                              | (Some err, w3) \<Rightarrow> handleFailure claimedJob err (clock e 7) (others e 8 w3))))))"

text \<open>A queue entry without an id is ignored.\<close>

definition handleEntry ::
  "run \<Rightarrow> OcrConfig \<Rightarrow> unicode \<Rightarrow> object_store \<Rightarrow> (bytes \<Rightarrow> toolbox) \<Rightarrow> uuid option \<Rightarrow> World \<Rightarrow> delivery \<times> World" where
  "handleEntry e cfg U store tools ocrJobId w =
     (if truthy ocrJobId then process e cfg U store tools (the ocrJobId) w else (Done, w))"

section \<open>Reconciliation\<close>

record ReconcileSummary =
  sm_enqueued :: nat
  sm_recovered :: nat
  sm_failed :: nat

text \<open>The steps below count the steps of others with \<open>k\<close>. The first component says whether the
  queue could not be reached, which ends the run.\<close>

definition requeueEntry :: "run \<Rightarrow> nat \<Rightarrow> bullmq \<Rightarrow> uuid \<Rightarrow> World \<Rightarrow> bool \<times> World" where
  "requeueEntry e k q i w =
     (case removeStaleEntry q i (others e k w) of
        Inl _ \<Rightarrow> (True, others e k w)
      | Inr w1 \<Rightarrow>
          (case enqueue q i (others e (k + 1) w1) of
             Inl _ \<Rightarrow> (True, others e (k + 1) w1)
           | Inr w2 \<Rightarrow> (False, w2)))"

fun reconcileStale ::
  "run \<Rightarrow> OcrConfig \<Rightarrow> bullmq \<Rightarrow> nat \<Rightarrow> OcrJob list \<Rightarrow> ReconcileSummary \<Rightarrow> World \<Rightarrow> bool \<times> ReconcileSummary \<times> World" where
  "reconcileStale e cfg q k [] s w = (False, s, w)"
| "reconcileStale e cfg q k (job # rest) s w =
     (if j_attemptCount job \<ge> j_maxAttempts job
      then (let (b, w1) = failJob (j_id job) ''OCR_WORKER_INTERRUPTED''
                   ''Processing was interrupted and the attempt budget is exhausted'' (clock e k) (others e k w)
            in reconcileStale e cfg q (k + 4) rest (if b then s\<lparr>sm_failed := sm_failed s + 1\<rparr> else s) w1)
      else
        (let (b, w1) = recover (j_id job) (int (oc_staleJobMs cfg)) (clock e k) (others e k w)
         in if b
            then (case requeueEntry e (k + 1) q (j_id job) w1 of
                    (True, w2) \<Rightarrow> (True, s, w2)
                  | (False, w2) \<Rightarrow> reconcileStale e cfg q (k + 4) rest (s\<lparr>sm_recovered := sm_recovered s + 1\<rparr>) w2)
            else reconcileStale e cfg q (k + 4) rest s w1))"

fun reconcileQueued ::
  "run \<Rightarrow> bullmq \<Rightarrow> nat \<Rightarrow> OcrJob list \<Rightarrow> ReconcileSummary \<Rightarrow> World \<Rightarrow> ReconcileSummary \<times> World" where
  "reconcileQueued e q k [] s w = (s, w)"
| "reconcileQueued e q k (job # rest) s w =
     (let w0 = others e k w
      in case isPending q (j_id job) w0 of
           Inl _ \<Rightarrow> (s, w0)
         | Inr True \<Rightarrow> reconcileQueued e q (k + 4) rest s w0
         | Inr False \<Rightarrow>
             (case requeueEntry e (k + 1) q (j_id job) w0 of
                (True, w1) \<Rightarrow> (s, w1)
              | (False, w1) \<Rightarrow> reconcileQueued e q (k + 4) rest (s\<lparr>sm_enqueued := sm_enqueued s + 1\<rparr>) w1))"

text \<open>\<open>reconciling\<close> is the flag of the process that keeps two runs from overlapping.\<close>

definition reconcile :: "run \<Rightarrow> OcrConfig \<Rightarrow> bullmq \<Rightarrow> bool \<Rightarrow> World \<Rightarrow> ReconcileSummary \<times> World" where
  "reconcile e cfg q reconciling w =
     (let zero = \<lparr>sm_enqueued = 0, sm_recovered = 0, sm_failed = 0\<rparr>
      in if reconciling then (zero, w)
         else
           (let stale = findStaleProcessing (clock e 0) (int (oc_staleJobMs cfg)) w;
                (aborted, s1, w1) = reconcileStale e cfg q 1 stale zero w
            in if aborted then (s1, w1)
               else (let k = 1 + 4 * length stale
                     in reconcileQueued e q (k + 1) (findQueued (others e k w1)) s1 (others e k w1))))"

section \<open>Every delivery keeps the jobs consistent\<close>

text \<open>What a worker relies on while it waits: the others keep the table of jobs consistent and leave
  finished jobs alone, as every operation of this development does.\<close>

definition job_env :: "run \<Rightarrow> bool" where
  "job_env e \<longleftrightarrow> (\<forall>i v. jobs_step v (others e i v))"

lemma job_envD: "job_env e \<Longrightarrow> jobs_step v w \<Longrightarrow> jobs_step v (others e i w)"
  unfolding job_env_def using jobs_step_trans by blast

lemma step_refl: "jobs_step w w"
  by (simp add: jobs_step_same)

text \<open>A relation that every operation on jobs and every call of the queue keeps is kept by whole deliveries and
  reconciliations, whatever others do that keep it too.\<close>

definition kept_by_others :: "(World \<Rightarrow> World \<Rightarrow> bool) \<Rightarrow> run \<Rightarrow> bool" where
  "kept_by_others R e \<longleftrightarrow> (\<forall>i v. R v (others e i v))"

locale job_relation =
  fixes R :: "World \<Rightarrow> World \<Rightarrow> bool"
  assumes refl: "R w w"
    and trans: "R u v \<Longrightarrow> R v w \<Longrightarrow> R u w"
    and operation: "R w (perform op w)"
    and queue_add: "bull_ok q \<Longrightarrow> addEntry q i w = Inr w' \<Longrightarrow> R w w'"
    and queue_drop: "bull_ok q \<Longrightarrow> dropEntry q i w = Inr w' \<Longrightarrow> R w w'"
begin

lemma kept_envD: "kept_by_others R e \<Longrightarrow> R v w \<Longrightarrow> R v (others e i w)"
  unfolding kept_by_others_def using trans by blast

lemma claim_kept: "R w (snd (claim i s now db w))"
  using operation [of w "Claim i s now db"] by simp

lemma setTotalPages_kept: "R w (setTotalPages i d n now w)"
  using operation [of w "SetTotalPages i d n now"] by simp

lemma persistPage_kept: "R w (snd (persistPage i x db w))"
  using operation [of w "PersistPage i x db"] by simp

lemma finalize_kept: "R w (snd (finalize i now w))"
  using operation [of w "Finalize i now"] by simp

lemma failJob_kept: "R w (snd (failJob i c m now w))"
  using operation [of w "Fail i c m now"] by simp

lemma requeue_kept: "R w (snd (requeue i c m now w))"
  using operation [of w "Requeue i c m now"] by simp

lemma cancelJob_kept: "R w (snd (cancelJob i c m now w))"
  using operation [of w "Cancel i c m now"] by simp

lemma recover_kept: "R w (snd (recover i s now w))"
  using operation [of w "Recover i s now"] by simp

lemma removeStaleEntry_kept: "bull_ok q \<Longrightarrow> removeStaleEntry q i w = Inr w' \<Longrightarrow> R w w'"
  by (auto simp: removeStaleEntry_def refl dest: queue_drop split: sum.splits option.splits if_splits)

lemma persistAll_kept:
  assumes "kept_by_others R e"
  shows "R w (snd (persistAll e i ps w))"
proof (induction ps arbitrary: w)
  case (Cons p ps)
  let ?w0 = "others e (20 + x_pageNumber p) w"
  obtain r w' where p: "persistPage i p (clock e (20 + x_pageNumber p)) ?w0 = (r, w')" by fastforce
  have "R ?w0 w'"
    using persistPage_kept [of ?w0 i p "clock e (20 + x_pageNumber p)"] p by simp
  then have "R w w'" using trans kept_envD [OF assms refl] by blast
  then show ?case using p Cons trans by (cases r) auto
qed (simp add: refl)

lemma processFile_kept:
  assumes "kept_by_others R e"
  shows "R w (snd (processFile e cfg U tb job d inspected w))"
proof -
  note env = kept_envD [OF assms]
  let ?w1 = "setTotalPages (j_id job) d (if_totalPages inspected) (clock e 4) (others e 5 w)"
  let ?w2 = "others e 6 ?w1"
  let ?p = "persistedProgress (j_id job) ?w2"
  obtain pages err where f: "extractPages cfg U tb (pageClock e)
            \<lparr>ei_inspected = inspected, ei_language = j_language job,
             ei_deadline = clock e 5 + int (oc_jobTimeoutMs cfg), ei_startPage = lastPage ?p + 1,
             ei_charBudget = int (oc_maxTextPerDocument cfg) - int (progressChars ?p)\<rparr> = (pages, err)" by fastforce
  obtain stop w3 where p: "persistAll e (j_id job) pages ?w2 = (stop, w3)" by fastforce
  have "R w ?w1" using setTotalPages_kept trans env [OF refl] by blast
  then have "R w ?w2" by (rule env)
  moreover have "R ?w2 w3" using persistAll_kept [OF assms, of ?w2 "j_id job" pages] p by simp
  ultimately have w3: "R w w3" using trans by blast
  moreover have "R w (snd (finalize (j_id job) (clock e 6) (others e 7 w3)))"
    using finalize_kept trans env [OF w3] by blast
  ultimately show ?thesis
    unfolding processFile_def Let_def f prod.case p by (simp split: option.split)
qed

lemma runJob_kept:
  assumes "kept_by_others R e"
  shows "R w (snd (runJob e cfg U store tools job w))"
proof -
  have "R w (snd (cancelJob i c m t (others e 4 w)))" for i c m t
    using cancelJob_kept trans kept_envD [OF assms refl] by blast
  then show ?thesis
    unfolding runJob_def
    by (simp add: refl processFile_kept [OF assms] split: option.split sum.split)
qed

lemma handleFailure_kept: "R w (snd (handleFailure job err t w))"
  by (simp add: handleFailure_def Let_def failJob_kept requeue_kept)

lemma process_kept:
  assumes "kept_by_others R e"
  shows "R w (snd (process e cfg U store tools i w))"
proof (cases "findJobById i w")
  case None
  then show ?thesis by (simp add: process_def refl)
next
  case (Some job)
  note env = kept_envD [OF assms]
  let ?w0 = "others e 0 w"
  obtain b w1 where c: "claim i (int (oc_staleJobMs cfg)) (clock e 0) (clock e 1) ?w0 = (b, w1)" by fastforce
  have w1: "R w w1"
    using claim_kept [of ?w0 i "int (oc_staleJobMs cfg)" "clock e 0" "clock e 1"] c
      trans env [OF refl] by (metis snd_conv)
  let ?w2 = "others e 1 w1"
  have w2: "R w ?w2" by (rule env [OF w1])
  let ?j = "case findJobById i ?w2 of None \<Rightarrow> job | Some j \<Rightarrow> j"
  have "R w (snd (failJob i x y z (others e 2 ?w2)))" for x y z
    using failJob_kept trans env [OF w2] by blast
  moreover have "R w (snd (case runJob e cfg U store tools ?j (others e 3 ?w2) of
      (None, w3) \<Rightarrow> (Done, w3) | (Some err, w3) \<Rightarrow> handleFailure ?j err (clock e 7) (others e 8 w3)))"
  proof -
    obtain r w3 where r: "runJob e cfg U store tools ?j (others e 3 ?w2) = (r, w3)" by fastforce
    have w3: "R w w3"
      using runJob_kept [OF assms, of "others e 3 ?w2" cfg U store tools ?j] r trans env [OF w2]
      by (metis snd_conv)
    moreover have "R w (snd (handleFailure ?j err (clock e 7) (others e 8 w3)))" for err
      using handleFailure_kept trans env [OF w3] by blast
    ultimately show ?thesis unfolding r by (cases r) simp_all
  qed
  ultimately show ?thesis
    unfolding process_def Let_def using Some c w1 env [OF w2] by (cases "tempDirError e") (simp_all add: refl)
qed

lemma requeueEntry_kept:
  assumes "kept_by_others R e" and "bull_ok q"
  shows "R w (snd (requeueEntry e k q i w))"
proof -
  note env = kept_envD [OF assms(1)]
  let ?w0 = "others e k w"
  have w0: "R w ?w0" by (rule env [OF refl])
  show ?thesis
  proof (cases "removeStaleEntry q i ?w0")
    case (Inl m)
    then show ?thesis using w0 by (simp add: requeueEntry_def)
  next
    case (Inr w1)
    then have "R w w1"
      using removeStaleEntry_kept [OF assms(2)] w0 trans by blast
    then have w1: "R w (others e (k + 1) w1)" by (rule env)
    have "R w w2" if "enqueue q i (others e (k + 1) w1) = Inr w2" for w2
      using that queue_add [OF assms(2)] w1 trans unfolding enqueue_def by blast
    then show ?thesis using Inr w1 by (simp add: requeueEntry_def split: sum.split)
  qed
qed

lemma reconcileStale_kept:
  assumes "kept_by_others R e" and "bull_ok q"
  shows "R w (snd (snd (reconcileStale e cfg q k xs s w)))"
proof (induction xs arbitrary: k s w)
  case (Cons job xs)
  note env = kept_envD [OF assms(1)]
  have fail: "R w (snd (failJob i c m t (others e k w)))" for i c m t
    using failJob_kept trans env [OF refl] by blast
  have rec: "R w (snd (recover i st t (others e k w)))" for i st t
    using recover_kept trans env [OF refl] by blast
  show ?case
  proof (cases "j_attemptCount job \<ge> j_maxAttempts job")
    case True
    then show ?thesis using Cons fail trans by (simp add: case_prod_unfold Let_def) blast
  next
    case False
    let ?r = "recover (j_id job) (int (oc_staleJobMs cfg)) (clock e k) (others e k w)"
    let ?q = "requeueEntry e (k + 1) q (j_id job) (snd ?r)"
    have q: "R w (snd ?q)"
      using requeueEntry_kept [OF assms] rec trans by blast
    have "R w (snd (snd (reconcileStale e cfg q (k + 4) xs s' (snd ?q))))"
      "R w (snd (snd (reconcileStale e cfg q (k + 4) xs s' (snd ?r))))" for s'
      using Cons q rec trans by blast+
    then show ?thesis using False q
      by (cases ?r; cases ?q; cases "fst ?r"; cases "fst ?q") (simp_all add: case_prod_unfold Let_def)
  qed
qed (simp add: refl)

lemma reconcileQueued_kept:
  assumes "kept_by_others R e" and "bull_ok q"
  shows "R w (snd (reconcileQueued e q k xs s w))"
proof (induction xs arbitrary: k s w)
  case (Cons job xs)
  let ?w0 = "others e k w"
  let ?q = "requeueEntry e (k + 1) q (j_id job) ?w0"
  have w0: "R w ?w0" by (rule kept_envD [OF assms(1) refl])
  have q: "R w (snd ?q)" using requeueEntry_kept [OF assms] w0 trans by blast
  have "R w (snd (reconcileQueued e q (k + 4) xs s' (snd ?q)))"
    "R w (snd (reconcileQueued e q (k + 4) xs s' ?w0))" for s'
    using Cons q w0 trans by blast+
  then show ?case using q w0
    by (cases ?q; cases "fst ?q") (auto simp: Let_def split: sum.split bool.split)
qed (simp add: refl)

lemma reconcile_kept:
  assumes "kept_by_others R e" and "bull_ok q"
  shows "R w (snd (reconcile e cfg q b w))"
proof -
  let ?zero = "\<lparr>sm_enqueued = 0, sm_recovered = 0, sm_failed = 0\<rparr>"
  let ?stale = "findStaleProcessing (clock e 0) (int (oc_staleJobMs cfg)) w"
  obtain a s1 w1 where r: "reconcileStale e cfg q 1 ?stale ?zero w = (a, s1, w1)" by (cases "reconcileStale e cfg q 1 ?stale ?zero w")
  have w1: "R w w1" using reconcileStale_kept [OF assms, of w cfg 1 ?stale ?zero] r by simp
  have "R w (snd (reconcileQueued e q k xs s (others e n w1)))" for k xs s n
    using reconcileQueued_kept [OF assms] trans kept_envD [OF assms(1) w1] by blast
  then show ?thesis using r w1 by (simp add: reconcile_def Let_def refl)
qed

end

lemma bull_frame:
  assumes "bull_ok q"
  shows "addEntry q i w = Inr w' \<Longrightarrow> \<exists>entries. w' = w\<lparr>queueEntries := entries\<rparr>"
    and "dropEntry q i w = Inr w' \<Longrightarrow> \<exists>entries. w' = w\<lparr>queueEntries := entries\<rparr>"
  using assms unfolding bull_ok_def by blast+

interpretation kept: job_relation jobs_step
proof unfold_locales
  show "jobs_step w (perform op w)" for w op by (rule perform_step)
  show "jobs_step w w" for w by (rule step_refl)
  show "jobs_step u w" if "jobs_step u v" "jobs_step v w" for u v w using jobs_step_trans [OF that] .
  show "jobs_step w w'" if "bull_ok q" "addEntry q i w = Inr w'" for q i w w'
    using bull_frame(1) [OF that] by (auto simp: jobs_step_same)
  show "jobs_step w w'" if "bull_ok q" "dropEntry q i w = Inr w'" for q i w w'
    using bull_frame(2) [OF that] by (auto simp: jobs_step_same)
qed

text \<open>So is a step that does not hold the lock of a document.\<close>

interpretation without_lock: job_relation "unlocked d" for d
proof unfold_locales
  show "unlocked d w w" for w by (rule unlocked.elsewhere) (rule refl)
  show "unlocked d u w" if "unlocked d u v" "unlocked d v w" for u v w using that by (rule unlocked.sequence)
  show "unlocked d w (perform op w)" for w op by (rule unlocked.operation)
  show "unlocked d w w'" if "bull_ok q" "addEntry q i w = Inr w'" for q i w w'
    using bull_frame(1) [OF that] unlocked.elsewhere by auto
  show "unlocked d w w'" if "bull_ok q" "dropEntry q i w = Inr w'" for q i w w'
    using bull_frame(2) [OF that] unlocked.elsewhere by auto
qed

lemmas process_unlocked = without_lock.process_kept

lemmas reconcile_unlocked = without_lock.reconcile_kept

lemma job_env_kept: "job_env e = kept_by_others jobs_step e"
  by (simp add: job_env_def kept_by_others_def)

lemmas process_step = kept.process_kept [folded job_env_kept]

lemmas requeueEntry_step = kept.requeueEntry_kept [folded job_env_kept]

lemmas reconcile_step = kept.reconcile_kept [folded job_env_kept]

end
