(* ===== verification/Ocr_Processing.thy ===== *)
theory Ocr_Processing
  imports Ocr_Worker
begin

text \<open>
  What the worker and the reconciler achieve. The operations on jobs are first read as functions on
  the row with a given id; a delivery then is a short calculation on that row and on the pages of
  the job. A delivery that no other request disturbs either finishes its job or hands it back with
  one attempt used, so finitely many deliveries finish it; a reconciliation leaves no waiting job
  without a queue entry.
\<close>

section \<open>Download\<close>

lemma limiter_exact:
  "received \<le> maxBytes \<Longrightarrow>
     limiter maxBytes received chunks =
       (if received + length (concat chunks) \<le> maxBytes then Some (concat chunks) else None)"
  by (induction maxBytes received chunks rule: limiter.induct) auto

section \<open>Operations on one row\<close>

lemma find_updateJobs:
  assumes "\<And>x. p x \<Longrightarrow> j_id (f x) = j_id x"
  shows "findJobById i (snd (updateJobs p f now w)) =
    map_option (\<lambda>j. if p j then (f j)\<lparr>j_updatedAt := now\<rparr> else j) (findJobById i w)"
  unfolding findJobById_def updateJobs_rows using assms by (subst findFirst_map_key) simp_all

lemma find_same: "ocrJobs w = ocrJobs v \<Longrightarrow> findJobById i w = findJobById i v"
  by (simp add: findJobById_def)

lemma find_claim:
  "findJobById i (snd (claim i s now db w)) =
     map_option (\<lambda>j. if claimable s now j then (claimedRow db j)\<lparr>j_updatedAt := db\<rparr> else j) (findJobById i w)"
proof -
  have "findJobById i (snd (claim i s now db w)) =
      map_option (\<lambda>j. if j_id j = i \<and> claimable s now j then (claimedRow db j)\<lparr>j_updatedAt := db\<rparr> else j) (findJobById i w)"
    unfolding claim_unfold Let_def case_prod_unfold snd_conv
    by (rule find_updateJobs) (simp add: claimedRow_def)
  then show ?thesis using findJobById_Some [of i w] by (cases "findJobById i w") auto
qed

lemma claim_taken:
  assumes "jobs_wf w" and "findJobById i w = Some j"
  shows "fst (claim i s now db w) = claimable s now j"
  using claim_one(1) [OF assms(1), of j s now db] findJobById_Some [OF assms(2)] by blast

lemma find_failJob:
  assumes "findJobById i w = Some j"
  shows "findJobById i (snd (failJob i c m now w)) = Some (if isActive j
     then j\<lparr>j_status := FAILED, j_errorCode := Some c, j_errorMessage := Some (take 500 m),
            j_completedAt := Some now, j_heartbeatAt := Some now, j_updatedAt := now\<rparr> else j)"
  using findJobById_Some [OF assms] assms unfolding failJob_def Let_def case_prod_unfold snd_conv
  by (subst find_updateJobs) simp_all

lemma find_cancelJob:
  assumes "findJobById i w = Some j"
  shows "findJobById i (snd (cancelJob i c m now w)) = Some (if isActive j
     then j\<lparr>j_status := CANCELLED, j_errorCode := Some c, j_errorMessage := Some (take 500 m),
            j_completedAt := Some now, j_heartbeatAt := Some now, j_updatedAt := now\<rparr> else j)"
  using findJobById_Some [OF assms] assms unfolding cancelJob_def Let_def case_prod_unfold snd_conv
  by (subst find_updateJobs) simp_all

lemma find_requeue:
  assumes "findJobById i w = Some j"
  shows "findJobById i (snd (requeue i c m now w)) = Some (if j_status j = PROCESSING
     then j\<lparr>j_status := QUEUED, j_errorCode := Some c, j_errorMessage := Some (take 500 m),
            j_heartbeatAt := Some now, j_updatedAt := now\<rparr> else j)"
  using findJobById_Some [OF assms] assms unfolding requeue_def Let_def case_prod_unfold snd_conv
  by (subst find_updateJobs) simp_all

lemma find_setTotalPages:
  assumes "findJobById i w = Some j"
  shows "findJobById i (setTotalPages i d n now w) = Some (if j_status j = PROCESSING
     then j\<lparr>j_totalPages := Some n, j_heartbeatAt := Some now, j_updatedAt := now\<rparr> else j)"
proof -
  let ?u = "snd (updateJobs (\<lambda>j. j_id j = i \<and> j_status j = PROCESSING)
                 (\<lambda>j. j\<lparr>j_totalPages := Some n, j_heartbeatAt := Some now\<rparr>) now w)"
  have "findJobById i (setTotalPages i d n now w) = findJobById i ?u"
    by (rule find_same) (simp add: setTotalPages_def Let_def)
  also have "\<dots> = Some (if j_status j = PROCESSING
     then j\<lparr>j_totalPages := Some n, j_heartbeatAt := Some now, j_updatedAt := now\<rparr> else j)"
    using findJobById_Some [OF assms] assms by (subst find_updateJobs) simp_all
  finally show ?thesis .
qed

lemma find_finalize:
  assumes "findJobById i w = Some j"
  shows "findJobById i (snd (finalize i now w)) = Some (if j_status j = PROCESSING
     then (finalRow (pagesOf i w) now j)\<lparr>j_updatedAt := now\<rparr> else j)"
proof -
  let ?u = "snd (updateJobs (\<lambda>j. j_id j = i \<and> j_status j = PROCESSING) (finalRow (pagesOf i w) now) now w)"
  have "snd (finalize i now w) = ?u" by (simp add: finalize_unfold Let_def case_prod_unfold)
  moreover have "findJobById i ?u = Some (if j_status j = PROCESSING
     then (finalRow (pagesOf i w) now j)\<lparr>j_updatedAt := now\<rparr> else j)"
    using findJobById_Some [OF assms] assms by (subst find_updateJobs) (simp_all add: finalRow_def)
  ultimately show ?thesis by simp
qed

lemma pages_finalize [simp]: "pagesOf i (snd (finalize k now w)) = pagesOf i w"
  by (simp add: pagesOf_def finalize_unfold Let_def case_prod_unfold)

lemma pages_setTotalPages [simp]: "pagesOf i (setTotalPages k d n now w) = pagesOf i w"
  by (simp add: pagesOf_def setTotalPages_def Let_def)

lemma claim_frame [simp]:
  "pagesOf i (snd (claim k s now db w)) = pagesOf i w" "documents (snd (claim k s now db w)) = documents w"
  by (simp_all add: pagesOf_def claim_unfold Let_def case_prod_unfold)

lemma terminal_finalRow: "isTerminal ((finalRow pages now j)\<lparr>j_updatedAt := t\<rparr>)"
  using finalStatus_final [of pages] by (auto simp: finalRow_def isTerminal_def TERMINAL_OCR_STATUSES_def)

section \<open>A job that an attempt is working on\<close>

definition running :: "uuid \<Rightarrow> OcrJob \<Rightarrow> World \<Rightarrow> bool" where
  "running i j w \<longleftrightarrow> jobs_wf w \<and> (\<exists>r. findJobById i w = Some r \<and> j_status r = PROCESSING
     \<and> j_attemptCount r = j_attemptCount j \<and> j_maxAttempts r = j_maxAttempts j \<and> j_totalPages r = j_totalPages j)"

lemma stepD: "jobs_step w v \<Longrightarrow> jobs_wf w \<Longrightarrow> jobs_wf v"
  by (simp add: jobs_step_def)

lemma running_setTotalPages:
  "running i j w \<Longrightarrow> running i (j\<lparr>j_totalPages := Some n\<rparr>) (setTotalPages i d n now w)"
  unfolding running_def using find_setTotalPages [of i w _ d n now] stepD [OF setTotalPages_step] by fastforce

lemma find_persistPage:
  assumes "findJobById i w = Some j" and "j_status j = PROCESSING"
  shows "\<exists>r. findJobById i (snd (persistPage i x now w)) = Some r \<and> j_status r = PROCESSING
    \<and> j_attemptCount r = j_attemptCount j \<and> j_maxAttempts r = j_maxAttempts j \<and> j_totalPages r = j_totalPages j"
proof -
  let ?w1 = "w\<lparr>ocrPages := upsertRow pageKey (pageRow i x) (ocrPages w)\<rparr>"
  have "findJobById i ?w1 = Some j" using assms(1) find_same [of ?w1 w i] by simp
  then show ?thesis
    using assms findJobById_Some [OF assms(1)] unfolding persistPage_def Let_def
    by (simp only: option.distinct if_False snd_conv, subst find_updateJobs) simp_all
qed

lemma running_persistPage:
  "running i j w \<Longrightarrow> running i j (snd (persistPage i x now w))"
  unfolding running_def using find_persistPage [of i w _ x now] stepD [OF persistPage_step] by fastforce

lemma persistPage_Inr: "findJobById i w \<noteq> None \<Longrightarrow> fst (persistPage i x now w) = Inr ()"
  by (simp add: persistPage_def Let_def)

lemma pages_persistPage:
  assumes "findJobById i w \<noteq> None"
  shows "set (pagesOf i (snd (persistPage i x now w))) =
    insert (pageRow i x) {p \<in> set (pagesOf i w). p_pageNumber p \<noteq> x_pageNumber x}"
  using persistPage_pages [OF assms, of x now]
  by (auto simp: pagesOf_def findMany_def set_upsertRow pageKey_def pageRow_def)

lemma runningD: "running i j w \<Longrightarrow> findJobById i w \<noteq> None"
  by (auto simp: running_def)

text \<open>Storing the pages of a run one after the other.\<close>

lemma persistAll_running:
  assumes "quiet e" and "running i j w" and "distinct (map x_pageNumber ps)"
  shows "fst (persistAll e i ps w) = None \<and> running i j (snd (persistAll e i ps w))
    \<and> set (pagesOf i (snd (persistAll e i ps w))) =
        pageRow i ` set ps \<union> {p \<in> set (pagesOf i w). p_pageNumber p \<notin> x_pageNumber ` set ps}"
  using assms(2,3)
proof (induction ps arbitrary: w)
  case (Cons p ps)
  let ?t = "clock e (20 + x_pageNumber p)"
  let ?w1 = "snd (persistPage i p ?t w)"
  have q: "others e k v = v" for k v using assms(1) by (simp add: quiet_def)
  have step: "persistAll e i (p # ps) w = persistAll e i ps ?w1"
    by (simp add: q case_prod_unfold persistPage_Inr [OF runningD [OF Cons.prems(1)]])
  have IH: "fst (persistAll e i ps ?w1) = None" "running i j (snd (persistAll e i ps ?w1))"
    "set (pagesOf i (snd (persistAll e i ps ?w1))) =
        pageRow i ` set ps \<union> {x \<in> set (pagesOf i ?w1). p_pageNumber x \<notin> x_pageNumber ` set ps}"
    using Cons.IH [OF running_persistPage [OF Cons.prems(1)]] Cons.prems(2) by auto
  have "p_pageNumber (pageRow i p) = x_pageNumber p" by (simp add: pageRow_def)
  then show ?case
    unfolding step using IH(1,2) Cons.prems(2)
    by (auto simp: IH(3) pages_persistPage [OF runningD [OF Cons.prems(1)]]) (metis image_eqI)
qed simp

section \<open>Deliveries\<close>

text \<open>A run of the worker on a job in processing, undisturbed: if it throws, the job still is in
  processing; if it returns, the job is finished.\<close>

definition settled :: "uuid \<Rightarrow> OcrJob \<Rightarrow> World \<Rightarrow> bool" where
  "settled i j w \<longleftrightarrow> jobs_wf w \<and> (\<exists>r. findJobById i w = Some r \<and> isTerminal r
     \<and> j_attemptCount r = j_attemptCount j \<and> j_maxAttempts r = j_maxAttempts j)"

definition working :: "uuid \<Rightarrow> OcrJob \<Rightarrow> World \<Rightarrow> bool" where
  "working i j w \<longleftrightarrow> (\<exists>n. running i (j\<lparr>j_totalPages := n\<rparr>) w)"

lemma working_find: "working i j w \<Longrightarrow> \<exists>r. findJobById i w = Some r \<and> j_status r = PROCESSING \<and> jobs_wf w
    \<and> j_attemptCount r = j_attemptCount j \<and> j_maxAttempts r = j_maxAttempts j"
  by (auto simp: working_def running_def)

lemma workingI: "jobs_wf w \<Longrightarrow> findJobById i w = Some r \<Longrightarrow> j_status r = PROCESSING
    \<Longrightarrow> j_attemptCount r = j_attemptCount j \<Longrightarrow> j_maxAttempts r = j_maxAttempts j \<Longrightarrow> working i j w"
  unfolding working_def running_def by (rule exI [of _ "j_totalPages r"]) simp

lemma settled_finalize:
  assumes "working i j w"
  shows "settled i j (snd (finalize i now w))"
proof -
  obtain r where r: "findJobById i w = Some r" "j_status r = PROCESSING" "jobs_wf w"
      "j_attemptCount r = j_attemptCount j" "j_maxAttempts r = j_maxAttempts j"
    using working_find [OF assms] by blast
  let ?f = "(finalRow (pagesOf i w) now r)\<lparr>j_updatedAt := now\<rparr>"
  have "findJobById i (snd (finalize i now w)) = Some ?f" using find_finalize [OF r(1), of now] r(2) by simp
  moreover have "j_attemptCount ?f = j_attemptCount j" "j_maxAttempts ?f = j_maxAttempts j"
    using r(4,5) by (simp_all add: finalRow_def)
  ultimately show ?thesis
    unfolding settled_def using terminal_finalRow stepD [OF finalize_step r(3)] by blast
qed

lemma settled_cancelJob:
  assumes "working i j w"
  shows "settled i j (snd (cancelJob i c m now w))"
proof -
  obtain r where r: "findJobById i w = Some r" "j_status r = PROCESSING" "jobs_wf w"
      "j_attemptCount r = j_attemptCount j" "j_maxAttempts r = j_maxAttempts j"
    using working_find [OF assms] by blast
  then show ?thesis
    unfolding settled_def using find_cancelJob [OF r(1), of c m now] stepD [OF cancelJob_step r(3)]
    by (simp add: statuses)
qed

lemma settled_failJob:
  assumes "working i j w"
  shows "settled i j (snd (failJob i c m now w))"
proof -
  obtain r where r: "findJobById i w = Some r" "j_status r = PROCESSING" "jobs_wf w"
      "j_attemptCount r = j_attemptCount j" "j_maxAttempts r = j_maxAttempts j"
    using working_find [OF assms] by blast
  then show ?thesis
    unfolding settled_def using find_failJob [OF r(1), of c m now] stepD [OF failJob_step r(3)]
    by (simp add: statuses)
qed

text \<open>The input of the extraction, and the pages it yields for a consistent file.\<close>

definition pagesFrom ::
  "run \<Rightarrow> OcrConfig \<Rightarrow> unicode \<Rightarrow> toolbox \<Rightarrow> OcrJob \<Rightarrow> InspectedFile \<Rightarrow> Progress \<Rightarrow> ExtractedPage list \<times> thrown option" where
  "pagesFrom e cfg U tb job f p = extractPages cfg U tb (pageClock e)
     \<lparr>ei_inspected = f, ei_language = j_language job, ei_deadline = clock e 5 + int (oc_jobTimeoutMs cfg),
      ei_startPage = lastPage p + 1, ei_charBudget = int (oc_maxTextPerDocument cfg) - int (progressChars p)\<rparr>"

lemma pagesFrom_ok:
  assumes "0 < oc_maxTextPerPage cfg" and "inspected_ok cfg f"
  shows "map x_pageNumber (fst (pagesFrom e cfg U tb job f p)) =
      [lastPage p + 1..<lastPage p + 1 + length (fst (pagesFrom e cfg U tb job f p))]"
    and "snd (pagesFrom e cfg U tb job f p) = None \<Longrightarrow>
      lastPage p + 1 + length (fst (pagesFrom e cfg U tb job f p)) = max (lastPage p + 1) (Suc (if_totalPages f))"
  using extractPages_ok [OF assms(1), of "\<lparr>ei_inspected = f, ei_language = j_language job,
      ei_deadline = clock e 5 + int (oc_jobTimeoutMs cfg), ei_startPage = lastPage p + 1,
      ei_charBudget = int (oc_maxTextPerDocument cfg) - int (progressChars p)\<rparr>" U tb "pageClock e"] assms(2)
  by (auto simp: extraction_ok_def pagesFrom_def case_prod_unfold)

lemma processFile_quiet:
  assumes "quiet e"
  shows "processFile e cfg U tb job d f w =
     (let w2 = setTotalPages (j_id job) d (if_totalPages f) (clock e 4) w;
          (pages, err) = pagesFrom e cfg U tb job f (persistedProgress (j_id job) w2);
          (stop, w3) = persistAll e (j_id job) pages w2
      in case stop of Some x \<Rightarrow> (Some x, w3)
         | None \<Rightarrow> (case err of Some x \<Rightarrow> (Some x, w3) | None \<Rightarrow> (None, snd (finalize (j_id job) (clock e 6) w3))))"
  unfolding processFile_def pagesFrom_def Let_def assms [unfolded quiet_def] by (rule refl)

text \<open>Handling a failure ends the job, or hands it back while attempts are left.\<close>

definition handed_back :: "uuid \<Rightarrow> OcrJob \<Rightarrow> World \<Rightarrow> bool" where
  "handed_back i j w \<longleftrightarrow> jobs_wf w \<and> (\<exists>r. findJobById i w = Some r \<and> j_status r = QUEUED
     \<and> j_attemptCount r = j_attemptCount j \<and> j_maxAttempts r = j_maxAttempts j)"

lemma handleFailure_cases:
  assumes "working (j_id job) j w" and "handleFailure job err now w = (res, w')"
  shows "if pe_permanent (toProcessingError err) \<or> j_maxAttempts job \<le> j_attemptCount job
    then res = Unrecoverable (pe_code (toProcessingError err)) \<and> settled (j_id job) j w'
    else res = RetryLater \<and> handed_back (j_id job) j w'"
proof -
  obtain r where r: "findJobById (j_id job) w = Some r" "j_status r = PROCESSING" "jobs_wf w"
      "j_attemptCount r = j_attemptCount j" "j_maxAttempts r = j_maxAttempts j"
    using working_find [OF assms(1)] by blast
  have "handed_back (j_id job) j (snd (requeue (j_id job) c m now w))" for c m
    unfolding handed_back_def using find_requeue [OF r(1), of c m now] r stepD [OF requeue_step r(3)] by simp
  then show ?thesis
    using assms(2) settled_failJob [OF assms(1)] by (auto simp: handleFailure_def Let_def split: if_splits)
qed

text \<open>One undisturbed delivery of a job that can be claimed: the row and the state after the claim,
  and what is done from there.\<close>

definition claimedBy :: "run \<Rightarrow> OcrJob \<Rightarrow> OcrJob" where
  "claimedBy e j = (claimedRow (clock e 1) j)\<lparr>j_updatedAt := clock e 1\<rparr>"

lemma claimedBy_sel [simp]:
  "j_attemptCount (claimedBy e j) = Suc (j_attemptCount j)" "j_maxAttempts (claimedBy e j) = j_maxAttempts j"
  "j_status (claimedBy e j) = PROCESSING" "j_id (claimedBy e j) = j_id j" "j_totalPages (claimedBy e j) = j_totalPages j"
  "j_documentId (claimedBy e j) = j_documentId j" "j_userId (claimedBy e j) = j_userId j"
  by (simp_all add: claimedBy_def claimedRow_def)

lemma process_claimed:
  assumes "quiet e" and "jobs_wf w" and "findJobById i w = Some j"
    and "claimable (int (oc_staleJobMs cfg)) (clock e 0) j"
  obtains w1 where "jobs_wf w1" and "findJobById i w1 = Some (claimedBy e j)" and "pagesOf i w1 = pagesOf i w"
    and "documents w1 = documents w"
    and "process e cfg U store tools i w =
     (if Suc (j_attemptCount j) > j_maxAttempts j
      then (Unrecoverable ''OCR_WORKER_INTERRUPTED'', snd (failJob i ''OCR_WORKER_INTERRUPTED''
              ''Processing was interrupted and the attempt budget is exhausted'' (clock e 2) w1))
      else (case tempDirError e of Some _ \<Rightarrow> (RetryLater, w1)
            | None \<Rightarrow> (case runJob e cfg U store tools (claimedBy e j) w1 of
                  (None, w3) \<Rightarrow> (Done, w3)
                | (Some err, w3) \<Rightarrow> handleFailure (claimedBy e j) err (clock e 7) w3)))"
proof -
  let ?c = "claim i (int (oc_staleJobMs cfg)) (clock e 0) (clock e 1) w"
  have q: "others e k v = v" for k v using assms(1) by (simp add: quiet_def)
  have act: "j_status j \<notin> set TERMINAL_OCR_STATUSES"
    using assms(4) by (auto simp: claimable_def TERMINAL_OCR_STATUSES_def)
  obtain w1 where c: "?c = (True, w1)"
    using claim_taken [OF assms(2,3)] assms(4) by (metis prod.collapse)
  then have w1: "w1 = snd ?c" by simp
  have f: "findJobById i w1 = Some (claimedBy e j)"
    unfolding w1 claimedBy_def using find_claim [of i] assms(3,4) by simp
  have "process e cfg U store tools i w =
     (if Suc (j_attemptCount j) > j_maxAttempts j
      then (Unrecoverable ''OCR_WORKER_INTERRUPTED'', snd (failJob i ''OCR_WORKER_INTERRUPTED''
              ''Processing was interrupted and the attempt budget is exhausted'' (clock e 2) w1))
      else (case tempDirError e of Some _ \<Rightarrow> (RetryLater, w1)
            | None \<Rightarrow> (case runJob e cfg U store tools (claimedBy e j) w1 of
                  (None, w3) \<Rightarrow> (Done, w3)
                | (Some err, w3) \<Rightarrow> handleFailure (claimedBy e j) err (clock e 7) w3)))"
    unfolding process_def assms(3) option.case q Let_def c prod.case f using act by (cases "tempDirError e") simp_all
  then show ?thesis
    using that [OF stepD [OF claim_step assms(2)] f [unfolded w1], folded w1] f by (simp add: w1)
qed

section \<open>Complete processing\<close>

text \<open>Tools whose failures are failures of the page: a thrown error carries a code and is not the
  absence of the program.\<close>

definition tools_present :: "toolbox \<Rightarrow> bool" where
  "tools_present tb \<longleftrightarrow>
     (\<forall>n t m err. pdfText tb n t m = Inl err \<longrightarrow> (\<exists>x. err = Processing x))
     \<and> (\<forall>n dpi t err. renderPage tb n dpi t = Inl err \<longrightarrow> pageFailure err n \<noteq> None)
     \<and> (\<forall>img l t err n. recognize tb img l t = Inl err \<longrightarrow> pageFailure err n \<noteq> None)"

lemma renderDpiFor_failure: "renderDpiFor cfg pdf n = Inl err \<Longrightarrow> pageFailure err k \<noteq> None"
proof -
  assume "renderDpiFor cfg pdf n = Inl err"
  then have "err = Processing pageTooLarge" by (auto simp: renderDpiFor_def Let_def split: option.splits if_splits)
  moreover have "\<not> startsWith (js ''Command not found'') (js '' pt'')" by code_simp
  ultimately show ?thesis by (simp add: pageFailure_def pageTooLarge_def)
qed

lemma ocrPage_returns:
  assumes "tools_present tb"
  shows "\<exists>p. ocrPage cfg U tb n img input b now = Inr p"
proof (cases "recognize tb img (ei_language input) (pageBudget cfg (ei_deadline input) now)")
  case (Inl err)
  then have "pageFailure err n \<noteq> None" using assms unfolding tools_present_def by blast
  then show ?thesis using Inl by (auto simp: ocrPage_def)
qed (simp add: ocrPage_def)

lemma extractPdfPage_returns:
  assumes "tools_present tb"
  shows "\<exists>p. extractPdfPage cfg U tb clk input pdf native b n = Inr p"
proof -
  have *: "\<exists>p. (case r of Inr page \<Rightarrow> Inr page | Inl e \<Rightarrow> (case pageFailure e n of Some p \<Rightarrow> Inr p | None \<Rightarrow> Inl e)) = Inr p"
    if "\<And>err. r = Inl err \<Longrightarrow> pageFailure err n \<noteq> None" for r :: "thrown + ExtractedPage"
    using that by (cases r) (auto split: option.split)
  let ?r = "case renderDpiFor cfg pdf n of Inl e \<Rightarrow> Inl e
     | Inr dpi \<Rightarrow> (case renderPage tb n dpi (pageBudget cfg (ei_deadline input) (clk n 1)) of
          Inl e \<Rightarrow> Inl e | Inr rendered \<Rightarrow> ocrPage cfg U tb n rendered input b (clk n 2))"
  have "pageFailure err n \<noteq> None" if "?r = Inl err" for err
  proof (cases "renderDpiFor cfg pdf n")
    case (Inl x)
    then show ?thesis using that renderDpiFor_failure by auto
  next
    case (Inr dpi)
    show ?thesis
    proof (cases "renderPage tb n dpi (pageBudget cfg (ei_deadline input) (clk n 1))")
      case (Inl x)
      then have "pageFailure x n \<noteq> None" using assms unfolding tools_present_def by blast
      then show ?thesis using that Inr Inl by simp
    next
      case ok: (Inr img)
      then show ?thesis using that Inr ocrPage_returns [OF assms] by (metis Inl_Inr_False old.sum.simps(6))
    qed
  qed
  from * [OF this] show ?thesis unfolding extractPdfPage_def Let_def by auto
qed

lemma extractPdfPages_returns: "(\<And>b n. \<exists>p. one b n = Inr p) \<Longrightarrow> snd (extractPdfPages one b ns) = None"
proof (induction ns arbitrary: b)
  case (Cons n ns)
  obtain p where "one b n = Inr p" using Cons.prems by blast
  then show ?case using Cons.IH [OF Cons.prems] by (simp add: case_prod_unfold Let_def)
qed simp

lemma pagesFrom_returns:
  assumes "tools_present tb" and "inspected_ok cfg f"
  shows "snd (pagesFrom e cfg U tb job f p) = None"
proof (cases "if_format f = Pdf")
  case True
  then obtain pdf where pdf: "if_pdf f = Some pdf" using assms(2) by (auto simp: inspected_ok_def)
  have loop: "snd (extractPdfPages (extractPdfPage cfg U tb clk input pdf native) b ns) = None" for clk input native b ns
    by (rule extractPdfPages_returns) (rule extractPdfPage_returns [OF assms(1)])
  have "snd (extractPdf cfg U tb clk input pdf) = None" for clk input
  proof (cases "pdfText tb (pdf_pageCount pdf) (max 1000 (min (int (oc_pageTimeoutMs cfg)) (ei_deadline input - clk 0 0)))
      (oc_maxTextPerDocument cfg * 4 + 1024 * 1024)")
    case (Inl err)
    then obtain x where "err = Processing x" using assms(1) unfolding tools_present_def by blast
    with Inl loop show ?thesis by (simp add: extractPdf_def Let_def)
  next
    case (Inr native)
    with loop show ?thesis by (simp add: extractPdf_def Let_def)
  qed
  then show ?thesis using True pdf by (simp add: pagesFrom_def extractPages_def)
next
  case False
  then show ?thesis
    using ocrPage_returns [OF assms(1), of cfg U 1 StoredFile]
    by (auto simp: pagesFrom_def extractPages_def extractImage_def split: sum.split) (metis Inl_Inr_False)
qed

lemma foldr_max: "foldr max xs (0 :: nat) = Max (insert 0 (set xs))"
  by (induction xs) (simp_all add: insert_commute)

lemma lastPage_upto:
  assumes "p_pageNumber ` set (pagesOf i w) = {1..k}"
  shows "lastPage (persistedProgress i w) = k"
proof -
  have "Max (insert 0 {1..k}) = k" by (rule Max_eqI) auto
  then show ?thesis using assms by (simp add: persistedProgress_def pagesOf_def Let_def foldr_max)
qed

text \<open>What a completed run leaves: the finished row of the job, which reports the stored pages, and a
  result for every page, those stored before among them.\<close>

definition complete_result :: "uuid \<Rightarrow> nat \<Rightarrow> OcrPage list \<Rightarrow> World \<Rightarrow> bool" where
  "complete_result i n before w \<longleftrightarrow> (\<exists>r. findJobById i w = Some r \<and> isTerminal r \<and> reports (pagesOf i w) r
     \<and> j_totalPages r = Some n)
     \<and> p_pageNumber ` set (pagesOf i w) = {1..n} \<and> set before \<subseteq> set (pagesOf i w)"

lemma processFile_completes:
  assumes "quiet e" and "0 < oc_maxTextPerPage cfg" and "inspected_ok cfg f" and "tools_present tb"
    and "running (j_id job) j w"
    and "p_pageNumber ` set (pagesOf (j_id job) w) = {1..k}" and "k \<le> if_totalPages f"
  shows "fst (processFile e cfg U tb job d f w) = None
    \<and> complete_result (j_id job) (if_totalPages f) (pagesOf (j_id job) w) (snd (processFile e cfg U tb job d f w))"
proof -
  let ?i = "j_id job" and ?n = "if_totalPages f"
  let ?w2 = "setTotalPages ?i d ?n (clock e 4) w"
  let ?p = "pagesFrom e cfg U tb job f (persistedProgress ?i ?w2)"
  have k: "lastPage (persistedProgress ?i ?w2) = k" by (rule lastPage_upto) (simp add: assms(6))
  have ended: "snd ?p = None" by (rule pagesFrom_returns [OF assms(4,3)])
  have nums: "map x_pageNumber (fst ?p) = [k + 1..<Suc ?n]"
    using pagesFrom_ok [OF assms(2,3), of e U tb job "persistedProgress ?i ?w2"] ended k assms(7) by (simp add: max_def)
  have set: "x_pageNumber ` set (fst ?p) = {k + 1..?n}"
    using arg_cong [OF nums, of set] by (simp del: upt_Suc add: atLeastLessThanSuc_atLeastAtMost)
  have "distinct (map x_pageNumber (fst ?p))" unfolding nums by (rule distinct_upt)
  note all = persistAll_running [OF assms(1) running_setTotalPages [OF assms(5), of "if_totalPages f" d "clock e 4"] this]
  let ?w3 = "snd (persistAll e ?i (fst ?p) ?w2)"
  have res: "processFile e cfg U tb job d f w = (None, snd (finalize ?i (clock e 6) ?w3))"
    using all ended by (simp add: processFile_quiet [OF assms(1)] Let_def case_prod_unfold)
  obtain r where r: "findJobById ?i ?w3 = Some r" "j_status r = PROCESSING" "j_totalPages r = Some ?n"
    using all by (auto simp: running_def)
  let ?f = "(finalRow (pagesOf ?i ?w3) (clock e 6) r)\<lparr>j_updatedAt := clock e 6\<rparr>"
  have fin: "findJobById ?i (snd (finalize ?i (clock e 6) ?w3)) = Some ?f"
    using find_finalize [OF r(1), of "clock e 6"] r(2) by simp
  have pages: "set (pagesOf ?i ?w3) = pageRow ?i ` set (fst ?p) \<union> set (pagesOf ?i w)"
  proof -
    have "p_pageNumber x \<notin> {k + 1..?n}" if "x \<in> set (pagesOf ?i w)" for x
      using imageI [OF that, of p_pageNumber] unfolding assms(6) by simp
    then have old: "{x \<in> set (pagesOf ?i w). p_pageNumber x \<notin> {k + 1..?n}} = set (pagesOf ?i w)" by blast
    from all have "set (pagesOf ?i ?w3) = pageRow ?i ` set (fst ?p)
        \<union> {x \<in> set (pagesOf ?i ?w2). p_pageNumber x \<notin> x_pageNumber ` set (fst ?p)}" by blast
    then show ?thesis unfolding set pages_setTotalPages old .
  qed
  then have "p_pageNumber ` set (pagesOf ?i ?w3) = x_pageNumber ` set (fst ?p) \<union> {1..k}"
    unfolding pages image_Un assms(6) by (simp add: image_image pageRow_def)
  then have "p_pageNumber ` set (pagesOf ?i ?w3) = {1..?n}" unfolding set using assms(7) by auto
  moreover have "j_totalPages ?f = Some ?n" using r(3) by (simp add: finalRow_def)
  ultimately show ?thesis
    unfolding res complete_result_def using fin finalRow_reports terminal_finalRow pages by auto
qed

lemma runJob_ready:
  assumes "findFirst (\<lambda>d. d_id d = j_documentId job \<and> d_userId d = j_userId job \<and> d_deletedAt d = None) (documents w) = Some d"
    and "d_status d = READY" and "truthy (d_storageKey d)"
    and "\<not> (case d_fileSize d of None \<Rightarrow> False | Some n \<Rightarrow> n > int (oc_maxFileSizeBytes cfg))"
    and "download store (the (d_storageKey d)) (oc_maxFileSizeBytes cfg) = Inr b"
    and "inspect cfg (tools b) b (d_mimeType d) = Inr f"
  shows "runJob e cfg U store tools job w = processFile e cfg U (tools b) job (d_id d) f w"
  using assms by (simp add: runJob_def)

lemma process_finishes:
  assumes "quiet e" and "0 < oc_maxTextPerPage cfg" and "jobs_wf w" and "findJobById i w = Some j"
    and "claimable (int (oc_staleJobMs cfg)) (clock e 0) j" and "j_attemptCount j < j_maxAttempts j"
    and "findFirst (\<lambda>d. d_id d = j_documentId j \<and> d_userId d = j_userId j \<and> d_deletedAt d = None) (documents w) = Some d"
    and "d_status d = READY" and "truthy (d_storageKey d)"
    and "\<not> (case d_fileSize d of None \<Rightarrow> False | Some n \<Rightarrow> n > int (oc_maxFileSizeBytes cfg))"
    and "download store (the (d_storageKey d)) (oc_maxFileSizeBytes cfg) = Inr b"
    and "inspect cfg (tools b) b (d_mimeType d) = Inr f" and "tools_present (tools b)"
    and "p_pageNumber ` set (pagesOf i w) = {1..k}" and "k \<le> if_totalPages f"
    and "tempDirError e = None" and "process e cfg U store tools i w = (res, w')"
  shows "res = Done \<and> distinct (map p_pageNumber (pagesOf i w'))
    \<and> (\<exists>r. findJobById i w' = Some r \<and> isTerminal r \<and> reports (pagesOf i w') r \<and> j_totalPages r = Some (if_totalPages f))
    \<and> p_pageNumber ` set (pagesOf i w') = {1..if_totalPages f} \<and> set (pagesOf i w) \<subseteq> set (pagesOf i w')"
proof -
  obtain w1 where w1: "jobs_wf w1" "findJobById i w1 = Some (claimedBy e j)" "pagesOf i w1 = pagesOf i w"
    "documents w1 = documents w" and p: "process e cfg U store tools i w =
     (if Suc (j_attemptCount j) > j_maxAttempts j
      then (Unrecoverable ''OCR_WORKER_INTERRUPTED'', snd (failJob i ''OCR_WORKER_INTERRUPTED''
              ''Processing was interrupted and the attempt budget is exhausted'' (clock e 2) w1))
      else (case tempDirError e of Some _ \<Rightarrow> (RetryLater, w1)
            | None \<Rightarrow> (case runJob e cfg U store tools (claimedBy e j) w1 of
                  (None, w3) \<Rightarrow> (Done, w3)
                | (Some err, w3) \<Rightarrow> handleFailure (claimedBy e j) err (clock e 7) w3)))"
    by (rule process_claimed [OF assms(1,3,4,5)])
  have id: "j_id (claimedBy e j) = i" using findJobById_Some [OF assms(4)] by simp
  have run: "runJob e cfg U store tools (claimedBy e j) w1 = processFile e cfg U (tools b) (claimedBy e j) (d_id d) f w1"
    using assms(7-12) by (intro runJob_ready) (simp_all add: w1(4))
  have "running (j_id (claimedBy e j)) (claimedBy e j) w1" unfolding id running_def using w1(1,2) by simp
  from processFile_completes [OF assms(1,2) inspect_ok [OF assms(12)] assms(13) this, unfolded id w1(3), OF assms(14,15), of U "d_id d"]
  have "res = Done \<and> complete_result i (if_totalPages f) (pagesOf i w) w'"
    using assms(6,16,17) run unfolding p by (auto split: prod.splits option.splits)
  moreover have "jobs_wf w'"
    using process_step [of e w cfg U store tools i] assms(1,3,17)
    by (simp add: jobs_step_def job_env_def quiet_def jobs_step_same job.evolves_refl)
  then have "distinct (map p_pageNumber (pagesOf i w'))"
    by (auto simp: jobs_wf_def pagesOf_def findMany_def distinct_map pageKey_def inj_on_def)
  ultimately show ?thesis unfolding complete_result_def by blast
qed

section \<open>Repeated deliveries\<close>

text \<open>A delivery comes with what the worker meets at the time: its clock, the object storage and the
  tools.\<close>

type_synonym attempt = "run \<times> object_store \<times> (bytes \<Rightarrow> toolbox)"

definition deliver :: "OcrConfig \<Rightarrow> unicode \<Rightarrow> uuid \<Rightarrow> attempt \<Rightarrow> World \<Rightarrow> World" where
  "deliver cfg U i a w = (case a of (e, store, tools) \<Rightarrow> snd (process e cfg U store tools i w))"

lemma process_terminal:
  "findJobById i w = Some j \<Longrightarrow> isTerminal j \<Longrightarrow> process e cfg U store tools i w = (Done, w)"
  by (simp add: process_def isTerminal_def)

lemma deliver_terminal:
  "findJobById i w = Some j \<Longrightarrow> isTerminal j \<Longrightarrow> fold (deliver cfg U i) as w = w"
  by (induction as) (simp_all add: deliver_def process_terminal split: prod.split)

text \<open>Others may act between any two steps of a delivery. They spare a job when they keep the table of
  jobs consistent and leave the status and the counted attempts of that job alone; its heartbeat,
  its pages, its document and every other job may change.\<close>

definition attempt_of :: "OcrJob \<Rightarrow> OcrJobStatus \<times> nat \<times> nat" where
  "attempt_of j = (j_status j, j_attemptCount j, j_maxAttempts j)"

definition spared :: "uuid \<Rightarrow> World \<Rightarrow> World \<Rightarrow> bool" where
  "spared i v w \<longleftrightarrow> (jobs_wf v \<longrightarrow> jobs_wf w) \<and> map_option attempt_of (findJobById i w) = map_option attempt_of (findJobById i v)"

abbreviation spares :: "run \<Rightarrow> uuid \<Rightarrow> bool" where
  "spares e i \<equiv> kept_by_others (spared i) e"

text \<open>The heartbeat of the job itself is such a step, and so is every operation on another job.\<close>

fun op_job :: "job_op \<Rightarrow> uuid" where
  "op_job (Claim i s now db) = i"
| "op_job (Heartbeat i now) = i"
| "op_job (SetTotalPages i d n now) = i"
| "op_job (PersistPage i x db) = i"
| "op_job (Finalize i now) = i"
| "op_job (Fail i c m now) = i"
| "op_job (Requeue i c m now) = i"
| "op_job (Cancel i c m now) = i"
| "op_job (Recover i s now) = i"

lemma find_heartbeat:
  "findJobById i (heartbeat k now w) = map_option (\<lambda>j. if j_id j = k \<and> j_status j = PROCESSING
     then j\<lparr>j_heartbeatAt := Some now, j_updatedAt := now\<rparr> else j) (findJobById i w)"
  unfolding heartbeat_def by (subst find_updateJobs) simp_all

lemma find_update_other:
  assumes "k \<noteq> i" and "\<And>x. j_id (f x) = j_id x"
  shows "findJobById i (snd (updateJobs (\<lambda>j. j_id j = k \<and> p j) f now w)) = findJobById i w"
proof -
  have "map_option (\<lambda>j. if j_id j = k \<and> p j then (f j)\<lparr>j_updatedAt := now\<rparr> else j) (findJobById i w) = findJobById i w"
    using assms(1) findJobById_Some [of i w] by (cases "findJobById i w") auto
  then show ?thesis using assms(2) by (subst find_updateJobs)
qed

lemma heartbeat_spared: "spared i w (heartbeat k now w)"
  using stepD [OF heartbeat_step]
  by (auto simp: spared_def find_heartbeat attempt_of_def option.map_comp comp_def intro: option.map_cong0)

lemma find_perform_other: "op_job op \<noteq> i \<Longrightarrow> findJobById i (perform op w) = findJobById i w"
proof -
  have "findJobById i (v\<lparr>ocrPages := rows\<rparr>) = findJobById i v" "findJobById i (v\<lparr>documents := docs\<rparr>) = findJobById i v"
    for v rows docs by (rule find_same, simp)+
  then show "op_job op \<noteq> i \<Longrightarrow> findJobById i (perform op w) = findJobById i w"
    by (cases op) (simp_all add: claim_unfold heartbeat_def setTotalPages_def persistPage_def finalize_unfold failJob_def
        requeue_def cancelJob_def recover_def claimedRow_def finalRow_def Let_def case_prod_unfold find_update_other)
qed

lemma operation_spared: "op_job op \<noteq> i \<Longrightarrow> spared i w (perform op w)"
  using stepD [OF perform_step] by (simp add: spared_def find_perform_other)

lemma spared_trans: "spared i u v \<Longrightarrow> spared i v w \<Longrightarrow> spared i u w"
  by (simp add: spared_def)

lemma working_spared: "spares e i \<Longrightarrow> working i j w \<Longrightarrow> working i j (others e k w)"
proof -
  assume s: "spares e i" and "working i j w"
  then obtain r where r: "findJobById i w = Some r" "j_status r = PROCESSING" "jobs_wf w"
      "j_attemptCount r = j_attemptCount j" "j_maxAttempts r = j_maxAttempts j"
    using working_find by blast
  have "spared i w (others e k w)" using s by (simp add: kept_by_others_def)
  then obtain x where x: "findJobById i (others e k w) = Some x" "attempt_of x = attempt_of r" "jobs_wf (others e k w)"
    using r(1,3) by (auto simp: spared_def)
  show ?thesis by (rule workingI [OF x(3,1)]) (use r x(2) in \<open>simp_all add: attempt_of_def\<close>)
qed

lemma persistAll_working:
  assumes "spares e i" and "working i j w"
  shows "fst (persistAll e i ps w) = None \<and> working i j (snd (persistAll e i ps w))"
  using assms(2)
proof (induction ps arbitrary: w)
  case (Cons p ps)
  let ?w0 = "others e (20 + x_pageNumber p) w" and ?t = "clock e (20 + x_pageNumber p)"
  obtain n where n: "running i (j\<lparr>j_totalPages := n\<rparr>) ?w0"
    using working_spared [OF assms(1) Cons.prems] by (auto simp: working_def)
  have "working i j (snd (persistPage i p ?t ?w0))" unfolding working_def by (rule exI) (rule running_persistPage [OF n])
  then show ?case using Cons.IH persistPage_Inr [OF runningD [OF n], of p ?t] by (simp add: case_prod_unfold)
qed simp

lemma processFile_outcome:
  assumes "spares e (j_id job)" and "working (j_id job) j w" and "processFile e cfg U tb job d f w = (res, w')"
  shows "if res = None then settled (j_id job) j w' else working (j_id job) j w'"
proof -
  let ?i = "j_id job"
  note keep = working_spared [OF assms(1)]
  let ?w1 = "setTotalPages ?i d (if_totalPages f) (clock e 4) (others e 5 w)"
  let ?w2 = "others e 6 ?w1"
  obtain n where "running ?i (j\<lparr>j_totalPages := n\<rparr>) (others e 5 w)" using keep [OF assms(2), of 5] by (auto simp: working_def)
  from running_setTotalPages [OF this, of "if_totalPages f" d "clock e 4"]
  have "working ?i j ?w1" unfolding working_def by auto
  note w2 = keep [OF this, of 6]
  obtain pages err where ext: "extractPages cfg U tb (pageClock e)
            \<lparr>ei_inspected = f, ei_language = j_language job, ei_deadline = clock e 5 + int (oc_jobTimeoutMs cfg),
             ei_startPage = lastPage (persistedProgress ?i ?w2) + 1,
             ei_charBudget = int (oc_maxTextPerDocument cfg) - int (progressChars (persistedProgress ?i ?w2))\<rparr> = (pages, err)"
    by fastforce
  note all = persistAll_working [OF assms(1) w2, of pages]
  obtain w3 where p: "persistAll e ?i pages ?w2 = (None, w3)" "working ?i j w3" using all by (metis prod.collapse)
  have "processFile e cfg U tb job d f w = (case err of Some x \<Rightarrow> (Some x, w3)
      | None \<Rightarrow> (None, snd (finalize ?i (clock e 6) (others e 7 w3))))"
    unfolding processFile_def Let_def ext prod.case p(1) by simp
  then show ?thesis
    using assms(3) p(2) settled_finalize [OF keep [OF p(2)], of "clock e 6" 7] by (auto split: option.splits)
qed

lemma runJob_outcome:
  assumes "spares e (j_id job)" and "working (j_id job) j w" and "runJob e cfg U store tools job w = (res, w')"
  shows "if res = None then settled (j_id job) j w' else working (j_id job) j w'"
proof -
  note cancel = settled_cancelJob [OF working_spared [OF assms(1,2)]]
  have outcome: "if r = None then settled (j_id job) j v else working (j_id job) j v"
    if "processFile e cfg U tb job d f w = (r, v)" for tb d f r v
    using processFile_outcome [OF assms(1,2) that] .
  show ?thesis
    using assms(2,3) cancel outcome unfolding runJob_def by (auto split: option.splits if_splits sum.splits)
qed

lemma delivery_outcome:
  assumes "spares e i" and "tempDirError e = None" and "jobs_wf w" and "findJobById i w = Some j"
    and "j_status j = QUEUED" and "process e cfg U store tools i w = (res, w')"
  shows "settled i (claimedBy e j) w'
    \<or> (handed_back i (claimedBy e j) w' \<and> res = RetryLater \<and> Suc (j_attemptCount j) < j_maxAttempts j)"
proof -
  note keep = working_spared [OF assms(1)]
  let ?w0 = "others e 0 w" and ?s = "int (oc_staleJobMs cfg)"
  let ?c = "claim i ?s (clock e 0) (clock e 1) ?w0"
  have "spared i w ?w0" using assms(1) by (simp add: kept_by_others_def)
  then obtain r where r: "findJobById i ?w0 = Some r" "attempt_of r = attempt_of j" "jobs_wf ?w0"
    using assms(3,4) by (auto simp: spared_def)
  then have c: "claimable ?s (clock e 0) r" using assms(5) by (simp add: claimable_def attempt_of_def)
  obtain w1 where claimed: "?c = (True, w1)" using claim_taken [OF r(3,1)] c by (metis prod.collapse)
  then have w1: "w1 = snd ?c" by simp
  have row: "findJobById i w1 = Some (claimedBy e r)"
    unfolding claimedBy_def w1 using find_claim [of i] r(1) c by simp
  have "jobs_wf w1" unfolding w1 by (rule stepD [OF claim_step r(3)])
  then have "working i (claimedBy e j) w1"
    by (rule workingI [OF _ row]) (use r(2) in \<open>simp_all add: attempt_of_def\<close>)
  note w2 = keep [OF this, of 1]
  obtain x where x: "findJobById i (others e 1 w1) = Some x" "j_attemptCount x = Suc (j_attemptCount j)"
      "j_maxAttempts x = j_maxAttempts j"
    using working_find [OF w2] by auto
  have id: "j_id x = i" using findJobById_Some [OF x(1)] by simp
  have p: "process e cfg U store tools i w =
     (if Suc (j_attemptCount j) > j_maxAttempts j
      then (Unrecoverable ''OCR_WORKER_INTERRUPTED'', snd (failJob i ''OCR_WORKER_INTERRUPTED''
              ''Processing was interrupted and the attempt budget is exhausted'' (clock e 2) (others e 2 (others e 1 w1))))
      else (case runJob e cfg U store tools x (others e 3 (others e 1 w1)) of
                  (None, w3) \<Rightarrow> (Done, w3)
                | (Some err, w3) \<Rightarrow> handleFailure x err (clock e 7) (others e 8 w3)))"
    unfolding process_def assms(4) option.case Let_def claimed prod.case x(1) assms(2)
    using assms(5) x(2,3) by (simp add: TERMINAL_OCR_STATUSES_def)
  show ?thesis
  proof (cases "Suc (j_attemptCount j) > j_maxAttempts j")
    case True
    then show ?thesis using assms(6) settled_failJob [OF keep [OF w2]] unfolding p by auto
  next
    case False
    obtain r w3 where r: "runJob e cfg U store tools x (others e 3 (others e 1 w1)) = (r, w3)" by fastforce
    note out = runJob_outcome [OF _ _ r, unfolded id, OF assms(1) keep [OF w2]]
    show ?thesis
    proof (cases r)
      case None
      then show ?thesis using False r out assms(6) unfolding p by auto
    next
      case (Some err)
      then have h: "handleFailure x err (clock e 7) (others e 8 w3) = (res, w')"
        using False r assms(6) unfolding p by simp
      show ?thesis
        using handleFailure_cases [OF _ h, unfolded id, OF keep, of "claimedBy e j"] out Some x(2,3)
        by (auto split: if_splits)
    qed
  qed
qed

lemma deliveries_settle:
  assumes "\<forall>a\<in>set as. spares (fst a) i \<and> tempDirError (fst a) = None" and "jobs_wf w"
    and "findJobById i w = Some j" and "j_status j = QUEUED" and "max 1 (j_maxAttempts j - j_attemptCount j) \<le> length as"
  shows "\<exists>r. findJobById i (fold (deliver cfg U i) as w) = Some r \<and> isTerminal r
    \<and> j_attemptCount r \<le> max (Suc (j_attemptCount j)) (j_maxAttempts j)"
  using assms
proof (induction as arbitrary: w j)
  case (Cons a as)
  obtain e store tools where a: "a = (e, store, tools)" by (cases a)
  obtain res w' where p: "process e cfg U store tools i w = (res, w')" by fastforce
  have w': "deliver cfg U i a w = w'" by (simp add: deliver_def a p)
  have q: "spares e i" "tempDirError e = None" using Cons.prems(1) a by simp_all
  from delivery_outcome [OF q Cons.prems(2,3,4) p] consider
      "settled i (claimedBy e j) w'" | "handed_back i (claimedBy e j) w'" "Suc (j_attemptCount j) < j_maxAttempts j"
    by blast
  then show ?case
  proof cases
    case 1
    then obtain r where r: "findJobById i w' = Some r" "isTerminal r" "j_attemptCount r = Suc (j_attemptCount j)"
      by (auto simp: settled_def)
    then show ?thesis using deliver_terminal [OF r(1,2), of cfg U as] by (simp add: w')
  next
    case 2
    then obtain r where r: "jobs_wf w'" "findJobById i w' = Some r" "j_status r = QUEUED"
        "j_attemptCount r = Suc (j_attemptCount j)" "j_maxAttempts r = j_maxAttempts j"
      by (auto simp: handed_back_def)
    have "\<exists>r'. findJobById i (fold (deliver cfg U i) as w') = Some r' \<and> isTerminal r'
        \<and> j_attemptCount r' \<le> max (Suc (j_attemptCount r)) (j_maxAttempts r)"
      using Cons.prems r 2(2) by (intro Cons.IH) auto
    then show ?thesis using r(4,5) 2(2) by (auto simp: w')
  qed
qed simp

section \<open>Reconciliation\<close>

text \<open>The queue answers every call.\<close>

definition queue_up :: "bullmq \<Rightarrow> bool" where
  "queue_up q \<longleftrightarrow> (\<forall>i w. \<exists>w'. addEntry q i w = Inr w') \<and> (\<forall>i w. \<exists>s. entryState q i w = Inr s)
     \<and> (\<forall>i w. \<exists>w'. dropEntry q i w = Inr w')"

definition pending :: "bullmq \<Rightarrow> uuid \<Rightarrow> World \<Rightarrow> bool" where
  "pending q i w \<longleftrightarrow> isPending q i w = Inr True"

lemma pending_state: "pending q i w \<longleftrightarrow> (\<exists>s. entryState q i w = Inr (Some s) \<and> s \<in> set PENDING_STATES)"
  by (auto simp: pending_def isPending_def split: sum.split option.split)

lemma bull_add:
  assumes "bull_ok q" and "addEntry q i w = Inr w'"
  shows "ocrJobs w' = ocrJobs w"
    and "entryState q k w' = (if k = i \<and> entryState q i w = Inr None then Inr (Some Waiting) else entryState q k w)"
proof -
  from assms have *: "(\<exists>entries. w' = w\<lparr>queueEntries := entries\<rparr>)
      \<and> (\<forall>k. entryState q k w' = (if k = i \<and> entryState q i w = Inr None then Inr (Some Waiting) else entryState q k w))"
    unfolding bull_ok_def by blast
  then show "ocrJobs w' = ocrJobs w" by auto
  from * show "entryState q k w' = (if k = i \<and> entryState q i w = Inr None then Inr (Some Waiting) else entryState q k w)"
    by blast
qed

lemma bull_drop:
  assumes "bull_ok q" and "dropEntry q i w = Inr w'"
  shows "ocrJobs w' = ocrJobs w" and "entryState q k w' = (if k = i then Inr None else entryState q k w)"
proof -
  from assms have *: "(\<exists>entries. w' = w\<lparr>queueEntries := entries\<rparr>)
      \<and> (\<forall>k. entryState q k w' = (if k = i then Inr None else entryState q k w))"
    unfolding bull_ok_def by blast
  then show "ocrJobs w' = ocrJobs w" by auto
  from * show "entryState q k w' = (if k = i then Inr None else entryState q k w)" by blast
qed

lemma requeueEntry_pending:
  assumes "quiet e" and "bull_ok q" and "queue_up q"
  obtains w' where "requeueEntry e n q i w = (False, w')" and "ocrJobs w' = ocrJobs w" and "pending q i w'"
    and "\<And>k. pending q k w \<Longrightarrow> pending q k w'"
proof -
  have e: "others e k v = v" for k v using assms(1) by (simp add: quiet_def)
  obtain s where s: "entryState q i w = Inr s" using assms(3) unfolding queue_up_def by blast
  obtain w1 where w1: "removeStaleEntry q i w = Inr w1" "ocrJobs w1 = ocrJobs w"
      "entryState q i w1 = Inr (case s of Some x \<Rightarrow> if x \<in> set PENDING_STATES then Some x else None | None \<Rightarrow> None)"
      "\<And>k. k \<noteq> i \<Longrightarrow> entryState q k w1 = entryState q k w"
  proof (cases "\<exists>x. s = Some x \<and> x \<notin> set PENDING_STATES")
    case True
    obtain w2 where d: "dropEntry q i w = Inr w2" using assms(3) unfolding queue_up_def by blast
    then show ?thesis using that [of w2] True s bull_drop [OF assms(2) d] by (auto simp: removeStaleEntry_def)
  next
    case False
    then show ?thesis using that [of w] s by (auto simp: removeStaleEntry_def split: option.split)
  qed
  obtain w2 where w2: "addEntry q i w1 = Inr w2" using assms(3) unfolding queue_up_def by blast
  note add = bull_add [OF assms(2) w2]
  have i: "pending q i w2" using w1(3) add(2) by (auto simp: pending_state PENDING_STATES_def split: option.splits if_splits)
  have "pending q k w2" if "pending q k w" for k
  proof (cases "k = i")
    case False
    then show ?thesis using that add(2) w1(4) by (auto simp: pending_state)
  qed (simp add: i)
  then show ?thesis using that [of w2] w1 w2 add(1) i by (simp add: requeueEntry_def e enqueue_def)
qed

text \<open>The second loop: every waiting job it sees is pending afterwards, and no job changes.\<close>

lemma reconcileQueued_pending:
  assumes "quiet e" and "bull_ok q" and "queue_up q"
  shows "ocrJobs (snd (reconcileQueued e q n xs s w)) = ocrJobs w
    \<and> (\<forall>j\<in>set xs. pending q (j_id j) (snd (reconcileQueued e q n xs s w)))
    \<and> (\<forall>k. pending q k w \<longrightarrow> pending q k (snd (reconcileQueued e q n xs s w)))"
proof (induction xs arbitrary: n s w)
  case (Cons job xs)
  have e: "others e k v = v" for k v using assms(1) by (simp add: quiet_def)
  obtain st where st: "entryState q (j_id job) w = Inr st" using assms(3) unfolding queue_up_def by blast
  show ?case
  proof (cases "pending q (j_id job) w")
    case True
    then show ?thesis using Cons [of "n + 4" s w] by (simp add: e pending_def)
  next
    case False
    then have p: "isPending q (j_id job) w = Inr False"
      using st by (auto simp: pending_def isPending_def split: option.splits)
    obtain w1 where w1: "requeueEntry e (n + 1) q (j_id job) w = (False, w1)" "ocrJobs w1 = ocrJobs w"
        "pending q (j_id job) w1" "\<And>k. pending q k w \<Longrightarrow> pending q k w1"
      by (rule requeueEntry_pending [OF assms]) blast
    show ?thesis
      using Cons [of "n + 4" "s\<lparr>sm_enqueued := sm_enqueued s + 1\<rparr>" w1] w1 by (simp add: e p)
  qed
qed simp

text \<open>The first loop ends every stale job it sees: with attempts left it waits again, otherwise it has
  failed. No other job changes.\<close>

definition recoveredAs :: "OcrJob \<Rightarrow> OcrJob \<Rightarrow> bool" where
  "recoveredAs j r \<longleftrightarrow> j_id r = j_id j \<and> j_attemptCount r = j_attemptCount j
     \<and> j_status r = (if j_maxAttempts j \<le> j_attemptCount j then FAILED else QUEUED)"

lemma find_recover:
  assumes "findJobById i w = Some j" and "j_status j = PROCESSING" and "staleAt (now - s) j"
  shows "findJobById i (snd (recover i s now w)) = Some (j\<lparr>j_status := QUEUED, j_heartbeatAt := Some now, j_updatedAt := now\<rparr>)"
  using findJobById_Some [OF assms(1)] assms unfolding recover_def Let_def case_prod_unfold snd_conv
  by (subst find_updateJobs) simp_all

lemma recover_done:
  assumes "jobs_wf w" and "findJobById i w = Some j" and "j_status j = PROCESSING" and "staleAt (now - s) j"
  shows "fst (recover i s now w)"
proof -
  have j: "j \<in> set (ocrJobs w)" "j_id j = i" using findJobById_Some [OF assms(2)] by auto
  have "fst (updateJobs (\<lambda>x. j_id x = i \<and> j_status x = PROCESSING \<and> staleAt (now - s) x)
      (\<lambda>x. x\<lparr>j_status := QUEUED, j_heartbeatAt := Some now\<rparr>) now w) = 1"
    using updateJobs_one(1) [OF assms(1) j(1), of "\<lambda>x. j_id x = i \<and> j_status x = PROCESSING \<and> staleAt (now - s) x"]
      j(2) assms(3,4) by simp
  then show ?thesis by (simp add: recover_def Let_def case_prod_unfold)
qed

lemma find_other:
  assumes "k \<noteq> i"
  shows "findJobById k (snd (recover i s now w)) = findJobById k w"
    and "findJobById k (snd (failJob i c m now w)) = findJobById k w"
proof -
  have *: "map_option (\<lambda>j. if j_id j = i \<and> p j then f j else j) (findJobById k w) = findJobById k w" for p f
    using assms findJobById_Some [of k w] by (cases "findJobById k w") auto
  show "findJobById k (snd (recover i s now w)) = findJobById k w"
    unfolding recover_def Let_def case_prod_unfold snd_conv by (subst find_updateJobs) (simp_all add: *)
  show "findJobById k (snd (failJob i c m now w)) = findJobById k w"
    unfolding failJob_def Let_def case_prod_unfold snd_conv by (subst find_updateJobs) (simp_all add: *)
qed

lemma stale_later: "staleAt (t - s) j \<Longrightarrow> t \<le> t' \<Longrightarrow> staleAt (t' - s) j"
  by (auto simp: staleAt_def split: option.splits)

lemma ids_kept:
  "map j_id (ocrJobs (snd (recover i s now w))) = map j_id (ocrJobs w)"
  "map j_id (ocrJobs (snd (failJob i c m now w))) = map j_id (ocrJobs w)"
  by (auto simp: recover_def failJob_def Let_def case_prod_unfold updateJobs_rows)

text \<open>One turn of the loop.\<close>

lemma reconcileStale_turn:
  assumes "quiet e" and "bull_ok q" and "queue_up q" and "jobs_wf w" and "findJobById (j_id j) w = Some j"
    and "j_status j = PROCESSING" and "staleAt (clock e n - int (oc_staleJobMs cfg)) j"
  obtains w1 s1 where "reconcileStale e cfg q n (j # xs) s w = reconcileStale e cfg q (n + 4) xs s1 w1"
    and "jobs_wf w1" and "map j_id (ocrJobs w1) = map j_id (ocrJobs w)"
    and "\<exists>r. findJobById (j_id j) w1 = Some r \<and> recoveredAs j r"
    and "\<And>k. k \<noteq> j_id j \<Longrightarrow> findJobById k w1 = findJobById k w"
proof (cases "j_maxAttempts j \<le> j_attemptCount j")
  case True
  let ?m = "''Processing was interrupted and the attempt budget is exhausted''"
  let ?f = "failJob (j_id j) ''OCR_WORKER_INTERRUPTED'' ?m (clock e n) w"
  have "others e n w = w" using assms(1) by (simp add: quiet_def)
  moreover have "\<exists>r. findJobById (j_id j) (snd ?f) = Some r \<and> recoveredAs j r"
    using find_failJob [OF assms(5), of _ _ "clock e n"] assms(6) True by (simp add: recoveredAs_def statuses)
  ultimately show ?thesis
    using that [of "if fst ?f then s\<lparr>sm_failed := sm_failed s + 1\<rparr> else s" "snd ?f"] True
      stepD [OF failJob_step assms(4)] ids_kept(2) find_other(2)
    by (simp add: Let_def case_prod_unfold)
next
  case False
  let ?r = "recover (j_id j) (int (oc_staleJobMs cfg)) (clock e n) w"
  obtain w1 where w1: "requeueEntry e (n + 1) q (j_id j) (snd ?r) = (False, w1)" "ocrJobs w1 = ocrJobs (snd ?r)"
    using requeueEntry_pending [OF assms(1-3)] by metis
  have step: "reconcileStale e cfg q n (j # xs) s w =
      reconcileStale e cfg q (n + 4) xs (s\<lparr>sm_recovered := sm_recovered s + 1\<rparr>) w1"
    using False recover_done [OF assms(4-7)] w1(1) assms(1) by (simp add: quiet_def Let_def case_prod_unfold)
  obtain x where ok: "requeueEntry e (n + 1) q (j_id j) (snd ?r) = (x, w1)" using w1 by blast
  have "jobs_wf (snd ?r)" by (rule stepD [OF recover_step assms(4)])
  moreover have "jobs_step (snd ?r) w1"
    using requeueEntry_step [of e q "snd ?r" "n + 1" "j_id j"] assms(1,2) ok
    by (simp add: job_env_def quiet_def step_refl)
  ultimately have "jobs_wf w1" using stepD by blast
  moreover have find: "findJobById k w1 = findJobById k (snd ?r)" for k by (rule find_same [OF w1(2)])
  moreover have "\<exists>r. findJobById (j_id j) w1 = Some r \<and> recoveredAs j r"
    using find_recover [OF assms(5-7)] False by (simp add: find recoveredAs_def)
  ultimately show ?thesis
    using that [OF step] w1(2) ids_kept(1) find_other(1) by simp
qed

lemma reconcileStale_outcome:
  assumes "quiet e" and "bull_ok q" and "queue_up q" and "\<forall>k. t \<le> clock e k" and "jobs_wf w"
    and "distinct (map j_id xs)"
    and "\<And>j. j \<in> set xs \<Longrightarrow> findJobById (j_id j) w = Some j \<and> j_status j = PROCESSING \<and> staleAt (t - int (oc_staleJobMs cfg)) j"
  shows "\<exists>s' w'. reconcileStale e cfg q n xs s w = (False, s', w') \<and> jobs_wf w'
    \<and> map j_id (ocrJobs w') = map j_id (ocrJobs w)
    \<and> (\<forall>j\<in>set xs. \<exists>r. findJobById (j_id j) w' = Some r \<and> recoveredAs j r)
    \<and> (\<forall>k. k \<notin> j_id ` set xs \<longrightarrow> findJobById k w' = findJobById k w)"
  using assms(5-7)
proof (induction xs arbitrary: n s w)
  case (Cons j xs)
  have j: "findJobById (j_id j) w = Some j" "j_status j = PROCESSING" "staleAt (clock e n - int (oc_staleJobMs cfg)) j"
    using Cons.prems(3) [of j] stale_later assms(4) by auto
  obtain w1 s1 where t: "reconcileStale e cfg q n (j # xs) s w = reconcileStale e cfg q (n + 4) xs s1 w1"
    "jobs_wf w1" "map j_id (ocrJobs w1) = map j_id (ocrJobs w)"
    "\<exists>r. findJobById (j_id j) w1 = Some r \<and> recoveredAs j r"
    "\<And>k. k \<noteq> j_id j \<Longrightarrow> findJobById k w1 = findJobById k w"
    by (rule reconcileStale_turn [OF assms(1-3) Cons.prems(1) j, of xs s]) blast
  have "j_id x \<noteq> j_id j" if "x \<in> set xs" for x
    using Cons.prems(2) imageI [OF that, of j_id] by auto
  then have "\<And>x. x \<in> set xs \<Longrightarrow> findJobById (j_id x) w1 = Some x \<and> j_status x = PROCESSING
      \<and> staleAt (t - int (oc_staleJobMs cfg)) x"
    using Cons.prems(3) t(5) by simp
  then obtain s' w' where IH: "reconcileStale e cfg q (n + 4) xs s1 w1 = (False, s', w')" "jobs_wf w'"
    "map j_id (ocrJobs w') = map j_id (ocrJobs w1)"
    "\<forall>x\<in>set xs. \<exists>r. findJobById (j_id x) w' = Some r \<and> recoveredAs x r"
    "\<forall>k. k \<notin> j_id ` set xs \<longrightarrow> findJobById k w' = findJobById k w1"
    using Cons.IH [OF t(2), of "n + 4" s1] Cons.prems(2) by auto
  have "findJobById (j_id j) w' = findJobById (j_id j) w1" using IH(5) Cons.prems(2) by simp
  then show ?case using IH t by (auto simp del: reconcileStale.simps)
qed simp

text \<open>A run of the reconciler takes the 500 oldest jobs of each kind. Whatever the order of jobs of the
  same age, it takes every job of the kind with fewer than 500 others of that kind that are at least as old.\<close>

definition ahead :: "(OcrJob \<Rightarrow> bool) \<Rightarrow> World \<Rightarrow> OcrJob \<Rightarrow> nat" where
  "ahead p w j = length (filter (\<lambda>x. p x \<and> x \<noteq> j \<and> j_createdAt x \<le> j_createdAt j) (ocrJobs w))"

lemma filter_insert_by: "length (filter p (insert_by le x ys)) = length (filter p (x # ys))"
  by (induction ys) auto

lemma filter_orderBy: "length (filter p (orderBy le xs)) = length (filter p xs)"
  by (induction xs) (simp_all add: orderBy_def filter_insert_by)

lemma take_first:
  assumes "sorted_wrt le xs" and "j \<in> set xs" and "distinct xs" and "length (filter (\<lambda>x. x \<noteq> j \<and> le x j) xs) < n"
  shows "j \<in> set (take n xs)"
proof (rule ccontr)
  assume no: "j \<notin> set (take n xs)"
  have "set xs = set (take n xs) \<union> set (drop n xs)" by (metis append_take_drop_id set_append)
  then have d: "j \<in> set (drop n xs)" using no assms(2) by blast
  then have "n < length xs" by (cases "n < length xs") simp_all
  then have len: "length (take n xs) = n" by simp
  have "sorted_wrt le (take n xs @ drop n xs)" using assms(1) by simp
  then have "\<forall>x\<in>set (take n xs). x \<noteq> j \<and> le x j" using d no unfolding sorted_wrt_append by blast
  then have "filter (\<lambda>x. x \<noteq> j \<and> le x j) (take n xs) = take n xs" by (simp add: filter_id_conv)
  then have "n \<le> length (filter (\<lambda>x. x \<noteq> j \<and> le x j) (take n xs @ drop n xs))" using len by (simp only: filter_append) simp
  then show False using assms(4) by simp
qed

lemma taken_rows:
  assumes "jobs_wf w" and "j \<in> set (ocrJobs w)" and "p j" and "ahead p w j < 500"
  shows "j \<in> set (take 500 (orderBy (\<lambda>a b. j_createdAt a \<le> j_createdAt b) (findMany p (ocrJobs w))))"
proof (rule take_first)
  have "distinct (map j_id (findMany p (ocrJobs w)))"
    using assms(1) by (simp add: jobs_wf_def findMany_def distinct_map_filter)
  then show "distinct (orderBy (\<lambda>a b. j_createdAt a \<le> j_createdAt b) (findMany p (ocrJobs w)))"
    using distinct_orderBy [of "\<lambda>x. x" "\<lambda>a b. j_createdAt a \<le> j_createdAt b" "findMany p (ocrJobs w)"]
    by (simp add: distinct_map)
  show "sorted_wrt (\<lambda>a b. j_createdAt a \<le> j_createdAt b) (orderBy (\<lambda>a b. j_createdAt a \<le> j_createdAt b) (findMany p (ocrJobs w)))"
    by (rule sorted_orderBy) auto
  show "length (filter (\<lambda>x. x \<noteq> j \<and> j_createdAt x \<le> j_createdAt j)
      (orderBy (\<lambda>a b. j_createdAt a \<le> j_createdAt b) (findMany p (ocrJobs w)))) < 500"
    using assms(4) by (simp add: filter_orderBy findMany_def ahead_def conj_assoc)
qed (use assms(2,3) in \<open>simp add: findMany_def\<close>)

abbreviation stale_job :: "run \<Rightarrow> OcrConfig \<Rightarrow> OcrJob \<Rightarrow> bool" where
  "stale_job e cfg j \<equiv> j_status j = PROCESSING \<and> staleAt (clock e 0 - int (oc_staleJobMs cfg)) j"

lemma findStaleProcessing_rows:
  assumes "jobs_wf w"
  shows "set (findStaleProcessing now s w) \<subseteq> {j \<in> set (ocrJobs w). j_status j = PROCESSING \<and> staleAt (now - s) j}"
    and "distinct (map j_id (findStaleProcessing now s w))"
proof -
  show "set (findStaleProcessing now s w) \<subseteq> {j \<in> set (ocrJobs w). j_status j = PROCESSING \<and> staleAt (now - s) j}"
    unfolding findStaleProcessing_def by (auto simp: findMany_def dest!: in_set_takeD)
  have "distinct (map j_id (findMany P (ocrJobs w)))" for P
    using assms by (simp add: jobs_wf_def findMany_def distinct_map_filter)
  then have "distinct (map j_id (orderBy le (findMany P (ocrJobs w))))" for le P by (simp add: distinct_orderBy)
  then show "distinct (map j_id (findStaleProcessing now s w))"
    unfolding findStaleProcessing_def take_map [symmetric] by (rule distinct_take)
qed

lemma reconcileStale_all:
  assumes "quiet e" and "bull_ok q" and "queue_up q" and "\<forall>k. t \<le> clock e k" and "jobs_wf w"
  shows "\<exists>s' w'. reconcileStale e cfg q n (findStaleProcessing t (int (oc_staleJobMs cfg)) w) s w = (False, s', w') \<and> jobs_wf w'
    \<and> map j_id (ocrJobs w') = map j_id (ocrJobs w)
    \<and> (\<forall>j\<in>set (findStaleProcessing t (int (oc_staleJobMs cfg)) w). \<exists>r. findJobById (j_id j) w' = Some r \<and> recoveredAs j r)
    \<and> (\<forall>k. k \<notin> j_id ` set (findStaleProcessing t (int (oc_staleJobMs cfg)) w) \<longrightarrow> findJobById k w' = findJobById k w)"
proof (rule reconcileStale_outcome [OF assms])
  show "distinct (map j_id (findStaleProcessing t (int (oc_staleJobMs cfg)) w))"
    by (rule findStaleProcessing_rows(2) [OF assms(5)])
  show "findJobById (j_id j) w = Some j \<and> j_status j = PROCESSING \<and> staleAt (t - int (oc_staleJobMs cfg)) j"
    if "j \<in> set (findStaleProcessing t (int (oc_staleJobMs cfg)) w)" for j
    using that findJobById_iff [OF assms(5)] findStaleProcessing_rows(1) [OF assms(5)] by blast
qed

section \<open>A concrete delivery\<close>

definition demoReady :: World where
  "demoReady = demoBench\<lparr>documents := [demoDocument\<lparr>d_status := READY, d_storageKey := Some [75]\<rparr>]\<rparr>"

definition demoStream :: StoredObjectStream where
  "demoStream = \<lparr>ss_size = Some 5, ss_contentType = None, ss_chunks = [[0x25, 0x50], [0x44, 0x46, 0x2d]], ss_error = None\<rparr>"

definition demoStore :: object_store where
  "demoStore key = Inr (Some demoStream)"

lemma demoReady_sel [simp]:
  "ocrJobs demoReady = [demoJob]" "ocrPages demoReady = []"
  "documents demoReady = [demoDocument\<lparr>d_status := READY, d_storageKey := Some [75]\<rparr>]"
  by (simp_all add: demoReady_def)

lemma demoReady_facts: "jobs_wf demoReady" "findJobById [5] demoReady = Some demoJob" "pagesOf [5] demoReady = []"
  by (simp_all add: jobs_wf_def job_row_ok_def demoJob_def statuses findJobById_def findFirst_def pagesOf_def findMany_def)

lemma demoRun_quiet: "quiet demoRun"
  by (simp add: quiet_def demoRun_def)

text \<open>A run in which the job renews its heartbeat at every step.\<close>

definition beatingRun :: run where
  "beatingRun = demoRun\<lparr>others := \<lambda>_. heartbeat [5] 130\<rparr>"

lemma demoRun_workdir: "tempDirError demoRun = None"
  by (simp add: demoRun_def)

lemma beatingRun_spares: "spares beatingRun i" "tempDirError beatingRun = None"
  by (simp_all add: kept_by_others_def beatingRun_def demoRun_def heartbeat_spared)

lemma demoTools_present: "tools_present demoTools"
  by (simp add: tools_present_def demoTools_def pageFailure_def)

lemma demo_download: "download demoStore [75] (oc_maxFileSizeBytes demoConfig) = Inr [0x25, 0x50, 0x44, 0x46, 0x2d]"
  by (simp add: download_def demoStore_def demoStream_def demoConfig_def)

lemma demo_inspect: "inspect demoConfig demoTools [0x25, 0x50, 0x44, 0x46, 0x2d] None
     = Inr \<lparr>if_format = Pdf, if_totalPages = 3, if_pdf = Some demoPdf\<rparr>"
proof -
  have "latin1 [0x25, 0x50, 0x44, 0x46, 0x2d] = ''%PDF-''" by code_simp
  then show ?thesis
    by (simp add: inspect_def readHead_def SIGNATURE_PROBE_BYTES_def detectFormat_def subarray_def truthy_def
        demoTools_def demoPdf_def demoConfig_def)
qed

lemma plainQueue_up: "queue_up plainQueue"
  by (simp add: queue_up_def plainQueue_def)

section \<open>Properties\<close>

text \<open>C1. A delivery completes its job. When a job that can be claimed has attempts left, its document is
  ready, its file downloads and passes the inspection, the tools are installed, and the work
  directory can be created, then a worker that is not disturbed returns and the job is finished: there is exactly one result for each page from the first to the
  last, the results of earlier interrupted attempts are among them as they were, and the status,
  the counters and the method of the job are those of its pages. A page that cannot be rendered or
  recognised does not keep the job from finishing.\<close>

theorem process_completes:
  assumes "quiet e" and "0 < oc_maxTextPerPage cfg" and "jobs_wf w" and "findJobById i w = Some j"
    and "claimable (int (oc_staleJobMs cfg)) (clock e 0) j" and "j_attemptCount j < j_maxAttempts j"
    and "findFirst (\<lambda>d. d_id d = j_documentId j \<and> d_userId d = j_userId j \<and> d_deletedAt d = None) (documents w) = Some d"
    and "d_status d = READY" and "truthy (d_storageKey d)"
    and "\<not> (case d_fileSize d of None \<Rightarrow> False | Some n \<Rightarrow> n > int (oc_maxFileSizeBytes cfg))"
    and "download store (the (d_storageKey d)) (oc_maxFileSizeBytes cfg) = Inr b"
    and "inspect cfg (tools b) b (d_mimeType d) = Inr f" and "tools_present (tools b)"
    and "p_pageNumber ` set (pagesOf i w) = {1..k}" and "k \<le> if_totalPages f"
    and "tempDirError e = None" and "process e cfg U store tools i w = (res, w')"
  shows "res = Done \<and> distinct (map p_pageNumber (pagesOf i w'))
    \<and> (\<exists>r. findJobById i w' = Some r \<and> isTerminal r \<and> reports (pagesOf i w') r \<and> j_totalPages r = Some (if_totalPages f))
    \<and> p_pageNumber ` set (pagesOf i w') = {1..if_totalPages f} \<and> set (pagesOf i w) \<subseteq> set (pagesOf i w')"
  using assms by (rule process_finishes)

theorem process_completes_witness:
  "p_pageNumber ` set (pagesOf [5] (snd (process demoRun demoConfig ascii_unicode demoStore (\<lambda>_. demoTools) [5] demoReady))) = {1..3}"
proof -
  let ?d = "demoDocument\<lparr>d_status := READY, d_storageKey := Some [75]\<rparr>"
  have c: "claimable (int (oc_staleJobMs demoConfig)) (clock demoRun 0) demoJob" by (simp add: claimable_def)
  have a: "j_attemptCount demoJob < j_maxAttempts demoJob" by (simp add: demoJob_def)
  have d: "findFirst (\<lambda>d. d_id d = j_documentId demoJob \<and> d_userId d = j_userId demoJob \<and> d_deletedAt d = None)
      (documents demoReady) = Some ?d"
    by (simp add: findFirst_def demoJob_def demoDocument_def)
  have dl: "download demoStore (the (d_storageKey ?d)) (oc_maxFileSizeBytes demoConfig) = Inr [0x25, 0x50, 0x44, 0x46, 0x2d]"
    using demo_download by simp
  have ins: "inspect demoConfig demoTools [0x25, 0x50, 0x44, 0x46, 0x2d] (d_mimeType ?d)
     = Inr \<lparr>if_format = Pdf, if_totalPages = 3, if_pdf = Some demoPdf\<rparr>"
    using demo_inspect by (simp add: demoDocument_def)
  have st: "d_status ?d = READY" "truthy (d_storageKey ?d)"
    "\<not> (case d_fileSize ?d of None \<Rightarrow> False | Some n \<Rightarrow> n > int (oc_maxFileSizeBytes demoConfig))"
    by (simp_all add: truthy_def demoDocument_def)
  have p: "p_pageNumber ` set (pagesOf [5] demoReady) = {1..0}" by (simp add: demoReady_facts(3))
  have pos: "0 < oc_maxTextPerPage demoConfig" by simp
  show ?thesis
    using process_completes [OF demoRun_quiet pos demoReady_facts(1,2) c a d st dl ins demoTools_present p _ demoRun_workdir prod.collapse [symmetric]]
    by simp
qed

text \<open>C3. A job in the queue ends when its deliveries run to their end. If every delivery can create its
  work directory and is not interrupted, and what others do meanwhile spares the status and the
  attempts of this job (its own heartbeats do, and every operation on another job), then a job
  that is delivered as often as it has attempts left, and at least once, is completed, partial,
  failed or cancelled afterwards, whatever the storage and the tools do at each delivery; the
  attempts it used do not exceed its budget, or the one delivery of a job whose budget was used up.
  Without a work directory the job does not end: see \<open>leaked_heartbeat_blocks\<close>.\<close>

theorem job_terminates:
  assumes "\<forall>a\<in>set as. spares (fst a) i \<and> tempDirError (fst a) = None" and "jobs_wf w"
    and "findJobById i w = Some j" and "j_status j = QUEUED" and "max 1 (j_maxAttempts j - j_attemptCount j) \<le> length as"
  shows "\<exists>r. findJobById i (fold (deliver cfg U i) as w) = Some r \<and> isTerminal r
    \<and> j_attemptCount r \<le> max (Suc (j_attemptCount j)) (j_maxAttempts j)"
  using assms by (rule deliveries_settle)

theorem job_terminates_witness:
  "\<exists>r. findJobById [5] (fold (deliver demoConfig ascii_unicode [5])
      (replicate 3 (beatingRun, \<lambda>key. Inl (StorageException ''down''), \<lambda>_. demoTools)) demoReady) = Some r \<and> isTerminal r"
proof -
  let ?as = "replicate 3 (beatingRun, \<lambda>key. Inl (StorageException ''down''), \<lambda>_. demoTools) :: attempt list"
  have "\<forall>a\<in>set ?as. spares (fst a) [5] \<and> tempDirError (fst a) = None" using beatingRun_spares by simp
  moreover have "max 1 (j_maxAttempts demoJob - j_attemptCount demoJob) \<le> length ?as" by (simp add: demoJob_def)
  ultimately show ?thesis
    using job_terminates [of ?as "[5]" demoReady demoJob demoConfig ascii_unicode] demoReady_facts by auto
qed

text \<open>The worker and the reconciler keep the table of jobs consistent, whatever others do that keep
  it too: ids and page keys stay unique, every page has its job, the columns of a job agree with
  its status, finished jobs stay as they are, and no attempt is forgotten.\<close>

theorem worker_keeps_jobs:
  assumes "job_env e" and "bull_ok q" and "jobs_wf w"
    and "w' \<in> {snd (handleEntry e cfg U store tools entry w), snd (reconcile e cfg q flag w)}"
  shows "jobs_wf w' \<and> evolves job_le (ocrJobs w) (ocrJobs w')"
proof -
  have "jobs_step w (snd (handleEntry e cfg U store tools entry w))"
    using process_step [OF assms(1)] by (simp add: handleEntry_def step_refl)
  moreover have "jobs_step w (snd (reconcile e cfg q flag w))" by (rule reconcile_step [OF assms(1,2)])
  ultimately show ?thesis using assms(3,4) by (auto simp: jobs_step_def)
qed

theorem worker_keeps_jobs_witness:
  "jobs_wf (snd (handleEntry demoRun demoConfig ascii_unicode demoStore (\<lambda>_. demoTools) (Some [5]) demoReady))"
proof -
  have "job_env demoRun" by (simp add: job_env_def demoRun_def step_refl)
  then show ?thesis
    using worker_keeps_jobs [OF _ plainQueue_ok demoReady_facts(1)] by blast
qed

text \<open>C4. The reconciler makes the queue match the database, 500 jobs at a time. Take a run in which the
  queue answers every call, the clock does not go back and no other process acts. Afterwards every
  waiting job with fewer than 500 other waiting jobs at least as old has a pending entry. Every job
  that was in processing with a stale heartbeat waits again, or has failed when its attempts were
  used up, if fewer than 500 other such jobs are at least as old; the others of them either were
  treated the same or are found as they were. All other jobs are found as they were.\<close>

theorem reconcile_restores_queue:
  assumes "quiet e" and "\<forall>k. clock e 0 \<le> clock e k" and "bull_ok q" and "queue_up q" and "jobs_wf w"
    and "w' = snd (reconcile e cfg q False w)"
  shows "(\<forall>j\<in>set (ocrJobs w'). j_status j = QUEUED \<and> ahead (\<lambda>x. j_status x = QUEUED) w' j < 500
         \<longrightarrow> isPending q (j_id j) w' = Inr True)
    \<and> (\<forall>j\<in>set (ocrJobs w). \<exists>r. findJobById (j_id j) w' = Some r
         \<and> (if stale_job e cfg j then recoveredAs j r \<or> (r = j \<and> 500 \<le> ahead (stale_job e cfg) w j) else r = j))"
proof -
  let ?stale = "findStaleProcessing (clock e 0) (int (oc_staleJobMs cfg)) w"
  let ?zero = "\<lparr>sm_enqueued = 0, sm_recovered = 0, sm_failed = 0\<rparr>"
  obtain s1 w1 where r: "reconcileStale e cfg q 1 ?stale ?zero w = (False, s1, w1)" "jobs_wf w1"
    "map j_id (ocrJobs w1) = map j_id (ocrJobs w)"
    "\<forall>j\<in>set ?stale. \<exists>r. findJobById (j_id j) w1 = Some r \<and> recoveredAs j r"
    "\<forall>k. k \<notin> j_id ` set ?stale \<longrightarrow> findJobById k w1 = findJobById k w"
    using reconcileStale_all [OF assms(1,3,4,2,5)] by blast
  have w': "w' = snd (reconcileQueued e q (2 + 4 * length ?stale) (findQueued w1) s1 w1)"
    using assms(1) r(1) unfolding assms(6) by (simp add: reconcile_def quiet_def Let_def)
  note loop = reconcileQueued_pending [OF assms(1,3,4), of "2 + 4 * length ?stale" "findQueued w1" s1 w1, folded w']
  have "isPending q (j_id j) w' = Inr True"
    if "j \<in> set (ocrJobs w')" "j_status j = QUEUED" "ahead (\<lambda>x. j_status x = QUEUED) w' j < 500" for j
  proof -
    have same: "ocrJobs w' = ocrJobs w1" using loop by blast
    then have "j \<in> set (findQueued w1)"
      unfolding findQueued_def using that by (intro taken_rows [OF r(2)]) (simp_all add: ahead_def)
    then show ?thesis using loop by (simp add: pending_def)
  qed
  moreover have "\<exists>r. findJobById (j_id j) w' = Some r
      \<and> (if stale_job e cfg j then recoveredAs j r \<or> (r = j \<and> 500 \<le> ahead (stale_job e cfg) w j) else r = j)"
    if j: "j \<in> set (ocrJobs w)" for j
  proof -
    have same: "findJobById k w' = findJobById k w1" for k using loop by (intro find_same) simp
    show ?thesis
    proof (cases "j \<in> set ?stale")
      case True
      then show ?thesis using r(4) same findStaleProcessing_rows(1) [OF assms(5)] by fastforce
    next
      case False
      then have "j_id j \<notin> j_id ` set ?stale"
        using job_unique [OF assms(5) j] findStaleProcessing_rows(1) [OF assms(5)] by blast
      then have "findJobById (j_id j) w' = Some j" using r(5) same findJobById_iff [OF assms(5)] j by auto
      moreover have "500 \<le> ahead (stale_job e cfg) w j" if "stale_job e cfg j"
        using taken_rows [OF assms(5) j, of "stale_job e cfg"] that False
        by (auto simp: findStaleProcessing_def not_less [symmetric])
      ultimately show ?thesis by auto
    qed
  qed
  ultimately show ?thesis by blast
qed

theorem reconcile_restores_queue_witness:
  "isPending plainQueue [5] (snd (reconcile demoRun demoConfig plainQueue False demoReady)) = Inr True"
proof -
  let ?w' = "snd (reconcile demoRun demoConfig plainQueue False demoReady)"
  have mono: "\<forall>k. clock demoRun 0 \<le> clock demoRun k" by (simp add: demoRun_def)
  note res = reconcile_restores_queue [OF demoRun_quiet mono plainQueue_ok plainQueue_up demoReady_facts(1) refl, where cfg = demoConfig]
  then have f: "findJobById [5] ?w' = Some demoJob" by simp
  have "findStaleProcessing t s demoReady = []" for t s
    by (simp add: findStaleProcessing_def findMany_def orderBy_def demoJob_def)
  then have "ocrJobs ?w' = ocrJobs demoReady"
    using reconcileQueued_pending [OF demoRun_quiet plainQueue_ok plainQueue_up] demoRun_quiet
    by (simp add: reconcile_def quiet_def Let_def)
  then have "ahead p ?w' demoJob < 500" for p by (simp add: ahead_def)
  moreover have "demoJob \<in> set (ocrJobs ?w')" by (rule findJobById_Some [OF f, THEN conjunct1])
  ultimately show ?thesis using conjunct1 [OF res] by fastforce
qed

text \<open>C21. A download is exact and bounded. It succeeds exactly when the object exists, announces no size
  above the limit, ends without an error and holds at most that many bytes, and then yields all of
  them; an object beyond the limit or a missing one is refused for good, and any other failure of
  the storage can be retried.\<close>

theorem download_exact:
  "(\<forall>file. download store key maxBytes = Inr file \<longleftrightarrow>
      (\<exists>object. store key = Inr (Some object) \<and> ss_error object = None \<and> file = concat (ss_chunks object)
         \<and> length file \<le> maxBytes \<and> (\<forall>n. ss_size object = Some n \<longrightarrow> n \<le> maxBytes)))
   \<and> (\<forall>object. store key = Inr (Some object) \<and> maxBytes < length (concat (ss_chunks object)) \<longrightarrow>
        download store key maxBytes = Inl (tooLarge maxBytes))
   \<and> (\<forall>err. download store key maxBytes = Inl err \<longrightarrow>
        pe_permanent (toProcessingError err) = (store key = Inr None \<or> err = tooLarge maxBytes)
        \<or> (\<exists>x. store key = Inl (Processing x)))"
proof -
  have lim: "limiter maxBytes 0 c = (if length (concat c) \<le> maxBytes then Some (concat c) else None)" for c
    using limiter_exact [of 0 maxBytes c] by simp
  have perm: "Processing (transient c m d) \<noteq> tooLarge maxBytes" "OtherError m \<noteq> tooLarge maxBytes"
    "pe_permanent (toProcessingError (tooLarge maxBytes))" for c m d
    by (auto simp: tooLarge_def toProcessingError_def permanent_def transient_def)
  have proc: "toProcessingError (Processing x) = x" "\<not> pe_permanent (toProcessingError (OtherError m))" for x m
    by (simp_all add: toProcessingError_def)
  consider m where "store key = Inl m" | "store key = Inr None" | object where "store key = Inr (Some object)"
    by (metis option.exhaust sum.exhaust)
  then show ?thesis
  proof cases
    case 1
    then show ?thesis by (cases m) (simp_all add: download_def perm proc)
  next
    case 2
    then show ?thesis by (simp add: download_def proc)
  next
    case (3 object)
    then show ?thesis
      by (auto simp: download_def lim perm proc split: option.splits if_splits)
  qed
qed

theorem download_exact_witness:
  "download demoStore [75] 5 = Inr [0x25, 0x50, 0x44, 0x46, 0x2d] \<and> download demoStore [75] 4 = Inl (tooLarge 4)"
proof -
  have "demoStore [75] = Inr (Some demoStream) \<and> ss_error demoStream = None
      \<and> [0x25, 0x50, 0x44, 0x46, 0x2d] = concat (ss_chunks demoStream) \<and> length (concat (ss_chunks demoStream)) = 5
      \<and> (\<forall>n. ss_size demoStream = Some n \<longrightarrow> n \<le> 5)"
    by (simp add: demoStore_def demoStream_def)
  then show ?thesis
    using download_exact [of demoStore "[75]" 5] download_exact [of demoStore "[75]" 4] by force
qed

text \<open>C20. What an error does to the job it happened in. A permanent error, or any error in the last
  attempt, ends the job as failed with the code of that error and tells the queue not to retry;
  another error puts the job back into the queue with the code, keeps the attempts it used, and lets
  the queue retry. An error that is not one of the pipeline counts as transient.\<close>

theorem handleFailure_outcome:
  assumes "jobs_wf w" and "findJobById (j_id job) w = Some r" and "j_status r = PROCESSING"
    and "handleFailure job err now w = (res, w')"
  shows "(if pe_permanent (toProcessingError err) \<or> j_maxAttempts job \<le> j_attemptCount job
     then res = Unrecoverable (pe_code (toProcessingError err))
       \<and> map_option j_status (findJobById (j_id job) w') = Some FAILED
     else res = RetryLater \<and> map_option j_status (findJobById (j_id job) w') = Some QUEUED)
    \<and> map_option j_errorCode (findJobById (j_id job) w') = Some (Some (pe_code (toProcessingError err)))
    \<and> map_option j_attemptCount (findJobById (j_id job) w') = Some (j_attemptCount r)
    \<and> ((\<forall>e. err \<noteq> Processing e) \<longrightarrow> \<not> pe_permanent (toProcessingError err))"
proof -
  have "(\<forall>e. err \<noteq> Processing e) \<longrightarrow> \<not> pe_permanent (toProcessingError err)"
    by (cases err) (simp_all add: toProcessingError_def)
  then show ?thesis
    using assms(3,4) find_failJob [OF assms(2)] find_requeue [OF assms(2)]
    by (auto simp: handleFailure_def Let_def statuses split: if_splits)
qed

theorem handleFailure_outcome_witness:
  "fst (handleFailure (claimedRow 100 demoJob) (StorageException ''down'') 120 demoRunning) = RetryLater"
proof -
  let ?r = "(claimedRow 100 demoJob)\<lparr>j_updatedAt := 100\<rparr>" and ?j = "claimedRow 100 demoJob"
  have f: "findJobById (j_id ?j) demoRunning = Some ?r" and p: "j_status ?r = PROCESSING"
    by (simp_all add: findJobById_def findFirst_def demoRunning_jobs claimedRow_def)
  have t: "\<not> (pe_permanent (toProcessingError (StorageException ''down'')) \<or> j_maxAttempts ?j \<le> j_attemptCount ?j)"
    by (simp add: toProcessingError_def claimedRow_def demoJob_def)
  show ?thesis
    using handleFailure_outcome [OF demoRunning_wf f p prod.collapse [symmetric], of "StorageException ''down''" 120]
    unfolding if_not_P [OF t] by blast
qed

text \<open>A delivery that cannot create its work directory leaves the job in processing and its heartbeat
  running. While heartbeats keep coming, one before each later delivery, none of these can claim the
  job, and the reconciler does not see it: it stays in processing until that worker dies.\<close>

lemma workdir_failure:
  assumes "quiet e" and "jobs_wf w" and "findJobById i w = Some j" and "claimable (int (oc_staleJobMs cfg)) (clock e 0) j"
    and "j_attemptCount j < j_maxAttempts j" and "tempDirError e = Some m"
  shows "\<exists>w'. process e cfg U store tools i w = (RetryLater, w') \<and> jobs_wf w' \<and> findJobById i w' = Some (claimedBy e j)"
proof -
  obtain w1 where "jobs_wf w1" "findJobById i w1 = Some (claimedBy e j)" "process e cfg U store tools i w = (RetryLater, w1)"
    by (rule process_claimed [OF assms(1-4), of U store tools]) (use assms(5,6) in simp)
  then show ?thesis by blast
qed

lemma beaten_delivery:
  assumes "quiet e" and "jobs_wf w" and "findJobById i w = Some j" and "j_status j = PROCESSING"
    and "clock e 0 - int (oc_staleJobMs cfg) \<le> t"
  shows "\<exists>w'. process e cfg U store tools i (heartbeat i t w) = (RetryLater, w') \<and> jobs_wf w'
      \<and> findJobById i w' = Some (j\<lparr>j_heartbeatAt := Some t, j_updatedAt := t\<rparr>)"
    and "i \<notin> j_id ` set (findStaleProcessing (clock e 0) (int (oc_staleJobMs cfg)) (heartbeat i t w))"
proof -
  let ?v = "heartbeat i t w" and ?j = "j\<lparr>j_heartbeatAt := Some t, j_updatedAt := t\<rparr>"
  let ?c = "claim i (int (oc_staleJobMs cfg)) (clock e 0) (clock e 1) ?v"
  have wf: "jobs_wf ?v" by (rule stepD [OF heartbeat_step assms(2)])
  have f: "findJobById i ?v = Some ?j"
    using assms(3,4) findJobById_Some [OF assms(3)] by (simp add: find_heartbeat)
  have fresh: "\<not> staleAt (clock e 0 - int (oc_staleJobMs cfg)) ?j" using assms(5) by (simp add: staleAt_def)
  then have c: "\<not> claimable (int (oc_staleJobMs cfg)) (clock e 0) ?j" using assms(4) by (simp add: claimable_def)
  then have no: "?c = (False, snd ?c)" using claim_taken [OF wf f] by (metis prod.collapse)
  have "findJobById i (snd ?c) = Some ?j" using find_claim [of i] f c by simp
  moreover have "process e cfg U store tools i ?v = (RetryLater, snd ?c)"
    unfolding process_def f option.case assms(1) [unfolded quiet_def] Let_def using assms(4)
    by (subst no) (simp add: TERMINAL_OCR_STATUSES_def)
  ultimately show "\<exists>w'. process e cfg U store tools i ?v = (RetryLater, w') \<and> jobs_wf w' \<and> findJobById i w' = Some ?j"
    using stepD [OF claim_step wf] by blast
  have "x = ?j" if "x \<in> set (ocrJobs ?v)" "j_id x = i" for x
  proof -
    have "findJobById i ?v = Some x" using that findJobById_iff [OF wf] by blast
    then show ?thesis using f by simp
  qed
  moreover have "set (findStaleProcessing (clock e 0) (int (oc_staleJobMs cfg)) ?v)
      \<subseteq> {x \<in> set (ocrJobs ?v). staleAt (clock e 0 - int (oc_staleJobMs cfg)) x}"
    using findStaleProcessing_rows(1) [OF wf] by blast
  ultimately show "i \<notin> j_id ` set (findStaleProcessing (clock e 0) (int (oc_staleJobMs cfg)) ?v)"
    using fresh by blast
qed

theorem leaked_heartbeat_blocks:
  assumes "jobs_wf w" and "findJobById i w = Some j" and "j_status j = PROCESSING"
    and "\<forall>(t, e, store, tools)\<in>set as. quiet e \<and> clock e 0 - int (oc_staleJobMs cfg) \<le> t"
  shows "\<exists>r. findJobById i (fold (\<lambda>(t, a) v. deliver cfg U i a (heartbeat i t v)) as w) = Some r
    \<and> j_status r = PROCESSING \<and> j_attemptCount r = j_attemptCount j"
  using assms
proof (induction as arbitrary: w j)
  case (Cons x as)
  obtain t e store tools where x: "x = (t, e, store, tools)" by (cases x)
  obtain w' where w': "process e cfg U store tools i (heartbeat i t w) = (RetryLater, w')" "jobs_wf w'"
      "findJobById i w' = Some (j\<lparr>j_heartbeatAt := Some t, j_updatedAt := t\<rparr>)"
    using beaten_delivery(1) [OF _ Cons.prems(1-3), of e cfg t] Cons.prems(4) x by fastforce
  then show ?case using Cons.IH [OF w'(2,3)] Cons.prems(3,4) by (simp add: x deliver_def)
qed simp

text \<open>The attempts of a job are not bounded by its maximum: an abandoned last attempt that is delivered
  again is counted before it is refused.\<close>

lemma attempts_exceed_maximum:
  assumes "quiet e" and "jobs_wf w" and "findJobById i w = Some j" and "j_status j = PROCESSING"
    and "staleAt (clock e 0 - int (oc_staleJobMs cfg)) j" and "j_attemptCount j = j_maxAttempts j"
  shows "map_option j_attemptCount (findJobById i (snd (process e cfg U store tools i w))) = Some (Suc (j_maxAttempts j))"
proof -
  have c: "claimable (int (oc_staleJobMs cfg)) (clock e 0) j" using assms(4,5) by (simp add: claimable_def)
  obtain w1 where w1: "findJobById i w1 = Some (claimedBy e j)" "snd (process e cfg U store tools i w) =
      snd (failJob i ''OCR_WORKER_INTERRUPTED'' ''Processing was interrupted and the attempt budget is exhausted'' (clock e 2) w1)"
    by (rule process_claimed [OF assms(1-3) c, of U store tools]) (simp add: assms(6))
  show ?thesis unfolding w1(2) find_failJob [OF w1(1)] by (simp add: assms(6))
qed

end
