(* ===== verification/Object_Storage.thy ===== *)
theory Object_Storage
  imports Http_Layer Settings Document_Files Ocr_Processing
begin

text \<open>
  The object storage client, \<open>storage/s3/s3-storage.provider.ts\<close>. The AWS SDK is the parameter
  \<open>sdk\<close>: what it answers to a command of a client, and the URL it signs. Each operation returns the
  lines it logs beside its result. The last sections put the operations together to the interfaces
  that the upload handlers (\<open>storage\<close>) and the worker (\<open>object_store\<close>) call.
\<close>

section \<open>The SDK\<close>

record S3LikeError =
  er_name :: "string option"
  er_message :: "string option"
  er_httpStatusCode :: "nat option"

record S3Client =
  cl_endpoint :: "jsstring option"
  cl_region :: jsstring
  cl_forcePathStyle :: bool
  cl_accessKeyId :: jsstring
  cl_secretAccessKey :: jsstring

datatype s3_command =
    HeadBucketCommand jsstring
  | CreateBucketCommand jsstring
  | HeadObjectCommand jsstring jsstring
  | GetObjectCommand jsstring jsstring "jsstring option" "jsstring option"
  | PutObjectCommand jsstring jsstring jsstring int
  | DeleteObjectCommand jsstring jsstring

text \<open>The fields of an answer that the provider reads; a body is its chunks and the error that ends it
  early, if one does.\<close>

record s3_output =
  out_contentLength :: "nat option"
  out_contentType :: "jsstring option"
  out_etag :: "jsstring option"
  out_body :: "(bytes list \<times> jsstring option) option"

record sdk =
  sdk_send :: "S3Client \<Rightarrow> s3_command \<Rightarrow> S3LikeError + s3_output"
  sdk_getSignedUrl :: "S3Client \<Rightarrow> s3_command \<Rightarrow> nat \<Rightarrow> string list option \<Rightarrow> S3LikeError + jsstring"

section \<open>Errors\<close>

definition NOT_FOUND_NAMES :: "string list" where
  "NOT_FOUND_NAMES = [''NotFound'', ''NoSuchKey'', ''NoSuchBucket'']"

definition nameOf :: "S3LikeError \<Rightarrow> string" where
  "nameOf e = (case er_name e of Some n \<Rightarrow> n | None \<Rightarrow> [])"

definition isNotFound :: "S3LikeError \<Rightarrow> bool" where
  "isNotFound e \<longleftrightarrow> nameOf e \<in> set NOT_FOUND_NAMES \<or> er_httpStatusCode e = Some 404"

definition isAlreadyOwned :: "S3LikeError \<Rightarrow> bool" where
  "isAlreadyOwned e \<longleftrightarrow> nameOf e = ''BucketAlreadyOwnedByYou'' \<or> nameOf e = ''BucketAlreadyExists''"

definition describeError :: "S3LikeError \<Rightarrow> string" where
  "describeError e =
     (case er_name e of Some n \<Rightarrow> n | None \<Rightarrow> ''Error'')
     @ (case er_httpStatusCode e of Some s \<Rightarrow> if s = 0 then [] else '' (HTTP '' @ nat_str s @ '')'' | None \<Rightarrow> [])
     @ '': '' @ (case er_message e of Some m \<Rightarrow> m | None \<Rightarrow> ''unknown error'')"

definition storageMessage :: string where
  "storageMessage = ''Object storage is currently unavailable''"

definition storageException :: failure where
  "storageException = appException 503 ''STORAGE_ERROR'' storageMessage"

definition wrap :: "string \<Rightarrow> S3LikeError \<Rightarrow> string list \<times> failure" where
  "wrap operation e = ([''Storage '' @ operation @ '' failed: '' @ describeError e], storageException)"

section \<open>The provider\<close>

record S3StorageProvider =
  sp_config :: StorageConfig
  sp_bucket :: jsstring
  sp_client :: S3Client
  sp_signingClient :: S3Client

definition clientFor :: "S3StorageConfig \<Rightarrow> jsstring option \<Rightarrow> S3Client" where
  "clientFor s3 endpoint =
     \<lparr>cl_endpoint = (if truthy endpoint then endpoint else None), cl_region = s3_region s3,
      cl_forcePathStyle = s3_forcePathStyle s3, cl_accessKeyId = s3_accessKey s3,
      cl_secretAccessKey = s3_secretKey s3\<rparr>"

definition newProvider :: "StorageConfig \<Rightarrow> S3StorageProvider" where
  "newProvider config =
     (let s3 = st_s3 config;
          client = clientFor s3 (s3_endpoint s3);
          publicEndpoint = (case s3_publicEndpoint s3 of Some p \<Rightarrow> Some p | None \<Rightarrow> s3_endpoint s3)
      in \<lparr>sp_config = config, sp_bucket = s3_bucket s3, sp_client = client,
          sp_signingClient = (if truthy publicEndpoint then clientFor s3 publicEndpoint else client)\<rparr>)"

text \<open>The check at start: the commands it sends, the lines it logs and the error that aborts the start.\<close>

definition storageModuleInit :: "sdk \<Rightarrow> S3StorageProvider \<Rightarrow> s3_command list \<times> string list \<times> string option" where
  "storageModuleInit S p =
     (let probe = HeadBucketCommand (sp_bucket p); create = CreateBucketCommand (sp_bucket p)
      in case sdk_send S (sp_client p) probe of
           Inr _ \<Rightarrow> ([probe], [''Object storage bucket is reachable''], None)
         | Inl e \<Rightarrow>
             if \<not> isNotFound e
             then ([probe], [''Object storage is unreachable at startup: '' @ describeError e], None)
             else if \<not> st_autoCreateBucket (sp_config p)
             then ([probe], [], Some ''Configured object storage bucket does not exist and S3_AUTO_CREATE_BUCKET is disabled'')
             else
               (case sdk_send S (sp_client p) create of
                  Inr _ \<Rightarrow> ([probe, create], [''Created private object storage bucket''], None)
                | Inl e' \<Rightarrow>
                    ([probe, create],
                     if isAlreadyOwned e' then [] else [''Failed to create object storage bucket: '' @ describeError e'],
                     None)))"

definition presign ::
  "sdk \<Rightarrow> S3StorageProvider \<Rightarrow> s3_command \<Rightarrow> nat \<Rightarrow> string list option \<Rightarrow> string list \<times> (failure + jsstring)" where
  "presign S p command ttl signableHeaders =
     (case sdk_getSignedUrl S (sp_signingClient p) command ttl signableHeaders of
        Inr url \<Rightarrow> ([], Inr url)
      | Inl e \<Rightarrow> map_prod id Inl (wrap ''presign'' e))"

text \<open>The decimal text of a length; a negative one, which no declaration has, would carry a sign.\<close>

definition int_text :: "int \<Rightarrow> jsstring" where
  "int_text n = js (if n < 0 then ''-'' @ nat_str (nat (- n)) else nat_str (nat n))"

definition expiry :: "time \<Rightarrow> nat \<Rightarrow> time" where
  "expiry now expiresInSeconds = now + int expiresInSeconds * 1000"

definition s3CreateUploadUrl ::
  "sdk \<Rightarrow> S3StorageProvider \<Rightarrow> time \<Rightarrow> UploadUrlRequest \<Rightarrow> string list \<times> (failure + PresignedUrl)" where
  "s3CreateUploadUrl S p now request =
     (case presign S p (PutObjectCommand (sp_bucket p) (uur_key request) (uur_contentType request) (uur_contentLength request))
             (uur_expiresInSeconds request) (Some [''content-type'', ''content-length'']) of
        (ls, Inl f) \<Rightarrow> (ls, Inl f)
      | (ls, Inr url) \<Rightarrow>
          (ls, Inr \<lparr>ps_url = url, ps_method = ''PUT'',
             ps_headers = [(''Content-Type'', uur_contentType request), (''Content-Length'', int_text (uur_contentLength request))],
             ps_expiresAt = expiry now (uur_expiresInSeconds request), ps_expiresInSeconds = uur_expiresInSeconds request\<rparr>))"

text \<open>Empty response headers are left out of the command.\<close>

definition nonEmpty :: "jsstring \<Rightarrow> jsstring option" where
  "nonEmpty s = (if s = [] then None else Some s)"

definition s3CreateDownloadUrl ::
  "sdk \<Rightarrow> S3StorageProvider \<Rightarrow> time \<Rightarrow> DownloadUrlRequest \<Rightarrow> string list \<times> (failure + PresignedUrl)" where
  "s3CreateDownloadUrl S p now request =
     (case presign S p (GetObjectCommand (sp_bucket p) (dur_key request) (nonEmpty (dur_responseContentType request))
               (nonEmpty (dur_responseContentDisposition request)))
             (dur_expiresInSeconds request) None of
        (ls, Inl f) \<Rightarrow> (ls, Inl f)
      | (ls, Inr url) \<Rightarrow>
          (ls, Inr \<lparr>ps_url = url, ps_method = ''GET'', ps_headers = [],
             ps_expiresAt = expiry now (dur_expiresInSeconds request), ps_expiresInSeconds = dur_expiresInSeconds request\<rparr>))"

definition s3HeadObject :: "sdk \<Rightarrow> S3StorageProvider \<Rightarrow> jsstring \<Rightarrow> string list \<times> (failure + StoredObjectMetadata option)" where
  "s3HeadObject S p key =
     (case sdk_send S (sp_client p) (HeadObjectCommand (sp_bucket p) key) of
        Inr head \<Rightarrow>
          ([], Inr (Some \<lparr>so_size = (case out_contentLength head of Some n \<Rightarrow> int n | None \<Rightarrow> 0),
             so_contentType = out_contentType head,
             so_etag = (if truthy (out_etag head) then Some (stripQuotes (the (out_etag head))) else None)\<rparr>))
      | Inl e \<Rightarrow> if isNotFound e then ([], Inr None) else map_prod id Inl (wrap ''headObject'' e))"

definition objectExists :: "sdk \<Rightarrow> S3StorageProvider \<Rightarrow> jsstring \<Rightarrow> string list \<times> (failure + bool)" where
  "objectExists S p key = map_prod id (map_sum id (\<lambda>h. h \<noteq> None)) (s3HeadObject S p key)"

definition getObjectStream :: "sdk \<Rightarrow> S3StorageProvider \<Rightarrow> jsstring \<Rightarrow> string list \<times> (failure + StoredObjectStream option)" where
  "getObjectStream S p key =
     (case sdk_send S (sp_client p) (GetObjectCommand (sp_bucket p) key None None) of
        Inr result \<Rightarrow>
          (case out_body result of
             None \<Rightarrow> ([], Inr None)
           | Some (chunks, err) \<Rightarrow>
               ([], Inr (Some \<lparr>ss_size = out_contentLength result, ss_contentType = out_contentType result,
                  ss_chunks = chunks, ss_error = err\<rparr>)))
      | Inl e \<Rightarrow> if isNotFound e then ([], Inr None) else map_prod id Inl (wrap ''getObject'' e))"

definition s3DeleteObject :: "sdk \<Rightarrow> S3StorageProvider \<Rightarrow> jsstring \<Rightarrow> string list \<times> failure option" where
  "s3DeleteObject S p key =
     (case sdk_send S (sp_client p) (DeleteObjectCommand (sp_bucket p) key) of
        Inr _ \<Rightarrow> ([], None)
      | Inl e \<Rightarrow> if isNotFound e then ([], None) else map_prod id Some (wrap ''deleteObject'' e))"

definition storageIsHealthy :: "sdk \<Rightarrow> S3StorageProvider \<Rightarrow> string list \<times> bool" where
  "storageIsHealthy S p =
     (case sdk_send S (sp_client p) (HeadBucketCommand (sp_bucket p)) of
        Inr _ \<Rightarrow> ([], True)
      | Inl e \<Rightarrow> ([''Storage health check failed: '' @ describeError e], False))"

section \<open>The interfaces of the callers\<close>

definition s3Storage :: "sdk \<Rightarrow> S3StorageProvider \<Rightarrow> time \<Rightarrow> storage" where
  "s3Storage S p now =
     \<lparr>headObject = (\<lambda>key. snd (s3HeadObject S p key)), deleteObject = (\<lambda>key. snd (s3DeleteObject S p key)),
      presignUpload = (\<lambda>r. snd (s3CreateUploadUrl S p now r)),
      presignDownload = (\<lambda>r. snd (s3CreateDownloadUrl S p now r))\<rparr>"

text \<open>The worker sees the same exception as an error of the storage.\<close>

fun thrownFailure :: "failure \<Rightarrow> thrown" where
  "thrownFailure (App e) = (if ex_code e = ''STORAGE_ERROR'' then StorageException (ex_message e) else OtherError (ex_message e))"
| "thrownFailure (Internal m) = OtherError m"

definition s3Store :: "sdk \<Rightarrow> S3StorageProvider \<Rightarrow> object_store" where
  "s3Store S p key = map_sum thrownFailure id (snd (getObjectStream S p key))"

section \<open>A storage service\<close>

text \<open>What an S3-compatible service promises for the objects of one bucket, as far as the provider relies
  on it: a missing object is answered with status 404, a stored one with its length, type and tag, and
  a read delivers all of its bytes.\<close>

record s3_object =
  ob_data :: bytes
  ob_contentType :: "jsstring option"
  ob_etag :: "jsstring option"

definition serves :: "sdk \<Rightarrow> S3Client \<Rightarrow> jsstring \<Rightarrow> (jsstring \<Rightarrow> s3_object option) \<Rightarrow> bool" where
  "serves S c bucket objs \<longleftrightarrow>
     (\<forall>k. case objs k of
        None \<Rightarrow> (\<exists>e. sdk_send S c (HeadObjectCommand bucket k) = Inl e \<and> er_httpStatusCode e = Some 404)
          \<and> (\<exists>e. sdk_send S c (GetObjectCommand bucket k None None) = Inl e \<and> er_httpStatusCode e = Some 404)
      | Some x \<Rightarrow>
          sdk_send S c (HeadObjectCommand bucket k)
            = Inr \<lparr>out_contentLength = Some (length (ob_data x)), out_contentType = ob_contentType x, out_etag = ob_etag x,
                   out_body = None\<rparr>
          \<and> (\<exists>chunks. concat chunks = ob_data x
               \<and> sdk_send S c (GetObjectCommand bucket k None None)
                 = Inr \<lparr>out_contentLength = Some (length (ob_data x)), out_contentType = ob_contentType x, out_etag = ob_etag x,
                        out_body = Some (chunks, None)\<rparr>))"

lemma limiter_concat: "limiter maxBytes 0 cs = (if length (concat cs) \<le> maxBytes then Some (concat cs) else None)"
  using limiter_exact [of 0 maxBytes cs] by simp

lemma served_missing:
  assumes "serves S (sp_client p) (sp_bucket p) objs" and "objs k = None"
  shows "headObject (s3Storage S p now) k = Inr None" and "s3Store S p k = Inr None"
proof -
  have *: "(\<exists>e. sdk_send S (sp_client p) (HeadObjectCommand (sp_bucket p) k) = Inl e \<and> er_httpStatusCode e = Some 404)
      \<and> (\<exists>e. sdk_send S (sp_client p) (GetObjectCommand (sp_bucket p) k None None) = Inl e \<and> er_httpStatusCode e = Some 404)"
    using assms(1) [unfolded serves_def, rule_format, of k] assms(2) by simp
  then show "headObject (s3Storage S p now) k = Inr None" "s3Store S p k = Inr None"
    by (auto simp: s3Storage_def s3HeadObject_def isNotFound_def s3Store_def getObjectStream_def)
qed

lemma served_object:
  assumes "serves S (sp_client p) (sp_bucket p) objs" and "objs k = Some x"
  shows "\<exists>etag. headObject (s3Storage S p now) k
      = Inr (Some \<lparr>so_size = int (length (ob_data x)), so_contentType = ob_contentType x, so_etag = etag\<rparr>)"
    and "length (ob_data x) \<le> maxBytes \<Longrightarrow> download (s3Store S p) k maxBytes = Inr (ob_data x)"
    and "maxBytes < length (ob_data x) \<Longrightarrow> download (s3Store S p) k maxBytes = Inl (tooLarge maxBytes)"
proof -
  obtain chunks where *: "sdk_send S (sp_client p) (HeadObjectCommand (sp_bucket p) k)
            = Inr \<lparr>out_contentLength = Some (length (ob_data x)), out_contentType = ob_contentType x, out_etag = ob_etag x,
                   out_body = None\<rparr>" "concat chunks = ob_data x"
     "sdk_send S (sp_client p) (GetObjectCommand (sp_bucket p) k None None)
                 = Inr \<lparr>out_contentLength = Some (length (ob_data x)), out_contentType = ob_contentType x, out_etag = ob_etag x,
                        out_body = Some (chunks, None)\<rparr>"
    using assms(1) [unfolded serves_def, rule_format, of k] assms(2) by auto
  show "\<exists>etag. headObject (s3Storage S p now) k
      = Inr (Some \<lparr>so_size = int (length (ob_data x)), so_contentType = ob_contentType x, so_etag = etag\<rparr>)"
    by (simp add: s3Storage_def s3HeadObject_def *)
  have "s3Store S p k = Inr (Some \<lparr>ss_size = Some (length (ob_data x)), ss_contentType = ob_contentType x,
      ss_chunks = chunks, ss_error = None\<rparr>)"
    by (simp add: s3Store_def getObjectStream_def *)
  then show "length (ob_data x) \<le> maxBytes \<Longrightarrow> download (s3Store S p) k maxBytes = Inr (ob_data x)"
    "maxBytes < length (ob_data x) \<Longrightarrow> download (s3Store S p) k maxBytes = Inl (tooLarge maxBytes)"
    by (simp_all add: download_def limiter_concat *(2) [unfolded concat_conv_foldr] *(2))
qed

section \<open>Properties\<close>

text \<open>C27. An upload that was accepted can be processed. When completing the upload of a document in
  \<open>UPLOADING\<close> is answered with a document, over the provider and a service that serves the bucket,
  then the object under the key of the row exists, has exactly the declared size, and the worker, whose
  limit is at least that of uploads, reads exactly its bytes.\<close>

theorem accepted_upload_is_readable:
  assumes "serves S (sp_client p) (sp_bucket p) objs" and "document_env e" and "documents_wf w"
    and "completeUpload e uc (s3Storage S p now) cfg u i etag ctx w = (Inr d, w')"
    and "c \<in> set (documents w)" and "d_id c = i" and "d_status c = UPLOADING"
    and "maxFileSizeBytes cfg \<le> maxBytes"
  shows "\<exists>x. objs (the (d_storageKey c)) = Some x \<and> d_fileSize c = Some (int (length (ob_data x)))
    \<and> download (s3Store S p) (the (d_storageKey c)) maxBytes = Inr (ob_data x)"
proof -
  let ?k = "the (d_storageKey c)"
  from completeUpload_verified [OF assms(4,2,3)] obtain c' where c': "c' \<in> set (documents w)" "ownLive u i c'"
    and st: "d_status c' = READY \<or> (d_status c' = UPLOADING \<and> (\<exists>h. headObject (s3Storage S p now) (the (d_storageKey c')) = Inr (Some h)
            \<and> d_fileSize c' = Some (so_size h) \<and> so_size h \<le> int (maxFileSizeBytes cfg)))"
    by blast
  have "distinct (map d_id (documents w))" "d_id c' = i" using assms(3) c'(2) by (auto simp: documents_wf_def ownLive_def)
  then have "c' = c" using c'(1) assms(5,6) by (auto simp: distinct_map inj_on_def)
  with st assms(7) obtain h where h: "headObject (s3Storage S p now) ?k = Inr (Some h)" "d_fileSize c = Some (so_size h)"
    "so_size h \<le> int (maxFileSizeBytes cfg)" by auto
  then obtain x where x: "objs ?k = Some x" using served_missing(1) [OF assms(1)] by (cases "objs ?k") force+
  have "so_size h = int (length (ob_data x))" using served_object(1) [OF assms(1) x, of now] h(1) by auto
  then show ?thesis using x h(2,3) served_object(2) [OF assms(1) x, of maxBytes] assms(8) by (intro exI [of _ x]) auto
qed

definition demoSdk :: sdk where
  "demoSdk = \<lparr>sdk_send = (\<lambda>c cmd. Inr \<lparr>out_contentLength = Some 10, out_contentType = Some (js ''image/png''), out_etag = None,
       out_body = (case cmd of GetObjectCommand _ _ _ _ \<Rightarrow> Some ([replicate 4 1, replicate 6 2], None) | _ \<Rightarrow> None)\<rparr>),
     sdk_getSignedUrl = (\<lambda>_ _ _ _. Inl \<lparr>er_name = None, er_message = None, er_httpStatusCode = None\<rparr>)\<rparr>"

definition demoObject :: s3_object where
  "demoObject = \<lparr>ob_data = replicate 4 1 @ replicate 6 2, ob_contentType = Some (js ''image/png''), ob_etag = None\<rparr>"

definition demoProvider :: S3StorageProvider where
  "demoProvider = newProvider (loadStorageConfig ascii_unicode (\<lambda>_. None))"

theorem accepted_upload_is_readable_witness:
  "download (s3Store demoSdk demoProvider) [5] 100 = Inr (replicate 4 1 @ replicate 6 2)"
proof -
  have "serves demoSdk (sp_client demoProvider) (sp_bucket demoProvider) (\<lambda>_. Some demoObject)"
    by (simp add: serves_def demoSdk_def demoObject_def)
  moreover have "completeUpload demoRun ascii_unicode (s3Storage demoSdk demoProvider 5) demoLimits demoOwner demoDocId None demoCtx
      (demoDesk UPLOADING) = (Inr (demoUpload READY\<lparr>d_updatedAt := 5\<rparr>), snd (completeUpload demoRun ascii_unicode
      (s3Storage demoSdk demoProvider 5) demoLimits demoOwner demoDocId None demoCtx (demoDesk UPLOADING)))"
  proof -
    have "fst (completeUpload demoRun ascii_unicode (s3Storage demoSdk demoProvider 5) demoLimits demoOwner demoDocId None demoCtx
      (demoDesk UPLOADING)) = Inr (demoUpload READY\<lparr>d_updatedAt := 5\<rparr>)" by code_simp
    then show ?thesis by (metis prod.collapse)
  qed
  moreover have "demoUpload UPLOADING \<in> set (documents (demoDesk UPLOADING))" "d_id (demoUpload UPLOADING) = demoDocId"
    "d_status (demoUpload UPLOADING) = UPLOADING" "maxFileSizeBytes demoLimits \<le> 100" "d_storageKey (demoUpload UPLOADING) = Some [5]"
    by (simp_all add: demoDesk_def demoUpload_def demoLimits_def)
  ultimately show ?thesis
    using accepted_upload_is_readable [OF _ demoRun_document_env demoDesk_wf [of UPLOADING]]
    by (force simp: demoObject_def)
qed

text \<open>C28. Failures of the storage stay behind the provider. A lookup, a read and a removal fail exactly for an
  error of the SDK that does not say that the object is missing; a missing object is an answer for a
  lookup and a read, and success for a removal; otherwise they succeed with what the SDK returned.
  Signing a URL fails exactly when the SDK fails, and otherwise gives the signed URL. Whatever the
  error was, the client gets status 503, the code \<open>STORAGE_ERROR\<close> and the fixed message, and the
  worker an error it retries.\<close>

theorem storage_failures_uniform:
  "(case sdk_send S (sp_client p) (HeadObjectCommand (sp_bucket p) k) of
      Inl e \<Rightarrow> snd (s3HeadObject S p k) = (if isNotFound e then Inr None else Inl storageException)
    | Inr out \<Rightarrow> \<exists>m. snd (s3HeadObject S p k) = Inr (Some m) \<and> so_contentType m = out_contentType out
        \<and> (\<forall>n. out_contentLength out = Some n \<longrightarrow> so_size m = int n))
   \<and> (case sdk_send S (sp_client p) (GetObjectCommand (sp_bucket p) k None None) of
      Inl e \<Rightarrow> snd (getObjectStream S p k) = (if isNotFound e then Inr None else Inl storageException)
    | Inr out \<Rightarrow> (out_body out = None \<longrightarrow> snd (getObjectStream S p k) = Inr None)
        \<and> (\<forall>chunks err. out_body out = Some (chunks, err) \<longrightarrow> (\<exists>x. snd (getObjectStream S p k) = Inr (Some x)
             \<and> ss_chunks x = chunks \<and> ss_error x = err \<and> ss_size x = out_contentLength out)))
   \<and> snd (s3DeleteObject S p k) = (case sdk_send S (sp_client p) (DeleteObjectCommand (sp_bucket p) k) of
      Inl e \<Rightarrow> if isNotFound e then None else Some storageException | Inr _ \<Rightarrow> None)
   \<and> (case sdk_getSignedUrl S (sp_signingClient p) (PutObjectCommand (sp_bucket p) (uur_key ur) (uur_contentType ur)
          (uur_contentLength ur)) (uur_expiresInSeconds ur) (Some [''content-type'', ''content-length'']) of
      Inl e \<Rightarrow> snd (s3CreateUploadUrl S p now ur) = Inl storageException
    | Inr url \<Rightarrow> \<exists>x. snd (s3CreateUploadUrl S p now ur) = Inr x \<and> ps_url x = url)
   \<and> (case sdk_getSignedUrl S (sp_signingClient p) (GetObjectCommand (sp_bucket p) (dur_key dr)
          (nonEmpty (dur_responseContentType dr)) (nonEmpty (dur_responseContentDisposition dr))) (dur_expiresInSeconds dr) None of
      Inl e \<Rightarrow> snd (s3CreateDownloadUrl S p now dr) = Inl storageException
    | Inr url \<Rightarrow> \<exists>x. snd (s3CreateDownloadUrl S p now dr) = Inr x \<and> ps_url x = url)
   \<and> catchException (thrownBy storageException) rid = (503, \<lparr>ee_success = False, ee_data = None, ee_code = ''STORAGE_ERROR'',
           ee_message = ''Object storage is currently unavailable'', ee_requestId = rid\<rparr>)
   \<and> (snd (getObjectStream S p k) = Inl storageException \<longrightarrow> download (s3Store S p) k maxBytes
        = Inl (Processing (transient ''OCR_STORAGE_ERROR'' ''The document could not be read from storage'' None)))"
proof (intro conjI)
  show "case sdk_send S (sp_client p) (HeadObjectCommand (sp_bucket p) k) of
      Inl e \<Rightarrow> snd (s3HeadObject S p k) = (if isNotFound e then Inr None else Inl storageException)
    | Inr out \<Rightarrow> \<exists>m. snd (s3HeadObject S p k) = Inr (Some m) \<and> so_contentType m = out_contentType out
        \<and> (\<forall>n. out_contentLength out = Some n \<longrightarrow> so_size m = int n)"
    by (auto simp: s3HeadObject_def wrap_def split: sum.split)
  show "case sdk_send S (sp_client p) (GetObjectCommand (sp_bucket p) k None None) of
      Inl e \<Rightarrow> snd (getObjectStream S p k) = (if isNotFound e then Inr None else Inl storageException)
    | Inr out \<Rightarrow> (out_body out = None \<longrightarrow> snd (getObjectStream S p k) = Inr None)
        \<and> (\<forall>chunks err. out_body out = Some (chunks, err) \<longrightarrow> (\<exists>x. snd (getObjectStream S p k) = Inr (Some x)
             \<and> ss_chunks x = chunks \<and> ss_error x = err \<and> ss_size x = out_contentLength out))"
    by (auto simp: getObjectStream_def wrap_def split: sum.split)
  show "snd (s3DeleteObject S p k) = (case sdk_send S (sp_client p) (DeleteObjectCommand (sp_bucket p) k) of
      Inl e \<Rightarrow> if isNotFound e then None else Some storageException | Inr _ \<Rightarrow> None)"
    by (simp add: s3DeleteObject_def wrap_def split: sum.split)
  show "case sdk_getSignedUrl S (sp_signingClient p) (PutObjectCommand (sp_bucket p) (uur_key ur) (uur_contentType ur)
          (uur_contentLength ur)) (uur_expiresInSeconds ur) (Some [''content-type'', ''content-length'']) of
      Inl e \<Rightarrow> snd (s3CreateUploadUrl S p now ur) = Inl storageException
    | Inr url \<Rightarrow> \<exists>x. snd (s3CreateUploadUrl S p now ur) = Inr x \<and> ps_url x = url"
    by (simp add: s3CreateUploadUrl_def presign_def wrap_def split: sum.split)
  show "case sdk_getSignedUrl S (sp_signingClient p) (GetObjectCommand (sp_bucket p) (dur_key dr)
          (nonEmpty (dur_responseContentType dr)) (nonEmpty (dur_responseContentDisposition dr))) (dur_expiresInSeconds dr) None of
      Inl e \<Rightarrow> snd (s3CreateDownloadUrl S p now dr) = Inl storageException
    | Inr url \<Rightarrow> \<exists>x. snd (s3CreateDownloadUrl S p now dr) = Inr x \<and> ps_url x = url"
    by (simp add: s3CreateDownloadUrl_def presign_def wrap_def split: sum.split)
  show "catchException (thrownBy storageException) rid = (503, \<lparr>ee_success = False, ee_data = None, ee_code = ''STORAGE_ERROR'',
           ee_message = ''Object storage is currently unavailable'', ee_requestId = rid\<rparr>)"
    by (simp add: storageException_def catchException_def resolveException_def appBody_def storageMessage_def)
  show "snd (getObjectStream S p k) = Inl storageException \<longrightarrow> download (s3Store S p) k maxBytes
        = Inl (Processing (transient ''OCR_STORAGE_ERROR'' ''The document could not be read from storage'' None))"
    by (simp add: download_def s3Store_def storageException_def)
qed

theorem storage_failures_uniform_witness:
  "snd (s3CreateDownloadUrl demoSdk demoProvider 0 \<lparr>dur_key = [], dur_expiresInSeconds = 1, dur_responseContentType = [],
      dur_responseContentDisposition = []\<rparr>) = Inl storageException \<and> fst (catchException (thrownBy storageException) []) = 503"
proof -
  have "sdk_getSignedUrl demoSdk c cmd t h = Inl \<lparr>er_name = None, er_message = None, er_httpStatusCode = None\<rparr>" for c cmd t h
    by (simp add: demoSdk_def)
  then show ?thesis
    using storage_failures_uniform [where S = demoSdk and p = demoProvider and now = 0 and rid = "[]" and
      dr = "\<lparr>dur_key = [], dur_expiresInSeconds = 1, dur_responseContentType = [], dur_responseContentDisposition = []\<rparr>"]
    by simp
qed

text \<open>At start the bucket is created only where it is missing and creation is allowed; a missing bucket
  aborts the start otherwise, and nothing else does. What a URL for an upload fixes: the command for
  the key in the configured bucket, with type and length as signed headers, through the client of the
  public endpoint.\<close>

lemma bucket_at_start:
  "(CreateBucketCommand b \<in> set (fst (storageModuleInit S p)) \<longrightarrow> b = sp_bucket p \<and> st_autoCreateBucket (sp_config p)
      \<and> (\<exists>e. sdk_send S (sp_client p) (HeadBucketCommand (sp_bucket p)) = Inl e \<and> isNotFound e))
   \<and> (snd (snd (storageModuleInit S p)) \<noteq> None \<longleftrightarrow> \<not> st_autoCreateBucket (sp_config p)
      \<and> (\<exists>e. sdk_send S (sp_client p) (HeadBucketCommand (sp_bucket p)) = Inl e \<and> isNotFound e))"
  by (auto simp: storageModuleInit_def Let_def split: sum.splits if_splits)

lemma upload_url_fixed:
  assumes "presignUpload (s3Storage S (newProvider cfg) now) r = Inr ps"
  shows "\<exists>client. sdk_getSignedUrl S client (PutObjectCommand (s3_bucket (st_s3 cfg)) (uur_key r) (uur_contentType r) (uur_contentLength r))
        (uur_expiresInSeconds r) (Some [''content-type'', ''content-length'']) = Inr (ps_url ps)
      \<and> (truthy (s3_publicEndpoint (st_s3 cfg)) \<longrightarrow> cl_endpoint client = s3_publicEndpoint (st_s3 cfg))
      \<and> ps_expiresAt ps = now + int (uur_expiresInSeconds r) * 1000"
proof -
  have "truthy (s3_publicEndpoint (st_s3 cfg)) \<longrightarrow>
      cl_endpoint (sp_signingClient (newProvider cfg)) = s3_publicEndpoint (st_s3 cfg)"
    by (auto simp: newProvider_def Let_def clientFor_def truthy_def split: option.splits)
  with assms show ?thesis
    by (intro exI [of _ "sp_signingClient (newProvider cfg)"])
      (auto simp: s3Storage_def s3CreateUploadUrl_def presign_def newProvider_def Let_def expiry_def wrap_def split: sum.splits)
qed

end
