(* ===== verification/Ocr_Tools.thy ===== *)
theory Ocr_Tools
  imports Settings Ocr_Processing
begin

text \<open>
  The external programs: \<open>ocr/tools/run-command.ts\<close>, \<open>ocr/tools/poppler.service.ts\<close> and
  \<open>ocr/providers/tesseract-ocr.provider.ts\<close>. A child process is the sequence of events that Node
  reports for it; starting one, and what it does, is the parameter \<open>spawn\<close>. What the services take
  from the runtime (joining paths, decoding UTF-8, the files the programs leave) is the record
  \<open>node\<close>. The last section puts the services together to the \<open>toolbox\<close> of the extraction pipeline.
\<close>

section \<open>Running a command\<close>

text \<open>How a process ends: it could not be started or controlled (an error with its code and message),
  or it was closed with an exit code or a signal.\<close>

datatype ending = ErrorEvent string string | Closed "int option" "string option"

datatype child_event = OutChunk bytes | ErrChunk bytes | TimerFired | End ending

text \<open>Every process ends, a killed one too. Events behind the first end are still delivered.\<close>

record child =
  ch_events :: "child_event list"
  ch_ending :: ending
  ch_durationMs :: nat

text \<open>The error output is kept as bytes; its readers decode it.\<close>

record RunCommandResult =
  rc_exitCode :: "int option"
  rc_signal :: "string option"
  rc_stdout :: bytes
  rc_stderr :: bytes
  rc_timedOut :: bool
  rc_durationMs :: nat

datatype command_error = CommandNotFoundError jsstring | OtherCommandError string

definition DEFAULT_MAX_OUTPUT :: nat where
  "DEFAULT_MAX_OUTPUT = 32 * 1024 * 1024"

record command_state =
  cs_stdout :: bytes
  cs_stderr :: bytes
  cs_timedOut :: bool

definition settle :: "jsstring \<Rightarrow> nat \<Rightarrow> ending \<Rightarrow> command_state \<Rightarrow> command_error + RunCommandResult" where
  "settle command durationMs fin st =
     (case fin of
        ErrorEvent code message \<Rightarrow>
          if code = ''ENOENT'' then Inl (CommandNotFoundError command) else Inl (OtherCommandError message)
      | Closed exitCode signal \<Rightarrow>
          Inr \<lparr>rc_exitCode = exitCode, rc_signal = signal, rc_stdout = cs_stdout st, rc_stderr = cs_stderr st,
               rc_timedOut = cs_timedOut st, rc_durationMs = durationMs\<rparr>)"

fun runEvents ::
  "jsstring \<Rightarrow> nat \<Rightarrow> nat \<Rightarrow> ending \<Rightarrow> child_event list \<Rightarrow> command_state \<Rightarrow> command_error + RunCommandResult" where
  "runEvents command maxOutput durationMs fin [] st = settle command durationMs fin st"
| "runEvents command maxOutput durationMs fin (OutChunk c # es) st =
     runEvents command maxOutput durationMs fin es
       (if length (cs_stdout st) + length c > maxOutput then st else st\<lparr>cs_stdout := cs_stdout st @ c\<rparr>)"
| "runEvents command maxOutput durationMs fin (ErrChunk c # es) st =
     runEvents command maxOutput durationMs fin es
       (if length (cs_stderr st) + length c > 64 * 1024 then st else st\<lparr>cs_stderr := cs_stderr st @ c\<rparr>)"
| "runEvents command maxOutput durationMs fin (TimerFired # es) st =
     runEvents command maxOutput durationMs fin es (st\<lparr>cs_timedOut := True\<rparr>)"
| "runEvents command maxOutput durationMs fin (End f # es) st = settle command durationMs f st"

text \<open>The arguments of a start: the program, its arguments, the variables set beside those of the
  process, and the time after which the timer fires. \<open>Inl\<close> is an error thrown by the call itself.\<close>

type_synonym spawn = "jsstring \<Rightarrow> jsstring list \<Rightarrow> (string \<times> jsstring) list \<Rightarrow> int \<Rightarrow> string + child"

definition runCommand ::
  "spawn \<Rightarrow> jsstring \<Rightarrow> jsstring list \<Rightarrow> (string \<times> jsstring) list \<Rightarrow> int \<Rightarrow> nat option
     \<Rightarrow> command_error + RunCommandResult" where
  "runCommand sp command args env timeoutMs maxOutputBytes =
     (let maxOutput = (case maxOutputBytes of Some n \<Rightarrow> n | None \<Rightarrow> DEFAULT_MAX_OUTPUT)
      in case sp command args env timeoutMs of
           Inl message \<Rightarrow> Inl (OtherCommandError message)
         | Inr c \<Rightarrow> runEvents command maxOutput (ch_durationMs c) (ch_ending c) (ch_events c)
                     \<lparr>cs_stdout = [], cs_stderr = [], cs_timedOut = False\<rparr>)"

definition notFoundMessage :: "jsstring \<Rightarrow> jsstring" where
  "notFoundMessage command = js ''Command not found: '' @ command"

section \<open>Texts\<close>

text \<open>What the services use of the runtime; a file the program wrote is \<open>None\<close> when it is missing or
  unreadable, and \<open>readError\<close> is what opening or reading the head of a stored file throws.\<close>

record node =
  pathJoin :: "jsstring \<Rightarrow> jsstring \<Rightarrow> jsstring"
  utf8Decode :: "bytes \<Rightarrow> jsstring"
  readText :: "jsstring \<Rightarrow> jsstring option"
  readError :: "jsstring \<Rightarrow> thrown option"

definition is_line_end :: "jschar \<Rightarrow> bool" where
  "is_line_end c \<longleftrightarrow> c \<in> set [10, 13, 0x2028, 0x2029]"

text \<open>The places where \<open>^\<close> matches with the flag \<open>m\<close>.\<close>

fun afterLineEnds :: "jsstring \<Rightarrow> jsstring list" where
  "afterLineEnds [] = []"
| "afterLineEnds (c # s) = (if is_line_end c then s # afterLineEnds s else afterLineEnds s)"

definition lineStarts :: "jsstring \<Rightarrow> jsstring list" where
  "lineStarts s = s # afterLineEnds s"

fun suffixes_of :: "'a list \<Rightarrow> 'a list list" where
  "suffixes_of [] = [[]]"
| "suffixes_of (x # xs) = (x # xs) # suffixes_of xs"

definition dropPrefix :: "'a list \<Rightarrow> 'a list \<Rightarrow> 'a list option" where
  "dropPrefix p s = (if take (length p) s = p then Some (drop (length p) s) else None)"

fun firstSome :: "('a \<Rightarrow> 'b option) \<Rightarrow> 'a list \<Rightarrow> 'b option" where
  "firstSome f [] = None"
| "firstSome f (x # xs) = (case f x of Some y \<Rightarrow> Some y | None \<Rightarrow> firstSome f xs)"

definition firstLine :: "jsstring \<Rightarrow> jsstring" where
  "firstLine text = take 200 (hd (split_on 10 text))"

text \<open>A template prints a missing exit code as \<open>null\<close>.\<close>

definition showExit :: "int option \<Rightarrow> string" where
  "showExit e = (case e of None \<Rightarrow> ''null''
     | Some n \<Rightarrow> if n < 0 then ''-'' @ nat_str (nat (- n)) else nat_str (nat n))"

definition exitDetail :: "string \<Rightarrow> int option \<Rightarrow> jsstring \<Rightarrow> jsstring" where
  "exitDetail name e stderr = js (name @ '' exit '' @ showExit e @ '': '') @ firstLine stderr"

section \<open>Poppler\<close>

definition tool :: "node \<Rightarrow> OcrConfig \<Rightarrow> string \<Rightarrow> jsstring" where
  "tool N cfg name = (if truthy (oc_popplerPath cfg) then pathJoin N (the (oc_popplerPath cfg)) (js name) else js name)"

text \<open>The base name of a tool's path is its name.\<close>

definition runTool ::
  "node \<Rightarrow> spawn \<Rightarrow> OcrConfig \<Rightarrow> string \<Rightarrow> jsstring list \<Rightarrow> int \<Rightarrow> nat option \<Rightarrow> thrown + RunCommandResult" where
  "runTool N sp cfg name args timeoutMs maxOutputBytes =
     (case runCommand sp (tool N cfg name) args [] timeoutMs maxOutputBytes of
        Inl (CommandNotFoundError c) \<Rightarrow>
          Inl (Processing (transient ''OCR_PROCESSING_FAILED'' ''PDF tooling is unavailable'' (Some (notFoundMessage c))))
      | Inl (OtherCommandError m) \<Rightarrow> Inl (OtherError m)
      | Inr result \<Rightarrow>
          if rc_timedOut result
          then Inl (Processing (transient ''OCR_PROCESSING_TIMEOUT'' ''PDF processing exceeded the time limit''
                 (Some (js (name @ '' killed after '' @ nat_str (rc_durationMs result) @ '' ms'')))))
          else Inr result)"

definition popplerIsAvailable :: "node \<Rightarrow> spawn \<Rightarrow> OcrConfig \<Rightarrow> bool" where
  "popplerIsAvailable N sp cfg =
     (case runCommand sp (tool N cfg ''pdftoppm'') [js ''-v''] [] 5000 None of
        Inl _ \<Rightarrow> False
      | Inr r \<Rightarrow> rc_exitCode r = Some 0 \<or> rc_exitCode r = Some 99)"

text \<open>The word behind a prefix, wherever it occurs first.\<close>

definition wordAfter :: "jsstring \<Rightarrow> jsstring \<Rightarrow> jsstring option" where
  "wordAfter p s =
     (case dropPrefix p s of
        None \<Rightarrow> None
      | Some r \<Rightarrow> (let v = takeWhile (\<lambda>c. \<not> is_js_space c) r in if v = [] then None else Some v))"

definition popplerVersion :: "node \<Rightarrow> spawn \<Rightarrow> OcrConfig \<Rightarrow> jsstring option" where
  "popplerVersion N sp cfg =
     (case runCommand sp (tool N cfg ''pdftoppm'') [js ''-v''] [] 5000 None of
        Inl _ \<Rightarrow> None
      | Inr r \<Rightarrow> firstSome (wordAfter (js ''pdftoppm version '')) (suffixes_of (utf8Decode N (rc_stderr r))))"

text \<open>\<open>/^Pages:\s+(\d+)\s*$/m\<close> at one start of a line: behind the digits there may be blanks up to the
  end of the line.\<close>

definition pagesAt :: "jsstring \<Rightarrow> nat option" where
  "pagesAt s =
     (case dropPrefix (js ''Pages:'') s of
        None \<Rightarrow> None
      | Some r \<Rightarrow>
          (let r1 = dropWhile is_js_space r;
               ds = takeWhile is_digit r1;
               r2 = dropWhile (\<lambda>c. is_js_space c \<and> \<not> is_line_end c) (dropWhile is_digit r1)
           in if takeWhile is_js_space r \<noteq> [] \<and> ds \<noteq> [] \<and> (case r2 of [] \<Rightarrow> True | c # _ \<Rightarrow> is_line_end c)
              then Some (digitsValue ds) else None))"

definition is_decimal_char :: "jschar \<Rightarrow> bool" where
  "is_decimal_char c \<longleftrightarrow> is_digit c \<or> c = 46"

text \<open>\<open>/^Page\s+(\d+) size:\s+([\d.]+) x ([\d.]+) pts/gm\<close> at one start of a line: the page and its size, where a
  side without digits is \<open>NaN\<close>.\<close>

definition sizeAt :: "jsstring \<Rightarrow> (nat \<times> rat option \<times> rat option) option" where
  "sizeAt s =
     (case dropPrefix (js ''Page'') s of
        None \<Rightarrow> None
      | Some r \<Rightarrow>
          (let r1 = dropWhile is_js_space r; ds = takeWhile is_digit r1
           in if takeWhile is_js_space r = [] \<or> ds = [] then None
              else
                (case dropPrefix (js '' size:'') (dropWhile is_digit r1) of
                   None \<Rightarrow> None
                 | Some r2 \<Rightarrow>
                     (let r3 = dropWhile is_js_space r2; w = takeWhile is_decimal_char r3
                      in if takeWhile is_js_space r2 = [] \<or> w = [] then None
                         else
                           (case dropPrefix (js '' x '') (dropWhile is_decimal_char r3) of
                              None \<Rightarrow> None
                            | Some r4 \<Rightarrow>
                                (let h = takeWhile is_decimal_char r4
                                 in if h = [] \<or> dropPrefix (js '' pts'') (dropWhile is_decimal_char r4) = None then None
                                    else Some (digitsValue ds, parseFloat w, parseFloat h)))))))"

text \<open>Later lines overwrite earlier ones; a page 0 is written beside the array.\<close>

definition parsePdfInfo :: "jsstring \<Rightarrow> PdfInfo option" where
  "parsePdfInfo output =
     (case firstSome pagesAt (lineStarts output) of
        None \<Rightarrow> None
      | Some n \<Rightarrow>
          (let sizes = List.map_filter sizeAt (lineStarts output)
           in Some \<lparr>pdf_pageCount = n,
                pdf_pages = (\<lambda>k. map_of (rev sizes) (Suc k))\<rparr>))"

definition info :: "node \<Rightarrow> spawn \<Rightarrow> OcrConfig \<Rightarrow> jsstring \<Rightarrow> int \<Rightarrow> thrown + PdfInfo" where
  "info N sp cfg pdfPath timeoutMs =
     (case runTool N sp cfg ''pdfinfo''
             [js ''-f'', js ''1'', js ''-l'', js (nat_str (oc_maxPdfPages cfg + 1)), pdfPath] timeoutMs None of
        Inl e \<Rightarrow> Inl e
      | Inr result \<Rightarrow>
          (case (if rc_exitCode result = Some 0 then parsePdfInfo (utf8Decode N (rc_stdout result)) else None) of
             None \<Rightarrow> Inl (Processing (permanent ''OCR_INVALID_FILE'' ''The PDF could not be parsed''
                       (Some (exitDetail ''pdfinfo'' (rc_exitCode result) (utf8Decode N (rc_stderr result))))))
           | Some pdf \<Rightarrow> Inr pdf))"

text \<open>The pages of the text layer: trimmed or padded to the number of pages.\<close>

definition padPages :: "nat \<Rightarrow> jsstring list \<Rightarrow> jsstring list" where
  "padPages n pages = take n pages @ replicate (n - length pages) []"

definition extractText :: "node \<Rightarrow> spawn \<Rightarrow> OcrConfig \<Rightarrow> jsstring \<Rightarrow> nat \<Rightarrow> int \<Rightarrow> nat \<Rightarrow> thrown + jsstring list" where
  "extractText N sp cfg pdfPath pageCount timeoutMs maxBytes =
     (case runTool N sp cfg ''pdftotext''
             (map js [''-layout'', ''-enc'', ''UTF-8'', ''-eol'', ''unix''] @ [pdfPath, js ''-'']) timeoutMs (Some maxBytes) of
        Inl e \<Rightarrow> Inl e
      | Inr result \<Rightarrow>
          if rc_exitCode result \<noteq> Some 0
          then Inl (Processing (permanent ''OCR_INVALID_FILE'' ''The PDF text layer could not be read''
                 (Some (exitDetail ''pdftotext'' (rc_exitCode result) (utf8Decode N (rc_stderr result))))))
          else Inr (padPages pageCount (split_on 12 (utf8Decode N (rc_stdout result)))))"

definition dpiText :: "nat option \<Rightarrow> jsstring" where
  "dpiText dpi = (case dpi of None \<Rightarrow> js ''NaN'' | Some n \<Rightarrow> js (nat_str n))"

definition renderPdfPage ::
  "node \<Rightarrow> spawn \<Rightarrow> OcrConfig \<Rightarrow> (jsstring \<Rightarrow> bool) \<Rightarrow> jsstring \<Rightarrow> nat \<Rightarrow> jsstring \<Rightarrow> nat option \<Rightarrow> int \<Rightarrow> thrown + jsstring" where
  "renderPdfPage N sp cfg exists pdfPath pageNumber workDir dpi timeoutMs =
     (let outBase = pathJoin N workDir (js (''page-'' @ nat_str pageNumber)); outputPath = outBase @ js ''.png''
      in case runTool N sp cfg ''pdftoppm''
                [js ''-r'', dpiText dpi, js ''-f'', js (nat_str pageNumber), js ''-l'', js (nat_str pageNumber),
                 js ''-singlefile'', js ''-png'', js ''-gray'', pdfPath, outBase] timeoutMs (Some 1024) of
           Inl e \<Rightarrow> Inl e
         | Inr result \<Rightarrow>
             if rc_exitCode result \<noteq> Some 0 \<or> \<not> exists outputPath
             then Inl (Processing (permanent ''OCR_INVALID_FILE'' ''The PDF page could not be rendered''
                    (Some (exitDetail ''pdftoppm'' (rc_exitCode result) (utf8Decode N (rc_stderr result))))))
             else Inr outputPath)"

section \<open>Tesseract\<close>

record tsv_sum =
  ts_sum :: rat
  ts_count :: nat

text \<open>One row of the word table: only words with a confidence and a text count.\<close>

definition tsvRow :: "jsstring \<Rightarrow> rat option" where
  "tsvRow line =
     (let cols = split_on 9 line
      in if length cols \<le> 11 \<or> cols ! 0 \<noteq> js ''5'' then None
         else (case parseFloat (cols ! 10) of
                 None \<Rightarrow> None
               | Some conf \<Rightarrow> if conf < 0 \<or> trim (cols ! 11) = [] then None else Some (min 100 (max 0 conf))))"

fun sumRows :: "jsstring list \<Rightarrow> tsv_sum \<Rightarrow> tsv_sum" where
  "sumRows [] s = s"
| "sumRows (l # ls) s =
     (case tsvRow l of None \<Rightarrow> sumRows ls s
      | Some c \<Rightarrow> sumRows ls \<lparr>ts_sum = ts_sum s + c, ts_count = ts_count s + 1\<rparr>)"

definition parseTsvConfidence :: "jsstring \<Rightarrow> rat option \<times> nat" where
  "parseTsvConfidence tsv =
     (let s = sumRows (tl (split_on 10 tsv)) \<lparr>ts_sum = 0, ts_count = 0\<rparr>
      in if ts_count s = 0 then (None, 0)
         else (Some (of_int (mathRound (ts_sum s / of_nat (ts_count s) * 100)) / 100), ts_count s))"

text \<open>The default order of \<open>sort\<close>: by code units.\<close>

fun unitsLe :: "jsstring \<Rightarrow> jsstring \<Rightarrow> bool" where
  "unitsLe [] b = True"
| "unitsLe (x # a) [] = False"
| "unitsLe (x # a) (y # b) \<longleftrightarrow> x < y \<or> (x = y \<and> unitsLe a b)"

definition parseLanguageList :: "jsstring \<Rightarrow> jsstring list" where
  "parseLanguageList output =
     orderBy unitsLe (filter (\<lambda>l. LANGUAGE_CODE l \<and> l \<noteq> js ''osd'') (map trim (split_on 10 output)))"

text \<open>\<open>/pixRead|Image file .* cannot be read|not read/i\<close>.\<close>

definition lowerText :: "jsstring \<Rightarrow> jsstring" where
  "lowerText s = map ascii_lower s"

definition containsText :: "jsstring \<Rightarrow> jsstring \<Rightarrow> bool" where
  "containsText p s \<longleftrightarrow> list_ex (\<lambda>r. dropPrefix p r \<noteq> None) (suffixes_of s)"

definition unreadableImage :: "jsstring \<Rightarrow> bool" where
  "unreadableImage stderr \<longleftrightarrow>
     (let s = lowerText stderr
      in containsText (js ''pixread'') s \<or> containsText (js ''not read'') s
         \<or> list_ex (\<lambda>r. case dropPrefix (js ''image file '') r of
                None \<Rightarrow> False
              | Some t \<Rightarrow> containsText (js '' cannot be read'') (takeWhile (\<lambda>c. \<not> is_line_end c) t)) (suffixes_of s))"

definition environment :: "OcrConfig \<Rightarrow> (string \<times> jsstring) list" where
  "environment cfg = (''OMP_THREAD_LIMIT'', js ''1'')
     # (if truthy (oc_tessdataPrefix cfg) then [(''TESSDATA_PREFIX'', the (oc_tessdataPrefix cfg))] else [])"

text \<open>The program names its output after the image: every other character of the name than
  \<open>[A-Za-z0-9_-]\<close> becomes an underscore. The last argument is the base name of the image.\<close>

definition recognizeImage ::
  "node \<Rightarrow> spawn \<Rightarrow> OcrConfig \<Rightarrow> jsstring \<Rightarrow> jsstring \<Rightarrow> jsstring \<Rightarrow> jsstring \<Rightarrow> int \<Rightarrow> thrown + OcrRecognizeResult" where
  "recognizeImage N sp cfg workDir imagePath baseName language timeoutMs =
     (let outBase = pathJoin N workDir (js ''ocr-'' @ map (\<lambda>c. if is_base64url c then c else 95) baseName)
      in case runCommand sp (oc_tesseractPath cfg)
                [imagePath, outBase, js ''-l'', language, js ''--psm'', js ''3'', js ''txt'', js ''tsv'']
                (environment cfg) timeoutMs (Some (64 * 1024)) of
           Inl (CommandNotFoundError c) \<Rightarrow>
             Inl (Processing (transient ''OCR_PROCESSING_FAILED'' ''The OCR engine is unavailable'' (Some (notFoundMessage c))))
         | Inl (OtherCommandError m) \<Rightarrow> Inl (OtherError m)
         | Inr result \<Rightarrow>
             if rc_timedOut result
             then Inl (Processing (transient ''OCR_PROCESSING_TIMEOUT'' ''Text recognition exceeded the time limit''
                    (Some (js (''tesseract killed after '' @ nat_str (rc_durationMs result) @ '' ms'')))))
             else if rc_exitCode result \<noteq> Some 0
             then (let stderr = utf8Decode N (rc_stderr result); perm = unreadableImage stderr
                   in Inl (Processing \<lparr>pe_code = (if perm then ''OCR_INVALID_FILE'' else ''OCR_PROCESSING_FAILED''),
                        pe_message = (if perm then ''The image could not be decoded'' else ''Text recognition failed''),
                        pe_permanent = perm,
                        pe_detail = Some (exitDetail ''tesseract'' (rc_exitCode result) stderr), pe_scope = JobScope\<rparr>))
             else
               (let text = (case readText N (outBase @ js ''.txt'') of Some t \<Rightarrow> t | None \<Rightarrow> []);
                    tsv = (case readText N (outBase @ js ''.tsv'') of Some t \<Rightarrow> t | None \<Rightarrow> []);
                    (confidence, wordCount) = parseTsvConfidence tsv
                in Inr \<lparr>or_text = text, or_confidence = confidence, or_wordCount = wordCount\<rparr>))"

text \<open>\<open>/tesseract\s+v?([^\s]+)/i\<close> at one place.\<close>

definition tesseractVersionAt :: "jsstring \<Rightarrow> jsstring option" where
  "tesseractVersionAt s =
     (if lowerText (take 9 s) \<noteq> js ''tesseract'' \<or> takeWhile is_js_space (drop 9 s) = [] then None
      else (let r = dropWhile is_js_space (drop 9 s);
                word = takeWhile (\<lambda>c. \<not> is_js_space c) r
            in if word = [] then None
               else if (hd word = 118 \<or> hd word = 86) \<and> tl word \<noteq> [] then Some (tl word) else Some word))"

definition describe :: "node \<Rightarrow> spawn \<Rightarrow> OcrConfig \<Rightarrow> OcrEngineInfo option" where
  "describe N sp cfg =
     (case (runCommand sp (oc_tesseractPath cfg) [js ''--version''] (environment cfg) 5000 None,
            runCommand sp (oc_tesseractPath cfg) [js ''--list-langs''] (environment cfg) 5000 None) of
        (Inr version, Inr langs) \<Rightarrow>
          if rc_exitCode version \<noteq> Some 0 then None
          else Some \<lparr>en_name = js ''tesseract'',
                 en_version = firstSome tesseractVersionAt
                   (suffixes_of (utf8Decode N (rc_stdout version) @ utf8Decode N (rc_stderr version))),
                 en_installedLanguages = parseLanguageList
                   (utf8Decode N (rc_stdout langs) @ utf8Decode N (rc_stderr langs))\<rparr>
      | _ \<Rightarrow> None)"

section \<open>The toolbox of the pipeline\<close>

text \<open>The tools for one job: the stored file is \<open>input\<close> in the work directory, a rendered page is the
  file that \<open>renderPdfPage\<close> returned.\<close>

definition imageFile :: "node \<Rightarrow> jsstring \<Rightarrow> image \<Rightarrow> jsstring \<times> jsstring" where
  "imageFile N workDir img =
     (let base = (case img of StoredFile \<Rightarrow> js ''input'' | RenderedPage n \<Rightarrow> js (''page-'' @ nat_str n))
      in case img of
           StoredFile \<Rightarrow> (pathJoin N workDir base, base)
         | RenderedPage _ \<Rightarrow> (pathJoin N workDir base @ js ''.png'', base @ js ''.png''))"

definition commandTools :: "node \<Rightarrow> spawn \<Rightarrow> OcrConfig \<Rightarrow> (jsstring \<Rightarrow> bool) \<Rightarrow> jsstring \<Rightarrow> toolbox" where
  "commandTools N sp cfg exists workDir =
     (let input = fst (imageFile N workDir StoredFile)
      in \<lparr>headError = readError N input,
          pdfInfo = info N sp cfg input,
          pdfText = extractText N sp cfg input,
          renderPage = (\<lambda>n dpi t. map_sum id (\<lambda>_. RenderedPage n) (renderPdfPage N sp cfg exists input n workDir dpi t)),
          recognize = (\<lambda>img l t. recognizeImage N sp cfg workDir (fst (imageFile N workDir img))
            (snd (imageFile N workDir img)) l t)\<rparr>)"

section \<open>Output is bounded\<close>

definition state_bounded :: "nat \<Rightarrow> command_state \<Rightarrow> bool" where
  "state_bounded maxOutput st \<longleftrightarrow> length (cs_stdout st) \<le> maxOutput \<and> length (cs_stderr st) \<le> 64 * 1024"

lemma runEvents_bounded:
  assumes "state_bounded maxOutput st" and "runEvents command maxOutput d fin es st = Inr r"
  shows "length (rc_stdout r) \<le> maxOutput \<and> length (rc_stderr r) \<le> 64 * 1024"
  using assms
proof (induction command maxOutput d fin es st rule: runEvents.induct)
  case (1 command maxOutput d fin st)
  then show ?case by (auto simp: settle_def state_bounded_def split: ending.splits if_splits)
next
  case (5 command maxOutput d fin f es st)
  then show ?case by (auto simp: settle_def state_bounded_def split: ending.splits if_splits)
qed (auto simp: state_bounded_def split: if_splits)

lemma runCommand_bounded:
  "runCommand sp command args env t (Some m) = Inr r \<Longrightarrow> length (rc_stdout r) \<le> m \<and> length (rc_stderr r) \<le> 64 * 1024"
  using runEvents_bounded [of m "\<lparr>cs_stdout = [], cs_stderr = [], cs_timedOut = False\<rparr>"]
  by (auto simp: runCommand_def state_bounded_def split: sum.splits)

text \<open>A chunk that does not fit is dropped, and a later one that fits is kept: the output then is not a
  prefix of what the program printed.\<close>

lemma output_with_gap:
  "runEvents command 3 d (Closed (Some 0) None) [OutChunk [1, 2], OutChunk [3, 4], OutChunk [5]]
     \<lparr>cs_stdout = [], cs_stderr = [], cs_timedOut = False\<rparr>
   = Inr \<lparr>rc_exitCode = Some 0, rc_signal = None, rc_stdout = [1, 2, 5], rc_stderr = [], rc_timedOut = False, rc_durationMs = d\<rparr>"
  by (simp add: settle_def)

section \<open>Failures of the tools\<close>

text \<open>Programs that are installed and can be controlled: a start succeeds and no error event arrives.\<close>

definition installed :: "spawn \<Rightarrow> bool" where
  "installed sp \<longleftrightarrow> (\<forall>c args env t. \<exists>ch. sp c args env t = Inr ch \<and> (\<exists>x s. ch_ending ch = Closed x s)
     \<and> (\<forall>code m. End (ErrorEvent code m) \<notin> set (ch_events ch)))"

lemma runEvents_closed:
  assumes "\<forall>code m. End (ErrorEvent code m) \<notin> set es" and "fin = Closed x s"
  shows "\<exists>r. runEvents command maxOutput d fin es st = Inr r"
  using assms
proof (induction command maxOutput d fin es st rule: runEvents.induct)
  case (5 command maxOutput d fin f es st)
  then obtain a b where "f = Closed a b" by (cases f) auto
  then show ?case by (simp add: settle_def)
qed (simp_all add: settle_def)

lemma runCommand_installed: "installed sp \<Longrightarrow> \<exists>r. runCommand sp command args env t m = Inr r"
proof -
  assume "installed sp"
  then obtain ch x s where "sp command args env t = Inr ch" "ch_ending ch = Closed x s"
      "\<forall>code m. End (ErrorEvent code m) \<notin> set (ch_events ch)"
    unfolding installed_def by blast
  then show ?thesis using runEvents_closed [of "ch_events ch" _ x s] by (simp add: runCommand_def Let_def)
qed

text \<open>A failure that the pipeline stores as a failed page.\<close>

definition page_level :: "thrown \<Rightarrow> bool" where
  "page_level err \<longleftrightarrow> (\<exists>x. err = Processing x \<and> (\<forall>d. pe_detail x = Some d \<longrightarrow> \<not> startsWith (js ''Command not found'') d))"

lemma page_level_failure: "page_level err \<longleftrightarrow> pageFailure err n \<noteq> None"
  by (cases err) (auto simp: page_level_def pageFailure_def split: option.split)

lemma startsWith_first: "startsWith (a # p) (b # s) \<Longrightarrow> a = b"
  by (simp add: startsWith_def)

lemma detail_not_found:
  assumes "d = js (CHR ''p'' # t) @ r \<or> d = js (CHR ''t'' # t) @ r"
  shows "\<not> startsWith (js ''Command not found'') d"
proof -
  have "js ''Command not found'' = js ''C'' @ js ''ommand not found''" by (simp add: js_def)
  moreover have "js ''C'' = [67]" "js ''p'' = [112]" "js ''t'' = [116]" by code_simp+
  moreover have "js (c # t) = js [c] @ js t" for c by (simp add: js_def)
  ultimately show ?thesis using assms startsWith_first by force
qed

text \<open>Programs that are not there: Node reports \<open>ENOENT\<close> as the only event.\<close>

definition absent :: "spawn \<Rightarrow> bool" where
  "absent sp \<longleftrightarrow> (\<forall>c args env t. \<exists>ch m. sp c args env t = Inr ch \<and> ch_events ch = [] \<and> ch_ending ch = ErrorEvent ''ENOENT'' m)"

lemma runCommand_absent: "absent sp \<Longrightarrow> runCommand sp command args env t m = Inl (CommandNotFoundError command)"
proof -
  assume "absent sp"
  then obtain ch x where "sp command args env t = Inr ch" "ch_events ch = []" "ch_ending ch = ErrorEvent ''ENOENT'' x"
    unfolding absent_def by blast
  then show ?thesis by (simp add: runCommand_def settle_def)
qed

lemma timeout_detail:
  "\<not> startsWith (js ''Command not found'') (js (CHR ''p'' # t))" "\<not> startsWith (js ''Command not found'') (js (CHR ''t'' # t))"
  using detail_not_found [of _ t "[]"] by simp_all

lemma exit_detail:
  "\<not> startsWith (js ''Command not found'') (exitDetail (CHR ''p'' # t) e s)"
  "\<not> startsWith (js ''Command not found'') (exitDetail (CHR ''t'' # t) e s)"
  unfolding exitDetail_def append_Cons by (rule detail_not_found, blast)+

lemma runTool_installed:
  assumes "installed sp" and "runTool N sp cfg (CHR ''p'' # name) args t m = Inl err"
  shows "page_level err"
proof -
  obtain r where r: "runCommand sp (tool N cfg (CHR ''p'' # name)) args [] t m = Inr r" using runCommand_installed [OF assms(1)] by blast
  show ?thesis
    using assms(2) unfolding runTool_def r append_Cons
    by (auto split: if_splits simp: transient_def page_level_def timeout_detail)
qed

lemma renderPdfPage_installed:
  assumes "installed sp" and "renderPdfPage N sp cfg exists pdf n dir dpi t = Inl err"
  shows "page_level err"
proof -
  note run = runTool_installed [OF assms(1), of N cfg "''dftoppm''"]
  show ?thesis
    using assms(2) unfolding renderPdfPage_def Let_def
    by (auto split: if_splits sum.splits simp: permanent_def page_level_def [of "Processing _"] exit_detail dest: run)
qed

lemma extractText_installed:
  assumes "installed sp" and "extractText N sp cfg pdf n t m = Inl err"
  shows "page_level err"
proof -
  note run = runTool_installed [OF assms(1), of N cfg "''dftotext''"]
  show ?thesis
    using assms(2) unfolding extractText_def
    by (auto split: if_splits sum.splits simp: permanent_def page_level_def [of "Processing _"] exit_detail dest: run)
qed

lemma recognizeImage_installed:
  assumes "installed sp" and "recognizeImage N sp cfg dir img base l t = Inl err"
  shows "page_level err"
proof -
  define out where "out = pathJoin N dir (js ''ocr-'' @ map (\<lambda>c. if is_base64url c then c else 95) base)"
  obtain r where r: "runCommand sp (oc_tesseractPath cfg)
      [img, out, js ''-l'', l, js ''--psm'', js ''3'', js ''txt'', js ''tsv''] (environment cfg) t (Some (64 * 1024)) = Inr r"
    using runCommand_installed [OF assms(1)] by blast
  show ?thesis
    using assms(2) unfolding recognizeImage_def Let_def out_def [symmetric] r append_Cons
    by (auto split: if_splits prod.splits simp: transient_def page_level_def exit_detail timeout_detail)
qed

lemma notFound_detail: "startsWith (js ''Command not found'') (notFoundMessage c)"
  by (simp add: notFoundMessage_def startsWith_def js_def)

lemma renderPdfPage_absent:
  assumes "absent sp"
  shows "\<exists>x. renderPdfPage N sp cfg exists pdf n dir dpi t = Inl (Processing x) \<and> \<not> pe_permanent x
    \<and> pageFailure (Processing x) n = None"
  using assms
  by (simp add: renderPdfPage_def runTool_def runCommand_absent transient_def pageFailure_def notFound_detail)

lemma recognizeImage_absent:
  assumes "absent sp"
  shows "\<exists>x. recognizeImage N sp cfg dir img base l t = Inl (Processing x) \<and> \<not> pe_permanent x
    \<and> pageFailure (Processing x) n = None"
  using assms
  by (simp add: recognizeImage_def runCommand_absent transient_def pageFailure_def notFound_detail)

text \<open>C29. The pipeline tells a broken page from a broken installation by the failures of the tools. When the
  programs run, every failure of rendering and recognition is stored as a failed page, and the text
  layer fails only with processing errors: the toolbox made of the services meets the requirement
  under which a delivery completes its job. When the programs are missing, every page instead ends
  the extraction with a transient error, so that the job is tried again and no page is stored as
  failed.\<close>

theorem tool_failures:
  assumes "installed sp" and "absent sp'"
  shows "tools_present (commandTools N sp cfg exists workDir)
    \<and> (\<exists>x. renderPage (commandTools N sp' cfg exists workDir) n dpi t = Inl (Processing x) \<and> \<not> pe_permanent x
          \<and> pageFailure (Processing x) n = None)
    \<and> (\<exists>x. recognize (commandTools N sp' cfg exists workDir) img l t = Inl (Processing x) \<and> \<not> pe_permanent x
          \<and> pageFailure (Processing x) n = None)"
proof -
  have "tools_present (commandTools N sp cfg exists workDir)"
    unfolding tools_present_def page_level_failure [symmetric]
    using renderPdfPage_installed [OF assms(1)] extractText_installed [OF assms(1)] recognizeImage_installed [OF assms(1)]
    by (fastforce simp: commandTools_def Let_def page_level_def map_sum_def split: sum.splits)
  moreover have "renderPage (commandTools N sp' cfg exists workDir) n dpi t
      = map_sum id (\<lambda>_. RenderedPage n) (renderPdfPage N sp' cfg exists (fst (imageFile N workDir StoredFile)) n workDir dpi t)"
    "recognize (commandTools N sp' cfg exists workDir) img l t = recognizeImage N sp' cfg workDir (fst (imageFile N workDir img))
            (snd (imageFile N workDir img)) l t"
    by (simp_all add: commandTools_def Let_def)
  ultimately show ?thesis
    using renderPdfPage_absent [OF assms(2)] recognizeImage_absent [OF assms(2)] by (metis map_sum.simps(1) id_apply)
qed

definition demoNode :: node where
  "demoNode = \<lparr>pathJoin = (\<lambda>a b. a @ [47] @ b), utf8Decode = map ucast, readText = (\<lambda>_. None), readError = (\<lambda>_. None)\<rparr>"

definition demoChild :: child where
  "demoChild = \<lparr>ch_events = [ErrChunk [1]], ch_ending = Closed (Some 0) None, ch_durationMs = 7\<rparr>"

theorem tool_failures_witness:
  "tools_present (commandTools demoNode (\<lambda>_ _ _ _. Inr demoChild) demoConfig (\<lambda>_. True) [])
   \<and> (\<exists>x. recognize (commandTools demoNode (\<lambda>_ _ _ _. Inr \<lparr>ch_events = [], ch_ending = ErrorEvent ''ENOENT'' [], ch_durationMs = 0\<rparr>)
        demoConfig (\<lambda>_. True) []) StoredFile [] 1000 = Inl (Processing x) \<and> pageFailure (Processing x) 1 = None)"
proof -
  have "installed (\<lambda>_ _ _ _. Inr demoChild)" by (simp add: installed_def demoChild_def)
  moreover have "absent (\<lambda>_ _ _ _. Inr \<lparr>ch_events = [], ch_ending = ErrorEvent ''ENOENT'' [], ch_durationMs = 0\<rparr>)"
    by (simp add: absent_def)
  ultimately show ?thesis using tool_failures [where n = 1] by blast
qed

section \<open>Confidence\<close>

lemma sumRows_rows:
  "ts_sum (sumRows ls s) = ts_sum s + sum_list (List.map_filter tsvRow ls)
   \<and> ts_count (sumRows ls s) = ts_count s + length (List.map_filter tsvRow ls)"
  by (induction ls s rule: sumRows.induct) (auto simp: map_filter_simps split: option.split)

lemma tsvRow_range: "tsvRow l = Some c \<Longrightarrow> 0 \<le> c \<and> c \<le> 100"
  by (auto simp: tsvRow_def Let_def split: if_splits option.splits)

lemma rows_range: "c \<in> set (List.map_filter tsvRow ls) \<Longrightarrow> 0 \<le> c \<and> c \<le> 100"
  by (induction ls) (auto simp: map_filter_simps dest: tsvRow_range split: option.splits)

lemma sum_list_range:
  "\<forall>c\<in>set cs. 0 \<le> c \<and> c \<le> (100 :: rat) \<Longrightarrow> 0 \<le> sum_list cs \<and> sum_list cs \<le> 100 * of_nat (length cs)"
  by (induction cs) (auto simp: algebra_simps)

lemma mathRound_close: "\<bar>of_int (mathRound q) - q\<bar> \<le> 1 / 2"
  unfolding mathRound_def by linarith

lemma mathRound_range: "of_int a \<le> q \<Longrightarrow> q \<le> of_int b \<Longrightarrow> a \<le> mathRound q \<and> mathRound q \<le> b"
  unfolding mathRound_def by linarith

text \<open>The confidence of a page is the mean over its recognised words to two decimals: it is missing
  exactly when no word row counts, otherwise it lies between 0 and 100 and differs from the mean of
  the clamped values by at most half a hundredth; the word count is the number of these rows.\<close>

theorem confidence_is_mean:
  assumes "parseTsvConfidence tsv = (confidence, wordCount)"
    and "cs = List.map_filter tsvRow (tl (split_on 10 tsv))"
  shows "wordCount = length cs \<and> (confidence = None \<longleftrightarrow> cs = [])
    \<and> (\<forall>q. confidence = Some q \<longrightarrow> 0 \<le> q \<and> q \<le> 100 \<and> \<bar>q - sum_list cs / of_nat (length cs)\<bar> \<le> 1 / 200)"
proof (cases "cs = []")
  case True
  then show ?thesis using assms(1) sumRows_rows [of "tl (split_on 10 tsv)"]
    by (auto simp: parseTsvConfidence_def Let_def assms(2))
next
  case False
  define m where "m = sum_list cs / of_nat (length cs)"
  have pos: "(0 :: rat) < of_nat (length cs)" using False by simp
  have "\<forall>c\<in>set cs. 0 \<le> c \<and> c \<le> 100"
    unfolding assms(2) using rows_range by blast
  from sum_list_range [OF this] have m: "0 \<le> m" "m \<le> 100" using pos by (auto simp: m_def field_simps)
  have r: "confidence = Some (of_int (mathRound (m * 100)) / 100)" "wordCount = length cs"
    using assms(1) sumRows_rows [of "tl (split_on 10 tsv)" "\<lparr>ts_sum = 0, ts_count = 0\<rparr>"] False
    by (auto simp: parseTsvConfidence_def Let_def assms(2) m_def)
  have "\<bar>of_int (mathRound (m * 100)) / 100 - m\<bar> \<le> 1 / 200" using mathRound_close [of "m * 100"] by (simp add: field_simps abs_le_iff)
  moreover have "0 \<le> mathRound (m * 100)" "mathRound (m * 100) \<le> 10000"
    using mathRound_range [of 0 "m * 100" 10000] m by auto
  then have "(0 :: rat) \<le> of_int (mathRound (m * 100))" "of_int (mathRound (m * 100)) \<le> (10000 :: rat)"
    by (simp_all only: of_int_0_le_iff)
  ultimately show ?thesis using False unfolding r m_def [symmetric] by auto
qed

definition demoTsv :: jsstring where
  "demoTsv = js ''level'' @ [10] @ js ''5'' @ replicate 10 9 @ js ''95.5'' @ [9] @ js ''word'' @ [10]
     @ js ''5'' @ replicate 10 9 @ js ''96'' @ [9] @ js ''two'' @ [10] @ js ''5'' @ replicate 10 9 @ js ''-1'' @ [9] @ js ''x''"

lemma demoTsv_confidence: "parseTsvConfidence demoTsv = (Some (383 / 4), 2)"
  by code_simp

theorem confidence_is_mean_witness: "length (List.map_filter tsvRow (tl (split_on 10 demoTsv))) = 2"
  using confidence_is_mean [OF demoTsv_confidence refl] by simp

section \<open>Languages of the engine\<close>

lemma unitsLe_total: "unitsLe a b \<or> unitsLe b a"
  by (induction a b rule: unitsLe.induct) auto

lemma unitsLe_trans: "unitsLe a b \<Longrightarrow> unitsLe b c \<Longrightarrow> unitsLe a c"
proof (induction a b arbitrary: c rule: unitsLe.induct)
  case (3 x a y b)
  then show ?case by (cases c) auto
qed auto

lemma parseLanguageList_codes:
  "sorted_wrt unitsLe (parseLanguageList output) \<and> list_all (\<lambda>l. LANGUAGE_CODE l \<and> l \<noteq> js ''osd'') (parseLanguageList output)"
  unfolding parseLanguageList_def
  using sorted_orderBy [of unitsLe, OF unitsLe_total unitsLe_trans] by (auto simp: list_all_iff)

section \<open>Decimal texts\<close>

lemma unat_digit: "k < 10 \<Longrightarrow> unat (of_char (char_of (48 + k)) :: jschar) = 48 + k"
proof -
  assume k: "k < 10"
  then have n: "(of_char (char_of (48 + k)) :: nat) = 48 + k" by (simp add: of_char_of take_bit_nat_def)
  have "(of_char (char_of (48 + k)) :: jschar) = of_nat (of_char (char_of (48 + k)))"
    by (rule of_nat_of_char [symmetric])
  then have "unat (of_char (char_of (48 + k)) :: jschar) = unat (of_nat (48 + k) :: jschar)" by (simp only: n)
  also have "\<dots> = 48 + k" using k by (simp only: unat_of_nat) simp
  finally show ?thesis .
qed

lemma js_nat_str_digits: "list_all is_digit (js (nat_str n)) \<and> js (nat_str n) \<noteq> []"
proof (induction n rule: nat_str.induct)
  case (1 n)
  have "is_digit (of_char (char_of (48 + k)))" if "k < 10" for k :: nat
    using that by (auto simp: is_digit_def word_le_nat_alt unat_digit)
  then show ?case using 1 by (subst (1 2) nat_str.simps) (auto simp: js_def)
qed

lemma digitsValue_snoc: "digitsValue (ds @ [c]) = 10 * digitsValue ds + (unat c - 48)"
  by (simp add: digitsValue_def)

lemma digitsValue_nat_str: "digitsValue (js (nat_str n)) = n"
proof (induction n rule: nat_str.induct)
  case (1 n)
  have d: "unat (of_char (char_of (48 + k)) :: jschar) - 48 = k" if "k < 10" for k :: nat
    using that by (simp add: unat_digit)
  show ?case
  proof (cases "n < 10")
    case True
    have "js (nat_str n) = [] @ [of_char (char_of (48 + n))]" by (subst nat_str.simps) (simp add: js_def True)
    then show ?thesis using d [OF True] by (simp only: digitsValue_snoc) (simp add: digitsValue_def)
  next
    case False
    have "js (nat_str n) = js (nat_str (n div 10)) @ [of_char (char_of (48 + n mod 10))]"
      by (subst nat_str.simps) (simp add: js_def False)
    then show ?thesis using d [of "n mod 10"] 1 [OF False] by (simp only: digitsValue_snoc) simp
  qed
qed

end
