(* ===== verification/Health.thy ===== *)
theory Health
  imports Object_Storage Ocr_Tools
begin

text \<open>
  Readiness: the probes of the clients (\<open>prisma/prisma.service.ts\<close>, \<open>redis/redis.service.ts\<close>,
  \<open>ocr/ocr-queue.service.ts\<close>), the life cycle of the OCR worker service (\<open>onModuleInit\<close> and
  \<open>onModuleDestroy\<close> of \<open>ocr/ocr-worker.service.ts\<close>), the reports (\<open>ocr/ocr-health.service.ts\<close>,
  \<open>health/health.service.ts\<close>) and the two endpoints (\<open>health/health.controller.ts\<close>). What a client
  answers to its probe is an argument; \<open>Inl\<close> is an error it throws.
\<close>

section \<open>Probes\<close>

definition prismaIsHealthy :: "string + unit \<Rightarrow> bool" where
  "prismaIsHealthy queryRaw = (case queryRaw of Inr _ \<Rightarrow> True | Inl _ \<Rightarrow> False)"

definition redisIsHealthy :: "string + string \<Rightarrow> bool" where
  "redisIsHealthy ping = (case ping of Inr reply \<Rightarrow> reply = ''PONG'' | Inl _ \<Rightarrow> False)"

definition queueIsHealthy :: "(string list \<Rightarrow> string + (string \<times> nat) list) \<Rightarrow> bool" where
  "queueIsHealthy getJobCounts = (case getJobCounts [''active''] of Inr _ \<Rightarrow> True | Inl _ \<Rightarrow> False)"

definition queueCounts :: "(string list \<Rightarrow> string + (string \<times> nat) list) \<Rightarrow> string + (string \<times> nat) list" where
  "queueCounts getJobCounts = getJobCounts [''waiting'', ''active'', ''delayed'', ''prioritized'', ''failed'']"

text \<open>The delay before the connection is tried again.\<close>

definition retryStrategy :: "nat \<Rightarrow> nat" where
  "retryStrategy attempt = min (attempt * 200) 5000"

section \<open>The worker service\<close>

datatype WorkerState = WorkerDisabled | Starting | Running | Stopped

record worker_service =
  ws_worker :: bool
  ws_timer :: bool
  ws_reconciling :: bool
  ws_state :: WorkerState

definition newWorkerService :: worker_service where
  "newWorkerService = \<lparr>ws_worker = False, ws_timer = False, ws_reconciling = False, ws_state = WorkerDisabled\<rparr>"

text \<open>The start; the first argument tells whether the directory for temporary files could be made. The
  first reconciliation is under way when it returns.\<close>

definition workerModuleInit :: "OcrConfig \<Rightarrow> string + unit \<Rightarrow> worker_service \<Rightarrow> string option \<times> worker_service" where
  "workerModuleInit cfg mkdir s =
     (if \<not> oc_enabled cfg \<or> \<not> oc_workerEnabled cfg then (None, s)
      else
        (let s1 = s\<lparr>ws_state := Starting\<rparr>
         in case mkdir of
              Inl m \<Rightarrow> (Some m, s1)
            | Inr _ \<Rightarrow> (None, s1\<lparr>ws_worker := True, ws_state := Running, ws_reconciling := True, ws_timer := True\<rparr>)))"

text \<open>A tick of the timer starts a reconciliation unless one is under way; it ends whatever it met.\<close>

definition reconcileTick :: "worker_service \<Rightarrow> bool \<times> worker_service" where
  "reconcileTick s = (if ws_reconciling s then (False, s) else (True, s\<lparr>ws_reconciling := True\<rparr>))"

definition reconcileEnd :: "worker_service \<Rightarrow> worker_service" where
  "reconcileEnd s = s\<lparr>ws_reconciling := False\<rparr>"

definition workerModuleDestroy :: "worker_service \<Rightarrow> worker_service" where
  "workerModuleDestroy s = s\<lparr>ws_timer := False, ws_worker := False,
     ws_state := (if ws_state s \<noteq> WorkerDisabled then Stopped else ws_state s)\<rparr>"

inductive worker_reaches :: "OcrConfig \<Rightarrow> worker_service \<Rightarrow> bool" for cfg where
  start: "worker_reaches cfg (snd (workerModuleInit cfg mkdir newWorkerService))"
| tick: "worker_reaches cfg s \<Longrightarrow> ws_timer s \<Longrightarrow> worker_reaches cfg (snd (reconcileTick s))"
| finish: "worker_reaches cfg s \<Longrightarrow> ws_reconciling s \<Longrightarrow> worker_reaches cfg (reconcileEnd s)"
| stop: "worker_reaches cfg s \<Longrightarrow> worker_reaches cfg (workerModuleDestroy s)"

section \<open>Reports\<close>

datatype OcrHealthStatus = Ready | OcrDegraded | OcrDisabled

record OcrHealthReport =
  oh_status :: OcrHealthStatus
  oh_enabled :: bool
  oh_engine :: "bool \<times> jsstring option \<times> jsstring option"
  oh_renderer :: "bool \<times> jsstring option"
  oh_default :: jsstring
  oh_defaultAvailable :: bool
  oh_available :: "jsstring list"
  oh_missing :: "jsstring list"
  oh_queueUp :: bool
  oh_queueName :: jsstring
  oh_counts :: "(string \<times> nat) list option"
  oh_workerState :: WorkerState
  oh_concurrency :: nat
  oh_timestamp :: time

text \<open>The arguments are the answers of the engine, the renderer, the language service and the queue.\<close>

definition ocrHealthCheck ::
  "OcrConfig \<Rightarrow> OcrEngineInfo option \<Rightarrow> jsstring option \<Rightarrow> LanguageAvailability \<Rightarrow> (string list \<Rightarrow> string + (string \<times> nat) list)
     \<Rightarrow> worker_service \<Rightarrow> time \<Rightarrow> OcrHealthReport" where
  "ocrHealthCheck cfg engine rendererVersion av getJobCounts worker now =
     (if \<not> oc_enabled cfg
      then \<lparr>oh_status = OcrDisabled, oh_enabled = False, oh_engine = (False, None, None), oh_renderer = (False, None),
            oh_default = oc_defaultLanguage cfg, oh_defaultAvailable = False, oh_available = [],
            oh_missing = oc_supportedLanguages cfg, oh_queueUp = False, oh_queueName = oc_queueName cfg, oh_counts = None,
            oh_workerState = WorkerDisabled, oh_concurrency = oc_concurrency cfg, oh_timestamp = now\<rparr>
      else
        (let queueUp = queueIsHealthy getJobCounts;
             counts = (if queueUp then (case queueCounts getJobCounts of Inr c \<Rightarrow> Some c | Inl _ \<Rightarrow> None) else None);
             rendererAvailable = (rendererVersion \<noteq> None);
             ready = (engine \<noteq> None \<and> rendererAvailable \<and> la_defaultAvailable av \<and> queueUp
                        \<and> (\<not> oc_workerEnabled cfg \<or> ws_state worker = Running))
         in \<lparr>oh_status = (if ready then Ready else OcrDegraded), oh_enabled = True,
             oh_engine = (engine \<noteq> None, map_option en_name engine, Option.bind engine en_version),
             oh_renderer = (rendererAvailable, rendererVersion),
             oh_default = la_defaultLanguage av, oh_defaultAvailable = la_defaultAvailable av,
             oh_available = la_available av, oh_missing = la_missing av,
             oh_queueUp = queueUp, oh_queueName = oc_queueName cfg, oh_counts = counts,
             oh_workerState = ws_state worker, oh_concurrency = oc_concurrency cfg, oh_timestamp = now\<rparr>))"

record HealthReport =
  hr_ok :: bool
  hr_database :: bool
  hr_redis :: bool
  hr_storage :: bool
  hr_ocr :: OcrHealthStatus
  hr_uptime :: int
  hr_timestamp :: time

definition healthCheck :: "bool \<Rightarrow> bool \<Rightarrow> bool \<Rightarrow> string + OcrHealthReport \<Rightarrow> rat \<Rightarrow> time \<Rightarrow> HealthReport" where
  "healthCheck database redis storageUp ocr uptime now =
     \<lparr>hr_ok = (database \<and> redis \<and> storageUp), hr_database = database, hr_redis = redis, hr_storage = storageUp,
      hr_ocr = (case ocr of Inr r \<Rightarrow> oh_status r | Inl _ \<Rightarrow> OcrDegraded), hr_uptime = mathRound uptime, hr_timestamp = now\<rparr>"

section \<open>Endpoints\<close>

definition HEALTH_DEPENDENCIES :: "(string \<times> (HealthReport \<Rightarrow> bool)) list" where
  "HEALTH_DEPENDENCIES = [(''database'', hr_database), (''redis'', hr_redis), (''storage'', hr_storage)]"

definition healthEndpoint :: "HealthReport \<Rightarrow> failure + HealthReport" where
  "healthEndpoint report =
     (if \<not> hr_ok report
      then (let down = map fst (filter (\<lambda>(_, up). \<not> up report) HEALTH_DEPENDENCIES)
            in Inl (appException 503 ''SERVICE_UNAVAILABLE'' (''Dependencies unavailable: '' @ join_with '', '' down)))
      else Inr report)"

definition ocrProblems :: "OcrHealthReport \<Rightarrow> string list" where
  "ocrProblems report =
     (if fst (oh_engine report) then [] else [''engine''])
     @ (if fst (oh_renderer report) then [] else [''renderer''])
     @ (if oh_defaultAvailable report then [] else [''default language data''])
     @ (if oh_queueUp report then [] else [''queue''])
     @ (if oh_workerState report = Running \<or> oh_workerState report = WorkerDisabled then [] else [''worker''])"

definition ocrHealthEndpoint :: "OcrHealthReport \<Rightarrow> failure + OcrHealthReport" where
  "ocrHealthEndpoint report =
     (if oh_status report = OcrDegraded
      then (let problems = join_with '', '' (ocrProblems report)
            in Inl (appException 503 ''OCR_UNAVAILABLE''
                 (''OCR dependencies unavailable: '' @ (if problems \<noteq> [] then problems else ''unknown''))))
      else Inr report)"

section \<open>The life cycle\<close>

inductive_cases worker_reachesE: "worker_reaches cfg s"

text \<open>The worker and the timer exist exactly while the service runs, and the service is disabled exactly
  when the settings say so.\<close>

definition worker_ok :: "OcrConfig \<Rightarrow> worker_service \<Rightarrow> bool" where
  "worker_ok cfg s \<longleftrightarrow> (ws_worker s \<longleftrightarrow> ws_state s = Running) \<and> (ws_timer s \<longleftrightarrow> ws_state s = Running)
     \<and> (ws_state s = WorkerDisabled \<longleftrightarrow> \<not> (oc_enabled cfg \<and> oc_workerEnabled cfg))"

lemma worker_reaches_ok: "worker_reaches cfg s \<Longrightarrow> worker_ok cfg s"
proof (induction rule: worker_reaches.induct)
  case (start mkdir)
  show ?case by (cases mkdir) (auto simp: worker_ok_def workerModuleInit_def newWorkerService_def)
qed (auto simp: worker_ok_def reconcileTick_def reconcileEnd_def workerModuleDestroy_def)

text \<open>A tick never starts a second reconciliation.\<close>

lemma reconcileTick_exclusive: "fst (reconcileTick s) \<longleftrightarrow> \<not> ws_reconciling s" "ws_reconciling (snd (reconcileTick s))"
  by (simp_all add: reconcileTick_def)

lemma absent_unavailable: "absent sp \<Longrightarrow> describe N sp cfg = None \<and> popplerVersion N sp cfg = None \<and> \<not> popplerIsAvailable N sp cfg"
  by (simp add: describe_def popplerVersion_def popplerIsAvailable_def runCommand_absent)

section \<open>Properties\<close>

lemma join_with_nonempty: "list_all (\<lambda>w. w \<noteq> []) ws \<Longrightarrow> ws \<noteq> [] \<Longrightarrow> join_with sep ws \<noteq> []"
  by (induction sep ws rule: join_with.induct) auto

lemma ocrProblems_named: "list_all (\<lambda>w. w \<noteq> []) (ocrProblems r)"
  by (simp add: ocrProblems_def)

lemma ocrHealthCheck_status:
  assumes "worker_ok cfg s" and "r = ocrHealthCheck cfg engine renderer av counts s now"
  shows "oh_status r = OcrDegraded \<longleftrightarrow> oc_enabled cfg \<and> ocrProblems r \<noteq> []"
  using assms(1) unfolding assms(2) ocrHealthCheck_def Let_def ocrProblems_def worker_ok_def
  by (cases "ws_state s") auto

text \<open>Readiness is reported for what it is. The main probe fails exactly when the database, Redis or
  the storage is down, whatever OCR reports. The OCR probe fails exactly when OCR is enabled and the
  engine, the renderer, the default language or the queue is missing or an enabled worker is not
  running; its message then names at least one missing part, in every state the worker service can
  reach. Where the programs are not installed, it fails.\<close>

theorem readiness_exact:
  assumes "worker_reaches cfg s" and "r = ocrHealthCheck cfg engine renderer av counts s now"
  shows "((\<exists>f. healthEndpoint (healthCheck database redis storageUp ocr uptime now) = Inl f) \<longleftrightarrow> \<not> (database \<and> redis \<and> storageUp))
    \<and> ((\<exists>f. ocrHealthEndpoint r = Inl f) \<longleftrightarrow> oc_enabled cfg \<and> (engine = None \<or> renderer = None \<or> \<not> la_defaultAvailable av
          \<or> \<not> queueIsHealthy counts \<or> (oc_workerEnabled cfg \<and> \<not> ws_worker s)))
    \<and> (\<forall>f. ocrHealthEndpoint r = Inl f \<longrightarrow> ocrProblems r \<noteq> [] \<and> f = appException 503 ''OCR_UNAVAILABLE''
          (''OCR dependencies unavailable: '' @ join_with '', '' (ocrProblems r)))
    \<and> (absent sp \<and> oc_enabled cfg \<longrightarrow>
         (\<exists>f. ocrHealthEndpoint (ocrHealthCheck cfg (describe N sp cfg) (popplerVersion N sp cfg) av counts s now) = Inl f))"
proof -
  note ok = worker_reaches_ok [OF assms(1)]
  note status = ocrHealthCheck_status [OF ok assms(2)]
  have "(\<exists>f. healthEndpoint (healthCheck database redis storageUp ocr uptime now) = Inl f) \<longleftrightarrow> \<not> (database \<and> redis \<and> storageUp)"
    by (simp add: healthEndpoint_def healthCheck_def Let_def)
  moreover have "oh_status r = OcrDegraded \<longleftrightarrow> oc_enabled cfg \<and> (engine = None \<or> renderer = None \<or> \<not> la_defaultAvailable av
          \<or> \<not> queueIsHealthy counts \<or> (oc_workerEnabled cfg \<and> \<not> ws_worker s))"
    using ok unfolding assms(2) ocrHealthCheck_def Let_def worker_ok_def by auto
  then have "(\<exists>f. ocrHealthEndpoint r = Inl f) \<longleftrightarrow> oc_enabled cfg \<and> (engine = None \<or> renderer = None \<or> \<not> la_defaultAvailable av
          \<or> \<not> queueIsHealthy counts \<or> (oc_workerEnabled cfg \<and> \<not> ws_worker s))"
    by (simp add: ocrHealthEndpoint_def Let_def)
  moreover have "ocrProblems r \<noteq> [] \<and> f = appException 503 ''OCR_UNAVAILABLE''
          (''OCR dependencies unavailable: '' @ join_with '', '' (ocrProblems r))" if "ocrHealthEndpoint r = Inl f" for f
  proof -
    have d: "oh_status r = OcrDegraded" using that by (auto simp: ocrHealthEndpoint_def split: if_splits)
    then have "join_with '', '' (ocrProblems r) \<noteq> []" using status join_with_nonempty [OF ocrProblems_named] by blast
    then show ?thesis using that d status by (auto simp: ocrHealthEndpoint_def Let_def)
  qed
  moreover have "\<exists>f. ocrHealthEndpoint (ocrHealthCheck cfg (describe N sp cfg) (popplerVersion N sp cfg) av counts s now) = Inl f"
    if "absent sp" "oc_enabled cfg"
    using that absent_unavailable [OF that(1)] by (simp add: ocrHealthEndpoint_def ocrHealthCheck_def Let_def)
  ultimately show ?thesis by blast
qed

definition demoWorker :: worker_service where
  "demoWorker = snd (workerModuleInit demoConfig (Inr ()) newWorkerService)"

theorem readiness_exact_witness:
  "\<exists>f. ocrHealthEndpoint (ocrHealthCheck demoConfig None (Some (js ''24''))
     \<lparr>la_available = [], la_missing = [], la_defaultAvailable = True, la_defaultLanguage = [], la_checkedAt = 0\<rparr>
     (\<lambda>_. Inr []) (workerModuleDestroy demoWorker) 0) = Inl f"
proof -
  have "worker_reaches demoConfig (workerModuleDestroy demoWorker)"
    unfolding demoWorker_def by (intro worker_reaches.intros)
  moreover have "oc_enabled demoConfig" by (simp add: demoConfig_def)
  ultimately show ?thesis using readiness_exact [OF _ refl, where engine = None] by blast
qed

end
