(* ===== verification/Api.thy ===== *)
theory Api
  imports Auth Health
begin

text \<open>
  The API as a whole: the controllers (\<open>auth\<close>, \<open>users\<close>, \<open>folders\<close>, \<open>documents\<close>, \<open>ocr\<close>,
  \<open>health\<close>) over the services, behind the guards and the pipe for ids, and inside the envelope and the
  exception filter, in the order in which \<open>app.setup.ts\<close> and the modules register them. A request is
  one that passed the rate limiter and the validation of its body and query (both are framework
  code). What the JWT library reports of its token is a part of the request.
\<close>

section \<open>Requests\<close>

datatype Call =
    AuthRegister RegisterDto "jsstring option"
  | AuthLogin LoginDto "jsstring option"
  | AuthRefresh jsstring
  | AuthLogout jsstring
  | AuthMe
  | UsersMe
  | UsersUpdateMe UpdateProfileDto
  | FolderCreate CreateFolderDto
  | FolderList "uuid option option"
  | FolderGet jsstring
  | FolderUpdate jsstring UpdateFolderDto
  | FolderRemove jsstring
  | DocumentCreate CreateDocumentDto
  | DocumentList ListDocumentsQuery
  | DocumentGet jsstring
  | DocumentUpdate jsstring UpdateDocumentDto
  | DocumentRemove jsstring
  | DocumentUploadUrl jsstring CreateUploadUrlDto
  | DocumentUploadComplete jsstring "jsstring option"
  | DocumentDownloadUrl jsstring
  | OcrRequest jsstring RequestOcrDto
  | OcrStatus jsstring
  | OcrResultsOf jsstring OcrResultsQueryDto
  | OcrRetry jsstring
  | HealthCheck
  | HealthOcr

text \<open>What passport reports of the bearer token: an error, the subject of a valid token, a reason.\<close>

record Request =
  rq_requestIdHeader :: "jsstring option"
  rq_ip :: "jsstring option"
  rq_userAgent :: "jsstring option"
  rq_authError :: "failure option"
  rq_subject :: "jsstring option"
  rq_authInfo :: "string option"
  rq_call :: Call

text \<open>What the request runs against besides the database.\<close>

record services =
  sv_run :: run
  sv_unicode :: unicode
  sv_crypto :: crypto
  sv_auth :: AuthConfig
  sv_decoyPasswordHash :: jsstring
  sv_db :: database
  sv_storage :: storage
  sv_documents :: DocumentsConfig
  sv_ocr :: OcrConfig
  sv_queue :: bullmq
  sv_languages :: LanguageAvailability
  sv_health :: HealthReport
  sv_ocrHealth :: OcrHealthReport

definition sessionContextFromRequest :: "Request \<Rightarrow> jsstring \<Rightarrow> jsstring option \<Rightarrow> SessionContext" where
  "sessionContextFromRequest req requestId deviceName =
     \<lparr>sc_requestId = Some (getRequestId (Some requestId)), sc_ipAddress = rq_ip req,
      sc_userAgent = rq_userAgent req, sc_deviceName = deviceName\<rparr>"

section \<open>Answers\<close>

record PaginatedDocuments =
  pg_items :: "DocumentDto list"
  pg_page :: nat
  pg_limit :: nat
  pg_total :: nat
  pg_totalPages :: nat

record UploadUrlResponse =
  ul_uploadUrl :: jsstring
  ul_method :: string
  ul_headers :: "(string \<times> jsstring) list"
  ul_expiresAt :: time
  ul_expiresInSeconds :: nat
  ul_document :: DocumentDto

record DownloadUrlResponse =
  dr_downloadUrl :: jsstring
  dr_method :: string
  dr_expiresAt :: time
  dr_expiresInSeconds :: nat
  dr_fileName :: jsstring
  dr_contentType :: jsstring
  dr_fileSize :: int

record OcrResultsDto =
  ro_jobId :: uuid
  ro_documentId :: uuid
  ro_status :: OcrJobStatus
  ro_language :: jsstring
  ro_extractionMethod :: "OcrExtractionMethod option"
  ro_totalPages :: "nat option"
  ro_errorCode :: "string option"
  ro_pages :: "OcrPageDto list"
  ro_page :: nat
  ro_limit :: nat
  ro_total :: nat
  ro_pagesTotal :: nat

datatype Answer =
    AAuth TokenPair PublicUser
  | ATokens TokenPair
  | AUser PublicUser
  | AFolder FolderDto
  | AFolders "FolderDto list"
  | AFolderDeletion FolderDeletionResult
  | ADocument DocumentDto
  | ADocuments PaginatedDocuments
  | ADocumentDeletion DocumentDeletion
  | AUploadUrl UploadUrlResponse
  | ADownloadUrl DownloadUrlResponse
  | AOcrJob OcrJobDto
  | AOcrResults OcrResultsDto
  | AHealth HealthReport
  | AOcrHealth OcrHealthReport

text \<open>A handler answers with a status and a payload, or throws.\<close>

type_synonym reply = "(nat \<times> Answer payload) outcome"

definition answer :: "nat \<Rightarrow> ('a \<Rightarrow> Answer) \<Rightarrow> 'a outcome \<Rightarrow> reply" where
  "answer status f = map_prod (map_sum id (\<lambda>x. (status, Value (Some (f x))))) id"

definition answerWith :: "nat \<Rightarrow> string \<Rightarrow> ('a \<Rightarrow> Answer option) \<Rightarrow> 'a outcome \<Rightarrow> reply" where
  "answerWith status message f = map_prod (map_sum id (\<lambda>x. (status, ApiResult (f x) (Some message)))) id"

section \<open>Controllers\<close>

subsection \<open>Sessions and accounts\<close>

definition authRegister :: "services \<Rightarrow> Request \<Rightarrow> jsstring \<Rightarrow> RegisterDto \<Rightarrow> jsstring option \<Rightarrow> World \<Rightarrow> reply" where
  "authRegister sv req rid dto deviceName w =
     answer 201 (\<lambda>(t, u). AAuth t u)
       (register (sv_run sv) (sv_unicode sv) (sv_crypto sv) (sv_auth sv) dto (sessionContextFromRequest req rid deviceName) w)"

definition authLogin :: "services \<Rightarrow> Request \<Rightarrow> jsstring \<Rightarrow> LoginDto \<Rightarrow> jsstring option \<Rightarrow> World \<Rightarrow> reply" where
  "authLogin sv req rid dto deviceName w =
     answer 200 (\<lambda>(t, u). AAuth t u)
       (login (sv_run sv) (sv_unicode sv) (sv_crypto sv) (sv_auth sv) (sv_decoyPasswordHash sv) dto
          (sessionContextFromRequest req rid deviceName) w)"

definition authRefresh :: "services \<Rightarrow> Request \<Rightarrow> jsstring \<Rightarrow> jsstring \<Rightarrow> World \<Rightarrow> reply" where
  "authRefresh sv req rid token w =
     answer 200 ATokens (refresh (sv_run sv) (sv_crypto sv) (sv_auth sv) token (sessionContextFromRequest req rid None) w)"

definition authLogout :: "services \<Rightarrow> Request \<Rightarrow> jsstring \<Rightarrow> uuid \<Rightarrow> jsstring \<Rightarrow> World \<Rightarrow> reply" where
  "authLogout sv req rid userId token w =
     answerWith 200 ''Logged out'' (\<lambda>_. None)
       (logout (sv_run sv) (sv_crypto sv) (sv_auth sv) token userId (sessionContextFromRequest req rid None) w)"

definition authMe :: "uuid \<Rightarrow> World \<Rightarrow> reply" where
  "authMe userId w = answer 200 AUser (getMe userId w, w)"

subsection \<open>Folders\<close>

definition foldersCreate :: "services \<Rightarrow> uuid \<Rightarrow> CreateFolderDto \<Rightarrow> RequestContext \<Rightarrow> World \<Rightarrow> reply" where
  "foldersCreate sv userId dto ctx w = answer 201 (\<lambda>f. AFolder (toFolderDto f)) (createFolder (sv_run sv) userId dto ctx w)"

definition foldersList :: "services \<Rightarrow> uuid \<Rightarrow> uuid option option \<Rightarrow> RequestContext \<Rightarrow> World \<Rightarrow> reply" where
  "foldersList sv userId parentId ctx w =
     answer 200 (\<lambda>fs. AFolders (map toFolderDto fs)) (listFolders (sv_run sv) (byText (sv_db sv)) userId parentId ctx w)"

definition foldersGet :: "uuid \<Rightarrow> uuid \<Rightarrow> RequestContext \<Rightarrow> World \<Rightarrow> reply" where
  "foldersGet userId i ctx w = answer 200 (\<lambda>f. AFolder (toFolderDto f)) (getOwnedFolder userId i ctx w)"

definition foldersUpdate :: "services \<Rightarrow> uuid \<Rightarrow> uuid \<Rightarrow> UpdateFolderDto \<Rightarrow> RequestContext \<Rightarrow> World \<Rightarrow> reply" where
  "foldersUpdate sv userId i dto ctx w = answer 200 (\<lambda>f. AFolder (toFolderDto f)) (updateFolder (sv_run sv) userId i dto ctx w)"

definition foldersRemove :: "services \<Rightarrow> uuid \<Rightarrow> uuid \<Rightarrow> RequestContext \<Rightarrow> World \<Rightarrow> reply" where
  "foldersRemove sv userId i ctx w =
     answerWith 200 ''Folder deleted'' (\<lambda>r. Some (AFolderDeletion r)) (removeFolder (sv_run sv) userId i ctx w)"

subsection \<open>Documents\<close>

definition documentsCreate :: "services \<Rightarrow> uuid \<Rightarrow> CreateDocumentDto \<Rightarrow> RequestContext \<Rightarrow> World \<Rightarrow> reply" where
  "documentsCreate sv userId dto ctx w = answer 201 (\<lambda>d. ADocument (toDocumentDto d)) (createDocument (sv_run sv) userId dto ctx w)"

definition documentsList :: "services \<Rightarrow> uuid \<Rightarrow> ListDocumentsQuery \<Rightarrow> RequestContext \<Rightarrow> World \<Rightarrow> reply" where
  "documentsList sv userId query ctx w =
     answer 200 (\<lambda>p. ADocuments \<lparr>pg_items = map toDocumentDto (dp_items p), pg_page = dp_page p, pg_limit = dp_limit p,
         pg_total = dp_total p, pg_totalPages = dp_totalPages p\<rparr>)
       (listDocuments (sv_run sv) (sv_db sv) userId query ctx w)"

definition documentsGet :: "uuid \<Rightarrow> uuid \<Rightarrow> RequestContext \<Rightarrow> World \<Rightarrow> reply" where
  "documentsGet userId i ctx w = answer 200 (\<lambda>d. ADocument (toDocumentDto d)) (getOwnedDocument userId i ctx w)"

definition documentsUpdate :: "services \<Rightarrow> uuid \<Rightarrow> uuid \<Rightarrow> UpdateDocumentDto \<Rightarrow> RequestContext \<Rightarrow> World \<Rightarrow> reply" where
  "documentsUpdate sv userId i dto ctx w =
     answer 200 (\<lambda>d. ADocument (toDocumentDto d)) (updateDocument (sv_run sv) userId i dto ctx w)"

definition documentsRemove :: "services \<Rightarrow> uuid \<Rightarrow> uuid \<Rightarrow> RequestContext \<Rightarrow> World \<Rightarrow> reply" where
  "documentsRemove sv userId i ctx w =
     answerWith 200 ''Document deleted'' (\<lambda>r. Some (ADocumentDeletion r)) (removeDocument (sv_run sv) userId i ctx w)"

definition documentsUploadUrl :: "services \<Rightarrow> uuid \<Rightarrow> uuid \<Rightarrow> CreateUploadUrlDto \<Rightarrow> RequestContext \<Rightarrow> World \<Rightarrow> reply" where
  "documentsUploadUrl sv userId i dto ctx w =
     answer 200 (\<lambda>(presigned, document). AUploadUrl \<lparr>ul_uploadUrl = ps_url presigned, ul_method = ''PUT'',
         ul_headers = ps_headers presigned, ul_expiresAt = ps_expiresAt presigned,
         ul_expiresInSeconds = ps_expiresInSeconds presigned, ul_document = toDocumentDto document\<rparr>)
       (createUploadUrl (sv_run sv) (sv_unicode sv) (sv_storage sv) (sv_documents sv) userId i dto ctx w)"

definition documentsUploadComplete :: "services \<Rightarrow> uuid \<Rightarrow> uuid \<Rightarrow> jsstring option \<Rightarrow> RequestContext \<Rightarrow> World \<Rightarrow> reply" where
  "documentsUploadComplete sv userId i etag ctx w =
     answer 200 (\<lambda>d. ADocument (toDocumentDto d))
       (completeUpload (sv_run sv) (sv_unicode sv) (sv_storage sv) (sv_documents sv) userId i etag ctx w)"

definition documentsDownloadUrl :: "services \<Rightarrow> uuid \<Rightarrow> uuid \<Rightarrow> RequestContext \<Rightarrow> World \<Rightarrow> reply" where
  "documentsDownloadUrl sv userId i ctx w =
     answer 200 (\<lambda>r. ADownloadUrl \<lparr>dr_downloadUrl = ps_url (dl_presigned r), dr_method = ''GET'',
         dr_expiresAt = ps_expiresAt (dl_presigned r), dr_expiresInSeconds = ps_expiresInSeconds (dl_presigned r),
         dr_fileName = dl_fileName r, dr_contentType = dl_contentType r, dr_fileSize = dl_fileSize r\<rparr>)
       (createDownloadUrl (sv_storage sv) (sv_documents sv) userId i ctx w)"

subsection \<open>Text recognition\<close>

definition ocrRequest :: "services \<Rightarrow> uuid \<Rightarrow> uuid \<Rightarrow> RequestOcrDto \<Rightarrow> RequestContext \<Rightarrow> World \<Rightarrow> reply" where
  "ocrRequest sv userId i dto ctx w =
     map_prod (map_sum id (\<lambda>r.
         if rr_outcome r = Created
         then (202, ApiResult (Some (AOcrJob (toOcrJobDto (rr_job r)))) (Some ''OCR job queued''))
         else (200, ApiResult (Some (AOcrJob (toOcrJobDto (rr_job r))))
                (Some (if rr_outcome r = ActiveJob then ''An OCR job for this document is already in progress''
                       else ''OCR results for this language already exist; pass forceReprocess to run again''))))) id
       (requestOcr (sv_run sv) (sv_db sv) (sv_ocr sv) (sv_queue sv) (sv_languages sv) userId i dto ctx w)"

definition ocrStatusOf :: "services \<Rightarrow> uuid \<Rightarrow> uuid \<Rightarrow> RequestContext \<Rightarrow> World \<Rightarrow> reply" where
  "ocrStatusOf sv userId i ctx w = answer 200 (\<lambda>j. AOcrJob (toOcrJobDto j)) (ocrStatus (sv_run sv) (sv_db sv) userId i ctx w)"

definition ocrResultsOf :: "services \<Rightarrow> uuid \<Rightarrow> uuid \<Rightarrow> OcrResultsQueryDto \<Rightarrow> RequestContext \<Rightarrow> World \<Rightarrow> reply" where
  "ocrResultsOf sv userId i query ctx w =
     answer 200 (\<lambda>r. AOcrResults \<lparr>ro_jobId = j_id (rs_job r), ro_documentId = j_documentId (rs_job r),
         ro_status = j_status (rs_job r), ro_language = j_language (rs_job r),
         ro_extractionMethod = j_extractionMethod (rs_job r), ro_totalPages = j_totalPages (rs_job r),
         ro_errorCode = j_errorCode (rs_job r), ro_pages = map toOcrPageDto (rs_pages r),
         ro_page = rs_page r, ro_limit = rs_limit r, ro_total = rs_total r, ro_pagesTotal = rs_totalPages r\<rparr>)
       (ocrResults (sv_run sv) (sv_db sv) userId i query ctx w)"

definition ocrRetryOf :: "services \<Rightarrow> uuid \<Rightarrow> uuid \<Rightarrow> RequestContext \<Rightarrow> World \<Rightarrow> reply" where
  "ocrRetryOf sv userId i ctx w =
     answerWith 202 ''OCR retry queued'' (\<lambda>j. Some (AOcrJob (toOcrJobDto j)))
       (retryOcr (sv_run sv) (sv_db sv) (sv_ocr sv) (sv_queue sv) (sv_languages sv) userId i ctx w)"

section \<open>The pipeline\<close>

text \<open>Routes marked \<open>@Public()\<close>, and those whose controller adds the guard for active accounts.\<close>

fun isPublic :: "Call \<Rightarrow> bool" where
  "isPublic (AuthRegister _ _) = True"
| "isPublic (AuthLogin _ _) = True"
| "isPublic (AuthRefresh _) = True"
| "isPublic HealthCheck = True"
| "isPublic HealthOcr = True"
| "isPublic _ = False"

fun needsActiveUser :: "Call \<Rightarrow> bool" where
  "needsActiveUser (AuthLogout _) = False"
| "needsActiveUser AuthMe = False"
| "needsActiveUser UsersMe = False"
| "needsActiveUser (UsersUpdateMe _) = False"
| "needsActiveUser c = (\<not> isPublic c)"

text \<open>The guards in their order; the identity they establish.\<close>

definition guards :: "Request \<Rightarrow> World \<Rightarrow> failure + uuid option" where
  "guards req w =
     (if isPublic (rq_call req) then Inr None
      else
        (case handleRequest (rq_authError req) (validateJwt (rq_subject req)) (rq_authInfo req) of
           Inl f \<Rightarrow> Inl f
         | Inr userId \<Rightarrow>
             if needsActiveUser (rq_call req)
             then (case activeUserGuard (Some userId) w of Inl f \<Rightarrow> Inl f | Inr _ \<Rightarrow> Inr (Some userId))
             else Inr (Some userId)))"

text \<open>The id in the path goes through the pipe before the handler runs.\<close>

definition withId :: "jsstring \<Rightarrow> (uuid \<Rightarrow> World \<Rightarrow> reply) \<Rightarrow> World \<Rightarrow> reply" where
  "withId raw h w = (case uuidParam (Some ''id'') raw of Inl f \<Rightarrow> (Inl f, w) | Inr i \<Rightarrow> h i w)"

fun dispatch :: "services \<Rightarrow> Request \<Rightarrow> jsstring \<Rightarrow> uuid \<Rightarrow> RequestContext \<Rightarrow> Call \<Rightarrow> World \<Rightarrow> reply" where
  "dispatch sv req rid u ctx (AuthRegister dto deviceName) w = authRegister sv req rid dto deviceName w"
| "dispatch sv req rid u ctx (AuthLogin dto deviceName) w = authLogin sv req rid dto deviceName w"
| "dispatch sv req rid u ctx (AuthRefresh token) w = authRefresh sv req rid token w"
| "dispatch sv req rid u ctx (AuthLogout token) w = authLogout sv req rid u token w"
| "dispatch sv req rid u ctx AuthMe w = authMe u w"
| "dispatch sv req rid u ctx UsersMe w = authMe u w"
| "dispatch sv req rid u ctx (UsersUpdateMe dto) w = answer 200 AUser (updateMe (sv_run sv) u dto w)"
| "dispatch sv req rid u ctx (FolderCreate dto) w = foldersCreate sv u dto ctx w"
| "dispatch sv req rid u ctx (FolderList parentId) w = foldersList sv u parentId ctx w"
| "dispatch sv req rid u ctx (FolderGet raw) w = withId raw (\<lambda>i. foldersGet u i ctx) w"
| "dispatch sv req rid u ctx (FolderUpdate raw dto) w = withId raw (\<lambda>i. foldersUpdate sv u i dto ctx) w"
| "dispatch sv req rid u ctx (FolderRemove raw) w = withId raw (\<lambda>i. foldersRemove sv u i ctx) w"
| "dispatch sv req rid u ctx (DocumentCreate dto) w = documentsCreate sv u dto ctx w"
| "dispatch sv req rid u ctx (DocumentList query) w = documentsList sv u query ctx w"
| "dispatch sv req rid u ctx (DocumentGet raw) w = withId raw (\<lambda>i. documentsGet u i ctx) w"
| "dispatch sv req rid u ctx (DocumentUpdate raw dto) w = withId raw (\<lambda>i. documentsUpdate sv u i dto ctx) w"
| "dispatch sv req rid u ctx (DocumentRemove raw) w = withId raw (\<lambda>i. documentsRemove sv u i ctx) w"
| "dispatch sv req rid u ctx (DocumentUploadUrl raw dto) w = withId raw (\<lambda>i. documentsUploadUrl sv u i dto ctx) w"
| "dispatch sv req rid u ctx (DocumentUploadComplete raw etag) w = withId raw (\<lambda>i. documentsUploadComplete sv u i etag ctx) w"
| "dispatch sv req rid u ctx (DocumentDownloadUrl raw) w = withId raw (\<lambda>i. documentsDownloadUrl sv u i ctx) w"
| "dispatch sv req rid u ctx (OcrRequest raw dto) w = withId raw (\<lambda>i. ocrRequest sv u i dto ctx) w"
| "dispatch sv req rid u ctx (OcrStatus raw) w = withId raw (\<lambda>i. ocrStatusOf sv u i ctx) w"
| "dispatch sv req rid u ctx (OcrResultsOf raw query) w = withId raw (\<lambda>i. ocrResultsOf sv u i query ctx) w"
| "dispatch sv req rid u ctx (OcrRetry raw) w = withId raw (\<lambda>i. ocrRetryOf sv u i ctx) w"
| "dispatch sv req rid u ctx HealthCheck w = answer 200 AHealth (healthEndpoint (sv_health sv), w)"
| "dispatch sv req rid u ctx HealthOcr w = answer 200 AOcrHealth (ocrHealthEndpoint (sv_ocrHealth sv), w)"

type_synonym response = "nat \<times> (ErrorEnvelope + Answer SuccessEnvelope)"

text \<open>The response leaves through the interceptor, an exception through the filter. A public handler is
  given no identity.\<close>

definition handleApi :: "services \<Rightarrow> Request \<Rightarrow> World \<Rightarrow> response \<times> World" where
  "handleApi sv req w =
     (let rid = requestIdMiddleware (sv_run sv) (rq_requestIdHeader req);
          ctx = requestContextFromRequest (Some rid) (rq_ip req);
          failed = (\<lambda>f. map_prod id Inl (catchException (thrownBy f) rid))
      in case guards req w of
           Inl f \<Rightarrow> (failed f, w)
         | Inr user \<Rightarrow>
             (case dispatch sv req rid (case user of Some u \<Rightarrow> u | None \<Rightarrow> []) ctx (rq_call req) w of
                (Inl f, w') \<Rightarrow> (failed f, w')
              | (Inr (status, payload), w') \<Rightarrow> ((status, Inr (interceptEnvelope rid payload)), w')))"

section \<open>Who gets in\<close>

text \<open>The account behind an identity.\<close>

definition activeAccount :: "uuid \<Rightarrow> World \<Rightarrow> bool" where
  "activeAccount u w \<longleftrightarrow> (\<exists>x\<in>set (users w). u_id x = u \<and> u_status x = ACTIVE)"

lemma getActiveUser_exact:
  assumes "users_wf w"
  shows "(\<exists>x. getActiveUser u w = Inr x) \<longleftrightarrow> activeAccount u w"
proof -
  have "findUserById u w = Some x" if "x \<in> set (users w)" "u_id x = u" for x
    unfolding findUserById_def using that assms by (intro tbl.find_first_of_keys [where key = u_id]) (auto simp: users_wf_def)
  moreover have "x \<in> set (users w) \<and> u_id x = u" if "findUserById u w = Some x" for x
    using that unfolding findUserById_def by (rule findFirst_SomeD)
  ultimately show ?thesis
    unfolding activeAccount_def getActiveUser_def by (cases "findUserById u w") auto
qed

lemma getActiveUser_status: "getActiveUser u w = Inl f \<Longrightarrow> \<exists>x. f = App x \<and> ex_status x \<in> {401, 403}"
  by (auto simp: getActiveUser_def accountStatusException_def split: option.splits if_splits)

definition authenticated :: "Request \<Rightarrow> uuid \<Rightarrow> bool" where
  "authenticated req u \<longleftrightarrow> (\<forall>x. rq_authError req \<noteq> Some (App x)) \<and> rq_subject req = Some u \<and> is_uuid u"

lemma handleRequest_identity:
  "handleRequest (rq_authError req) (validateJwt (rq_subject req)) (rq_authInfo req) = Inr u \<longleftrightarrow> authenticated req u"
  by (auto simp: handleRequest_def validateJwt_def authenticated_def split: option.splits failure.splits if_splits)

lemma is_uuid_nonempty: "is_uuid u \<Longrightarrow> u \<noteq> []"
  by (rule notI) (simp, code_simp)

lemma guards_identity:
  assumes "users_wf w" and "\<not> isPublic (rq_call req)"
  shows "guards req w = Inr r \<longleftrightarrow>
    (\<exists>u. r = Some u \<and> authenticated req u \<and> (needsActiveUser (rq_call req) \<longrightarrow> activeAccount u w))"
proof (cases "handleRequest (rq_authError req) (validateJwt (rq_subject req)) (rq_authInfo req)")
  case (Inl f)
  then show ?thesis using assms(2) handleRequest_identity [of req] by (auto simp: guards_def)
next
  case (Inr u)
  then have u: "authenticated req u" and one: "authenticated req v \<longleftrightarrow> v = u" for v
    using handleRequest_identity [of req] by (auto simp: authenticated_def)
  have "activeUserGuard (Some u) w = (case getActiveUser u w of Inl f \<Rightarrow> Inl f | Inr _ \<Rightarrow> Inr True)"
    using u is_uuid_nonempty by (auto simp: activeUserGuard_def truthy_def authenticated_def)
  then show ?thesis
    using Inr assms(2) u one getActiveUser_exact [OF assms(1), of u] by (auto simp: guards_def split: sum.splits)
qed

lemma guards_refuse:
  assumes "guards req w = Inl f" and "\<forall>x. rq_authError req \<noteq> Some (App x)"
  shows "\<exists>x. f = App x \<and> ex_status x \<in> {401, 403}"
proof -
  have "handleRequest (rq_authError req) user info = Inl g \<Longrightarrow> \<exists>x. g = App x \<and> ex_status x = 401" for user info g
    using assms(2) by (auto simp: handleRequest_def split: option.splits failure.splits if_splits)
  moreover have "activeUserGuard (Some u) w = Inl g \<Longrightarrow> \<exists>x. g = App x \<and> ex_status x \<in> {401, 403}" for u g
    using getActiveUser_status by (auto simp: activeUserGuard_def split: if_splits sum.splits)
  ultimately show ?thesis using assms(1) unfolding guards_def by (auto split: if_splits sum.splits) blast+
qed

lemma catchException_app: "catchException (AppEx x) rid
    = (ex_status x, \<lparr>ee_success = False, ee_data = None, ee_code = ex_code x, ee_message = ex_message x, ee_requestId = rid\<rparr>)"
  by (simp add: catchException_def resolveException_def appBody_def)

text \<open>C9. Every route is closed unless it is marked public. Without a valid token for the id of an account, and,
  on the routes for folders, documents and recognition, without an account that exists and is active
  now, a request is answered with 401 or 403 in the error envelope and the whole state is as it was;
  with them, its handler runs under exactly that identity.\<close>

theorem api_default_deny:
  assumes "users_wf w" and "\<not> isPublic (rq_call req)" and "\<forall>x. rq_authError req \<noteq> Some (App x)"
    and "rid = requestIdMiddleware (sv_run sv) (rq_requestIdHeader req)"
  shows "if \<exists>u. authenticated req u \<and> (needsActiveUser (rq_call req) \<longrightarrow> activeAccount u w)
    then snd (handleApi sv req w) = snd (dispatch sv req rid (the (rq_subject req))
           (requestContextFromRequest (Some rid) (rq_ip req)) (rq_call req) w)
    else \<exists>status envelope. handleApi sv req w = ((status, Inl envelope), w) \<and> status \<in> {401, 403}
           \<and> ee_requestId envelope = rid"
proof (cases "guards req w")
  case (Inl f)
  then obtain x where x: "f = App x" "ex_status x \<in> {401, 403}" using guards_refuse [OF _ assms(3)] by blast
  have "\<nexists>u. authenticated req u \<and> (needsActiveUser (rq_call req) \<longrightarrow> activeAccount u w)"
    using guards_identity [OF assms(1,2)] Inl by fastforce
  moreover have "handleApi sv req w = ((ex_status x, Inl \<lparr>ee_success = False, ee_data = None, ee_code = ex_code x,
      ee_message = ex_message x, ee_requestId = rid\<rparr>), w)"
    using Inl x(1) by (simp add: handleApi_def Let_def catchException_app assms(4))
  ultimately show ?thesis using x(2) by auto
next
  case (Inr r)
  then obtain u where u: "r = Some u" "authenticated req u" "needsActiveUser (rq_call req) \<longrightarrow> activeAccount u w"
    using guards_identity [OF assms(1,2)] by blast
  then have "u = the (rq_subject req)" by (simp add: authenticated_def)
  then have "snd (handleApi sv req w) = snd (dispatch sv req rid (the (rq_subject req))
           (requestContextFromRequest (Some rid) (rq_ip req)) (rq_call req) w)"
    using Inr u(1) by (auto simp: handleApi_def Let_def assms(4) split: prod.splits sum.splits)
  then show ?thesis using u(2,3) by auto
qed

definition demoServices :: services where
  "demoServices = \<lparr>sv_run = demoRun, sv_unicode = ascii_unicode, sv_crypto = plainCrypto, sv_auth = Auth.demoConfig,
     sv_decoyPasswordHash = [], sv_db = demoDb, sv_storage = demoStorage, sv_documents = demoLimits, sv_ocr = Ocr_Errors.demoConfig,
     sv_queue = plainQueue, sv_languages = demoLanguages,
     sv_health = \<lparr>hr_ok = True, hr_database = True, hr_redis = True, hr_storage = True, hr_ocr = Ready, hr_uptime = 1, hr_timestamp = 0\<rparr>,
     sv_ocrHealth = ocrHealthCheck Ocr_Errors.demoConfig None None demoLanguages (\<lambda>_. Inr []) newWorkerService 0\<rparr>"

definition demoRequest :: "Call \<Rightarrow> jsstring option \<Rightarrow> Request" where
  "demoRequest c sub = \<lparr>rq_requestIdHeader = Some (js ''r-1''), rq_ip = None, rq_userAgent = None, rq_authError = None,
     rq_subject = sub, rq_authInfo = None, rq_call = c\<rparr>"

theorem api_default_deny_witness:
  "\<exists>status envelope. handleApi demoServices (demoRequest (DocumentList \<lparr>q_page = 1, q_limit = 20, q_folderId = None, q_status = None,
       q_search = None, q_sort = SortCreatedAt, q_order = Desc\<rparr>) None) emptyWorld
     = ((status, Inl envelope), emptyWorld) \<and> status \<in> {401, 403} \<and> ee_requestId envelope = js ''r-1''"
proof -
  have "users_wf emptyWorld" by (simp add: users_wf_def emptyWorld_def)
  moreover have "truthy (Some (js ''r-1'')) \<and> INCOMING_REQUEST_ID_PATTERN (js ''r-1'')" by code_simp
  then have "requestIdMiddleware (sv_run demoServices) (Some (js ''r-1'')) = js ''r-1''"
    by (simp add: requestIdMiddleware_def)
  ultimately show ?thesis
    using api_default_deny [of emptyWorld "demoRequest (DocumentList \<lparr>q_page = 1, q_limit = 20, q_folderId = None, q_status = None,
       q_search = None, q_sort = SortCreatedAt, q_order = Desc\<rparr>) None" _ demoServices]
    by (simp add: demoRequest_def authenticated_def)
qed

end
