(* ===== verification/Effects.thy ===== *)
theory Effects
  imports Api
begin

text \<open>
  What the operations of the service do outside the tables they are about. The tables form three
  parts, accounts, library and recognition; the first section shows which parts an operation leaves
  alone, the others what the handlers of one account do to documents and jobs, and what the worker
  does outside the jobs.
\<close>

section \<open>What an operation leaves alone\<close>

definition accounts :: "World \<Rightarrow> User list \<times> RefreshToken list" where
  "accounts w = (users w, refreshTokens w)"

definition library :: "World \<Rightarrow> Folder list \<times> Document list" where
  "library w = (folders w, documents w)"

definition recognition :: "World \<Rightarrow> OcrJob list \<times> OcrPage list" where
  "recognition w = (ocrJobs w, ocrPages w)"

lemmas part_defs = accounts_def library_def recognition_def

lemma quietD: "quiet e \<Longrightarrow> others e i w = w"
  by (simp add: quiet_def)

lemma quiet_envs: "quiet e \<Longrightarrow> session_env e" "quiet e \<Longrightarrow> document_env e" "quiet e \<Longrightarrow> job_env e"
  by (simp_all add: quiet_def session_env_def document_env_def docs_step_same job_env_def step_refl)

lemma parts_log [simp]:
  "accounts (recordEvent ev w) = accounts w" "library (recordEvent ev w) = library w" "recognition (recordEvent ev w) = recognition w"
  by (simp_all add: part_defs)

lemma register_frame:
  "quiet e \<Longrightarrow> library (snd (register e uc cr cfg dto ctx w)) = library w \<and> recognition (snd (register e uc cr cfg dto ctx w)) = recognition w"
  by (auto simp: register_def registerTx_def createUser_def issueRefreshToken_def rejectDuplicateEmail_def part_defs quietD Let_def
      recordEvent_def rollback_def case_prod_unfold split: option.splits sum.splits prod.splits if_splits)

lemma login_frame:
  "quiet e \<Longrightarrow> library (snd (login e uc cr cfg decoy dto ctx w)) = library w \<and> recognition (snd (login e uc cr cfg decoy dto ctx w)) = recognition w"
  by (auto simp: login_def issueRefreshToken_def assertAccountActive_def part_defs quietD Let_def
      recordEvent_def rollback_def case_prod_unfold split: option.splits sum.splits prod.splits if_splits)

lemma refresh_frame:
  "quiet e \<Longrightarrow> library (snd (refresh e cr cfg raw ctx w)) = library w \<and> recognition (snd (refresh e cr cfg raw ctx w)) = recognition w"
  by (auto simp: refresh_def rotateTx_def handleReuse_def revokeTokens_def invalidRefreshToken_def issueRefreshToken_def
      assertAccountActive_def part_defs quietD Let_def recordEvent_def rollback_def case_prod_unfold
      split: option.splits sum.splits prod.splits if_splits)

lemma logout_frame:
  "quiet e \<Longrightarrow> library (snd (logout e cr cfg raw i ctx w)) = library w \<and> recognition (snd (logout e cr cfg raw i ctx w)) = recognition w"
  by (auto simp: logout_def revokeTokens_def part_defs quietD Let_def recordEvent_def rollback_def case_prod_unfold
      split: option.splits sum.splits prod.splits if_splits)

lemma updateMe_frame:
  "quiet e \<Longrightarrow> library (snd (updateMe e u dto w)) = library w \<and> recognition (snd (updateMe e u dto w)) = recognition w"
  by (auto simp: updateMe_def updateProfile_def prismaUserUpdate_def part_defs quietD Let_def case_prod_unfold
      split: option.splits sum.splits prod.splits if_splits)

lemma notFoundFor_tables [simp]:
  "users (snd (folderNotFoundFor u i ctx w)) = users w" "refreshTokens (snd (folderNotFoundFor u i ctx w)) = refreshTokens w"
  "folders (snd (folderNotFoundFor u i ctx w)) = folders w" "documents (snd (folderNotFoundFor u i ctx w)) = documents w"
  "ocrJobs (snd (folderNotFoundFor u i ctx w)) = ocrJobs w" "ocrPages (snd (folderNotFoundFor u i ctx w)) = ocrPages w"
  "users (snd (documentNotFoundFor u i ctx w)) = users w" "refreshTokens (snd (documentNotFoundFor u i ctx w)) = refreshTokens w"
  "folders (snd (documentNotFoundFor u i ctx w)) = folders w" "documents (snd (documentNotFoundFor u i ctx w)) = documents w"
  "ocrJobs (snd (documentNotFoundFor u i ctx w)) = ocrJobs w" "ocrPages (snd (documentNotFoundFor u i ctx w)) = ocrPages w"
  by (simp_all add: folderNotFoundFor_def documentNotFoundFor_def)

lemma getOwned_tables [simp]:
  "users (snd (getOwnedFolder u i ctx w)) = users w" "refreshTokens (snd (getOwnedFolder u i ctx w)) = refreshTokens w"
  "folders (snd (getOwnedFolder u i ctx w)) = folders w" "documents (snd (getOwnedFolder u i ctx w)) = documents w"
  "ocrJobs (snd (getOwnedFolder u i ctx w)) = ocrJobs w" "ocrPages (snd (getOwnedFolder u i ctx w)) = ocrPages w"
  "users (snd (getOwnedDocument u i ctx w)) = users w" "refreshTokens (snd (getOwnedDocument u i ctx w)) = refreshTokens w"
  "folders (snd (getOwnedDocument u i ctx w)) = folders w" "documents (snd (getOwnedDocument u i ctx w)) = documents w"
  "ocrJobs (snd (getOwnedDocument u i ctx w)) = ocrJobs w" "ocrPages (snd (getOwnedDocument u i ctx w)) = ocrPages w"
  by (simp_all add: getOwnedFolder_def getOwnedDocument_def case_prod_unfold split: option.split)

lemma assertValidMove_tables [simp]:
  "users (snd (assertValidMove u f p ctx w)) = users w" "refreshTokens (snd (assertValidMove u f p ctx w)) = refreshTokens w"
  "folders (snd (assertValidMove u f p ctx w)) = folders w" "documents (snd (assertValidMove u f p ctx w)) = documents w"
  "ocrJobs (snd (assertValidMove u f p ctx w)) = ocrJobs w" "ocrPages (snd (assertValidMove u f p ctx w)) = ocrPages w"
  by (simp_all add: assertValidMove_def case_prod_unfold Let_def split: option.split)

lemma createFolder_frame:
  "quiet e \<Longrightarrow> accounts (snd (createFolder e u dto ctx w)) = accounts w \<and> recognition (snd (createFolder e u dto ctx w)) = recognition w
     \<and> documents (snd (createFolder e u dto ctx w)) = documents w"
  by (auto simp: createFolder_def prismaFolderCreate_def part_defs quietD Let_def case_prod_unfold
      split: option.splits sum.splits prod.splits if_splits)

lemma updateFolder_frame:
  "quiet e \<Longrightarrow> accounts (snd (updateFolder e u i dto ctx w)) = accounts w \<and> recognition (snd (updateFolder e u i dto ctx w)) = recognition w
     \<and> documents (snd (updateFolder e u i dto ctx w)) = documents w"
  by (auto simp: updateFolder_def updateFolderTx_def part_defs quietD Let_def case_prod_unfold
      split: option.splits sum.splits prod.splits if_splits)

lemma removeFolder_parts:
  "quiet e \<Longrightarrow> accounts (snd (removeFolder e u i ctx w)) = accounts w \<and> recognition (snd (removeFolder e u i ctx w)) = recognition w"
  by (auto simp: removeFolder_def removeFolderTx_def part_defs quietD Let_def case_prod_unfold
      split: option.splits sum.splits prod.splits if_splits)

section \<open>Documents of one account\<close>

text \<open>What the handlers of an account do to the table of documents: rows keep id and owner, rows of others
  keep everything, and a document is put only into a folder of its owner.\<close>

definition filed_at :: "World \<Rightarrow> Document \<Rightarrow> bool" where
  "filed_at w d \<longleftrightarrow> (\<forall>i. d_folderId d = Some i \<longrightarrow> (\<exists>f\<in>set (folders w). f_id f = i \<and> f_userId f = d_userId d))"

definition own_row :: "uuid \<Rightarrow> World \<Rightarrow> Document \<Rightarrow> Document \<Rightarrow> bool" where
  "own_row u w d d' \<longleftrightarrow> d_id d' = d_id d \<and> d_userId d' = d_userId d \<and> (d_userId d \<noteq> u \<longrightarrow> d' = d)
     \<and> (d_folderId d' = d_folderId d \<or> filed_at w d')"

definition own_documents :: "uuid \<Rightarrow> World \<Rightarrow> World \<Rightarrow> bool" where
  "own_documents u w w' \<longleftrightarrow> folders w' = folders w
     \<and> (\<exists>f new. documents w' = map f (documents w) @ new \<and> (\<forall>d\<in>set (documents w). own_row u w d (f d))
          \<and> (\<forall>d\<in>set new. d_userId d = u \<and> filed_at w d))"

lemma own_row_refl: "own_row u w d d"
  by (simp add: own_row_def)

lemma own_documents_same: "folders w' = folders w \<Longrightarrow> documents w' = documents w \<Longrightarrow> own_documents u w w'"
  by (auto simp: own_documents_def own_row_refl intro: exI [of _ id])

lemma filed_at_cong: "folders w' = folders w \<Longrightarrow> filed_at w' d = filed_at w d"
  by (simp add: filed_at_def)

lemma own_row_trans:
  assumes "own_row u w a b" and "own_row u w' b c" and "folders w' = folders w"
  shows "own_row u w a c"
  using assms by (auto simp: own_row_def filed_at_def)

lemma own_documents_trans:
  assumes "own_documents u w w'" and "own_documents u w' w''"
  shows "own_documents u w w''"
proof -
  obtain f n where 1: "folders w' = folders w" "documents w' = map f (documents w) @ n"
    "\<forall>d\<in>set (documents w). own_row u w d (f d)" "\<forall>d\<in>set n. d_userId d = u \<and> filed_at w d"
    using assms(1) unfolding own_documents_def by blast
  obtain g m where 2: "folders w'' = folders w'" "documents w'' = map g (documents w') @ m"
    "\<forall>d\<in>set (documents w'). own_row u w' d (g d)" "\<forall>d\<in>set m. d_userId d = u \<and> filed_at w' d"
    using assms(2) unfolding own_documents_def by blast
  have "own_row u w d (g (f d))" if "d \<in> set (documents w)" for d
    using own_row_trans [OF _ _ 1(1)] 1(2,3) 2(3) that by auto
  moreover have "d_userId (g d) = u \<and> filed_at w (g d)" if "d \<in> set n" for d
  proof -
    have "own_row u w' d (g d)" using 1(2) 2(3) that by auto
    then show ?thesis using 1(1,4) that by (auto simp: own_row_def filed_at_def)
  qed
  ultimately show ?thesis
    unfolding own_documents_def using 1 2 filed_at_cong [OF 1(1)]
    by (intro conjI exI [of _ "\<lambda>d. g (f d)"] exI [of _ "map g n @ m"]) auto
qed

lemma own_documents_update:
  assumes "\<And>d. d \<in> set (documents w) \<Longrightarrow> p d \<Longrightarrow> d_userId d = u \<and> own_row u w d (g d)"
  shows "own_documents u w (w\<lparr>documents := snd (updateMany p g (documents w))\<rparr>)"
  unfolding own_documents_def using assms
  by (intro conjI exI [of _ "\<lambda>d. if p d then g d else d"] exI [of _ "[]"]) (auto simp: updateMany_def own_row_refl)

lemma own_documents_filed: "own_documents u w w' \<Longrightarrow> docs_filed w \<Longrightarrow> docs_filed w'"
proof -
  assume "own_documents u w w'" and filed: "docs_filed w"
  then obtain f n where f: "folders w' = folders w" "documents w' = map f (documents w) @ n"
    "\<forall>d\<in>set (documents w). own_row u w d (f d)" "\<forall>d\<in>set n. d_userId d = u \<and> filed_at w d"
    unfolding own_documents_def by blast
  have all: "docs_filed v \<longleftrightarrow> (\<forall>d\<in>set (documents v). filed_at v d)" for v
    by (simp add: docs_filed_def filed_at_def)
  have "filed_at w (f d)" if "d \<in> set (documents w)" for d
  proof -
    have "own_row u w d (f d)" "filed_at w d" using f(3) filed that by (auto simp: all)
    then show ?thesis by (auto simp: own_row_def filed_at_def)
  qed
  then show "docs_filed w'" unfolding all filed_at_cong [OF f(1)] using f(2,4) by auto
qed

lemma own_documents_foreign:
  assumes "own_documents u w w'"
  shows "filter (\<lambda>d. d_userId d \<noteq> u) (documents w') = filter (\<lambda>d. d_userId d \<noteq> u) (documents w)"
proof -
  obtain f n where f: "documents w' = map f (documents w) @ n"
    "\<forall>d\<in>set (documents w). own_row u w d (f d)" "\<forall>d\<in>set n. d_userId d = u \<and> filed_at w d"
    using assms unfolding own_documents_def by blast
  have "filter (\<lambda>d. d_userId d \<noteq> u) (map f (documents w)) = filter (\<lambda>d. d_userId d \<noteq> u) (documents w)"
    by (rule filter_map_keep) (use f(2) in \<open>auto simp: own_row_def\<close>)
  moreover have "filter (\<lambda>d. d_userId d \<noteq> u) n = []" using f(3) by (simp add: filter_empty_conv)
  ultimately show ?thesis by (simp add: f(1))
qed

lemma own_documents_log [simp]: "own_documents u w (recordEvent ev w') = own_documents u w w'"
  by (simp add: own_documents_def)

lemma own_documents_events [simp]: "own_documents u w (w'\<lparr>events := es\<rparr>) = own_documents u w w'"
  by (simp add: own_documents_def)

lemma own_documents_frame: "folders w'' = folders w' \<Longrightarrow> documents w'' = documents w' \<Longrightarrow> own_documents u w w'' = own_documents u w w'"
  by (simp add: own_documents_def)

lemma existing_folder: "findFirst (\<lambda>x. f_id x = i) (folders w) \<noteq> None \<Longrightarrow> \<exists>f\<in>set (folders w). f_id f = i"
  using findFirst_SomeD by fastforce

lemma folder_ids: "folders_wf w \<Longrightarrow> f \<in> set (folders w) \<Longrightarrow> f_id f \<noteq> []"
  by (auto simp: folders_wf_def forest_def tree_ok_def)

lemma createDocument_own:
  assumes "quiet e" and "folders_wf w"
  shows "own_documents u w (snd (createDocument e u dto ctx w))"
proof -
  let ?row = "\<lparr>d_id = freshId e 0, d_userId = u, d_folderId = cd_folderId dto, d_title = cd_title dto,
                 d_description = emptyToNull (cd_description dto), d_status = DRAFT, d_mimeType = None,
                 d_fileSize = None, d_pageCount = None, d_storageKey = None, d_originalName = None,
                 d_createdAt = clock e 0, d_updatedAt = clock e 0, d_deletedAt = None\<rparr>"
  have insert: "own_documents u w (snd (prismaDocumentCreate ?row w))"
    if "\<And>i. cd_folderId dto = Some i \<Longrightarrow> i \<noteq> [] \<Longrightarrow> \<exists>f\<in>set (folders w). f_id f = i \<and> f_userId f = u"
  proof (cases "\<exists>i. cd_folderId dto = Some i \<and> findFirst (\<lambda>x. f_id x = i) (folders w) = None")
    case True
    then show ?thesis by (auto simp: prismaDocumentCreate_def own_documents_same)
  next
    case False
    then have "filed_at w ?row"
      using that existing_folder [of _ w] folder_ids [OF assms(2)] by (auto simp: filed_at_def) metis
    then have "own_documents u w (w\<lparr>documents := createRow ?row (documents w)\<rparr>)"
      unfolding own_documents_def
      by (intro conjI exI [of _ id] exI [of _ "[?row]"]) (auto simp: own_row_refl createRow_def)
    then show ?thesis by (simp add: prismaDocumentCreate_def own_documents_same)
  qed
  show ?thesis
  proof (cases "truthy (cd_folderId dto)")
    case False
    then have "\<And>i. cd_folderId dto = Some i \<Longrightarrow> i = []" by (auto simp: truthy_def)
    then have "own_documents u w (snd (prismaDocumentCreate ?row w))" using insert by blast
    with False show ?thesis by (auto simp: createDocument_def split: prod.split sum.split)
  next
    case True
    then obtain i where i: "cd_folderId dto = Some i" by (auto simp: truthy_def split: option.splits)
    show ?thesis
    proof (cases rule: fol.get_cases [of u i ctx w])
      case (missing evs)
      with True i show ?thesis by (simp add: createDocument_def own_documents_same)
    next
      case (found f)
      then have "own_documents u w (snd (prismaDocumentCreate ?row w))" using insert i by auto
      with True i found(1) assms(1) show ?thesis by (auto simp: createDocument_def quietD split: prod.split sum.split)
    qed
  qed
qed

lemma writeDocument_own:
  assumes "\<And>i. ud_folderId dto = Some (Some i) \<Longrightarrow> findFirst (\<lambda>x. f_id x = i) (folders w) \<noteq> None \<Longrightarrow>
      \<exists>f\<in>set (folders w). f_id f = i \<and> f_userId f = u"
  shows "own_documents u w (snd (writeDocument u i dto now w))"
proof -
  let ?w = "w\<lparr>documents := snd (updateMany (ownLive u i) (applyDocumentData dto now) (documents w))\<rparr>"
  have "own_documents u w ?w" if "\<nexists>f. ud_folderId dto = Some (Some f) \<and> findFirst (\<lambda>x. f_id x = f) (folders w) = None"
    by (rule own_documents_update)
      (use that assms in \<open>auto simp: ownLive_def own_row_def applyDocumentData_def filed_at_def split: option.splits\<close>)
  moreover have "updateMany (ownLive u i) (applyDocumentData dto now) (documents w) = (0, documents w)"
    if "fst (updateMany (ownLive u i) (applyDocumentData dto now) (documents w)) = 0"
    using that by (auto simp: updateMany_def filter_empty_conv intro!: map_idI)
  ultimately show ?thesis
    by (auto simp: writeDocument_def case_prod_unfold Let_def own_documents_same split: option.splits)
qed

lemma updateDocument_own:
  assumes "quiet e" and "folders_wf w"
  shows "own_documents u w (snd (updateDocument e u i dto ctx w))"
proof (cases rule: own.get_cases [of u i ctx w])
  case (missing evs)
  then show ?thesis by (simp add: updateDocument_def own_documents_same)
next
  case (found c)
  note q = assms(1) [unfolded quiet_def]
  have after: "own_documents u w (snd (case writeDocument u (d_id c) dto (clock e 0) w of
                       (Inl x, w3) \<Rightarrow> (Inl x, w3)
                     | (Inr n, w3) \<Rightarrow>
                         if n \<noteq> 1 then (Inl documentNotFound, w3)
                         else (case getOwnedDocument u i ctx w3 of
                              (Inl x, w4) \<Rightarrow> (Inl x, w4)
                            | (Inr document, w4) \<Rightarrow> (Inr document, recordEvent (f document) w4))))"
    if ok: "\<And>i. ud_folderId dto = Some (Some i) \<Longrightarrow> findFirst (\<lambda>x. f_id x = i) (folders w) \<noteq> None \<Longrightarrow>
      \<exists>f\<in>set (folders w). f_id f = i \<and> f_userId f = u" for f
  proof -
    obtain r w3 where wr: "writeDocument u (d_id c) dto (clock e 0) w = (r, w3)" by fastforce
    then have o: "own_documents u w w3" using writeDocument_own [of dto w u "d_id c" "clock e 0"] ok by simp
    show ?thesis
    proof (cases r)
      case (Inr n)
      show ?thesis
      proof (cases rule: own.get_cases [of u i ctx w3])
        case (found d)
        with wr Inr o show ?thesis by simp
      next
        case (missing evs)
        with wr Inr o show ?thesis by simp
      qed
    qed (use wr o in simp)
  qed
  show ?thesis
  proof (cases "\<exists>f. ud_folderId dto = Some (Some f) \<and> f \<noteq> []")
    case True
    then obtain f where f: "ud_folderId dto = Some (Some f)" "f \<noteq> []" by blast
    show ?thesis
    proof (cases rule: fol.get_cases [of u f ctx w])
      case (missing evs)
      with f found(1) assms(1) show ?thesis by (simp add: updateDocument_def quietD own_documents_same)
    next
      case g: (found x)
      then have "\<exists>f\<in>set (folders w). f_id f = j \<and> f_userId f = u" if "ud_folderId dto = Some (Some j)" for j
        using that f(1) by auto
      from after [OF this] f found(1) g(1) show ?thesis
        unfolding updateDocument_def q by (simp add: own_documents_same)
    qed
  next
    case False
    have "\<exists>f\<in>set (folders w). f_id f = i \<and> f_userId f = u"
      if "ud_folderId dto = Some (Some i)" "findFirst (\<lambda>x. f_id x = i) (folders w) \<noteq> None" for i
      using that False existing_folder [OF that(2)] folder_ids [OF assms(2)] by auto
    from after [OF this] False found(1) show ?thesis
      unfolding updateDocument_def q by (auto simp: own_documents_same split: option.splits)
  qed
qed

lemma removeDocument_own:
  assumes "quiet e"
  shows "own_documents u w (snd (removeDocument e u i ctx w))"
proof -
  let ?f = "\<lambda>d. d\<lparr>d_deletedAt := Some (clock e 0), d_status := DELETED, d_updatedAt := clock e 1\<rparr>"
  have o: "own_documents u w (w\<lparr>documents := snd (updateMany (ownLive u i) ?f (documents w))\<rparr>)"
    by (rule own_documents_update) (auto simp: ownLive_def own_row_def)
  then have "own_documents u w (snd (documentNotFoundFor u i ctx (w\<lparr>documents := snd (updateMany (ownLive u i) ?f (documents w))\<rparr>)))"
    by (subst own_documents_frame) simp_all
  with o assms show ?thesis by (auto simp: removeDocument_def case_prod_unfold Let_def quietD)
qed

lemma tryDelete_tables [simp]:
  "users (tryDelete st k w) = users w" "refreshTokens (tryDelete st k w) = refreshTokens w" "folders (tryDelete st k w) = folders w"
  "documents (tryDelete st k w) = documents w" "ocrJobs (tryDelete st k w) = ocrJobs w" "ocrPages (tryDelete st k w) = ocrPages w"
  by (simp_all add: tryDelete_def split: option.split)

lemma own_documents_tryDelete [simp]: "own_documents u w (tryDelete st k w') = own_documents u w w'"
  by (simp add: own_documents_def)

lemma declareUpload_own: "own_documents u w (snd (declareUpload u i k ct sz nm now w))"
proof -
  have "own_documents u w (w\<lparr>documents := snd (updateMany (uploadable u i)
            (\<lambda>d. d\<lparr>d_status := UPLOADING, d_storageKey := Some k, d_mimeType := Some ct,
                   d_fileSize := Some sz, d_originalName := Some nm, d_pageCount := None,
                   d_updatedAt := now\<rparr>) (documents w))\<rparr>)"
    by (rule own_documents_update) (auto simp: uploadable_def ownLive_def own_row_def)
  then show ?thesis by (auto simp: declareUpload_def case_prod_unfold Let_def own_documents_same)
qed

lemma createUploadUrl_own:
  assumes "quiet e"
  shows "own_documents u w (snd (createUploadUrl e uc st cfg u i dto ctx w))"
proof (cases rule: createUploadUrl_cases [of e uc st cfg u i dto ctx w])
  case (refused f evs)
  then show ?thesis by (simp add: own_documents_same)
next
  case (granted ct sz nm c k)
  obtain r w2 where d: "declareUpload u (d_id c) k ct sz nm (clock e 0) w = (r, w2)" by fastforce
  have o: "own_documents u w w2" using declareUpload_own [of u w "d_id c" k ct sz nm "clock e 0"] d by simp
  have o3: "own_documents u w (removeSuperseded e st c k w2)"
    using o assms by (subst own_documents_frame [where w' = w2]) (simp_all add: removeSuperseded_def quietD)
  have "own_documents u w (snd (grantUpload e st cfg u i ctx ct sz nm c k w))"
  proof (cases rule: own.get_cases [of u i ctx "removeSuperseded e st c k w2"])
    case (found x)
    with d o o3 assms show ?thesis by (auto simp: grantUpload_def quietD Let_def split: sum.split)
  next
    case (missing evs)
    with d o o3 assms show ?thesis by (auto simp: grantUpload_def quietD Let_def split: sum.split)
  qed
  then show ?thesis using granted(7) by simp
qed

lemma rejectUpload_own:
  assumes "quiet e"
  shows "own_documents u w (rejectUpload e st u c ps ctx w)"
proof -
  have "own_documents u w (w\<lparr>documents := snd (updateMany (uploadingUnder u c)
                   (\<lambda>d. d\<lparr>d_status := FAILED_DOC, d_updatedAt := clock e 1\<rparr>) (documents w))\<rparr>)"
    by (rule own_documents_update) (auto simp: uploadingUnder_def own_row_def)
  then show ?thesis using assms by (simp add: rejectUpload_def Let_def quietD)
qed

lemma readyWrite_own: "own_documents u w (snd (readyWrite e u c h t w))"
  unfolding readyWrite_def Let_def case_prod_unfold snd_conv
  by (rule own_documents_update) (auto simp: uploadingUnder_def own_row_def)

lemma completeUpload_own:
  assumes "quiet e"
  shows "own_documents u w (snd (completeUpload e uc st cfg u i etag ctx w))"
proof (cases rule: own.get_cases [of u i ctx w])
  case (missing evs)
  then show ?thesis by (simp add: completeUpload_def own_documents_same)
next
  case (found c)
  show ?thesis
  proof (cases "d_status c = UPLOADING \<and> truthy (d_storageKey c)
      \<and> (\<exists>h. headObject st (the (d_storageKey c)) = Inr (Some h))")
    case False
    with found(1) assms show ?thesis
      by (auto simp: completeUpload_def quietD own_documents_same split: sum.splits option.splits)
  next
    case True
    then obtain h where h: "headObject st (the (d_storageKey c)) = Inr (Some h)" by blast
    show ?thesis
    proof (cases "uploadProblems uc cfg c h etag = []")
      case False
      with completeUpload_cases(1) [OF found(1) _ _ h] True obtain f where
        "completeUpload e uc st cfg u i etag ctx w
           = (Inl f, rejectUpload e st u c (uploadProblems uc cfg c h etag) ctx (others e 0 w))" by blast
      then show ?thesis using rejectUpload_own [OF assms] assms by (simp add: quietD)
    next
      case ok: True
      obtain n v where rw: "readyWrite e u c h (storedTypeOf uc h) (others e 0 w) = (n, v)" by fastforce
      obtain r v' where g: "getOwnedDocument u i ctx (others e 1 v) = (r, v')" by fastforce
      have o: "own_documents u w v" using readyWrite_own [of u w e c h "storedTypeOf uc h"] rw assms by (simp add: quietD)
      have "v' = snd (getOwnedDocument u i ctx v)" using g assms by (simp add: quietD)
      then have "own_documents u w v'" using o own_documents_frame [of v' v u w] by simp
      with completeUpload_cases(2) [OF found(1) _ _ h ok rw g] True show ?thesis
        by (auto split: sum.splits if_splits)
    qed
  qed
qed

text \<open>The handlers of documents write no other table.\<close>

lemma prismaDocumentCreate_tables [simp]:
  "users (snd (prismaDocumentCreate r w)) = users w" "refreshTokens (snd (prismaDocumentCreate r w)) = refreshTokens w"
  "ocrJobs (snd (prismaDocumentCreate r w)) = ocrJobs w" "ocrPages (snd (prismaDocumentCreate r w)) = ocrPages w"
  by (simp_all add: prismaDocumentCreate_def)

lemma write_tables [simp]:
  "users (snd (writeDocument u i dto now w)) = users w" "refreshTokens (snd (writeDocument u i dto now w)) = refreshTokens w"
  "ocrJobs (snd (writeDocument u i dto now w)) = ocrJobs w" "ocrPages (snd (writeDocument u i dto now w)) = ocrPages w"
  "users (snd (declareUpload u i k ct sz nm now w)) = users w" "refreshTokens (snd (declareUpload u i k ct sz nm now w)) = refreshTokens w"
  "ocrJobs (snd (declareUpload u i k ct sz nm now w)) = ocrJobs w" "ocrPages (snd (declareUpload u i k ct sz nm now w)) = ocrPages w"
  by (simp_all add: writeDocument_def declareUpload_def case_prod_unfold Let_def)

lemma document_handlers_frame:
  assumes "quiet e"
    and "w' \<in> {snd (createDocument e u cdto ctx w), snd (updateDocument e u i udto ctx w), snd (removeDocument e u i ctx w),
      snd (createUploadUrl e uc st cfg u i pdto ctx w), snd (completeUpload e uc st cfg u i etag ctx w)}"
  shows "accounts w' = accounts w \<and> recognition w' = recognition w"
proof -
  have "accounts (snd (createDocument e u cdto ctx w)) = accounts w \<and> recognition (snd (createDocument e u cdto ctx w)) = recognition w"
    using assms(1) by (auto simp: createDocument_def part_defs quietD Let_def case_prod_unfold split: option.splits sum.splits if_splits)
  moreover have "accounts (snd (updateDocument e u i udto ctx w)) = accounts w
      \<and> recognition (snd (updateDocument e u i udto ctx w)) = recognition w"
    using assms(1) by (auto simp: updateDocument_def part_defs quietD Let_def case_prod_unfold split: option.splits sum.splits if_splits)
  moreover have "accounts (snd (removeDocument e u i ctx w)) = accounts w \<and> recognition (snd (removeDocument e u i ctx w)) = recognition w"
    using assms(1) by (auto simp: removeDocument_def part_defs quietD Let_def case_prod_unfold)
  moreover have "accounts (snd (createUploadUrl e uc st cfg u i pdto ctx w)) = accounts w
      \<and> recognition (snd (createUploadUrl e uc st cfg u i pdto ctx w)) = recognition w"
    using assms(1)
    by (cases rule: createUploadUrl_cases [of e uc st cfg u i pdto ctx w])
      (auto simp: grantUpload_def removeSuperseded_def part_defs quietD Let_def case_prod_unfold split: option.splits sum.splits if_splits)
  moreover have "accounts (snd (completeUpload e uc st cfg u i etag ctx w)) = accounts w
      \<and> recognition (snd (completeUpload e uc st cfg u i etag ctx w)) = recognition w"
    using assms(1) by (auto simp: completeUpload_def rejectUpload_def part_defs quietD Let_def case_prod_unfold
        split: option.splits sum.splits if_splits)
  ultimately show ?thesis using assms(2) by auto
qed

section \<open>Jobs of one account\<close>

text \<open>A request or a retry adds at most one job, for a live document of the caller.\<close>

definition adds_job :: "uuid \<Rightarrow> World \<Rightarrow> World \<Rightarrow> bool" where
  "adds_job u w w' \<longleftrightarrow> accounts w' = accounts w \<and> library w' = library w \<and> ocrPages w' = ocrPages w
     \<and> (ocrJobs w' = ocrJobs w \<or> (\<exists>r. ocrJobs w' = ocrJobs w @ [r] \<and> j_userId r = u \<and> job_row_ok r
          \<and> j_id r \<notin> j_id ` set (ocrJobs w) \<and> (\<exists>d\<in>set (documents w). d_id d = j_documentId r \<and> d_userId d = u)))"

lemma adds_job_same:
  "accounts w' = accounts w \<Longrightarrow> library w' = library w \<Longrightarrow> recognition w' = recognition w \<Longrightarrow> adds_job u w w'"
  by (simp add: adds_job_def recognition_def)

lemma adds_job_log [simp]: "adds_job u w (recordEvent ev w') = adds_job u w w'"
  by (simp add: adds_job_def part_defs)

lemma adds_job_schedule: "bull_ok q \<Longrightarrow> adds_job u w w' \<Longrightarrow> adds_job u w (schedule q j w')"
proof (cases "addEntry q (j_id j) w'")
  case (Inr w'')
  assume "bull_ok q" and a: "adds_job u w w'"
  with Inr obtain es where "w'' = w'\<lparr>queueEntries := es\<rparr>" unfolding bull_ok_def by blast
  then show ?thesis using Inr a by (simp add: schedule_def enqueue_def adds_job_def part_defs)
qed (simp add: schedule_def enqueue_def)

lemma createJob_adds:
  assumes "\<exists>d\<in>set (documents w). d_id d = i \<and> d_userId d = u"
  shows "adds_job u w (snd (createJob e cfg u i l w))"
proof (cases "findJobById (freshId e 0) w = None")
  case True
  then have "freshId e 0 \<notin> j_id ` set (ocrJobs w)"
    by (auto simp: findJobById_def findFirst_def find_None_iff)
  then show ?thesis using assms
    by (auto simp: createJob_def adds_job_def part_defs Let_def createRow_def job_row_ok_def isTerminal_def
        TERMINAL_OCR_STATUSES_def)
qed (simp add: createJob_def adds_job_def)

lemma createUnderQuota_adds:
  assumes "quiet e" and "\<exists>d\<in>set (documents w). d_id d = i \<and> d_userId d = u"
  shows "adds_job u w (snd (createUnderQuota e cfg u i l w))"
  using createJob_adds [OF assms(2), of e cfg l] assms(1) unfolding createUnderQuota_def assertQuota_def quiet_def
  by (auto simp: Let_def adds_job_same split: option.split)

lemma requestTx_adds:
  assumes "quiet e" and "\<exists>d\<in>set (documents w). d_id d = i \<and> d_userId d = u"
  shows "adds_job u w (snd (requestTx e db cfg u i l force w))"
proof -
  obtain r w2 where c: "createUnderQuota e cfg u i l w = (r, w2)" by fastforce
  then have "adds_job u w w2" using createUnderQuota_adds [OF assms, of cfg l] by simp
  then show ?thesis using c assms(1) unfolding requestTx_def quiet_def
    by (auto simp: Let_def adds_job_same split: option.split sum.split)
qed

lemma retryTx_adds:
  assumes "quiet e" and "\<exists>d\<in>set (documents w). d_id d = i \<and> d_userId d = u"
  shows "adds_job u w (snd (retryTx e db cfg av u i w))"
  using createUnderQuota_adds [OF assms] assms(1) unfolding retryTx_def quiet_def
  by (auto simp: adds_job_same split: option.split sum.split)

lemma requestOcr_adds:
  assumes "quiet e" and "bull_ok q"
  shows "adds_job u w (snd (requestOcr e db cfg q av u i dto ctx w))"
proof (cases rule: own.get_cases [of u i ctx w])
  case (missing evs)
  then show ?thesis by (simp add: requestOcr_def adds_job_same part_defs)
next
  case (found d)
  note o = assms(1) [unfolded quiet_def]
  show ?thesis
  proof (cases "resolve cfg av (rq_language dto)")
    case (Inl f)
    with found(1) show ?thesis by (simp add: requestOcr_def o adds_job_same)
  next
    case (Inr l)
    obtain r w2 where c: "requestTx e db cfg u i l (rq_forceReprocess dto = Some True) w = (r, w2)" by fastforce
    have a: "adds_job u w w2"
      using requestTx_adds [OF assms(1), of w i u db cfg l "rq_forceReprocess dto = Some True"] c found by auto
    then show ?thesis
      using found(1) Inr c adds_job_schedule [OF assms(2) a] unfolding requestOcr_def o
      by (auto simp: Let_def adds_job_same split: option.split sum.split)
  qed
qed

lemma retryOcr_adds:
  assumes "quiet e" and "bull_ok q"
  shows "adds_job u w (snd (retryOcr e db cfg q av u i ctx w))"
proof (cases rule: own.get_cases [of u i ctx w])
  case (missing evs)
  then show ?thesis by (simp add: retryOcr_def adds_job_same part_defs)
next
  case (found d)
  note o = assms(1) [unfolded quiet_def]
  obtain r w2 where c: "retryTx e db cfg av u i w = (r, w2)" by fastforce
  have a: "adds_job u w w2" using retryTx_adds [OF assms(1), of w i u db cfg av] c found by auto
  then show ?thesis
    using found(1) c adds_job_schedule [OF assms(2) a] unfolding retryOcr_def o
    by (auto simp: adds_job_same split: option.split sum.split)
qed

section \<open>The worker\<close>

text \<open>What deliveries and reconciliations do outside the jobs: they write the number of pages of a document.\<close>

definition place :: "Document \<Rightarrow> uuid \<times> uuid \<times> uuid option" where
  "place d = (d_id d, d_userId d, d_folderId d)"

definition job_place :: "OcrJob \<Rightarrow> uuid \<times> uuid \<times> uuid" where
  "job_place j = (j_id j, j_documentId j, j_userId j)"

definition job_work :: "World \<Rightarrow> World \<Rightarrow> bool" where
  "job_work w w' \<longleftrightarrow> accounts w' = accounts w \<and> folders w' = folders w \<and> docs_step w w'
     \<and> map place (documents w') = map place (documents w) \<and> map job_place (ocrJobs w') = map job_place (ocrJobs w)"

lemma job_work_jobs:
  "accounts w' = accounts w \<Longrightarrow> library w' = library w \<Longrightarrow> map job_place (ocrJobs w') = map job_place (ocrJobs w) \<Longrightarrow> job_work w w'"
  by (simp add: job_work_def library_def docs_step_same)

lemma updateJobs_work:
  "(\<And>j. job_place (f j) = job_place j) \<Longrightarrow> job_work w (snd (updateJobs p f now w))"
  by (rule job_work_jobs) (auto simp: part_defs updateJobs_rows job_place_def)

lemma job_work_trans: "job_work u v \<Longrightarrow> job_work v w \<Longrightarrow> job_work u w"
  unfolding job_work_def using docs_step_trans by metis

lemma perform_work: "job_work w (perform op w)"
proof (cases op)
  case (SetTotalPages i d n now)
  let ?w1 = "snd (updateJobs (\<lambda>j. j_id j = i \<and> j_status j = PROCESSING)
                 (\<lambda>j. j\<lparr>j_totalPages := Some n, j_heartbeatAt := Some now\<rparr>) now w)"
  let ?p = "\<lambda>x. d_id x = d \<and> d_deletedAt x = None" and ?f = "\<lambda>x. x\<lparr>d_pageCount := Some n, d_updatedAt := now\<rparr>"
  have "docs_step ?w1 (?w1\<lparr>documents := snd (updateMany ?p ?f (documents ?w1))\<rparr>)"
    by (rule docs_step_update) (auto simp: doc_row_ok_def doc_le_def fileOf_def)
  then have "job_work ?w1 (?w1\<lparr>documents := snd (updateMany ?p ?f (documents ?w1))\<rparr>)"
    by (auto simp: job_work_def part_defs updateMany_def place_def)
  moreover have "job_work w ?w1" by (rule updateJobs_work) (simp add: job_place_def)
  ultimately show ?thesis using job_work_trans SetTotalPages by (simp add: setTotalPages_def Let_def)
next
  case (PersistPage i x db)
  then show ?thesis by (auto simp: persistPage_def part_defs Let_def case_prod_unfold job_work_jobs updateJobs_rows job_place_def
        split: option.split intro!: job_work_jobs)
next
  case (Finalize i now)
  then show ?thesis by (auto simp: finalize_def Let_def case_prod_unfold job_place_def intro!: updateJobs_work job_work_jobs
        split: option.split)
qed (auto simp: claim_def heartbeat_def failJob_def requeue_def cancelJob_def recover_def Let_def case_prod_unfold job_place_def
    intro!: updateJobs_work)

interpretation work: job_relation job_work
proof unfold_locales
  show "job_work w (perform op w)" for w op by (rule perform_work)
  show "job_work w w" for w by (rule job_work_jobs) simp_all
  show "job_work u w" if "job_work u v" "job_work v w" for u v w using job_work_trans [OF that] .
  show "job_work w w'" if "bull_ok q" "addEntry q i w = Inr w'" for q i w w'
    using bull_frame(1) [OF that] by (auto simp: job_work_def part_defs docs_step_same)
  show "job_work w w'" if "bull_ok q" "dropEntry q i w = Inr w'" for q i w w'
    using bull_frame(2) [OF that] by (auto simp: job_work_def part_defs docs_step_same)
qed

end
