(* ===== verification/System.thy ===== *)
theory System
  imports Effects
begin

text \<open>
  The service as a whole over time: requests of the API, deliveries of the queue to the worker and
  runs of the reconciler, one after the other, from an empty database on. The
  guarantees of the components and the effects of the operations give the
  invariant of every reachable state, and that accounts are separated from each other: what one
  account does changes no row of another, and what it reads depends on its own rows only.
\<close>

section \<open>Calls\<close>

definition unchanged :: "World \<Rightarrow> World \<Rightarrow> bool" where
  "unchanged w w' \<longleftrightarrow> accounts w' = accounts w \<and> library w' = library w \<and> recognition w' = recognition w"

lemma unchanged_refl: "unchanged w w"
  by (simp add: unchanged_def)

lemma getOwned_unchanged: "unchanged w (snd (getOwnedFolder u i ctx w))" "unchanged w (snd (getOwnedDocument u i ctx w))"
  by (simp_all add: unchanged_def part_defs)

text \<open>Reading writes no table.\<close>

lemma reads_unchanged:
  assumes "quiet e"
  shows "unchanged w (snd (listFolders e le u p ctx w))" "unchanged w (snd (listDocuments e db u q ctx w))"
    "unchanged w (snd (createDownloadUrl st cfg u i ctx w))" "unchanged w (snd (ocrStatus e db u i ctx w))"
    "unchanged w (snd (ocrResults e db u i rq ctx w))"
  using assms
  by (auto simp: unchanged_def part_defs listFolders_def listDocuments_def createDownloadUrl_def ocrStatus_def ocrResults_def
      quietD Let_def case_prod_unfold split: option.splits sum.splits if_splits)

text \<open>What the handler of a call of the account \<open>u\<close> does: it works on accounts and sessions, on the account's
  documents, on its folders, or adds a job.\<close>

definition doc_owner :: "Document \<Rightarrow> uuid \<times> uuid" where
  "doc_owner d = (d_id d, d_userId d)"

definition job_doc :: "OcrJob \<Rightarrow> uuid \<times> uuid" where
  "job_doc j = (j_documentId j, j_userId j)"

definition folder_work :: "uuid \<Rightarrow> World \<Rightarrow> World \<Rightarrow> bool" where
  "folder_work u w w' \<longleftrightarrow> folders_wf w' \<and> docs_step w w' \<and> map doc_owner (documents w') = map doc_owner (documents w)
     \<and> filter (\<lambda>f. f_userId f \<noteq> u) (folders w') = filter (\<lambda>f. f_userId f \<noteq> u) (folders w)
     \<and> filter (\<lambda>d. d_userId d \<noteq> u) (documents w') = filter (\<lambda>d. d_userId d \<noteq> u) (documents w)"

lemma folder_handlers_work:
  assumes "folders_wf w" and "ids_ok e" and "quiet e"
    and "w' \<in> {snd (createFolder e u cdto ctx w), snd (updateFolder e u i udto ctx w), snd (removeFolder e u i ctx w)}"
  shows "folder_work u w w' \<and> accounts w' = accounts w \<and> recognition w' = recognition w"
proof -
  have "docs_step w w' \<and> map doc_owner (documents w') = map doc_owner (documents w)"
  proof (cases "w' = snd (removeFolder e u i ctx w)")
    case True
    have "map doc_owner (documents w') = map doc_owner (documents w)"
    proof (cases "\<exists>t\<in>set (folders w). f_id t = i \<and> f_userId t = u")
      case False
      with removeFolder_frame [OF False, of e ctx] True show ?thesis by auto
    next
      case owned: True
      then obtain t where "t \<in> set (folders w)" "f_id t = i" "f_userId t = u" by blast
      with removeFolderTx_found [OF assms(1), of t e ctx] True show ?thesis by (auto simp: removeFolder_def doc_owner_def)
    qed
    with True show ?thesis using removeFolder_docs_step [OF assms(1)] by simp
  next
    case False
    with assms(4) have "documents w' = documents w"
      using createFolder_frame [OF assms(3)] updateFolder_frame [OF assms(3)] by auto
    then show ?thesis by (simp add: docs_step_same)
  qed
  moreover have "accounts w' = accounts w \<and> recognition w' = recognition w"
    using assms(4) createFolder_frame [OF assms(3)] updateFolder_frame [OF assms(3)] removeFolder_parts [OF assms(3)] by auto
  moreover have "folders_wf w'" using assms(1,2,4) createFolder_wf updateFolder_wf removeFolder_wf by blast
  ultimately show ?thesis using folder_operations_scoped [OF assms(1,4)] by (simp add: folder_work_def)
qed

definition jobs_filed :: "World \<Rightarrow> bool" where
  "jobs_filed w \<longleftrightarrow> (\<forall>j\<in>set (ocrJobs w). \<exists>d\<in>set (documents w). d_id d = j_documentId j \<and> d_userId d = j_userId j)"

text \<open>The invariant of the whole database: that of each group of tables, and every job is for a document of its owner.\<close>

definition system_wf :: "World \<Rightarrow> bool" where
  "system_wf w \<longleftrightarrow> auth_wf w \<and> folders_wf w \<and> documents_wf w \<and> jobs_wf w \<and> jobs_filed w"

lemma system_wfD:
  assumes "system_wf w"
  shows "auth_wf w" "folders_wf w" "documents_wf w" "jobs_wf w" "jobs_filed w"
  using assms unfolding system_wf_def by blast+

lemma system_wfI: "auth_wf w \<Longrightarrow> folders_wf w \<Longrightarrow> documents_wf w \<Longrightarrow> jobs_wf w \<Longrightarrow> jobs_filed w \<Longrightarrow> system_wf w"
  unfolding system_wf_def by blast

lemma wf_parts:
  "accounts w' = accounts w \<Longrightarrow> auth_wf w' = auth_wf w"
  "library w' = library w \<Longrightarrow> folders_wf w' = folders_wf w"
  "library w' = library w \<Longrightarrow> documents_wf w' = documents_wf w"
  "recognition w' = recognition w \<Longrightarrow> jobs_wf w' = jobs_wf w"
  by (simp_all add: part_defs auth_wf_def users_wf_def folders_wf_def docs_filed_def documents_wf_def jobs_wf_def)

text \<open>A job stays filed while documents keep id and owner and jobs keep document and owner.\<close>

lemma jobs_filed_image: "jobs_filed w \<longleftrightarrow> job_doc ` set (ocrJobs w) \<subseteq> doc_owner ` set (documents w)"
proof -
  have "job_doc j \<in> doc_owner ` set (documents w) \<longleftrightarrow> (\<exists>d\<in>set (documents w). d_id d = j_documentId j \<and> d_userId d = j_userId j)" for j
    by (auto simp: job_doc_def doc_owner_def image_iff) metis
  then show ?thesis unfolding jobs_filed_def by blast
qed

lemma jobs_filed_same:
  "jobs_filed w \<Longrightarrow> doc_owner ` set (documents w) \<subseteq> doc_owner ` set (documents w') \<Longrightarrow> job_doc ` set (ocrJobs w') = job_doc ` set (ocrJobs w)
     \<Longrightarrow> jobs_filed w'"
  unfolding jobs_filed_image by simp

lemma own_documents_owners: "own_documents u w w' \<Longrightarrow> doc_owner ` set (documents w) \<subseteq> doc_owner ` set (documents w')"
proof -
  assume "own_documents u w w'"
  then obtain f n where f: "documents w' = map f (documents w) @ n" "\<forall>d\<in>set (documents w). own_row u w d (f d)"
    unfolding own_documents_def by blast
  then have "doc_owner d = doc_owner (f d) \<and> f d \<in> set (documents w')" if "d \<in> set (documents w)" for d
    using that by (simp add: own_row_def doc_owner_def)
  then show ?thesis by (intro image_subsetI) (metis imageI)
qed

lemma same_image: "map f ys = map f xs \<Longrightarrow> f ` set ys = f ` set xs"
  by (metis list.set_map)

text \<open>The four kinds of work and the invariant.\<close>

lemma accounts_work_wf:
  assumes "system_wf w" and "auth_wf w'" and "library w' = library w" and "recognition w' = recognition w"
  shows "system_wf w'"
proof (rule system_wfI)
  show "jobs_filed w'" using system_wfD(5) [OF assms(1)] assms(3,4) by (simp add: jobs_filed_def part_defs)
qed (use assms system_wfD [OF assms(1)] wf_parts [of w' w] in simp_all)

lemma document_work_wf:
  assumes "system_wf w" and "own_documents u w w'" and "docs_step w w'" and "accounts w' = accounts w" and "recognition w' = recognition w"
  shows "system_wf w'"
proof (rule system_wfI)
  note wf = system_wfD [OF assms(1)]
  show "folders_wf w'"
    using wf(2) own_documents_filed [OF assms(2)] assms(2) unfolding folders_wf_def own_documents_def by auto
  show "documents_wf w'" using wf(3) assms(3) by (simp add: docs_step_def)
  show "jobs_filed w'"
    by (rule jobs_filed_same [OF wf(5) own_documents_owners [OF assms(2)]]) (use assms(5) in \<open>simp add: recognition_def\<close>)
  show "auth_wf w'" "jobs_wf w'" using wf wf_parts [of w' w] assms(4,5) by simp_all
qed

lemma folder_work_wf:
  assumes "system_wf w" and "folder_work u w w'" and "accounts w' = accounts w" and "recognition w' = recognition w"
  shows "system_wf w'"
proof (rule system_wfI)
  note wf = system_wfD [OF assms(1)]
  have "map doc_owner (documents w') = map doc_owner (documents w)" using assms(2) by (simp add: folder_work_def)
  from same_image [OF this] show "jobs_filed w'"
    using assms(4) by (intro jobs_filed_same [OF wf(5)]) (simp_all add: recognition_def)
  show "folders_wf w'" "documents_wf w'" using wf assms(2) by (simp_all add: folder_work_def docs_step_def)
  show "auth_wf w'" "jobs_wf w'" using wf wf_parts [of w' w] assms(3,4) by simp_all
qed

lemma adds_job_wf:
  assumes "system_wf w" and "adds_job u w w'"
  shows "system_wf w'"
proof (rule system_wfI)
  note wf = system_wfD [OF assms(1)]
  have lib: "accounts w' = accounts w" "library w' = library w" "documents w' = documents w" "ocrPages w' = ocrPages w"
    using assms(2) by (simp_all add: adds_job_def library_def)
  then show "auth_wf w'" "folders_wf w'" "documents_wf w'" using wf wf_parts [of w' w] by simp_all
  from assms(2) consider "ocrJobs w' = ocrJobs w"
    | r where "ocrJobs w' = ocrJobs w @ [r]" "j_userId r = u" "job_row_ok r" "j_id r \<notin> j_id ` set (ocrJobs w)"
        "\<exists>d\<in>set (documents w). d_id d = j_documentId r \<and> d_userId d = u"
    unfolding adds_job_def by blast
  then have "jobs_wf w' \<and> jobs_filed w'"
  proof cases
    case 1
    then show ?thesis using wf(4,5) lib by (simp add: jobs_wf_def jobs_filed_def)
  next
    case 2
    then show ?thesis using wf(4,5) lib unfolding jobs_wf_def jobs_filed_def by auto
  qed
  then show "jobs_wf w'" "jobs_filed w'" by simp_all
qed

lemma docs_filed_places:
  assumes "docs_filed w" and "map place (documents w') = map place (documents w)" and "folders w' = folders w"
  shows "docs_filed w'"
proof -
  have all: "docs_filed v \<longleftrightarrow> (\<forall>(i, u, fo) \<in> place ` set (documents v). \<forall>k. fo = Some k \<longrightarrow> (\<exists>f\<in>set (folders v). f_id f = k \<and> f_userId f = u))" for v
    by (simp add: docs_filed_def place_def)
  show ?thesis using assms(1,3) same_image [OF assms(2)] unfolding all by simp
qed

lemma job_work_wf:
  assumes "system_wf w" and "job_work w w'" and "jobs_step w w'"
  shows "system_wf w'"
proof (rule system_wfI)
  note wf = system_wfD [OF assms(1)]
  have jw: "accounts w' = accounts w" "folders w' = folders w" "docs_step w w'" "map place (documents w') = map place (documents w)"
    "map job_place (ocrJobs w') = map job_place (ocrJobs w)"
    using assms(2) unfolding job_work_def by blast+
  have "map doc_owner ds = map (\<lambda>(i, u, f). (i, u)) (map place ds)" for ds by (simp add: place_def doc_owner_def)
  then have "map doc_owner (documents w') = map doc_owner (documents w)" using jw(4) by metis
  moreover have "map job_doc js' = map (\<lambda>(i, d, u). (d, u)) (map job_place js')" for js' by (simp add: job_place_def job_doc_def)
  then have "map job_doc (ocrJobs w') = map job_doc (ocrJobs w)" using jw(5) by metis
  ultimately show "jobs_filed w'"
    by (intro jobs_filed_same [OF wf(5) equalityD2 [OF same_image] same_image])
  show "folders_wf w'" using wf(2) docs_filed_places [OF _ jw(4,2)] jw(2) by (simp add: folders_wf_def)
  show "documents_wf w'" "jobs_wf w'" using wf(3,4) jw(3) assms(3) by (simp_all add: docs_step_def jobs_step_def)
  show "auth_wf w'" using wf(1) wf_parts(1) [OF jw(1)] by simp
qed

section \<open>What a call does\<close>

text \<open>Between its steps a call meets nobody else, generated ids are UUIDs, and the queue keeps its contract.\<close>

definition serving :: "services \<Rightarrow> bool" where
  "serving sv \<longleftrightarrow> quiet (sv_run sv) \<and> ids_ok (sv_run sv) \<and> bull_ok (sv_queue sv)"

definition call_effect :: "uuid \<Rightarrow> World \<Rightarrow> World \<Rightarrow> bool" where
  "call_effect u w w' \<longleftrightarrow>
     auth_wf w' \<and> sessions_evolve w w' \<and> library w' = library w \<and> recognition w' = recognition w
     \<or> own_documents u w w' \<and> docs_step w w' \<and> accounts w' = accounts w \<and> recognition w' = recognition w
     \<or> folder_work u w w' \<and> accounts w' = accounts w \<and> recognition w' = recognition w
     \<or> adds_job u w w'"

lemma call_effect_wf: "system_wf w \<Longrightarrow> call_effect u w w' \<Longrightarrow> system_wf w'"
  unfolding call_effect_def using accounts_work_wf document_work_wf folder_work_wf adds_job_wf by blast

lemma call_effect_unchanged: "unchanged w w' \<Longrightarrow> call_effect u w w'"
  unfolding call_effect_def unchanged_def by (blast intro: adds_job_same)

lemma answer_snd [simp]: "snd (answer n f r) = snd r" "snd (answerWith n m g r) = snd r"
  by (simp_all add: answer_def answerWith_def)

lemma withId_effect: "(\<And>i. call_effect u w (snd (h i w))) \<Longrightarrow> call_effect u w (snd (withId raw h w))"
  by (simp add: withId_def call_effect_unchanged unchanged_refl split: sum.split)

lemma updateMe_wf:
  assumes "auth_wf w" and "quiet e"
  shows "auth_wf (snd (updateMe e u dto w)) \<and> sessions_evolve w (snd (updateMe e u dto w))"
proof -
  obtain r w' where p: "updateProfile u dto (clock e 0) w = (r, w')" by fastforce
  have same: "u_id (applyProfile dto t x) = u_id x \<and> u_email (applyProfile dto t x) = u_email x" for t x
    by (simp add: applyProfile_def)
  have "users w' = map (\<lambda>x. if u_id x = u then applyProfile dto (clock e 0) x else x) (users w)"
    and tokens: "refreshTokens w' = refreshTokens w"
    using updateProfile_users [OF p] by simp_all
  then have rows: "map u_id (users w') = map u_id (users w)" "map u_email (users w') = map u_email (users w)"
    using same by simp_all
  have "(\<exists>x\<in>set (users w'). u_id x = k) \<longleftrightarrow> (\<exists>x\<in>set (users w). u_id x = k)" for k
    using same_image [OF rows(1)] by (metis (no_types, lifting) imageE imageI)
  then have "auth_wf w'" "sessions_evolve w w'"
    using assms(1) rows tokens by (simp_all add: auth_wf_def users_wf_def sessions_evolve_def tok.evolves_refl)
  then show ?thesis using assms p by (auto simp: updateMe_def quietD split: sum.split prod.split)
qed

lemma account_calls:
  assumes "system_wf w" and "quiet e"
  shows "call_effect u w (snd (register e uc cr ac rdto sctx w))" "call_effect u w (snd (login e uc cr ac decoy ldto sctx w))"
    "call_effect u w (snd (refresh e cr ac raw sctx w))" "call_effect u w (snd (logout e cr ac raw u sctx w))"
    "call_effect u w (snd (updateMe e u pdto w))"
proof -
  note wf = system_wfD(1) [OF assms(1)] and env = quiet_envs(1) [OF assms(2)]
  show "call_effect u w (snd (register e uc cr ac rdto sctx w))"
    unfolding call_effect_def using register_guarantee(1) [OF env] register_guarantee(2) [OF env wf] register_frame [OF assms(2)] by blast
  show "call_effect u w (snd (login e uc cr ac decoy ldto sctx w))"
    unfolding call_effect_def using login_guarantee(1) [OF env] login_guarantee(2) [OF env wf] login_frame [OF assms(2)] by blast
  show "call_effect u w (snd (refresh e cr ac raw sctx w))"
    unfolding call_effect_def using refresh_guarantee(1) [OF env] refresh_guarantee(2) [OF env wf] refresh_frame [OF assms(2)] by blast
  show "call_effect u w (snd (logout e cr ac raw u sctx w))"
    unfolding call_effect_def using logout_guarantee(1) [OF env] logout_guarantee(2) [OF env wf] logout_frame [OF assms(2)] by blast
  show "call_effect u w (snd (updateMe e u pdto w))"
    unfolding call_effect_def using updateMe_wf [OF wf assms(2)] updateMe_frame [OF assms(2)] by blast
qed

lemma folder_calls:
  assumes "system_wf w" and "ids_ok e" and "quiet e"
  shows "call_effect u w (snd (createFolder e u cdto ctx w))" "call_effect u w (snd (updateFolder e u i udto ctx w))"
    "call_effect u w (snd (removeFolder e u i ctx w))"
  unfolding call_effect_def using folder_handlers_work [OF system_wfD(2) [OF assms(1)] assms(2,3)] by blast+

lemmas document_frames = document_handlers_frame [OF _ insertI1] document_handlers_frame [OF _ insertI2 [OF insertI1]]
  document_handlers_frame [OF _ insertI2 [OF insertI2 [OF insertI1]]]
  document_handlers_frame [OF _ insertI2 [OF insertI2 [OF insertI2 [OF insertI1]]]]
  document_handlers_frame [OF _ insertI2 [OF insertI2 [OF insertI2 [OF insertI2 [OF insertI1]]]]]

lemma document_calls:
  assumes "system_wf w" and "quiet e"
  shows "call_effect u w (snd (createDocument e u cdto ctx w))" "call_effect u w (snd (updateDocument e u i udto ctx w))"
    "call_effect u w (snd (removeDocument e u i ctx w))" "call_effect u w (snd (createUploadUrl e uc st cfg u i pdto ctx w))"
    "call_effect u w (snd (completeUpload e uc st cfg u i etag ctx w))"
proof -
  have effect: "call_effect u w w'" if "own_documents u w w'" "docs_step w w'" "accounts w' = accounts w \<and> recognition w' = recognition w" for w'
    using that by (simp add: call_effect_def)
  note env = quiet_envs(2) [OF assms(2)] and frame = document_frames [OF assms(2)] and wf = system_wfD(2) [OF assms(1)]
  show "call_effect u w (snd (createDocument e u cdto ctx w))"
    by (rule effect [OF createDocument_own [OF assms(2) wf] createDocument_step [OF env] frame(1)])
  show "call_effect u w (snd (updateDocument e u i udto ctx w))"
    by (rule effect [OF updateDocument_own [OF assms(2) wf] updateDocument_step [OF env] frame(2)])
  show "call_effect u w (snd (removeDocument e u i ctx w))"
    by (rule effect [OF removeDocument_own [OF assms(2)] removeDocument_step [OF env] frame(3)])
  show "call_effect u w (snd (createUploadUrl e uc st cfg u i pdto ctx w))"
    by (rule effect [OF createUploadUrl_own [OF assms(2)] createUploadUrl_step [OF env] frame(4)])
  show "call_effect u w (snd (completeUpload e uc st cfg u i etag ctx w))"
    by (rule effect [OF completeUpload_own [OF assms(2)] completeUpload_step [OF env] frame(5)])
qed

lemma job_calls:
  assumes "quiet e" and "bull_ok q"
  shows "call_effect u w (snd (requestOcr e db cfg q av u i dto ctx w))" "call_effect u w (snd (retryOcr e db cfg q av u i ctx w))"
  unfolding call_effect_def using requestOcr_adds [OF assms] retryOcr_adds [OF assms] by blast+

lemmas controllers = authRegister_def authLogin_def authRefresh_def authLogout_def authMe_def foldersCreate_def foldersList_def
  foldersGet_def foldersUpdate_def foldersRemove_def documentsCreate_def documentsList_def documentsGet_def documentsUpdate_def
  documentsRemove_def documentsUploadUrl_def documentsUploadComplete_def documentsDownloadUrl_def ocrRequest_def ocrStatusOf_def
  ocrResultsOf_def ocrRetryOf_def

lemma dispatch_effect:
  assumes "serving sv" and "system_wf w"
  shows "call_effect u w (snd (dispatch sv req rid u ctx c w))"
proof -
  have sv: "quiet (sv_run sv)" "ids_ok (sv_run sv)" "bull_ok (sv_queue sv)" using assms(1) by (simp_all add: serving_def)
  note effects = account_calls [OF assms(2) sv(1)] folder_calls [OF assms(2) sv(2,1)] document_calls [OF assms(2) sv(1)]
    job_calls [OF sv(1,3)] reads_unchanged [OF sv(1), THEN call_effect_unchanged] getOwned_unchanged [THEN call_effect_unchanged]
    unchanged_refl [THEN call_effect_unchanged]
  show ?thesis by (cases c) (simp_all add: controllers effects withId_effect)
qed

lemma handleApi_effect:
  assumes "serving sv" and "system_wf w"
  shows "\<exists>u. call_effect u w (snd (handleApi sv req w))"
proof (cases "guards req w")
  case (Inl f)
  then show ?thesis by (simp add: handleApi_def Let_def call_effect_unchanged unchanged_refl)
next
  case (Inr r)
  then show ?thesis
    using dispatch_effect [OF assms, of "case r of Some u \<Rightarrow> u | None \<Rightarrow> []" req
        "requestIdMiddleware (sv_run sv) (rq_requestIdHeader req)"
        "requestContextFromRequest (Some (requestIdMiddleware (sv_run sv) (rq_requestIdHeader req))) (rq_ip req)" "rq_call req"]
    by (auto simp: handleApi_def Let_def split: prod.split sum.split)
qed

section \<open>Runs of the system\<close>

text \<open>What every step of the system does to the database: it keeps the invariant, no session is revived, no
  document undeleted or its finished upload replaced, no finished job altered, and no row of these
  tables goes.\<close>

definition history :: "World \<Rightarrow> World \<Rightarrow> bool" where
  "history w w' \<longleftrightarrow> evolves token_le (refreshTokens w) (refreshTokens w') \<and> evolves doc_le (documents w) (documents w')
     \<and> evolves job_le (ocrJobs w) (ocrJobs w')"

definition system_step :: "World \<Rightarrow> World \<Rightarrow> bool" where
  "system_step w w' \<longleftrightarrow> (system_wf w \<longrightarrow> system_wf w' \<and> history w w')"

lemma system_step_refl: "system_step w w"
  by (simp add: system_step_def history_def tok.evolves_refl doc.evolves_refl job.evolves_refl)

lemma system_step_trans: "system_step u v \<Longrightarrow> system_step v w \<Longrightarrow> system_step u w"
  unfolding system_step_def history_def using tok.evolves_trans doc.evolves_trans job.evolves_trans by blast

lemma call_effect_history:
  assumes "system_wf w" and "call_effect u w w'"
  shows "history w w'"
  using assms(2) unfolding call_effect_def
proof (elim disjE conjE)
  assume "sessions_evolve w w'" "library w' = library w" "recognition w' = recognition w"
  then show ?thesis by (simp add: history_def sessions_evolve_def part_defs doc.evolves_refl job.evolves_refl)
next
  assume "docs_step w w'" "accounts w' = accounts w" "recognition w' = recognition w"
  then show ?thesis
    using system_wfD(3) [OF assms(1)] by (simp add: history_def docs_step_def part_defs tok.evolves_refl job.evolves_refl)
next
  assume "folder_work u w w'" "accounts w' = accounts w" "recognition w' = recognition w"
  then show ?thesis
    using system_wfD(3) [OF assms(1)] by (simp add: history_def folder_work_def docs_step_def part_defs tok.evolves_refl job.evolves_refl)
next
  assume "adds_job u w w'"
  then have "evolves job_le (ocrJobs w) (ocrJobs w')" "accounts w' = accounts w" "library w' = library w"
    using job.evolves_refl job.evolves_create [unfolded createRow_def] by (auto simp: adds_job_def)
  then show ?thesis by (simp add: history_def part_defs tok.evolves_refl doc.evolves_refl)
qed

lemma handleApi_step: "serving sv \<Longrightarrow> system_step w (snd (handleApi sv req w))"
  unfolding system_step_def using handleApi_effect call_effect_wf call_effect_history by blast

lemma job_work_step:
  assumes "job_work w w'" and "jobs_step w w'"
  shows "system_step w w'"
  unfolding system_step_def
proof
  assume wf: "system_wf w"
  have "documents_wf w" "jobs_wf w" using system_wfD [OF wf] by simp_all
  then have "history w w'" using assms by (simp add: history_def job_work_def docs_step_def jobs_step_def part_defs tok.evolves_refl)
  then show "system_wf w' \<and> history w w'" using job_work_wf [OF wf assms] by blast
qed

interpretation sys: job_relation system_step
proof unfold_locales
  show "system_step w w" for w by (rule system_step_refl)
  show "system_step u w" if "system_step u v" "system_step v w" for u v w using system_step_trans [OF that] .
  show "system_step w (perform op w)" for w op by (rule job_work_step [OF perform_work perform_step])
  show "system_step w w'" if "bull_ok q" "addEntry q i w = Inr w'" for q i w w'
    by (rule job_work_step [OF work.queue_add [OF that] kept.queue_add [OF that]])
  show "system_step w w'" if "bull_ok q" "dropEntry q i w = Inr w'" for q i w w'
    by (rule job_work_step [OF work.queue_drop [OF that] kept.queue_drop [OF that]])
qed

text \<open>A run is a sequence of requests, deliveries to the worker and reconciliations. While a delivery or a
  reconciliation waits, others act, and what they do is again a run: requests, other deliveries and
  other reconciliations come between any two of its steps. A request is served without interruption.\<close>

inductive runs :: "World \<Rightarrow> World \<Rightarrow> bool" where
  idle: "runs w w"
| request: "runs w v \<Longrightarrow> serving sv \<Longrightarrow> runs w (snd (handleApi sv req v))"
| delivered: "runs w v \<Longrightarrow> (\<And>i x. runs x (others e i x)) \<Longrightarrow> runs w (snd (handleEntry e cfg U store tools jobId v))"
| reconciled: "runs w v \<Longrightarrow> (\<And>i x. runs x (others e i x)) \<Longrightarrow> bull_ok q \<Longrightarrow> runs w (snd (reconcile e cfg q busy v))"

lemma runs_step: "runs w w' \<Longrightarrow> system_step w w'"
proof (induction rule: runs.induct)
  case (request w v sv req)
  then show ?case using handleApi_step system_step_trans by blast
next
  case (delivered w v e cfg U store tools jobId)
  then have "kept_by_others system_step e" by (simp add: kept_by_others_def)
  then have "system_step v (snd (handleEntry e cfg U store tools jobId v))"
    by (simp add: handleEntry_def sys.process_kept system_step_refl)
  then show ?case using delivered.IH(1) system_step_trans by blast
next
  case (reconciled w v e q cfg busy)
  then have "kept_by_others system_step e" by (simp add: kept_by_others_def)
  then show ?case using reconciled.IH(1) sys.reconcile_kept [OF _ reconciled.hyps(3)] system_step_trans by blast
qed (rule system_step_refl)

section \<open>Accounts are separated\<close>

text \<open>The rows of everybody else.\<close>

definition foreign :: "uuid \<Rightarrow> World \<Rightarrow>
    User list \<times> RefreshToken list \<times> Folder list \<times> Document list \<times> OcrJob list \<times> OcrPage list" where
  "foreign u w = (filter (\<lambda>x. u_id x \<noteq> u) (users w), filter (\<lambda>t. rt_userId t \<noteq> u) (refreshTokens w),
     filter (\<lambda>f. f_userId f \<noteq> u) (folders w), filter (\<lambda>d. d_userId d \<noteq> u) (documents w),
     filter (\<lambda>j. j_userId j \<noteq> u) (ocrJobs w), ocrPages w)"

lemma work_foreign:
  assumes "accounts w' = accounts w"
  shows "unchanged w w' \<Longrightarrow> foreign u w' = foreign u w"
    and "own_documents u w w' \<Longrightarrow> recognition w' = recognition w \<Longrightarrow> foreign u w' = foreign u w"
    and "folder_work u w w' \<Longrightarrow> recognition w' = recognition w \<Longrightarrow> foreign u w' = foreign u w"
    and "adds_job u w w' \<Longrightarrow> foreign u w' = foreign u w"
proof -
  show "own_documents u w w' \<Longrightarrow> recognition w' = recognition w \<Longrightarrow> foreign u w' = foreign u w"
    using assms own_documents_foreign [of u w w'] by (simp add: foreign_def part_defs own_documents_def)
qed (use assms in \<open>auto simp: foreign_def part_defs unchanged_def folder_work_def adds_job_def\<close>)

lemma logout_foreign:
  assumes "auth_wf w" and "quiet e"
  shows "foreign u (snd (logout e cr cfg raw u ctx w)) = foreign u w"
proof -
  have "filter (\<lambda>t. rt_userId t \<noteq> u) (refreshTokens (snd (revokeTokens (\<lambda>r. rt_id r = rt_id t) now w)))
      = filter (\<lambda>t. rt_userId t \<noteq> u) (refreshTokens w)" if "t \<in> set (refreshTokens w)" "rt_userId t = u" for t now
    by (rule revokeTokens_foreign [OF assms(1) that(1) refl that(2)])
  moreover have "foreign u (snd (revokeTokens p now w)) = foreign u w" if "filter (\<lambda>t. rt_userId t \<noteq> u)
      (refreshTokens (snd (revokeTokens p now w))) = filter (\<lambda>t. rt_userId t \<noteq> u) (refreshTokens w)" for p now
    using that by (simp add: foreign_def revokeTokens_def case_prod_unfold Let_def)
  moreover have "foreign u (recordEvent ev v) = foreign u v" for ev v by (simp add: foreign_def)
  moreover have "t \<in> set (refreshTokens w)" if "findRefreshToken cr cfg raw w = Inr (Some (t, x))" for t x
    using that by (auto simp: findRefreshToken_def split: option.splits sum.splits if_splits dest!: findFirst_SomeD)
  ultimately show ?thesis using assms(2) by (auto simp: logout_def quietD Let_def case_prod_unfold split: sum.split option.split)
qed

lemma updateMe_foreign:
  assumes "quiet e"
  shows "foreign u (snd (updateMe e u dto w)) = foreign u w"
proof -
  obtain r w' where p: "updateProfile u dto (clock e 0) w = (r, w')" by fastforce
  have "filter (\<lambda>x. u_id x \<noteq> u) (users w') = filter (\<lambda>x. u_id x \<noteq> u) (users w) \<and> refreshTokens w' = refreshTokens w"
    using updateProfile_users [OF p] by (auto intro!: filter_map_keep simp: applyProfile_def)
  moreover have "library w' = library w \<and> recognition w' = recognition w"
    using p by (auto simp: updateProfile_def prismaUserUpdate_def part_defs split: option.splits if_splits)
  ultimately have "foreign u w' = foreign u w" by (simp add: foreign_def part_defs)
  then show ?thesis using assms p by (auto simp: updateMe_def quietD split: sum.split prod.split)
qed

lemma call_foreign:
  assumes "call_effect u w w'" and "accounts w' = accounts w"
  shows "foreign u w' = foreign u w"
  using assms work_foreign [OF assms(2)] unfolding call_effect_def unchanged_def by blast

text \<open>Calls that leave accounts and sessions alone.\<close>

lemma withId_accounts: "(\<And>i. accounts (snd (h i w)) = accounts w) \<Longrightarrow> accounts (snd (withId raw h w)) = accounts w"
  by (simp add: withId_def split: sum.split)

lemma dispatch_accounts:
  assumes "serving sv" and "system_wf w" and "needsActiveUser c \<or> c \<in> {AuthMe, UsersMe}"
  shows "accounts (snd (dispatch sv req rid u ctx c w)) = accounts w"
proof -
  have sv: "quiet (sv_run sv)" "bull_ok (sv_queue sv)" "ids_ok (sv_run sv)" using assms(1) by (simp_all add: serving_def)
  have adds: "adds_job u w w' \<Longrightarrow> accounts w' = accounts w" for w' by (simp add: adds_job_def)
  have reads: "unchanged w w' \<Longrightarrow> accounts w' = accounts w" for w' by (simp add: unchanged_def)
  note frames = createFolder_frame [OF sv(1)] updateFolder_frame [OF sv(1)] removeFolder_parts [OF sv(1)]
    document_frames [OF sv(1)] requestOcr_adds [OF sv(1,2), THEN adds] retryOcr_adds [OF sv(1,2), THEN adds]
    reads_unchanged [OF sv(1), THEN reads] getOwned_unchanged [THEN reads]
  show ?thesis using assms(3) by (cases c) (simp_all add: controllers frames withId_accounts)
qed

lemma dispatch_foreign:
  assumes "serving sv" and "system_wf w" and "\<not> isPublic c"
  shows "foreign u (snd (dispatch sv req rid u ctx c w)) = foreign u w"
proof (cases "needsActiveUser c \<or> c \<in> {AuthMe, UsersMe}")
  case True
  then show ?thesis using call_foreign [OF dispatch_effect [OF assms(1,2)] dispatch_accounts [OF assms(1,2)]] by blast
next
  case False
  with assms(3) consider raw where "c = AuthLogout raw" | dto where "c = UsersUpdateMe dto" by (cases c) auto
  then show ?thesis
    using logout_foreign [OF system_wfD(1) [OF assms(2)]] updateMe_foreign assms(1) by cases (simp_all add: controllers serving_def)
qed

text \<open>The rows of an account, and the calls that only read.\<close>

definition own_rows :: "uuid \<Rightarrow> World \<Rightarrow> User list \<times> Folder list \<times> Document list \<times> OcrJob list \<times> OcrPage list" where
  "own_rows u w = (filter (\<lambda>x. u_id x = u) (users w), filter (\<lambda>f. f_userId f = u) (folders w),
     filter (\<lambda>d. d_userId d = u) (documents w), filter (\<lambda>j. j_userId j = u) (ocrJobs w),
     filter (\<lambda>p. p_ocrJobId p \<in> j_id ` set (filter (\<lambda>j. j_userId j = u) (ocrJobs w))) (ocrPages w))"

fun isRead :: "Call \<Rightarrow> bool" where
  "isRead AuthMe = True"
| "isRead UsersMe = True"
| "isRead (FolderList _) = True"
| "isRead (FolderGet _) = True"
| "isRead (DocumentList _) = True"
| "isRead (DocumentGet _) = True"
| "isRead (DocumentDownloadUrl _) = True"
| "isRead (OcrStatus _) = True"
| "isRead (OcrResultsOf _ _) = True"
| "isRead _ = False"

lemma selected_rows:
  assumes "filter q xs = filter q ys" and "\<And>x. p x \<Longrightarrow> q x"
  shows "filter p xs = filter p ys" "findFirst p xs = findFirst p ys" "findMany p xs = findMany p ys" "countRows p xs = countRows p ys"
proof -
  have "filter p (filter q zs) = filter p zs" for zs
    unfolding filter_filter using assms(2) by (metis (mono_tags, lifting) filter_cong)
  then show f: "filter p xs = filter p ys" using assms(1) by metis
  have "findFirst p zs = (case filter p zs of [] \<Rightarrow> None | z # _ \<Rightarrow> Some z)" for zs
    unfolding findFirst_def by (induction zs) simp_all
  then show "findFirst p xs = findFirst p ys" using f by simp
  show "findMany p xs = findMany p ys" "countRows p xs = countRows p ys" using f by (simp_all add: findMany_def countRows_def)
qed

lemma own_rowsD:
  assumes "own_rows u v = own_rows u w"
  shows "filter (\<lambda>x. u_id x = u) (users v) = filter (\<lambda>x. u_id x = u) (users w)"
    "filter (\<lambda>f. f_userId f = u) (folders v) = filter (\<lambda>f. f_userId f = u) (folders w)"
    "filter (\<lambda>d. d_userId d = u) (documents v) = filter (\<lambda>d. d_userId d = u) (documents w)"
    "filter (\<lambda>j. j_userId j = u) (ocrJobs v) = filter (\<lambda>j. j_userId j = u) (ocrJobs w)"
    "filter (\<lambda>p. p_ocrJobId p \<in> j_id ` set (filter (\<lambda>j. j_userId j = u) (ocrJobs w))) (ocrPages v)
       = filter (\<lambda>p. p_ocrJobId p \<in> j_id ` set (filter (\<lambda>j. j_userId j = u) (ocrJobs w))) (ocrPages w)"
  using assms unfolding own_rows_def by (elim Pair_inject, simp only:)+

lemma own_loads:
  assumes "own_rows u v = own_rows u w"
  shows "getActiveUser u v = getActiveUser u w" "fst (getOwnedFolder u i ctx v) = fst (getOwnedFolder u i ctx w)"
    "fst (getOwnedDocument u i ctx v) = fst (getOwnedDocument u i ctx w)"
proof -
  note rows = own_rowsD [OF assms]
  show "getActiveUser u v = getActiveUser u w"
    using selected_rows(2) [OF rows(1), of "\<lambda>x. u_id x = u"] by (simp add: getActiveUser_def findUserById_def)
  have "findFirst (\<lambda>f. f_id f = i \<and> f_userId f = u) (folders v) = findFirst (\<lambda>f. f_id f = i \<and> f_userId f = u) (folders w)"
    by (rule selected_rows(2) [OF rows(2)]) simp
  then show "fst (getOwnedFolder u i ctx v) = fst (getOwnedFolder u i ctx w)"
    by (simp add: getOwnedFolder_def folderNotFoundFor_def split: option.split)
  have "findFirst (ownLive u i) (documents v) = findFirst (ownLive u i) (documents w)"
    by (rule selected_rows(2) [OF rows(3)]) (simp add: ownLive_def)
  then show "fst (getOwnedDocument u i ctx v) = fst (getOwnedDocument u i ctx w)"
    by (simp add: getOwnedDocument_def documentNotFoundFor_def split: option.split)
qed

lemma listFolders_own:
  assumes "quiet e" and "own_rows u v = own_rows u w"
  shows "fst (listFolders e le u p ctx v) = fst (listFolders e le u p ctx w)"
proof -
  have "findMany (\<lambda>f. f_userId f = u \<and> q f) (folders v) = findMany (\<lambda>f. f_userId f = u \<and> q f) (folders w)" for q
    by (rule selected_rows(3) [OF own_rowsD(2) [OF assms(2)]]) simp
  from this this [of "\<lambda>_. True"] show ?thesis
    using own_loads(2) [OF assms(2)] assms(1)
    by (auto simp: listFolders_def quietD Let_def case_prod_unfold split: option.split sum.split)
qed

lemma listDocuments_own:
  assumes "quiet e" and "own_rows u v = own_rows u w"
  shows "fst (listDocuments e db u q ctx v) = fst (listDocuments e db u q ctx w)"
proof -
  have "findMany (listWhere db u q) (documents v) = findMany (listWhere db u q) (documents w)"
    "countRows (listWhere db u q) (documents v) = countRows (listWhere db u q) (documents w)"
    by (rule selected_rows(3,4) [OF own_rowsD(3) [OF assms(2)]]; simp add: listWhere_def)+
  then show ?thesis
    using own_loads(2) [OF assms(2)] assms(1)
    by (auto simp: listDocuments_def quietD Let_def case_prod_unfold split: option.split sum.split)
qed

lemma createDownloadUrl_own:
  "own_rows u v = own_rows u w \<Longrightarrow> fst (createDownloadUrl st cfg u i ctx v) = fst (createDownloadUrl st cfg u i ctx w)"
  using own_loads(3) [of u v w i ctx]
  by (auto simp: createDownloadUrl_def Let_def case_prod_unfold split: option.split sum.split)

lemma latestForDocument_own:
  assumes "own_rows u v = own_rows u w"
  shows "latestForDocument db i u v = latestForDocument db i u w"
proof -
  have "findMany (\<lambda>j. j_documentId j = i \<and> j_userId j = u) (ocrJobs v) = findMany (\<lambda>j. j_documentId j = i \<and> j_userId j = u) (ocrJobs w)"
    by (rule selected_rows(3) [OF own_rowsD(4) [OF assms]]) simp
  then show ?thesis by (simp add: latestForDocument_def firstBy_def)
qed

lemma findOwnedJob_own: "own_rows u v = own_rows u w \<Longrightarrow> findOwnedJob k i u v = findOwnedJob k i u w"
  unfolding findOwnedJob_def by (rule selected_rows(2) [OF own_rowsD(4)]) auto

lemma jobPages_own:
  assumes "own_rows u v = own_rows u w" and "j \<in> set (ocrJobs w)" and "j_userId j = u"
  shows "jobPages (j_id j) q v = jobPages (j_id j) q w"
proof -
  have own: "pageWhere (j_id j) q p \<Longrightarrow> p_ocrJobId p \<in> j_id ` set (filter (\<lambda>j. j_userId j = u) (ocrJobs w))" for p
    using assms(2,3) by (auto simp: pageWhere_def)
  show ?thesis using selected_rows(3,4) [OF own_rowsD(5) [OF assms(1)] own] by (simp add: jobPages_def)
qed

lemma found_job:
  "latestForDocument db i u w = Some j \<Longrightarrow> j \<in> set (ocrJobs w) \<and> j_userId j = u"
  "findOwnedJob k i u w = Some j \<Longrightarrow> j \<in> set (ocrJobs w) \<and> j_userId j = u"
proof -
  assume a: "latestForDocument db i u w = Some j"
  let ?rows = "findMany (\<lambda>j. j_documentId j = i \<and> j_userId j = u) (ocrJobs w)"
  obtain xs where "orderBy (newestFirst db) ?rows = j # xs"
    using a unfolding latestForDocument_def firstBy_def by (auto split: list.splits)
  then have "j \<in> set (orderBy (newestFirst db) ?rows)" by simp
  then have "j \<in> set ?rows" by simp
  then show "j \<in> set (ocrJobs w) \<and> j_userId j = u" by (simp add: findMany_def)
qed (auto simp: findOwnedJob_def dest: findFirst_SomeD)

lemma getOwnedDocument_found: "getOwnedDocument u i ctx w = (Inr d, w') \<Longrightarrow> w' = w"
  by (cases rule: own.get_cases [of u i ctx w]) auto

lemma ocr_reads_own:
  assumes "quiet e" and "own_rows u v = own_rows u w"
  shows "fst (ocrStatus e db u i ctx v) = fst (ocrStatus e db u i ctx w)"
    and "fst (ocrResults e db u i q ctx v) = fst (ocrResults e db u i q ctx w)"
proof -
  note o = assms(1) [unfolded quiet_def]
  obtain r v1 w1 where g: "getOwnedDocument u i ctx v = (r, v1)" "getOwnedDocument u i ctx w = (r, w1)"
    using own_loads(3) [OF assms(2), of i ctx] by (metis prod.collapse)
  have jobs: "latestForDocument db i u v = latestForDocument db i u w" "findOwnedJob k i u v = findOwnedJob k i u w" for k
    using latestForDocument_own [OF assms(2)] findOwnedJob_own [OF assms(2)] by simp_all
  have pages: "jobPages (j_id j) pq v = jobPages (j_id j) pq w"
    if "(if b then findOwnedJob k i u w else latestForDocument db i u w) = Some j" for j pq b k
    using that found_job(1) [of db i u w j] found_job(2) [of k i u w j] jobPages_own [OF assms(2), of j pq] by (cases b) simp_all
  show "fst (ocrStatus e db u i ctx v) = fst (ocrStatus e db u i ctx w)"
  proof (cases r)
    case (Inl f)
    then show ?thesis using g by (simp add: ocrStatus_def)
  next
    case (Inr d)
    then have "v1 = v" "w1 = w" using g getOwnedDocument_found by blast+
    then show ?thesis using g Inr jobs unfolding ocrStatus_def o by (simp add: Let_def split: option.split)
  qed
  show "fst (ocrResults e db u i q ctx v) = fst (ocrResults e db u i q ctx w)"
  proof (cases r)
    case (Inl f)
    then show ?thesis using g by (simp add: ocrResults_def)
  next
    case (Inr d)
    then have "v1 = v" "w1 = w" using g getOwnedDocument_found by blast+
    then show ?thesis
      using g Inr jobs pages [of "truthy (oq_jobId q)" "the (oq_jobId q)"] unfolding ocrResults_def o
      by (auto simp: Let_def case_prod_unfold split: option.split)
  qed
qed

lemma answer_fst: "fst r = fst r' \<Longrightarrow> fst (answer n f r) = fst (answer n f r')"
  by (simp add: answer_def)

lemma withId_fst: "(\<And>i. fst (h i v) = fst (h i w)) \<Longrightarrow> fst (withId raw h v) = fst (withId raw h w)"
  by (simp add: withId_def split: sum.split)

lemma dispatch_reads_own:
  assumes "quiet (sv_run sv)" and "isRead c" and "own_rows u v = own_rows u w"
  shows "fst (dispatch sv req rid u ctx c v) = fst (dispatch sv req rid u ctx c w)"
proof -
  note same = own_loads [OF assms(3)] listFolders_own [OF assms(1,3)] listDocuments_own [OF assms(1,3)] createDownloadUrl_own [OF assms(3)]
    ocr_reads_own [OF assms(1,3)]
  have "fst (authMe u v) = fst (authMe u w)" by (simp add: authMe_def getMe_def same answer_def)
  then show ?thesis using assms(2)
    by (cases c) (auto simp: controllers intro!: withId_fst answer_fst same)
qed

lemma handleApi_dispatch:
  assumes "guards req w = Inr r" and "rid = requestIdMiddleware (sv_run sv) (rq_requestIdHeader req)"
    and "d = dispatch sv req rid (case r of Some u \<Rightarrow> u | None \<Rightarrow> []) (requestContextFromRequest (Some rid) (rq_ip req)) (rq_call req)"
  shows "snd (handleApi sv req w) = snd (d w)"
    and "fst (handleApi sv req w) = (case fst (d w) of Inl f \<Rightarrow> map_prod id Inl (catchException (thrownBy f) rid)
      | Inr (status, payload) \<Rightarrow> (status, Inr (interceptEnvelope rid payload)))"
  using assms by (auto simp: handleApi_def Let_def split: prod.split sum.split)

lemma guards_subject: "guards req w = Inr r \<Longrightarrow> \<not> isPublic (rq_call req) \<Longrightarrow> r = rq_subject req \<and> r \<noteq> None"
  by (cases "rq_subject req") (auto simp: guards_def handleRequest_identity authenticated_def validateJwt_def handleRequest_def
      split: sum.splits option.splits failure.splits if_splits)

lemma guards_own:
  assumes "rq_subject req = Some u" and "own_rows u v = own_rows u w"
  shows "guards req v = guards req w"
proof -
  have "handleRequest (rq_authError req) (validateJwt (rq_subject req)) (rq_authInfo req) = Inr x \<Longrightarrow> x = u" for x
    using handleRequest_identity [of req x] assms(1) by (simp add: authenticated_def)
  moreover have "activeUserGuard (Some u) v = activeUserGuard (Some u) w"
    using own_loads(1) [OF assms(2)] by (simp add: activeUserGuard_def)
  ultimately show ?thesis by (auto simp: guards_def split: sum.split)
qed

section \<open>A concrete system\<close>

definition demoCaller :: uuid where
  "demoCaller = js ''22222222-2222-4222-8222-222222222222''"

text \<open>An account next to one that has folders.\<close>

definition demoTenants :: World where
  "demoTenants = demoLibrary\<lparr>users := [demoUser\<lparr>u_id := demoCaller\<rparr>]\<rparr>"

lemma serving_demo: "serving demoServices"
proof -
  have "is_uuid (js ''11111111-1111-4111-8111-111111111111'')" by code_simp
  then show ?thesis by (simp add: serving_def demoServices_def demoRun_def quiet_def ids_ok_def plainQueue_ok)
qed

lemma demoTenants_wf: "system_wf demoTenants"
proof (rule system_wfI)
  show "folders_wf demoTenants" using demoLibrary_wf wf_parts(2) [of demoTenants demoLibrary] by (simp add: demoTenants_def library_def)
qed (simp_all add: demoTenants_def demoLibrary_def emptyWorld_def auth_wf_def users_wf_def documents_wf_def jobs_wf_def jobs_filed_def)

section \<open>Properties\<close>

text \<open>C5. The invariant of the system: after any run of requests, deliveries and reconciliations from the empty
  database on, where everything else may happen between the steps of a delivery or a reconciliation,
  ids, email addresses and token hashes are unique, sessions belong to accounts, folders form forests
  of bounded depth with one owner each, documents are filed in folders of their owner, the rows of
  documents and jobs are consistent, pages belong to jobs, and jobs are for documents of their owner.\<close>

theorem reachable_consistent:
  assumes "runs emptyWorld w"
  shows "auth_wf w \<and> folders_wf w \<and> documents_wf w \<and> jobs_wf w \<and> jobs_filed w"
proof -
  have "system_wf emptyWorld"
    by (simp add: system_wf_def emptyWorld_def auth_wf_def users_wf_def folders_wf_def forest_def tree_ok_def docs_filed_def
        documents_wf_def jobs_wf_def jobs_filed_def)
  then show ?thesis using runs_step [OF assms] by (simp add: system_step_def system_wf_def)
qed

theorem reachable_consistent_witness:
  "auth_wf (snd (handleApi demoServices (demoRequest (AuthRegister
     \<lparr>reg_email = js ''a@b.c'', reg_password = js ''pass'', reg_name = None\<rparr> None) None) emptyWorld))"
  using reachable_consistent [OF runs.request [OF runs.idle serving_demo]] by blast

text \<open>C8. No run of the system undoes what is final: a revoked session stays revoked, a deleted document stays
  deleted, a document whose upload is complete keeps its file, a finished job keeps its result, and
  no session, document or job is lost or changes its owner.\<close>

theorem history_is_kept:
  assumes "system_wf w" and "runs w w'"
  shows "evolves token_le (refreshTokens w) (refreshTokens w') \<and> evolves doc_le (documents w) (documents w')
    \<and> evolves job_le (ocrJobs w) (ocrJobs w')"
  using runs_step [OF assms(2)] assms(1) by (simp add: system_step_def history_def)

theorem history_is_kept_witness:
  "evolves job_le (ocrJobs demoTenants) (ocrJobs (snd (reconcile demoRun Ocr_Errors.demoConfig plainQueue False
     (snd (handleApi demoServices (demoRequest (OcrRetry demoCaller) (Some demoCaller)) demoTenants)))))"
proof -
  have "others demoRun i x = x" for i x using demoRun_quiet by (simp add: quiet_def)
  then have "runs x (others demoRun i x)" for i x by (simp add: runs.idle)
  from runs.reconciled [OF runs.request [OF runs.idle serving_demo] this plainQueue_ok] history_is_kept [OF demoTenants_wf]
  show ?thesis by blast
qed

text \<open>C6. Tenant isolation. A request under the identity of an account changes no row of any other account, whatever
  it is: no user, session, folder, document or job of others and no page.\<close>

theorem tenant_isolation:
  assumes "system_wf w" and "serving sv" and "\<not> isPublic (rq_call req)" and "rq_subject req = Some u"
  shows "foreign u (snd (handleApi sv req w)) = foreign u w"
proof (cases "guards req w")
  case (Inl f)
  then show ?thesis by (simp add: handleApi_def Let_def)
next
  case (Inr r)
  then have "r = Some u" using guards_subject [OF _ assms(3)] assms(4) by simp
  then show ?thesis
    using handleApi_dispatch(1) [OF Inr refl refl, of sv] dispatch_foreign [OF assms(2,1,3)] by simp
qed

theorem tenant_isolation_witness:
  "foreign demoCaller (snd (handleApi demoServices (demoRequest (FolderCreate \<lparr>cf_name = js ''F'', cf_parentId = None\<rparr>)
     (Some demoCaller)) demoTenants)) = foreign demoCaller demoTenants"
  by (rule tenant_isolation [OF demoTenants_wf serving_demo]) (simp_all add: demoRequest_def)

text \<open>C7. What an account reads depends on its own rows only: if two states agree on the rows of an account, every
  reading request of the account gets the same response in both, whatever the other accounts have
  stored; an id of somebody else is answered like one that does not exist.\<close>

theorem reads_own_rows_only:
  assumes "quiet (sv_run sv)" and "isRead (rq_call req)" and "rq_subject req = Some u" and "own_rows u v = own_rows u w"
  shows "fst (handleApi sv req v) = fst (handleApi sv req w)"
proof -
  have g: "guards req v = guards req w" using guards_own [OF assms(3,4)] .
  have np: "\<not> isPublic (rq_call req)" using assms(2) by (cases "rq_call req") simp_all
  show ?thesis
  proof (cases "guards req w")
    case (Inl f)
    then show ?thesis using g by (simp add: handleApi_def Let_def)
  next
    case (Inr r)
    then have "r = Some u" using guards_subject [OF _ np] assms(3) by simp
    then show ?thesis
      using handleApi_dispatch(2) [OF Inr refl refl, of sv] handleApi_dispatch(2) [OF Inr [folded g] refl refl, of sv]
        dispatch_reads_own [OF assms(1,2,4)] by simp
  qed
qed

theorem reads_own_rows_only_witness:
  "fst (handleApi demoServices (demoRequest (FolderList None) (Some demoCaller)) demoTenants)
     = fst (handleApi demoServices (demoRequest (FolderList None) (Some demoCaller)) (demoTenants\<lparr>folders := []\<rparr>))"
proof -
  have "demoCaller \<noteq> [7]" by code_simp
  then have "own_rows demoCaller demoTenants = own_rows demoCaller (demoTenants\<lparr>folders := []\<rparr>)"
    by (simp add: own_rows_def demoTenants_def demoLibrary_def demoFolder_def emptyWorld_def)
  then show ?thesis
    using serving_demo by (intro reads_own_rows_only) (simp_all add: demoRequest_def serving_def)
qed

end
