(* ===== verification/Validation.thy ===== *)
theory Validation
  imports System
begin

text \<open>
  The validation of request bodies and queries: the classes of \<open>auth/dto\<close>, \<open>users/dto\<close>, \<open>folders/dto\<close>,
  \<open>documents/dto\<close> and \<open>ocr/dto\<close> with their decorators, the global pipe of \<open>app.setup.ts\<close>, and the way from a
  request with an untyped body to its handler. The decorators of class-validator are the parameter
  \<open>class_validator\<close>; what their documentation says of each is \<open>class_validator_ok\<close>. Ids in bodies are
  taken in lower case, as the database prints them: its id columns compare as UUIDs, the tables of
  this development as text.
\<close>

section \<open>Values and rules\<close>

text \<open>A value of a parsed body or query. No rule accepts arrays and nested objects.\<close>

datatype json = JNull | JBool bool | JNumber rat | JText jsstring | JOther

type_synonym body = "(string \<times> json) list"

datatype pattern = EtagPattern | MimePattern | LanguagePattern | NoControl bool

datatype rule =
    IsString | IsEmail | IsUrl | IsUUID | IsInt | IsBoolean
  | MinLength nat | MaxLength nat | MinValue int | MaxValue int | IsIn "string list" | Matches pattern

text \<open>\<open>/^"?[A-Za-z0-9-]+"?$/\<close>\<close>

definition is_etag_char :: "jschar \<Rightarrow> bool" where
  "is_etag_char c \<longleftrightarrow> is_upper c \<or> is_lower c \<or> is_digit c \<or> c = 45"

definition etagFormat :: "jsstring \<Rightarrow> bool" where
  "etagFormat s =
     (let t = (case s of [] \<Rightarrow> [] | c # r \<Rightarrow> if c = 34 then r else s)
      in takeWhile is_etag_char t \<noteq> [] \<and> dropWhile is_etag_char t \<in> set [[], [34]])"

text \<open>\<open>/^[a-z0-9!#$&^_.+-]+\/[a-z0-9!#$&^_.+-]+(\s*;.*)?$/i\<close>\<close>

definition is_mime_char :: "jschar \<Rightarrow> bool" where
  "is_mime_char c \<longleftrightarrow> is_upper c \<or> is_lower c \<or> is_digit c \<or> c \<in> set (js ''!#$&^_.+-'')"

definition MIME_TYPE_PATTERN :: "jsstring \<Rightarrow> bool" where
  "MIME_TYPE_PATTERN s =
     (case dropWhile is_mime_char s of
        [] \<Rightarrow> False
      | c # r \<Rightarrow>
          takeWhile is_mime_char s \<noteq> [] \<and> c = 47 \<and> takeWhile is_mime_char r \<noteq> []
          \<and> (case dropWhile is_mime_char r of
               [] \<Rightarrow> True
             | t \<Rightarrow> (case dropWhile is_js_space t of [] \<Rightarrow> False | d # q \<Rightarrow> d = 59 \<and> \<not> list_ex is_line_end q)))"

text \<open>\<open>/^[a-z]{3}(_[a-z]+)?(\+[a-z]{3}(_[a-z]+)?)*$/\<close>\<close>

definition OCR_LANGUAGE_PATTERN :: "jsstring \<Rightarrow> bool" where
  "OCR_LANGUAGE_PATTERN s \<longleftrightarrow> list_all LANGUAGE_CODE (split_on 43 s)"

fun matchesPattern :: "pattern \<Rightarrow> jsstring \<Rightarrow> bool" where
  "matchesPattern EtagPattern s = etagFormat s"
| "matchesPattern MimePattern s = MIME_TYPE_PATTERN s"
| "matchesPattern LanguagePattern s = OCR_LANGUAGE_PATTERN s"
| "matchesPattern (NoControl allowLineBreaks) s = noControlCharacters allowLineBreaks s"

text \<open>The library: whether a decorator accepts a value (\<open>None\<close> is \<open>undefined\<close>), and its messages.\<close>

record class_validator =
  cv_holds :: "rule \<Rightarrow> json option \<Rightarrow> bool"
  cv_message :: "string \<Rightarrow> rule \<Rightarrow> string"
  cv_forbidden :: "string \<Rightarrow> string"

text \<open>Its documentation: a decorator accepts values of its type only; the length of a text counts a surrogate
  pair as one character; a UUID is text of hexadecimal digits and dashes.\<close>

definition characters :: "jsstring \<Rightarrow> nat" where
  "characters s = length (code_points s)"

definition uuidText :: "jsstring \<Rightarrow> bool" where
  "uuidText s \<longleftrightarrow> length s = 36 \<and> list_all (\<lambda>c. is_hex c \<or> c = 45) s"

definition class_validator_ok :: "class_validator \<Rightarrow> bool" where
  "class_validator_ok cv \<longleftrightarrow>
     (\<forall>v. cv_holds cv IsString v \<longleftrightarrow> (\<exists>s. v = Some (JText s)))
     \<and> (\<forall>v. cv_holds cv IsUUID v \<longrightarrow> (\<exists>s. v = Some (JText s) \<and> uuidText s))
     \<and> (\<forall>v. cv_holds cv IsInt v \<longleftrightarrow> (\<exists>k. v = Some (JNumber (of_int k))))
     \<and> (\<forall>v. cv_holds cv IsBoolean v \<longleftrightarrow> (\<exists>b. v = Some (JBool b)))
     \<and> (\<forall>n v. cv_holds cv (MinLength n) v \<longleftrightarrow> (\<exists>s. v = Some (JText s) \<and> n \<le> characters s))
     \<and> (\<forall>n v. cv_holds cv (MaxLength n) v \<longleftrightarrow> (\<exists>s. v = Some (JText s) \<and> characters s \<le> n))
     \<and> (\<forall>n v. cv_holds cv (MinValue n) v \<longleftrightarrow> (\<exists>r. v = Some (JNumber r) \<and> of_int n \<le> r))
     \<and> (\<forall>n v. cv_holds cv (MaxValue n) v \<longleftrightarrow> (\<exists>r. v = Some (JNumber r) \<and> r \<le> of_int n))
     \<and> (\<forall>xs v. cv_holds cv (IsIn xs) v \<longleftrightarrow> (\<exists>x\<in>set xs. v = Some (JText (js x))))
     \<and> (\<forall>p v. cv_holds cv (Matches p) v \<longleftrightarrow> (\<exists>s. v = Some (JText s) \<and> matchesPattern p s))"

section \<open>Transformations\<close>

fun onText :: "(jsstring \<Rightarrow> json) \<Rightarrow> json \<Rightarrow> json" where
  "onText f (JText s) = f s"
| "onText f v = v"

definition TrimString :: "json \<Rightarrow> json" where
  "TrimString = onText (\<lambda>s. JText (trim s))"

definition trimLower :: "unicode \<Rightarrow> json \<Rightarrow> json" where
  "trimLower U = onText (\<lambda>s. JText (toLowerCase U (trim s)))"

text \<open>\<open>Number(value)\<close> of decimal digits is exact up to the range of exact doubles; beyond it every field that
  uses this exceeds its maximum.\<close>

definition toInteger :: "json \<Rightarrow> json" where
  "toInteger = onText (\<lambda>s. if s \<noteq> [] \<and> list_all is_digit s then JNumber (of_nat (digitsValue s)) else JText s)"

definition NullableQueryValue :: "json \<Rightarrow> json" where
  "NullableQueryValue = onText (\<lambda>s. case nullableQueryValue s of None \<Rightarrow> JNull | Some t \<Rightarrow> JText t)"

section \<open>The classes\<close>

record field =
  fd_name :: string
  fd_optional :: bool
  fd_transform :: "json \<Rightarrow> json"
  fd_rules :: "rule list"
  fd_default :: "json option"

definition required :: "string \<Rightarrow> (json \<Rightarrow> json) \<Rightarrow> rule list \<Rightarrow> field" where
  "required n t rs = \<lparr>fd_name = n, fd_optional = False, fd_transform = t, fd_rules = rs, fd_default = None\<rparr>"

definition optional :: "string \<Rightarrow> (json \<Rightarrow> json) \<Rightarrow> rule list \<Rightarrow> field" where
  "optional n t rs = \<lparr>fd_name = n, fd_optional = True, fd_transform = t, fd_rules = rs, fd_default = None\<rparr>"

definition defaulted :: "string \<Rightarrow> (json \<Rightarrow> json) \<Rightarrow> rule list \<Rightarrow> json \<Rightarrow> field" where
  "defaulted n t rs d = \<lparr>fd_name = n, fd_optional = True, fd_transform = t, fd_rules = rs, fd_default = Some d\<rparr>"

definition registerClass :: "unicode \<Rightarrow> field list" where
  "registerClass U =
     [required ''email'' (trimLower U) [IsString, IsEmail, MaxLength 320],
      required ''password'' id [IsString, MinLength 8, MaxLength 128],
      optional ''name'' TrimString [IsString, MinLength 1, MaxLength 100],
      optional ''deviceName'' TrimString [IsString, MinLength 1, MaxLength 100]]"

definition loginClass :: "unicode \<Rightarrow> field list" where
  "loginClass U =
     [required ''email'' (trimLower U) [IsString, IsEmail, MaxLength 320],
      required ''password'' id [IsString, MinLength 1, MaxLength 128],
      optional ''deviceName'' TrimString [IsString, MinLength 1, MaxLength 100]]"

definition refreshTokenClass :: "field list" where
  "refreshTokenClass = [required ''refreshToken'' id [IsString, MinLength 1, MaxLength 512]]"

definition logoutClass :: "field list" where
  "logoutClass = [required ''refreshToken'' id [IsString, MinLength 1, MaxLength 512]]"

definition updateProfileClass :: "field list" where
  "updateProfileClass =
     [optional ''name'' TrimString [IsString, MinLength 1, MaxLength 100],
      optional ''avatarUrl'' id [IsString, IsUrl, MaxLength 2048]]"

definition FOLDER_NAME_MAX_LENGTH :: nat where
  "FOLDER_NAME_MAX_LENGTH = 100"

definition createFolderClass :: "field list" where
  "createFolderClass =
     [required ''name'' TrimString [IsString, MinLength 1, MaxLength FOLDER_NAME_MAX_LENGTH, Matches (NoControl False)],
      optional ''parentId'' id [IsUUID]]"

definition listFoldersClass :: "field list" where
  "listFoldersClass = [optional ''parentId'' NullableQueryValue [IsUUID]]"

definition updateFolderClass :: "field list" where
  "updateFolderClass =
     [optional ''name'' TrimString [IsString, MinLength 1, MaxLength FOLDER_NAME_MAX_LENGTH, Matches (NoControl False)],
      optional ''parentId'' id [IsUUID]]"

definition DOCUMENT_TITLE_MAX_LENGTH :: nat where
  "DOCUMENT_TITLE_MAX_LENGTH = 255"

definition DOCUMENT_DESCRIPTION_MAX_LENGTH :: nat where
  "DOCUMENT_DESCRIPTION_MAX_LENGTH = 2000"

definition createDocumentClass :: "field list" where
  "createDocumentClass =
     [required ''title'' TrimString [IsString, MinLength 1, MaxLength DOCUMENT_TITLE_MAX_LENGTH, Matches (NoControl False)],
      optional ''description'' TrimString [IsString, MaxLength DOCUMENT_DESCRIPTION_MAX_LENGTH, Matches (NoControl True)],
      optional ''folderId'' id [IsUUID]]"

definition updateDocumentClass :: "field list" where
  "updateDocumentClass =
     [optional ''title'' TrimString [IsString, MinLength 1, MaxLength DOCUMENT_TITLE_MAX_LENGTH, Matches (NoControl False)],
      optional ''description'' TrimString [IsString, MaxLength DOCUMENT_DESCRIPTION_MAX_LENGTH, Matches (NoControl True)],
      optional ''folderId'' id [IsUUID]]"

definition createUploadUrlClass :: "field list" where
  "createUploadUrlClass =
     [required ''fileName'' TrimString [IsString, MinLength 1, MaxLength FILE_NAME_MAX_LENGTH, Matches (NoControl False)],
      required ''contentType'' TrimString [IsString, MinLength 3, MaxLength 127, Matches MimePattern],
      required ''fileSize'' id [IsInt, MinValue 1]]"

definition completeUploadClass :: "field list" where
  "completeUploadClass = [optional ''etag'' TrimString [IsString, MaxLength 128, Matches EtagPattern]]"

definition LISTABLE_DOCUMENT_STATUSES :: "(string \<times> DocumentStatus) list" where
  "LISTABLE_DOCUMENT_STATUSES = [(''DRAFT'', DRAFT), (''UPLOADING'', UPLOADING), (''READY'', READY),
     (''PROCESSING'', PROCESSING_DOC), (''FAILED'', FAILED_DOC)]"

definition DOCUMENT_SORT_FIELDS :: "(string \<times> DocumentSortField) list" where
  "DOCUMENT_SORT_FIELDS = [(''createdAt'', SortCreatedAt), (''updatedAt'', SortUpdatedAt), (''title'', SortTitle),
     (''fileSize'', SortFileSize)]"

definition SORT_ORDERS :: "(string \<times> SortOrder) list" where
  "SORT_ORDERS = [(''asc'', Asc), (''desc'', Desc)]"

definition listDocumentsClass :: "field list" where
  "listDocumentsClass =
     [defaulted ''page'' toInteger [IsInt, MinValue 1, MaxValue 100000] (JNumber 1),
      defaulted ''limit'' toInteger [IsInt, MinValue 1, MaxValue 100] (JNumber 20),
      optional ''folderId'' NullableQueryValue [IsUUID],
      optional ''status'' id [IsIn (map fst LISTABLE_DOCUMENT_STATUSES)],
      optional ''search'' TrimString [IsString, MaxLength 200, Matches (NoControl False)],
      defaulted ''sort'' id [IsIn (map fst DOCUMENT_SORT_FIELDS)] (JText (js ''createdAt'')),
      defaulted ''order'' id [IsIn (map fst SORT_ORDERS)] (JText (js ''desc''))]"

definition requestOcrClass :: "field list" where
  "requestOcrClass =
     [optional ''language'' TrimString [IsString, MaxLength 64, Matches LanguagePattern],
      defaulted ''forceReprocess'' id [IsBoolean] (JBool False)]"

definition ocrResultsClass :: "field list" where
  "ocrResultsClass =
     [defaulted ''page'' toInteger [IsInt, MinValue 1, MaxValue 100000] (JNumber 1),
      defaulted ''limit'' toInteger [IsInt, MinValue 1, MaxValue 50] (JNumber 10),
      optional ''pageNumber'' toInteger [IsInt, MinValue 1, MaxValue 1000000],
      optional ''jobId'' id [IsUUID]]"

section \<open>The pipe\<close>

text \<open>\<open>whitelist\<close>, \<open>forbidNonWhitelisted\<close>, \<open>transform\<close>: the instance of the class, the messages of every rule that
  fails, and one for every property that the class does not have.\<close>

definition instanceOf :: "field list \<Rightarrow> body \<Rightarrow> string \<Rightarrow> json option" where
  "instanceOf fs b n =
     (case findFirst (\<lambda>f. fd_name f = n) fs of
        None \<Rightarrow> None
      | Some f \<Rightarrow> (case map_of b n of Some v \<Rightarrow> Some (fd_transform f v) | None \<Rightarrow> fd_default f))"

definition fieldErrors :: "class_validator \<Rightarrow> field \<Rightarrow> json option \<Rightarrow> string list" where
  "fieldErrors cv f v =
     (if fd_optional f \<and> v \<in> {None, Some JNull} then []
      else map (cv_message cv (fd_name f)) (filter (\<lambda>r. \<not> cv_holds cv r v) (fd_rules f)))"

definition validationErrors :: "class_validator \<Rightarrow> field list \<Rightarrow> body \<Rightarrow> string list" where
  "validationErrors cv fs b =
     map (cv_forbidden cv) (filter (\<lambda>k. k \<notin> fd_name ` set fs) (map fst b))
     @ concat (map (\<lambda>f. fieldErrors cv f (instanceOf fs b (fd_name f))) fs)"

definition badRequest :: "string list \<Rightarrow> exception" where
  "badRequest errors = HttpEx 400 (BodyObject \<lparr>b_statusCode = Some 400, b_message = Some (Texts errors),
     b_error = Some ''Bad Request'', b_code = None\<rparr>)"

section \<open>From the request to the call\<close>

text \<open>A request as it arrives: its route, the id in its path, its body or query.\<close>

datatype RawCall =
    RawRegister body | RawLogin body | RawRefresh body | RawLogout body | RawAuthMe | RawUsersMe | RawUpdateMe body
  | RawFolderCreate body | RawFolderList body | RawFolderGet jsstring | RawFolderUpdate jsstring body | RawFolderRemove jsstring
  | RawDocumentCreate body | RawDocumentList body | RawDocumentGet jsstring | RawDocumentUpdate jsstring body
  | RawDocumentRemove jsstring | RawUploadUrl jsstring body | RawUploadComplete jsstring body | RawDownloadUrl jsstring
  | RawOcrRequest jsstring body | RawOcrStatus jsstring | RawOcrResults jsstring body | RawOcrRetry jsstring
  | RawHealth | RawHealthOcr

fun classOf :: "unicode \<Rightarrow> RawCall \<Rightarrow> field list" where
  "classOf U (RawRegister _) = registerClass U"
| "classOf U (RawLogin _) = loginClass U"
| "classOf U (RawRefresh _) = refreshTokenClass"
| "classOf U (RawLogout _) = logoutClass"
| "classOf U (RawUpdateMe _) = updateProfileClass"
| "classOf U (RawFolderCreate _) = createFolderClass"
| "classOf U (RawFolderList _) = listFoldersClass"
| "classOf U (RawFolderUpdate _ _) = updateFolderClass"
| "classOf U (RawDocumentCreate _) = createDocumentClass"
| "classOf U (RawDocumentList _) = listDocumentsClass"
| "classOf U (RawDocumentUpdate _ _) = updateDocumentClass"
| "classOf U (RawUploadUrl _ _) = createUploadUrlClass"
| "classOf U (RawUploadComplete _ _) = completeUploadClass"
| "classOf U (RawOcrRequest _ _) = requestOcrClass"
| "classOf U (RawOcrResults _ _) = ocrResultsClass"
| "classOf U _ = []"

fun bodyOf :: "RawCall \<Rightarrow> body" where
  "bodyOf (RawRegister b) = b"
| "bodyOf (RawLogin b) = b"
| "bodyOf (RawRefresh b) = b"
| "bodyOf (RawLogout b) = b"
| "bodyOf (RawUpdateMe b) = b"
| "bodyOf (RawFolderCreate b) = b"
| "bodyOf (RawFolderList b) = b"
| "bodyOf (RawFolderUpdate _ b) = b"
| "bodyOf (RawDocumentCreate b) = b"
| "bodyOf (RawDocumentList b) = b"
| "bodyOf (RawDocumentUpdate _ b) = b"
| "bodyOf (RawUploadUrl _ b) = b"
| "bodyOf (RawUploadComplete _ b) = b"
| "bodyOf (RawOcrRequest _ b) = b"
| "bodyOf (RawOcrResults _ b) = b"
| "bodyOf _ = []"

text \<open>The id in the path of the routes that have a body as well: its pipe answers before that of the body.\<close>

fun pathId :: "RawCall \<Rightarrow> jsstring option" where
  "pathId (RawFolderUpdate i _) = Some i"
| "pathId (RawDocumentUpdate i _) = Some i"
| "pathId (RawUploadUrl i _) = Some i"
| "pathId (RawUploadComplete i _) = Some i"
| "pathId (RawOcrRequest i _) = Some i"
| "pathId (RawOcrResults i _) = Some i"
| "pathId _ = None"

text \<open>The properties of an instance at the types of its class; validation makes sure that they have them.\<close>

fun textValue :: "json option \<Rightarrow> jsstring" where
  "textValue (Some (JText s)) = s"
| "textValue _ = []"

fun nullableText :: "json option \<Rightarrow> jsstring option" where
  "nullableText (Some (JText s)) = Some s"
| "nullableText _ = None"

fun patchText :: "json option \<Rightarrow> jsstring option option" where
  "patchText None = None"
| "patchText v = Some (nullableText v)"

fun intValue :: "json option \<Rightarrow> int" where
  "intValue (Some (JNumber r)) = \<lfloor>r\<rfloor>"
| "intValue _ = 0"

fun nullableNat :: "json option \<Rightarrow> nat option" where
  "nullableNat (Some (JNumber r)) = Some (nat \<lfloor>r\<rfloor>)"
| "nullableNat _ = None"

fun nullableBool :: "json option \<Rightarrow> bool option" where
  "nullableBool (Some (JBool b)) = Some b"
| "nullableBool _ = None"

definition choice :: "(string \<times> 'a) list \<Rightarrow> json option \<Rightarrow> 'a option" where
  "choice table v = map_option snd (findFirst (\<lambda>(n, _). v = Some (JText (js n))) table)"

definition toRegisterDto :: "(string \<Rightarrow> json option) \<Rightarrow> RegisterDto" where
  "toRegisterDto inst = \<lparr>reg_email = textValue (inst ''email''), reg_password = textValue (inst ''password''),
     reg_name = nullableText (inst ''name'')\<rparr>"

definition toLoginDto :: "(string \<Rightarrow> json option) \<Rightarrow> LoginDto" where
  "toLoginDto inst = \<lparr>log_email = textValue (inst ''email''), log_password = textValue (inst ''password'')\<rparr>"

definition toUpdateProfileDto :: "(string \<Rightarrow> json option) \<Rightarrow> UpdateProfileDto" where
  "toUpdateProfileDto inst = \<lparr>up_name = patchText (inst ''name''), up_avatarUrl = patchText (inst ''avatarUrl'')\<rparr>"

definition toCreateFolderDto :: "(string \<Rightarrow> json option) \<Rightarrow> CreateFolderDto" where
  "toCreateFolderDto inst = \<lparr>cf_name = textValue (inst ''name''), cf_parentId = nullableText (inst ''parentId'')\<rparr>"

definition toUpdateFolderDto :: "(string \<Rightarrow> json option) \<Rightarrow> UpdateFolderDto" where
  "toUpdateFolderDto inst = \<lparr>uf_name = patchText (inst ''name''), uf_parentId = patchText (inst ''parentId'')\<rparr>"

definition toCreateDocumentDto :: "(string \<Rightarrow> json option) \<Rightarrow> CreateDocumentDto" where
  "toCreateDocumentDto inst = \<lparr>cd_title = textValue (inst ''title''), cd_description = nullableText (inst ''description''),
     cd_folderId = nullableText (inst ''folderId'')\<rparr>"

definition toUpdateDocumentDto :: "(string \<Rightarrow> json option) \<Rightarrow> UpdateDocumentDto" where
  "toUpdateDocumentDto inst = \<lparr>ud_title = patchText (inst ''title''), ud_description = patchText (inst ''description''),
     ud_folderId = patchText (inst ''folderId'')\<rparr>"

definition toListDocumentsQuery :: "(string \<Rightarrow> json option) \<Rightarrow> ListDocumentsQuery" where
  "toListDocumentsQuery inst = \<lparr>q_page = nat (intValue (inst ''page'')), q_limit = nat (intValue (inst ''limit'')),
     q_folderId = patchText (inst ''folderId''), q_status = choice LISTABLE_DOCUMENT_STATUSES (inst ''status''),
     q_search = nullableText (inst ''search''),
     q_sort = (case choice DOCUMENT_SORT_FIELDS (inst ''sort'') of Some f \<Rightarrow> f | None \<Rightarrow> SortCreatedAt),
     q_order = (case choice SORT_ORDERS (inst ''order'') of Some d \<Rightarrow> d | None \<Rightarrow> Desc)\<rparr>"

definition toCreateUploadUrlDto :: "(string \<Rightarrow> json option) \<Rightarrow> CreateUploadUrlDto" where
  "toCreateUploadUrlDto inst = \<lparr>cu_fileName = textValue (inst ''fileName''), cu_contentType = textValue (inst ''contentType''),
     cu_fileSize = intValue (inst ''fileSize'')\<rparr>"

definition toRequestOcrDto :: "(string \<Rightarrow> json option) \<Rightarrow> RequestOcrDto" where
  "toRequestOcrDto inst = \<lparr>rq_language = nullableText (inst ''language''), rq_forceReprocess = nullableBool (inst ''forceReprocess'')\<rparr>"

definition toOcrResultsQueryDto :: "(string \<Rightarrow> json option) \<Rightarrow> OcrResultsQueryDto" where
  "toOcrResultsQueryDto inst = \<lparr>oq_page = nat (intValue (inst ''page'')), oq_limit = nat (intValue (inst ''limit'')),
     oq_pageNumber = nullableNat (inst ''pageNumber''), oq_jobId = nullableText (inst ''jobId'')\<rparr>"

fun toCall :: "RawCall \<Rightarrow> (string \<Rightarrow> json option) \<Rightarrow> Call" where
  "toCall (RawRegister _) inst = AuthRegister (toRegisterDto inst) (nullableText (inst ''deviceName''))"
| "toCall (RawLogin _) inst = AuthLogin (toLoginDto inst) (nullableText (inst ''deviceName''))"
| "toCall (RawRefresh _) inst = AuthRefresh (textValue (inst ''refreshToken''))"
| "toCall (RawLogout _) inst = AuthLogout (textValue (inst ''refreshToken''))"
| "toCall RawAuthMe inst = AuthMe"
| "toCall RawUsersMe inst = UsersMe"
| "toCall (RawUpdateMe _) inst = UsersUpdateMe (toUpdateProfileDto inst)"
| "toCall (RawFolderCreate _) inst = FolderCreate (toCreateFolderDto inst)"
| "toCall (RawFolderList _) inst = FolderList (patchText (inst ''parentId''))"
| "toCall (RawFolderGet i) inst = FolderGet i"
| "toCall (RawFolderUpdate i _) inst = FolderUpdate i (toUpdateFolderDto inst)"
| "toCall (RawFolderRemove i) inst = FolderRemove i"
| "toCall (RawDocumentCreate _) inst = DocumentCreate (toCreateDocumentDto inst)"
| "toCall (RawDocumentList _) inst = DocumentList (toListDocumentsQuery inst)"
| "toCall (RawDocumentGet i) inst = DocumentGet i"
| "toCall (RawDocumentUpdate i _) inst = DocumentUpdate i (toUpdateDocumentDto inst)"
| "toCall (RawDocumentRemove i) inst = DocumentRemove i"
| "toCall (RawUploadUrl i _) inst = DocumentUploadUrl i (toCreateUploadUrlDto inst)"
| "toCall (RawUploadComplete i _) inst = DocumentUploadComplete i (nullableText (inst ''etag''))"
| "toCall (RawDownloadUrl i) inst = DocumentDownloadUrl i"
| "toCall (RawOcrRequest i _) inst = OcrRequest i (toRequestOcrDto inst)"
| "toCall (RawOcrStatus i) inst = OcrStatus i"
| "toCall (RawOcrResults i _) inst = OcrResultsOf i (toOcrResultsQueryDto inst)"
| "toCall (RawOcrRetry i) inst = OcrRetry i"
| "toCall RawHealth inst = HealthCheck"
| "toCall RawHealthOcr inst = HealthOcr"

text \<open>The guards come before the pipes, and the pipes before the handler.\<close>

definition handleHttp :: "class_validator \<Rightarrow> services \<Rightarrow> Request \<Rightarrow> RawCall \<Rightarrow> World \<Rightarrow> response \<times> World" where
  "handleHttp cv sv req raw w =
     (let fs = classOf (sv_unicode sv) raw;
          req' = req\<lparr>rq_call := toCall raw (instanceOf fs (bodyOf raw))\<rparr>;
          errors = validationErrors cv fs (bodyOf raw);
          rid = requestIdMiddleware (sv_run sv) (rq_requestIdHeader req);
          failed = (\<lambda>x. ((map_prod id Inl (catchException x rid)), w))
      in if errors = [] then handleApi sv req' w
         else (case guards req' w of
                 Inl f \<Rightarrow> failed (thrownBy f)
               | Inr _ \<Rightarrow>
                   (case (case pathId raw of Some i \<Rightarrow> map_sum id (\<lambda>_. ()) (uuidParam (Some ''id'') i) | None \<Rightarrow> Inr ()) of
                      Inl f \<Rightarrow> failed (thrownBy f)
                    | Inr _ \<Rightarrow> failed (badRequest errors))))"

section \<open>What validation promises\<close>

text \<open>The values of a query are text, arrays or objects, never null.\<close>

definition query :: "body \<Rightarrow> bool" where
  "query b \<longleftrightarrow> (\<forall>(k, v)\<in>set b. v = JOther \<or> (\<exists>s. v = JText s))"

fun arrives :: "RawCall \<Rightarrow> bool" where
  "arrives (RawFolderList b) = query b"
| "arrives (RawDocumentList b) = query b"
| "arrives (RawOcrResults _ b) = query b"
| "arrives _ = True"

definition fits :: "nat \<Rightarrow> nat \<Rightarrow> jsstring \<Rightarrow> bool" where
  "fits lo hi s \<longleftrightarrow> lo \<le> characters s \<and> characters s \<le> hi"

text \<open>Text for display: trimmed, not empty, without control characters.\<close>

definition displayText :: "nat \<Rightarrow> jsstring \<Rightarrow> bool" where
  "displayText hi s \<longleftrightarrow> fits 1 hi s \<and> trim s = s \<and> noControlCharacters False s"

definition multilineText :: "nat \<Rightarrow> jsstring \<Rightarrow> bool" where
  "multilineText hi s \<longleftrightarrow> fits 0 hi s \<and> trim s = s \<and> noControlCharacters True s"

definition label :: "nat \<Rightarrow> jsstring \<Rightarrow> bool" where
  "label hi s \<longleftrightarrow> fits 1 hi s \<and> trim s = s"

fun call_ok :: "Call \<Rightarrow> bool" where
  "call_ok (AuthRegister dto deviceName) \<longleftrightarrow> fits 0 320 (reg_email dto) \<and> fits 8 128 (reg_password dto)
     \<and> pred_option (label 100) (reg_name dto) \<and> pred_option (label 100) deviceName"
| "call_ok (AuthLogin dto deviceName) \<longleftrightarrow> fits 0 320 (log_email dto) \<and> fits 1 128 (log_password dto)
     \<and> pred_option (label 100) deviceName"
| "call_ok (AuthRefresh token) \<longleftrightarrow> fits 1 512 token"
| "call_ok (AuthLogout token) \<longleftrightarrow> fits 1 512 token"
| "call_ok (UsersUpdateMe dto) \<longleftrightarrow> pred_option (pred_option (label 100)) (up_name dto)
     \<and> pred_option (pred_option (fits 0 2048)) (up_avatarUrl dto)"
| "call_ok (FolderCreate dto) \<longleftrightarrow> displayText 100 (cf_name dto) \<and> pred_option uuidText (cf_parentId dto)"
| "call_ok (FolderList parentId) \<longleftrightarrow> pred_option (pred_option uuidText) parentId"
| "call_ok (FolderUpdate _ dto) \<longleftrightarrow> pred_option (pred_option (displayText 100)) (uf_name dto)
     \<and> pred_option (pred_option uuidText) (uf_parentId dto)"
| "call_ok (DocumentCreate dto) \<longleftrightarrow> displayText 255 (cd_title dto) \<and> pred_option (multilineText 2000) (cd_description dto)
     \<and> pred_option uuidText (cd_folderId dto)"
| "call_ok (DocumentUpdate _ dto) \<longleftrightarrow> pred_option (pred_option (displayText 255)) (ud_title dto)
     \<and> pred_option (pred_option (multilineText 2000)) (ud_description dto) \<and> pred_option (pred_option uuidText) (ud_folderId dto)"
| "call_ok (DocumentList q) \<longleftrightarrow> q_page q \<in> {1..100000} \<and> q_limit q \<in> {1..100} \<and> pred_option (pred_option uuidText) (q_folderId q)
     \<and> q_status q \<noteq> Some DELETED \<and> pred_option (fits 0 200) (q_search q)"
| "call_ok (DocumentUploadUrl _ dto) \<longleftrightarrow> displayText 255 (cu_fileName dto) \<and> fits 3 127 (cu_contentType dto)
     \<and> MIME_TYPE_PATTERN (cu_contentType dto) \<and> 1 \<le> cu_fileSize dto"
| "call_ok (DocumentUploadComplete _ etag) \<longleftrightarrow> pred_option (\<lambda>s. fits 0 128 s \<and> etagFormat s) etag"
| "call_ok (OcrRequest _ dto) \<longleftrightarrow> pred_option (\<lambda>s. fits 0 64 s \<and> OCR_LANGUAGE_PATTERN s) (rq_language dto)"
| "call_ok (OcrResultsOf _ q) \<longleftrightarrow> oq_page q \<in> {1..100000} \<and> oq_limit q \<in> {1..50}
     \<and> pred_option (\<lambda>n. 1 \<le> n \<and> n \<le> 1000000) (oq_pageNumber q) \<and> pred_option uuidText (oq_jobId q)"
| "call_ok _ \<longleftrightarrow> True"

lemma validated_field:
  assumes "validationErrors cv fs b = []" and "f \<in> set fs"
  shows "fd_optional f \<and> instanceOf fs b (fd_name f) \<in> {None, Some JNull}
    \<or> (\<forall>r\<in>set (fd_rules f). cv_holds cv r (instanceOf fs b (fd_name f)))"
proof -
  have "fieldErrors cv f (instanceOf fs b (fd_name f)) = []" using assms by (auto simp: validationErrors_def)
  then show ?thesis by (auto simp: fieldErrors_def filter_empty_conv split: if_splits)
qed

lemma required_field:
  assumes "validationErrors cv fs b = []" and "required n t rs \<in> set fs" and "r \<in> set rs"
  shows "cv_holds cv r (instanceOf fs b n)"
  using validated_field [OF assms(1,2)] assms(3) by (simp add: required_def)

lemma optional_field:
  assumes "validationErrors cv fs b = []" and "optional n t rs \<in> set fs"
  shows "instanceOf fs b n = None \<or> instanceOf fs b n = Some JNull \<or> (\<forall>r\<in>set rs. cv_holds cv r (instanceOf fs b n))"
  using validated_field [OF assms] by (auto simp: optional_def)

lemma rules:
  assumes "class_validator_ok cv"
  shows "cv_holds cv IsString v \<longleftrightarrow> (\<exists>s. v = Some (JText s))"
    "cv_holds cv IsUUID v \<Longrightarrow> \<exists>s. v = Some (JText s) \<and> uuidText s"
    "cv_holds cv IsInt v \<longleftrightarrow> (\<exists>k. v = Some (JNumber (of_int k)))"
    "cv_holds cv IsBoolean v \<longleftrightarrow> (\<exists>b. v = Some (JBool b))"
    "cv_holds cv (MinLength n) v \<longleftrightarrow> (\<exists>s. v = Some (JText s) \<and> n \<le> characters s)"
    "cv_holds cv (MaxLength n) v \<longleftrightarrow> (\<exists>s. v = Some (JText s) \<and> characters s \<le> n)"
    "cv_holds cv (MinValue k) v \<longleftrightarrow> (\<exists>r. v = Some (JNumber r) \<and> of_int k \<le> r)"
    "cv_holds cv (MaxValue k) v \<longleftrightarrow> (\<exists>r. v = Some (JNumber r) \<and> r \<le> of_int k)"
    "cv_holds cv (IsIn xs) v \<longleftrightarrow> (\<exists>x\<in>set xs. v = Some (JText (js x)))"
    "cv_holds cv (Matches p) v \<longleftrightarrow> (\<exists>s. v = Some (JText s) \<and> matchesPattern p s)"
  using assms by (simp_all add: class_validator_ok_def)

text \<open>A text that went through \<open>TrimString\<close> is trimmed.\<close>

lemma trimmed_instance:
  assumes "findFirst (\<lambda>f. fd_name f = n) fs = Some f" and "fd_transform f = TrimString" and "fd_default f = None"
    and "instanceOf fs b n = Some (JText s)"
  shows "trim s = s"
proof -
  obtain v where "TrimString v = JText s" using assms by (auto simp: instanceOf_def split: option.splits)
  then show ?thesis by (cases v) (auto simp: TrimString_def trim_idem)
qed

text \<open>The kinds of fields the classes use.\<close>

lemma patch_cases:
  assumes "v = None \<or> v = Some JNull \<or> (\<exists>s. v = Some (JText s) \<and> P s)"
  shows "pred_option P (nullableText v)" "pred_option (pred_option P) (patchText v)"
  using assms by auto

lemma optional_text:
  assumes "class_validator_ok cv" and "validationErrors cv fs b = []" and "optional n t rs \<in> set fs" and "IsString \<in> set rs"
    and "\<And>s. instanceOf fs b n = Some (JText s) \<Longrightarrow> \<forall>r\<in>set rs. cv_holds cv r (Some (JText s)) \<Longrightarrow> P s"
  shows "pred_option P (nullableText (instanceOf fs b n))" "pred_option (pred_option P) (patchText (instanceOf fs b n))"
proof -
  have "instanceOf fs b n = None \<or> instanceOf fs b n = Some JNull \<or> (\<exists>s. instanceOf fs b n = Some (JText s) \<and> P s)"
    using optional_field [OF assms(2,3)] rules(1) [OF assms(1)] assms(4,5) by metis
  then show "pred_option P (nullableText (instanceOf fs b n))" "pred_option (pred_option P) (patchText (instanceOf fs b n))"
    using patch_cases by blast+
qed

lemma optional_uuid:
  assumes "class_validator_ok cv" and "validationErrors cv fs b = []" and "optional n t [IsUUID] \<in> set fs"
  shows "pred_option uuidText (nullableText (instanceOf fs b n))" "pred_option (pred_option uuidText) (patchText (instanceOf fs b n))"
proof -
  have "instanceOf fs b n = None \<or> instanceOf fs b n = Some JNull \<or> (\<exists>s. instanceOf fs b n = Some (JText s) \<and> uuidText s)"
    using optional_field [OF assms(2,3)] rules(2) [OF assms(1), of "instanceOf fs b n"] by auto
  then show "pred_option uuidText (nullableText (instanceOf fs b n))"
    "pred_option (pred_option uuidText) (patchText (instanceOf fs b n))" using patch_cases by blast+
qed

lemma required_text:
  assumes "class_validator_ok cv" and "validationErrors cv fs b = []" and "required n t rs \<in> set fs" and "IsString \<in> set rs"
  obtains s where "instanceOf fs b n = Some (JText s)" "textValue (instanceOf fs b n) = s"
    "\<forall>r\<in>set rs. cv_holds cv r (Some (JText s))"
proof -
  obtain s where s: "instanceOf fs b n = Some (JText s)"
    using required_field [OF assms(2,3,4)] rules(1) [OF assms(1)] by blast
  show thesis
  proof (rule that [of s])
    show "instanceOf fs b n = Some (JText s)" by (rule s)
    show "textValue (instanceOf fs b n) = s" by (simp add: s)
    show "\<forall>r\<in>set rs. cv_holds cv r (Some (JText s))" using required_field [OF assms(2,3)] s by metis
  qed
qed

lemma query_integer:
  assumes "query b" and "findFirst (\<lambda>f. fd_name f = n) fs = Some f" and "fd_transform f = toInteger" and "fd_default f \<noteq> Some JNull"
  shows "instanceOf fs b n \<noteq> Some JNull"
proof (cases "map_of b n")
  case None
  then show ?thesis using assms by (simp add: instanceOf_def)
next
  case (Some v)
  then have "(n, v) \<in> set b" by (rule map_of_SomeD)
  then have "v = JOther \<or> (\<exists>s. v = JText s)" using assms(1) by (auto simp: query_def)
  then show ?thesis using Some assms(2,3) by (auto simp: instanceOf_def toInteger_def split: if_splits)
qed

lemma integer_rules:
  assumes "class_validator_ok cv" and "cv_holds cv IsInt v" and "cv_holds cv (MinValue lo) v" and "cv_holds cv (MaxValue hi) v"
  shows "lo \<le> intValue v \<and> intValue v \<le> hi \<and> nullableNat v = Some (nat (intValue v))"
  using assms(2-4) unfolding rules [OF assms(1)] by auto

lemma defaulted_integer:
  assumes "class_validator_ok cv" and "validationErrors cv fs b = []" and "query b"
    and "findFirst (\<lambda>f. fd_name f = n) fs = Some (defaulted n toInteger [IsInt, MinValue lo, MaxValue hi] (JNumber d))"
  shows "lo \<le> intValue (instanceOf fs b n) \<and> intValue (instanceOf fs b n) \<le> hi"
proof -
  let ?f = "defaulted n toInteger [IsInt, MinValue lo, MaxValue hi] (JNumber d)"
  have f: "?f \<in> set fs" "fd_name ?f = n" using findFirst_SomeD [OF assms(4)] by simp_all
  have "instanceOf fs b n \<noteq> None" using assms(4) by (simp add: instanceOf_def defaulted_def split: option.split)
  moreover have "instanceOf fs b n \<noteq> Some JNull" by (rule query_integer [OF assms(3,4)]) (simp_all add: defaulted_def)
  ultimately have "\<forall>r\<in>set (fd_rules ?f). cv_holds cv r (instanceOf fs b n)"
    using validated_field [OF assms(2) f(1)] unfolding f(2) by auto
  then show ?thesis using integer_rules [OF assms(1), of "instanceOf fs b n" lo hi] by (simp add: defaulted_def)
qed

lemma optional_integer:
  assumes "class_validator_ok cv" and "validationErrors cv fs b = []" and "optional n toInteger [IsInt, MinValue lo, MaxValue hi] \<in> set fs"
    and "0 \<le> lo"
  shows "pred_option (\<lambda>k. nat lo \<le> k \<and> k \<le> nat hi) (nullableNat (instanceOf fs b n))"
  using optional_field [OF assms(2,3)]
proof (elim disjE)
  assume "\<forall>r\<in>set [IsInt, MinValue lo, MaxValue hi]. cv_holds cv r (instanceOf fs b n)"
  then have "lo \<le> intValue (instanceOf fs b n) \<and> intValue (instanceOf fs b n) \<le> hi
      \<and> nullableNat (instanceOf fs b n) = Some (nat (intValue (instanceOf fs b n)))"
    by (intro integer_rules [OF assms(1)]) simp_all
  then show ?thesis by (simp add: nat_mono)
qed simp_all

text \<open>Every class.\<close>

lemmas field_defs = required_def optional_def defaulted_def

lemma own_field: "findFirst (\<lambda>f. fd_name f = n) (required n t rs # fs) = Some (required n t rs)"
  "findFirst (\<lambda>f. fd_name f = n) (optional n t rs # fs) = Some (optional n t rs)"
  "findFirst (\<lambda>f. fd_name f = n) (defaulted n t rs d # fs) = Some (defaulted n t rs d)"
  by (simp_all add: findFirst_def field_defs)

lemma other_field: "n \<noteq> m \<Longrightarrow> findFirst (\<lambda>f. fd_name f = n) (required m t rs # fs) = findFirst (\<lambda>f. fd_name f = n) fs"
  "n \<noteq> m \<Longrightarrow> findFirst (\<lambda>f. fd_name f = n) (optional m t rs # fs) = findFirst (\<lambda>f. fd_name f = n) fs"
  "n \<noteq> m \<Longrightarrow> findFirst (\<lambda>f. fd_name f = n) (defaulted m t rs d # fs) = findFirst (\<lambda>f. fd_name f = n) fs"
  by (simp_all add: findFirst_def field_defs)

lemma required_display:
  assumes "class_validator_ok cv" and "validationErrors cv fs b = []"
    and "findFirst (\<lambda>f. fd_name f = n) fs = Some (required n TrimString [IsString, MinLength 1, MaxLength hi, Matches (NoControl False)])"
  shows "displayText hi (textValue (instanceOf fs b n))"
proof -
  have f: "required n TrimString [IsString, MinLength 1, MaxLength hi, Matches (NoControl False)] \<in> set fs"
    using findFirst_SomeD [OF assms(3)] by simp
  obtain s where s: "instanceOf fs b n = Some (JText s)" "textValue (instanceOf fs b n) = s"
    "\<forall>r\<in>set [IsString, MinLength 1, MaxLength hi, Matches (NoControl False)]. cv_holds cv r (Some (JText s))"
    using required_text [OF assms(1,2) f] by (metis list.set_intros(1))
  have "trim s = s" by (rule trimmed_instance [OF assms(3) _ _ s(1)]) (simp_all add: required_def)
  then show ?thesis using s(2,3) by (simp add: rules [OF assms(1)] displayText_def fits_def)
qed

lemma optional_trimmed:
  assumes "class_validator_ok cv" and "validationErrors cv fs b = []"
    and "findFirst (\<lambda>f. fd_name f = n) fs = Some (optional n TrimString rs)" and "IsString \<in> set rs"
    and "\<And>s. trim s = s \<Longrightarrow> \<forall>r\<in>set rs. cv_holds cv r (Some (JText s)) \<Longrightarrow> P s"
  shows "pred_option P (nullableText (instanceOf fs b n))" "pred_option (pred_option P) (patchText (instanceOf fs b n))"
proof -
  have f: "optional n TrimString rs \<in> set fs" using findFirst_SomeD [OF assms(3)] by simp
  have "trim s = s" if "instanceOf fs b n = Some (JText s)" for s
    by (rule trimmed_instance [OF assms(3) _ _ that]) (simp_all add: optional_def)
  then show "pred_option P (nullableText (instanceOf fs b n))" "pred_option (pred_option P) (patchText (instanceOf fs b n))"
    using optional_text [OF assms(1,2) f assms(4), of P] assms(5) by blast+
qed

lemma required_within:
  assumes "class_validator_ok cv" and "validationErrors cv fs b = []" and "required n t rs \<in> set fs"
    and "{IsString, MinLength lo, MaxLength hi} \<subseteq> set rs"
  shows "fits lo hi (textValue (instanceOf fs b n))"
proof -
  have "IsString \<in> set rs" using assms(4) by simp
  from required_text [OF assms(1-3) this] obtain s where
    s: "textValue (instanceOf fs b n) = s" "\<forall>r\<in>set rs. cv_holds cv r (Some (JText s))" .
  then have "cv_holds cv (MinLength lo) (Some (JText s))" "cv_holds cv (MaxLength hi) (Some (JText s))"
    using assms(4) by simp_all
  then show ?thesis using s(1) by (simp add: rules [OF assms(1)] fits_def)
qed

lemma required_at_most:
  assumes "class_validator_ok cv" and "validationErrors cv fs b = []" and "required n t rs \<in> set fs"
    and "{IsString, MaxLength hi} \<subseteq> set rs"
  shows "fits 0 hi (textValue (instanceOf fs b n))"
proof -
  have "IsString \<in> set rs" using assms(4) by simp
  from required_text [OF assms(1-3) this] obtain s where
    s: "textValue (instanceOf fs b n) = s" "\<forall>r\<in>set rs. cv_holds cv r (Some (JText s))" .
  then have "cv_holds cv (MaxLength hi) (Some (JText s))" using assms(4) by simp
  then show ?thesis using s(1) by (simp add: rules [OF assms(1)] fits_def)
qed

lemma optional_label:
  assumes "class_validator_ok cv" and "validationErrors cv fs b = []"
    and "findFirst (\<lambda>f. fd_name f = n) fs = Some (optional n TrimString [IsString, MinLength 1, MaxLength hi])"
  shows "pred_option (label hi) (nullableText (instanceOf fs b n))" "pred_option (pred_option (label hi)) (patchText (instanceOf fs b n))"
  by (rule optional_trimmed [OF assms]; simp add: rules [OF assms(1)] label_def fits_def)+

lemma optional_display:
  assumes "class_validator_ok cv" and "validationErrors cv fs b = []"
    and "findFirst (\<lambda>f. fd_name f = n) fs = Some (optional n TrimString [IsString, MinLength 1, MaxLength hi, Matches (NoControl False)])"
  shows "pred_option (pred_option (displayText hi)) (patchText (instanceOf fs b n))"
  by (rule optional_trimmed [OF assms]; simp add: rules [OF assms(1)] displayText_def fits_def)

lemma optional_multiline:
  assumes "class_validator_ok cv" and "validationErrors cv fs b = []"
    and "findFirst (\<lambda>f. fd_name f = n) fs = Some (optional n TrimString [IsString, MaxLength hi, Matches (NoControl True)])"
  shows "pred_option (multilineText hi) (nullableText (instanceOf fs b n))"
    "pred_option (pred_option (multilineText hi)) (patchText (instanceOf fs b n))"
  by (rule optional_trimmed [OF assms]; simp add: rules [OF assms(1)] multilineText_def fits_def)+

lemma optional_matching:
  assumes "class_validator_ok cv" and "validationErrors cv fs b = []"
    and "findFirst (\<lambda>f. fd_name f = n) fs = Some (optional n TrimString [IsString, MaxLength hi, Matches q])"
  shows "pred_option (\<lambda>s. fits 0 hi s \<and> matchesPattern q s) (nullableText (instanceOf fs b n))"
  by (rule optional_trimmed [OF assms]; simp add: rules [OF assms(1)] fits_def)

lemmas class_defs = registerClass_def loginClass_def refreshTokenClass_def logoutClass_def updateProfileClass_def createFolderClass_def
  listFoldersClass_def updateFolderClass_def createDocumentClass_def updateDocumentClass_def createUploadUrlClass_def
  completeUploadClass_def listDocumentsClass_def requestOcrClass_def ocrResultsClass_def FOLDER_NAME_MAX_LENGTH_def
  DOCUMENT_TITLE_MAX_LENGTH_def DOCUMENT_DESCRIPTION_MAX_LENGTH_def FILE_NAME_MAX_LENGTH_def own_field other_field

lemma validated_account_calls:
  assumes "class_validator_ok cv"
  shows "validationErrors cv (registerClass U) b = [] \<Longrightarrow> call_ok (toCall (RawRegister b) (instanceOf (registerClass U) b))"
    and "validationErrors cv (loginClass U) b = [] \<Longrightarrow> call_ok (toCall (RawLogin b) (instanceOf (loginClass U) b))"
    and "validationErrors cv refreshTokenClass b = [] \<Longrightarrow> call_ok (toCall (RawRefresh b) (instanceOf refreshTokenClass b))"
    and "validationErrors cv logoutClass b = [] \<Longrightarrow> call_ok (toCall (RawLogout b) (instanceOf logoutClass b))"
    and "validationErrors cv updateProfileClass b = [] \<Longrightarrow> call_ok (toCall (RawUpdateMe b) (instanceOf updateProfileClass b))"
proof -
  assume e: "validationErrors cv (registerClass U) b = []"
  have "fits 0 320 (textValue (instanceOf (registerClass U) b ''email''))"
    by (rule required_at_most [OF assms e, where t = "trimLower U" and rs = "[IsString, IsEmail, MaxLength 320]"]) (simp_all add: class_defs)
  moreover have "fits 8 128 (textValue (instanceOf (registerClass U) b ''password''))"
    by (rule required_within [OF assms e, where t = id and rs = "[IsString, MinLength 8, MaxLength 128]"]) (simp_all add: class_defs)
  moreover have "pred_option (label 100) (nullableText (instanceOf (registerClass U) b n))" if "n \<in> {''name'', ''deviceName''}" for n
    by (rule optional_label [OF assms e]) (use that in \<open>auto simp: class_defs\<close>)
  ultimately show "call_ok (toCall (RawRegister b) (instanceOf (registerClass U) b))" by (simp add: toRegisterDto_def)
next
  assume e: "validationErrors cv (loginClass U) b = []"
  have "fits 0 320 (textValue (instanceOf (loginClass U) b ''email''))"
    by (rule required_at_most [OF assms e, where t = "trimLower U" and rs = "[IsString, IsEmail, MaxLength 320]"]) (simp_all add: class_defs)
  moreover have "fits 1 128 (textValue (instanceOf (loginClass U) b ''password''))"
    by (rule required_within [OF assms e, where t = id and rs = "[IsString, MinLength 1, MaxLength 128]"]) (simp_all add: class_defs)
  moreover have "pred_option (label 100) (nullableText (instanceOf (loginClass U) b ''deviceName''))"
    by (rule optional_label [OF assms e]) (simp add: class_defs)
  ultimately show "call_ok (toCall (RawLogin b) (instanceOf (loginClass U) b))" by (simp add: toLoginDto_def)
next
  assume e: "validationErrors cv refreshTokenClass b = []"
  show "call_ok (toCall (RawRefresh b) (instanceOf refreshTokenClass b))"
    using required_within [OF assms e, where n = "''refreshToken''" and t = id and rs = "[IsString, MinLength 1, MaxLength 512]" and lo = 1 and hi = 512]
    by (simp add: class_defs)
next
  assume e: "validationErrors cv logoutClass b = []"
  show "call_ok (toCall (RawLogout b) (instanceOf logoutClass b))"
    using required_within [OF assms e, where n = "''refreshToken''" and t = id and rs = "[IsString, MinLength 1, MaxLength 512]" and lo = 1 and hi = 512]
    by (simp add: class_defs)
next
  assume e: "validationErrors cv updateProfileClass b = []"
  have "pred_option (pred_option (label 100)) (patchText (instanceOf updateProfileClass b ''name''))"
    by (rule optional_label [OF assms e]) (simp add: class_defs)
  moreover have "pred_option (pred_option (fits 0 2048)) (patchText (instanceOf updateProfileClass b ''avatarUrl''))"
    by (rule optional_text [OF assms e, where t = id and rs = "[IsString, IsUrl, MaxLength 2048]"])
      (simp_all add: class_defs rules [OF assms] fits_def)
  ultimately show "call_ok (toCall (RawUpdateMe b) (instanceOf updateProfileClass b))" by (simp add: toUpdateProfileDto_def)
qed

lemma validated_folder_calls:
  assumes "class_validator_ok cv"
  shows "validationErrors cv createFolderClass b = [] \<Longrightarrow> call_ok (toCall (RawFolderCreate b) (instanceOf createFolderClass b))"
    and "validationErrors cv listFoldersClass b = [] \<Longrightarrow> call_ok (toCall (RawFolderList b) (instanceOf listFoldersClass b))"
    and "validationErrors cv updateFolderClass b = [] \<Longrightarrow> call_ok (toCall (RawFolderUpdate i b) (instanceOf updateFolderClass b))"
proof -
  assume e: "validationErrors cv createFolderClass b = []"
  have "displayText 100 (textValue (instanceOf createFolderClass b ''name''))"
    by (rule required_display [OF assms e]) (simp add: class_defs)
  moreover have "pred_option uuidText (nullableText (instanceOf createFolderClass b ''parentId''))"
    by (rule optional_uuid [OF assms e, where t = id]) (simp add: class_defs)
  ultimately show "call_ok (toCall (RawFolderCreate b) (instanceOf createFolderClass b))" by (simp add: toCreateFolderDto_def)
next
  assume e: "validationErrors cv listFoldersClass b = []"
  show "call_ok (toCall (RawFolderList b) (instanceOf listFoldersClass b))"
    using optional_uuid(2) [OF assms e, where n = "''parentId''" and t = NullableQueryValue] by (simp add: class_defs)
next
  assume e: "validationErrors cv updateFolderClass b = []"
  have "pred_option (pred_option (displayText 100)) (patchText (instanceOf updateFolderClass b ''name''))"
    by (rule optional_display [OF assms e]) (simp add: class_defs)
  moreover have "pred_option (pred_option uuidText) (patchText (instanceOf updateFolderClass b ''parentId''))"
    by (rule optional_uuid [OF assms e, where t = id]) (simp add: class_defs)
  ultimately show "call_ok (toCall (RawFolderUpdate i b) (instanceOf updateFolderClass b))" by (simp add: toUpdateFolderDto_def)
qed

lemma choice_mem: "choice table v = Some x \<Longrightarrow> x \<in> snd ` set table"
  by (force simp: choice_def dest!: findFirst_SomeD)

lemma validated_document_calls:
  assumes "class_validator_ok cv"
  shows "validationErrors cv createDocumentClass b = [] \<Longrightarrow> call_ok (toCall (RawDocumentCreate b) (instanceOf createDocumentClass b))"
    and "validationErrors cv updateDocumentClass b = [] \<Longrightarrow> call_ok (toCall (RawDocumentUpdate i b) (instanceOf updateDocumentClass b))"
    and "validationErrors cv listDocumentsClass b = [] \<Longrightarrow> query b
      \<Longrightarrow> call_ok (toCall (RawDocumentList b) (instanceOf listDocumentsClass b))"
proof -
  assume e: "validationErrors cv createDocumentClass b = []"
  have "displayText 255 (textValue (instanceOf createDocumentClass b ''title''))"
    by (rule required_display [OF assms e]) (simp add: class_defs)
  moreover have "pred_option (multilineText 2000) (nullableText (instanceOf createDocumentClass b ''description''))"
    by (rule optional_multiline [OF assms e]) (simp add: class_defs)
  moreover have "pred_option uuidText (nullableText (instanceOf createDocumentClass b ''folderId''))"
    by (rule optional_uuid [OF assms e, where t = id]) (simp add: class_defs)
  ultimately show "call_ok (toCall (RawDocumentCreate b) (instanceOf createDocumentClass b))" by (simp add: toCreateDocumentDto_def)
next
  assume e: "validationErrors cv updateDocumentClass b = []"
  have "pred_option (pred_option (displayText 255)) (patchText (instanceOf updateDocumentClass b ''title''))"
    by (rule optional_display [OF assms e]) (simp add: class_defs)
  moreover have "pred_option (pred_option (multilineText 2000)) (patchText (instanceOf updateDocumentClass b ''description''))"
    by (rule optional_multiline [OF assms e]) (simp add: class_defs)
  moreover have "pred_option (pred_option uuidText) (patchText (instanceOf updateDocumentClass b ''folderId''))"
    by (rule optional_uuid [OF assms e, where t = id]) (simp add: class_defs)
  ultimately show "call_ok (toCall (RawDocumentUpdate i b) (instanceOf updateDocumentClass b))" by (simp add: toUpdateDocumentDto_def)
next
  assume e: "validationErrors cv listDocumentsClass b = []" and q: "query b"
  have "1 \<le> intValue (instanceOf listDocumentsClass b ''page'') \<and> intValue (instanceOf listDocumentsClass b ''page'') \<le> 100000"
    by (rule defaulted_integer [OF assms e q]) (simp add: class_defs)
  moreover have "1 \<le> intValue (instanceOf listDocumentsClass b ''limit'') \<and> intValue (instanceOf listDocumentsClass b ''limit'') \<le> 100"
    by (rule defaulted_integer [OF assms e q]) (simp add: class_defs)
  moreover have "pred_option (pred_option uuidText) (patchText (instanceOf listDocumentsClass b ''folderId''))"
    by (rule optional_uuid [OF assms e, where t = NullableQueryValue]) (simp add: class_defs)
  moreover have "choice LISTABLE_DOCUMENT_STATUSES v \<noteq> Some DELETED" for v
    by (auto simp: LISTABLE_DOCUMENT_STATUSES_def dest!: choice_mem)
  moreover have "pred_option (\<lambda>s. fits 0 200 s \<and> matchesPattern (NoControl False) s) (nullableText (instanceOf listDocumentsClass b ''search''))"
    by (rule optional_matching [OF assms e]) (simp add: class_defs)
  then have "pred_option (fits 0 200) (nullableText (instanceOf listDocumentsClass b ''search''))"
    by (rule option.pred_mono_strong) simp
  ultimately show "call_ok (toCall (RawDocumentList b) (instanceOf listDocumentsClass b))"
    by (simp add: toListDocumentsQuery_def le_nat_iff nat_le_iff)
qed

lemma validated_file_calls:
  assumes "class_validator_ok cv"
  shows "validationErrors cv createUploadUrlClass b = [] \<Longrightarrow> call_ok (toCall (RawUploadUrl i b) (instanceOf createUploadUrlClass b))"
    and "validationErrors cv completeUploadClass b = [] \<Longrightarrow> call_ok (toCall (RawUploadComplete i b) (instanceOf completeUploadClass b))"
    and "validationErrors cv requestOcrClass b = [] \<Longrightarrow> call_ok (toCall (RawOcrRequest i b) (instanceOf requestOcrClass b))"
    and "validationErrors cv ocrResultsClass b = [] \<Longrightarrow> query b \<Longrightarrow> call_ok (toCall (RawOcrResults i b) (instanceOf ocrResultsClass b))"
proof -
  assume e: "validationErrors cv createUploadUrlClass b = []"
  let ?type = "[IsString, MinLength 3, MaxLength 127, Matches MimePattern]"
  have type: "required ''contentType'' TrimString ?type \<in> set createUploadUrlClass" by (simp add: class_defs)
  have "displayText 255 (textValue (instanceOf createUploadUrlClass b ''fileName''))"
    by (rule required_display [OF assms e]) (simp add: class_defs)
  moreover have "fits 3 127 (textValue (instanceOf createUploadUrlClass b ''contentType''))"
    by (rule required_within [OF assms e type]) simp
  moreover have "MIME_TYPE_PATTERN (textValue (instanceOf createUploadUrlClass b ''contentType''))"
    using required_field [OF e type, of "Matches MimePattern"] by (auto simp: rules [OF assms])
  moreover have size: "required ''fileSize'' id [IsInt, MinValue 1] \<in> set createUploadUrlClass" by (simp add: class_defs)
  have "1 \<le> intValue (instanceOf createUploadUrlClass b ''fileSize'')"
    using required_field [OF e size, of IsInt] required_field [OF e size, of "MinValue 1"] by (auto simp: rules [OF assms])
  ultimately show "call_ok (toCall (RawUploadUrl i b) (instanceOf createUploadUrlClass b))" by (simp add: toCreateUploadUrlDto_def)
next
  assume e: "validationErrors cv completeUploadClass b = []"
  show "call_ok (toCall (RawUploadComplete i b) (instanceOf completeUploadClass b))"
    using optional_matching [OF assms e, of "''etag''" 128 EtagPattern] by (simp add: class_defs)
next
  assume e: "validationErrors cv requestOcrClass b = []"
  show "call_ok (toCall (RawOcrRequest i b) (instanceOf requestOcrClass b))"
    using optional_matching [OF assms e, of "''language''" 64 LanguagePattern] by (simp add: class_defs toRequestOcrDto_def)
next
  assume e: "validationErrors cv ocrResultsClass b = []" and q: "query b"
  have "1 \<le> intValue (instanceOf ocrResultsClass b ''page'') \<and> intValue (instanceOf ocrResultsClass b ''page'') \<le> 100000"
    by (rule defaulted_integer [OF assms e q]) (simp add: class_defs)
  moreover have "1 \<le> intValue (instanceOf ocrResultsClass b ''limit'') \<and> intValue (instanceOf ocrResultsClass b ''limit'') \<le> 50"
    by (rule defaulted_integer [OF assms e q]) (simp add: class_defs)
  moreover have "pred_option (\<lambda>k. nat 1 \<le> k \<and> k \<le> nat 1000000) (nullableNat (instanceOf ocrResultsClass b ''pageNumber''))"
    by (rule optional_integer [OF assms e]) (simp_all add: class_defs)
  moreover have "pred_option uuidText (nullableText (instanceOf ocrResultsClass b ''jobId''))"
    by (rule optional_uuid [OF assms e, where t = id]) (simp add: class_defs)
  ultimately show "call_ok (toCall (RawOcrResults i b) (instanceOf ocrResultsClass b))"
    by (simp add: toOcrResultsQueryDto_def le_nat_iff nat_le_iff)
qed

lemma validated_call:
  assumes "class_validator_ok cv" and "arrives raw" and "validationErrors cv (classOf U raw) (bodyOf raw) = []"
  shows "call_ok (toCall raw (instanceOf (classOf U raw) (bodyOf raw)))"
  using assms validated_account_calls [OF assms(1)] validated_folder_calls [OF assms(1)] validated_document_calls [OF assms(1)]
    validated_file_calls [OF assms(1)]
  by (cases raw) simp_all

lemma badRequest_answer: "catchException (badRequest errors) rid
    = (400, \<lparr>ee_success = False, ee_data = None, ee_code = ''VALIDATION_ERROR'', ee_message = join_with ''; '' errors, ee_requestId = rid\<rparr>)"
  by (simp add: catchException_def resolveException_def badRequest_def codeForHttpException_def messageForHttpException_def
      isValidationBody_def)

section \<open>A concrete library\<close>

fun plainHolds :: "rule \<Rightarrow> json option \<Rightarrow> bool" where
  "plainHolds IsString v = (case v of Some (JText s) \<Rightarrow> True | _ \<Rightarrow> False)"
| "plainHolds IsEmail v = (case v of Some (JText s) \<Rightarrow> 64 \<in> set s | _ \<Rightarrow> False)"
| "plainHolds IsUrl v = (case v of Some (JText s) \<Rightarrow> True | _ \<Rightarrow> False)"
| "plainHolds IsUUID v = (case v of Some (JText s) \<Rightarrow> uuidText s | _ \<Rightarrow> False)"
| "plainHolds IsInt v = (case v of Some (JNumber r) \<Rightarrow> r = of_int \<lfloor>r\<rfloor> | _ \<Rightarrow> False)"
| "plainHolds IsBoolean v = (case v of Some (JBool b) \<Rightarrow> True | _ \<Rightarrow> False)"
| "plainHolds (MinLength n) v = (case v of Some (JText s) \<Rightarrow> n \<le> characters s | _ \<Rightarrow> False)"
| "plainHolds (MaxLength n) v = (case v of Some (JText s) \<Rightarrow> characters s \<le> n | _ \<Rightarrow> False)"
| "plainHolds (MinValue n) v = (case v of Some (JNumber r) \<Rightarrow> of_int n \<le> r | _ \<Rightarrow> False)"
| "plainHolds (MaxValue n) v = (case v of Some (JNumber r) \<Rightarrow> r \<le> of_int n | _ \<Rightarrow> False)"
| "plainHolds (IsIn xs) v = (case v of Some (JText s) \<Rightarrow> list_ex (\<lambda>x. s = js x) xs | _ \<Rightarrow> False)"
| "plainHolds (Matches p) v = (case v of Some (JText s) \<Rightarrow> matchesPattern p s | _ \<Rightarrow> False)"

definition plainValidator :: class_validator where
  "plainValidator = \<lparr>cv_holds = plainHolds, cv_message = (\<lambda>n _. n @ '' is not valid''),
     cv_forbidden = (\<lambda>n. ''property '' @ n @ '' should not exist'')\<rparr>"

lemma is_int_iff: "r = of_int \<lfloor>r\<rfloor> \<longleftrightarrow> (\<exists>k. r = of_int k)" for r :: rat
  by auto

lemma plainValidator_ok: "class_validator_ok plainValidator"
  unfolding class_validator_ok_def plainValidator_def
  by (auto simp: list_ex_iff is_int_iff split: option.splits json.splits)

section \<open>Properties\<close>

text \<open>C11. Validated input has its type. When the pipe accepts the body or query of a request, the call that reaches
  the handler is within the limits of its class: texts have the allowed lengths, names and titles are
  trimmed, not empty and free of control characters, ids are UUIDs, page numbers, page sizes and file
  sizes are positive and bounded, and deleted documents cannot be listed.\<close>

theorem validated_input:
  assumes "class_validator_ok cv" and "arrives raw" and "validationErrors cv (classOf U raw) (bodyOf raw) = []"
  shows "call_ok (toCall raw (instanceOf (classOf U raw) (bodyOf raw)))"
  using assms by (rule validated_call)

theorem validated_input_witness:
  "call_ok (toCall (RawFolderCreate [(''name'', JText (js '' Invoices ''))])
     (instanceOf createFolderClass [(''name'', JText (js '' Invoices ''))]))"
proof -
  have "validationErrors plainValidator (classOf ascii_unicode (RawFolderCreate [(''name'', JText (js '' Invoices ''))]))
      (bodyOf (RawFolderCreate [(''name'', JText (js '' Invoices ''))])) = []" by code_simp
  from validated_input [OF plainValidator_ok _ this] show ?thesis by simp
qed

text \<open>C12. Input that is not valid has no effect: a request whose body breaks a rule of its class or has a property
  the class does not have, such as an owner, a status or a storage key, is answered with an error of
  the guards, or with status 400 and the code \<open>VALIDATION_ERROR\<close>, and nothing is written, not even the
  log of security events.\<close>

theorem invalid_input_refused:
  assumes "(\<exists>k\<in>fst ` set (bodyOf raw). k \<notin> fd_name ` set (classOf (sv_unicode sv) raw))
    \<or> (\<exists>f\<in>set (classOf (sv_unicode sv) raw). fieldErrors cv f (instanceOf (classOf (sv_unicode sv) raw) (bodyOf raw) (fd_name f)) \<noteq> [])"
  shows "snd (handleHttp cv sv req raw w) = w
    \<and> (\<exists>status envelope. fst (handleHttp cv sv req raw w) = (status, Inl envelope)
        \<and> (\<forall>u. guards (req\<lparr>rq_call := toCall raw (instanceOf (classOf (sv_unicode sv) raw) (bodyOf raw))\<rparr>) w = Inr u
             \<longrightarrow> status = 400 \<and> ee_code envelope = ''VALIDATION_ERROR''))"
proof -
  let ?fs = "classOf (sv_unicode sv) raw"
  have "validationErrors cv ?fs (bodyOf raw) \<noteq> []"
    using assms by (auto simp: validationErrors_def filter_empty_conv)
  moreover have "fst (catchException (thrownBy f) rid) = 400 \<and> ee_code (snd (catchException (thrownBy f) rid)) = ''VALIDATION_ERROR''"
    if "map_sum id (\<lambda>_. ()) (uuidParam d i) = Inl f" for d i f rid
    using that by (auto simp: uuidParam_def catchException_app split: if_splits)
  ultimately show ?thesis
    by (auto simp: handleHttp_def Let_def badRequest_answer catchException_app map_prod_def case_prod_unfold
        split: sum.splits option.splits)
qed

theorem invalid_input_refused_witness:
  "snd (handleHttp plainValidator demoServices (demoRequest AuthMe (Some demoCaller)) (RawUpdateMe [(''status'', JText (js ''ACTIVE''))])
     demoTenants) = demoTenants"
  using invalid_input_refused [of "RawUpdateMe [(''status'', JText (js ''ACTIVE''))]" demoServices plainValidator
      "demoRequest AuthMe (Some demoCaller)" demoTenants]
  by (simp add: updateProfileClass_def optional_def)

text \<open>An explicit null passes as the name of a folder, because \<open>IsOptional\<close> skips the other rules; the service then
  hands it to the database and the owner gets an internal error.\<close>

lemma null_name_is_internal:
  assumes "system_wf w" and "f \<in> set (folders w)"
  shows "validationErrors cv updateFolderClass [(''name'', JNull)] = []"
    and "fst (updateFolder e (f_userId f) (f_id f) (toUpdateFolderDto (instanceOf updateFolderClass [(''name'', JNull)])) ctx w)
      = Inl (Internal ''PrismaClientValidationError'')"
proof -
  show "validationErrors cv updateFolderClass [(''name'', JNull)] = []"
    by (simp add: validationErrors_def fieldErrors_def instanceOf_def class_defs optional_def findFirst_def TrimString_def)
  have dto: "toUpdateFolderDto (instanceOf updateFolderClass [(''name'', JNull)]) = \<lparr>uf_name = Some None, uf_parentId = None\<rparr>"
    by (simp add: toUpdateFolderDto_def instanceOf_def class_defs optional_def findFirst_def TrimString_def)
  show "fst (updateFolder e (f_userId f) (f_id f) (toUpdateFolderDto (instanceOf updateFolderClass [(''name'', JNull)])) ctx w)
      = Inl (Internal ''PrismaClientValidationError'')"
    unfolding dto
    by (cases rule: fol.get_cases [of "f_userId f" "f_id f" ctx w])
      (use assms(2) in \<open>auto simp: updateFolder_def updateFolderTx_def Let_def\<close>)
qed

end
