(* ===== verification/Stored_Texts.thy ===== *)
theory Stored_Texts
  imports Validation
begin

text \<open>
  The system behind its validation: runs of requests with untyped bodies. They are runs of the system,
  so everything shown there holds for them; and the texts that are stored are those that passed the
  rules, so that they fit the columns of the database, which this development does not bound.
\<close>

section \<open>Texts of folders and documents\<close>

definition title_ok :: "Document \<Rightarrow> bool" where
  "title_ok d \<longleftrightarrow> displayText 255 (d_title d) \<and> pred_option (multilineText 2000) (d_description d)"

definition texts_fit :: "World \<Rightarrow> bool" where
  "texts_fit w \<longleftrightarrow> (\<forall>f\<in>set (folders w). displayText 100 (f_name f)) \<and> (\<forall>d\<in>set (documents w). title_ok d)"

lemma texts_fit_library: "library w' = library w \<Longrightarrow> texts_fit w' = texts_fit w"
  by (simp add: texts_fit_def library_def)

lemma texts_fit_log [simp]: "texts_fit (recordEvent ev w) = texts_fit w" "texts_fit (w\<lparr>events := es\<rparr>) = texts_fit w"
  by (simp_all add: texts_fit_def)

lemma texts_fit_update:
  assumes "texts_fit w" and "\<And>d. title_ok d \<Longrightarrow> p d \<Longrightarrow> title_ok (g d)" and "folders v = folders w"
  shows "texts_fit (v\<lparr>documents := snd (updateMany p g (documents w))\<rparr>)"
  using assms by (auto simp: texts_fit_def updateMany_def)

lemma texts_fit_create: "texts_fit w \<Longrightarrow> title_ok d \<Longrightarrow> folders v = folders w \<Longrightarrow> texts_fit (v\<lparr>documents := createRow d (documents w)\<rparr>)"
  by (auto simp: texts_fit_def createRow_def)

lemma texts_fit_tables:
  "texts_fit (snd (getOwnedFolder u i ctx w)) = texts_fit w" "texts_fit (snd (getOwnedDocument u i ctx w)) = texts_fit w"
  "texts_fit (snd (documentNotFoundFor u i ctx w)) = texts_fit w" "texts_fit (snd (folderNotFoundFor u i ctx w)) = texts_fit w"
  by (simp_all add: texts_fit_def)

section \<open>The handlers\<close>

lemma createFolder_texts:
  assumes "texts_fit w" and "displayText 100 (cf_name dto)" and "quiet e"
  shows "texts_fit (snd (createFolder e u dto ctx w))"
proof -
  have "f_name f = cf_name dto \<or> f \<in> set (folders w)" if "f \<in> set (folders (snd (createFolder e u dto ctx w)))" for f
    using that by (auto simp: createFolder_def prismaFolderCreate_def createRow_def Let_def case_prod_unfold
        split: option.splits sum.splits if_splits)
  then have "displayText 100 (f_name f)" if "f \<in> set (folders (snd (createFolder e u dto ctx w)))" for f
    using that assms(1,2) by (fastforce simp: texts_fit_def)
  then show ?thesis using assms(1) createFolder_frame [OF assms(3), of u dto ctx w] by (simp add: texts_fit_def)
qed

lemma updateFolder_texts:
  assumes "texts_fit w" and "pred_option (pred_option (displayText 100)) (uf_name dto)" and "quiet e"
  shows "texts_fit (snd (updateFolder e u i dto ctx w))"
proof -
  have "uf_name dto = Some (Some (f_name f)) \<or> (\<exists>g\<in>set (folders w). f_name g = f_name f)"
    if "f \<in> set (folders (snd (updateFolder e u i dto ctx w)))" for f
    using that by (auto simp: updateFolder_def updateFolderTx_def updateMany_def applyFolderData_def Let_def case_prod_unfold
        split: option.splits sum.splits if_splits)
  then have "displayText 100 (f_name f)" if "f \<in> set (folders (snd (updateFolder e u i dto ctx w)))" for f
    using that assms(1,2) by (fastforce simp: texts_fit_def)
  then show ?thesis using assms(1) updateFolder_frame [OF assms(3), of u i dto ctx w] by (simp add: texts_fit_def)
qed

lemma removeFolder_texts:
  assumes "texts_fit w" and "folders_wf w"
  shows "texts_fit (snd (removeFolder e u i ctx w))"
proof (cases "\<exists>t\<in>set (folders w). f_id t = i \<and> f_userId t = u")
  case False
  with removeFolder_frame [OF False, of e ctx] assms(1) show ?thesis by (auto simp: texts_fit_def)
next
  case True
  then obtain t where t: "t \<in> set (folders w)" "f_id t = i" "f_userId t = u" by blast
  have "\<exists>g\<in>set (folders w). f_name g = f_name f" if "f \<in> set (promote t (clock e 0) (folders w))" for f
    using that by (fastforce simp: promote_def split: if_splits)
  then show ?thesis
    using removeFolderTx_found [OF assms(2) t(1), of e ctx] t assms(1)
    by (fastforce simp: removeFolder_def texts_fit_def title_ok_def)
qed

lemma createDocument_texts:
  assumes "texts_fit w" and "displayText 255 (cd_title dto)" and "pred_option (multilineText 2000) (cd_description dto)" and "quiet e"
  shows "texts_fit (snd (createDocument e u dto ctx w))"
proof -
  have "pred_option (multilineText 2000) (emptyToNull (cd_description dto))" using assms(3) by (simp add: emptyToNull_def)
  then show ?thesis using assms(1,2,4)
    by (auto simp: createDocument_def prismaDocumentCreate_def Let_def case_prod_unfold quietD texts_fit_tables title_ok_def
        split: option.splits sum.splits if_splits intro!: texts_fit_create)
qed

lemma writeDocument_texts:
  assumes "texts_fit w" and "pred_option (pred_option (displayText 255)) (ud_title dto)"
    and "pred_option (pred_option (multilineText 2000)) (ud_description dto)"
  shows "texts_fit (snd (writeDocument u i dto now w))"
proof -
  have "title_ok (applyDocumentData dto now d)" if "title_ok d" for d
    using that assms(2,3) by (auto simp: title_ok_def applyDocumentData_def emptyToNull_def split: option.splits)
  then show ?thesis using assms(1)
    by (auto simp: writeDocument_def Let_def case_prod_unfold intro!: texts_fit_update)
qed

lemma updateDocument_texts:
  assumes "texts_fit w" and "pred_option (pred_option (displayText 255)) (ud_title dto)"
    and "pred_option (pred_option (multilineText 2000)) (ud_description dto)" and "quiet e"
  shows "texts_fit (snd (updateDocument e u i dto ctx w))"
proof -
  note o = assms(4) [unfolded quiet_def]
  have w: "texts_fit (snd (writeDocument u k dto now v))" if "texts_fit v" for k now v
    using writeDocument_texts [OF that assms(2,3)] .
  show ?thesis unfolding updateDocument_def o using assms(1)
    by (auto simp: Let_def case_prod_unfold texts_fit_tables w split: option.splits sum.splits if_splits)
qed

lemma removeDocument_texts:
  assumes "texts_fit w" and "quiet e"
  shows "texts_fit (snd (removeDocument e u i ctx w))"
  using assms by (auto simp: removeDocument_def Let_def case_prod_unfold quietD texts_fit_tables title_ok_def intro!: texts_fit_update)

lemma tryDelete_texts: "texts_fit (tryDelete st k w) = texts_fit w"
  by (simp add: texts_fit_def)

lemma createUploadUrl_texts:
  assumes "texts_fit w" and "quiet e"
  shows "texts_fit (snd (createUploadUrl e uc st cfg u i dto ctx w))"
proof (cases rule: createUploadUrl_cases [of e uc st cfg u i dto ctx w])
  case (refused f evs)
  then show ?thesis using assms(1) by simp
next
  case (granted ct sz nm c k)
  note o = assms(2) [unfolded quiet_def]
  have d: "texts_fit (snd (declareUpload u (d_id c) k ct sz nm (clock e 0) w))"
    using assms(1) by (auto simp: declareUpload_def Let_def case_prod_unfold title_ok_def intro!: texts_fit_update)
  have s: "texts_fit (removeSuperseded e st c k v) = texts_fit v" for v
    by (simp add: removeSuperseded_def o tryDelete_texts)
  have "texts_fit (snd (grantUpload e st cfg u i ctx ct sz nm c k w))"
    unfolding grantUpload_def o using d
    by (auto simp: Let_def case_prod_unfold texts_fit_tables s split: sum.splits)
  then show ?thesis using granted(7) by simp
qed

lemma completeUpload_texts:
  assumes "texts_fit w" and "quiet e"
  shows "texts_fit (snd (completeUpload e uc st cfg u i etag ctx w))"
proof (cases rule: own.get_cases [of u i ctx w])
  case (missing evs)
  then show ?thesis using assms(1) by (simp add: completeUpload_def)
next
  case (found c)
  have r: "texts_fit (snd (readyWrite e u c h t w))" for h t
    unfolding readyWrite_def Let_def case_prod_unfold snd_conv using assms(1)
    by (rule texts_fit_update) (simp_all add: title_ok_def)
  have j: "texts_fit (rejectUpload e st u c ps ctx w)" for ps
    using assms by (auto simp: rejectUpload_def Let_def quietD tryDelete_texts title_ok_def intro!: texts_fit_update)
  show ?thesis
  proof (cases "d_status c = UPLOADING \<and> truthy (d_storageKey c)
      \<and> (\<exists>h. headObject st (the (d_storageKey c)) = Inr (Some h))")
    case False
    with found(1) assms show ?thesis
      by (auto simp: completeUpload_def quietD split: sum.splits option.splits)
  next
    case True
    then obtain h where h: "headObject st (the (d_storageKey c)) = Inr (Some h)" by blast
    show ?thesis
    proof (cases "uploadProblems uc cfg c h etag = []")
      case False
      with completeUpload_cases(1) [OF found(1) _ _ h] True obtain f where
        "completeUpload e uc st cfg u i etag ctx w
           = (Inl f, rejectUpload e st u c (uploadProblems uc cfg c h etag) ctx (others e 0 w))" by blast
      then show ?thesis using j assms(2) by (simp add: quietD)
    next
      case ok: True
      obtain n v where rw: "readyWrite e u c h (storedTypeOf uc h) (others e 0 w) = (n, v)" by fastforce
      obtain r v' where g: "getOwnedDocument u i ctx (others e 1 v) = (r, v')" by fastforce
      have "v' = snd (getOwnedDocument u i ctx v)" using g assms(2) by (simp add: quietD)
      then have "texts_fit v'" using r [of h "storedTypeOf uc h"] rw assms(2) by (simp add: quietD texts_fit_tables)
      with completeUpload_cases(2) [OF found(1) _ _ h ok rw g] True show ?thesis
        by (auto split: sum.splits if_splits)
    qed
  qed
qed

section \<open>Requests\<close>

lemma texts_fit_unchanged: "unchanged w w' \<Longrightarrow> texts_fit w' = texts_fit w"
  unfolding unchanged_def by (intro texts_fit_library) simp

lemma withId_texts: "texts_fit w \<Longrightarrow> (\<And>i. texts_fit (snd (h i w))) \<Longrightarrow> texts_fit (snd (withId raw h w))"
  by (simp add: withId_def split: sum.split)

lemma dispatch_texts:
  assumes "serving sv" and "system_wf w" and "texts_fit w" and "call_ok c"
  shows "texts_fit (snd (dispatch sv req rid u ctx c w))"
proof -
  have sv: "quiet (sv_run sv)" "bull_ok (sv_queue sv)" using assms(1) by (simp_all add: serving_def)
  have adds: "adds_job v w w' \<Longrightarrow> texts_fit w' = texts_fit w" for v w' unfolding adds_job_def by (intro texts_fit_library) simp
  have accounts: "library w' = library w \<and> r \<Longrightarrow> texts_fit w' = texts_fit w" for w' r by (intro texts_fit_library) simp
  note same = reads_unchanged [OF sv(1), THEN texts_fit_unchanged] getOwned_unchanged [THEN texts_fit_unchanged]
    requestOcr_adds [OF sv, THEN adds] retryOcr_adds [OF sv, THEN adds]
    register_frame [OF sv(1), THEN accounts] login_frame [OF sv(1), THEN accounts] refresh_frame [OF sv(1), THEN accounts]
    logout_frame [OF sv(1), THEN accounts] updateMe_frame [OF sv(1), THEN accounts]
  note keeps = createFolder_texts [OF assms(3) _ sv(1)] updateFolder_texts [OF assms(3) _ sv(1)]
    removeFolder_texts [OF assms(3) system_wfD(2) [OF assms(2)]] createDocument_texts [OF assms(3) _ _ sv(1)]
    updateDocument_texts [OF assms(3) _ _ sv(1)] removeDocument_texts [OF assms(3) sv(1)]
    createUploadUrl_texts [OF assms(3) sv(1)] completeUpload_texts [OF assms(3) sv(1)]
  show ?thesis using assms(3,4) by (cases c) (simp_all add: controllers same keeps withId_texts)
qed

lemma handleApi_texts:
  assumes "serving sv" and "system_wf w" and "texts_fit w" and "call_ok (rq_call req)"
  shows "texts_fit (snd (handleApi sv req w))"
proof (cases "guards req w")
  case (Inl f)
  then show ?thesis using assms(3) by (simp add: handleApi_def Let_def)
next
  case (Inr r)
  then show ?thesis using handleApi_dispatch(1) [OF Inr refl refl, of sv] dispatch_texts [OF assms] by simp
qed

lemma handleHttp_cases:
  obtains (served) "validationErrors cv (classOf (sv_unicode sv) raw) (bodyOf raw) = []"
      "handleHttp cv sv req raw w
         = handleApi sv (req\<lparr>rq_call := toCall raw (instanceOf (classOf (sv_unicode sv) raw) (bodyOf raw))\<rparr>) w"
  | (refused) "snd (handleHttp cv sv req raw w) = w"
proof (cases "validationErrors cv (classOf (sv_unicode sv) raw) (bodyOf raw) = []")
  case True
  then show ?thesis using served by (simp add: handleHttp_def Let_def)
next
  case False
  then have "snd (handleHttp cv sv req raw w) = w"
    by (simp add: handleHttp_def Let_def split: sum.split)
  then show ?thesis using refused by blast
qed

section \<open>Runs of untyped requests\<close>

definition texts_step :: "World \<Rightarrow> World \<Rightarrow> bool" where
  "texts_step w w' \<longleftrightarrow> system_step w w' \<and> (system_wf w \<longrightarrow> texts_fit w \<longrightarrow> texts_fit w')"

lemma texts_step_trans: "texts_step u v \<Longrightarrow> texts_step v w \<Longrightarrow> texts_step u w"
  unfolding texts_step_def using system_step_trans by (metis system_step_def)

lemma texts_step_refl: "texts_step w w"
  by (simp add: texts_step_def system_step_refl)

lemma updateJobs_texts: "texts_fit (snd (updateJobs p f now w)) = texts_fit w"
  by (simp add: texts_fit_def updateJobs_rows)

lemma perform_texts:
  assumes "texts_fit w"
  shows "texts_fit (perform op w)"
proof (cases op)
  case (SetTotalPages i d n now)
  then show ?thesis
    using assms by (auto simp: setTotalPages_def Let_def updateJobs_texts title_ok_def intro!: texts_fit_update)
next
  case (PersistPage i x db)
  have "texts_fit (w\<lparr>ocrPages := ps\<rparr>) = texts_fit w" for ps by (simp add: texts_fit_def)
  with assms PersistPage show ?thesis
    by (auto simp: persistPage_def Let_def case_prod_unfold updateJobs_texts texts_fit_def updateJobs_rows split: option.split)
next
  case (Finalize i now)
  with assms show ?thesis by (auto simp: finalize_def Let_def case_prod_unfold updateJobs_texts split: option.split)
qed (use assms in \<open>auto simp: claim_def heartbeat_def failJob_def requeue_def cancelJob_def recover_def Let_def
    case_prod_unfold updateJobs_texts\<close>)

lemma handleHttp_texts:
  assumes "class_validator_ok cv" and "serving sv" and "arrives raw"
  shows "texts_step w (snd (handleHttp cv sv req raw w))"
proof (cases rule: handleHttp_cases [of cv sv raw req w])
  case served
  then show ?thesis
    using handleApi_step [OF assms(2)] handleApi_texts [OF assms(2)] validated_call [OF assms(1,3) served(1)]
    by (simp add: texts_step_def)
next
  case refused
  then show ?thesis by (simp add: texts_step_refl)
qed

interpretation texts: job_relation texts_step
proof unfold_locales
  show "texts_step w w" for w by (rule texts_step_refl)
  show "texts_step u w" if "texts_step u v" "texts_step v w" for u v w using texts_step_trans [OF that] .
  show "texts_step w (perform op w)" for w op by (simp add: texts_step_def sys.operation perform_texts)
  show "texts_step w w'" if "bull_ok q" "addEntry q i w = Inr w'" for q i w w'
    using sys.queue_add [OF that] bull_frame(1) [OF that] by (auto simp: texts_step_def texts_fit_def)
  show "texts_step w w'" if "bull_ok q" "dropEntry q i w = Inr w'" for q i w w'
    using sys.queue_drop [OF that] bull_frame(2) [OF that] by (auto simp: texts_step_def texts_fit_def)
qed

inductive http_runs :: "class_validator \<Rightarrow> World \<Rightarrow> World \<Rightarrow> bool" for cv where
  http_idle: "http_runs cv w w"
| http_request: "http_runs cv w v \<Longrightarrow> serving sv \<Longrightarrow> arrives raw \<Longrightarrow> http_runs cv w (snd (handleHttp cv sv req raw v))"
| http_delivered: "http_runs cv w v \<Longrightarrow> (\<And>i x. http_runs cv x (others e i x))
    \<Longrightarrow> http_runs cv w (snd (handleEntry e cfg U store tools jobId v))"
| http_reconciled: "http_runs cv w v \<Longrightarrow> (\<And>i x. http_runs cv x (others e i x)) \<Longrightarrow> bull_ok q
    \<Longrightarrow> http_runs cv w (snd (reconcile e cfg q busy v))"

lemma http_runs_texts:
  assumes "class_validator_ok cv"
  shows "http_runs cv w w' \<Longrightarrow> texts_step w w'"
proof (induction rule: http_runs.induct)
  case (http_request w v sv raw req)
  then show ?case using handleHttp_texts [OF assms] texts_step_trans by blast
next
  case (http_delivered w v e cfg U store tools jobId)
  then have "kept_by_others texts_step e" by (simp add: kept_by_others_def)
  then have "texts_step v (snd (handleEntry e cfg U store tools jobId v))"
    by (simp add: handleEntry_def texts.process_kept texts_step_refl)
  then show ?case using http_delivered.IH(1) texts_step_trans by blast
next
  case (http_reconciled w v e q cfg busy)
  then have "kept_by_others texts_step e" by (simp add: kept_by_others_def)
  then show ?case using http_reconciled.IH(1) texts.reconcile_kept [OF _ http_reconciled.hyps(3)] texts_step_trans by blast
qed (rule texts_step_refl)

text \<open>They are runs of the system, whose guarantees hold for them.\<close>

lemma http_runs_are_runs: "http_runs cv w w' \<Longrightarrow> runs w w'"
proof (induction rule: http_runs.induct)
  case (http_request w v sv raw req)
  then show ?case by (cases rule: handleHttp_cases [of cv sv raw req v]) (simp_all add: runs.request)
qed (auto intro: runs.intros)

section \<open>Properties\<close>

text \<open>C10. Stored texts fit their columns: after any run of requests with untyped bodies, deliveries and
  reconciliations from the empty database on, the name of every folder has 1 to 100 characters, the
  title of every document 1 to 255 and its description at most 2000; they are trimmed and free of
  control characters. So the database never refuses a text for its length.\<close>

theorem stored_texts_fit:
  assumes "class_validator_ok cv" and "http_runs cv emptyWorld w"
  shows "(\<forall>f\<in>set (folders w). displayText 100 (f_name f))
    \<and> (\<forall>d\<in>set (documents w). displayText 255 (d_title d) \<and> pred_option (multilineText 2000) (d_description d))"
proof -
  have "system_wf emptyWorld"
    by (simp add: system_wf_def emptyWorld_def auth_wf_def users_wf_def folders_wf_def forest_def tree_ok_def docs_filed_def
        documents_wf_def jobs_wf_def jobs_filed_def)
  moreover have "texts_fit emptyWorld" by (simp add: texts_fit_def emptyWorld_def)
  ultimately have "texts_fit w" using http_runs_texts [OF assms] by (simp add: texts_step_def)
  then show ?thesis by (simp add: texts_fit_def title_ok_def)
qed

theorem stored_texts_fit_witness:
  "let w = snd (handleHttp plainValidator demoServices (demoRequest AuthMe None)
        (RawRegister [(''email'', JText (js ''a@b.c'')), (''password'', JText (js ''password''))]) emptyWorld)
   in list_all (\<lambda>f. displayText 100 (f_name f)) (folders w)"
  unfolding Let_def list_all_iff
  using stored_texts_fit [OF plainValidator_ok http_runs.http_request [OF http_runs.http_idle serving_demo]]
  by (metis arrives.simps(4))

end
