(* ===== verification/End_To_End.thy ===== *)
theory End_To_End
  imports System
begin

text \<open>
  From a request to its results: a recognition that was accepted, one delivery of its queue entry to an
  undisturbed worker, and the reading of the results, composed as the service composes them.
\<close>

section \<open>The document of a job stays\<close>

text \<open>A worker changes no id, owner or deletion mark of a document.\<close>

definition shelf :: "Document \<Rightarrow> uuid \<times> uuid \<times> time option" where
  "shelf d = (d_id d, d_userId d, d_deletedAt d)"

definition same_shelf :: "World \<Rightarrow> World \<Rightarrow> bool" where
  "same_shelf w w' \<longleftrightarrow> map shelf (documents w') = map shelf (documents w)"

lemma same_shelf_documents: "documents w' = documents w \<Longrightarrow> same_shelf w w'"
  by (simp add: same_shelf_def)

lemma perform_same_shelf: "same_shelf w (perform op w)"
proof (cases op)
  case (SetTotalPages i d n now)
  then show ?thesis by (auto simp: same_shelf_def setTotalPages_def Let_def updateMany_def shelf_def)
next
  case (PersistPage i x db)
  then show ?thesis by (auto simp: persistPage_def same_shelf_def Let_def case_prod_unfold split: option.split)
next
  case (Finalize i now)
  then show ?thesis by (auto simp: finalize_def same_shelf_def Let_def case_prod_unfold split: option.split)
qed (auto simp: claim_def heartbeat_def failJob_def requeue_def cancelJob_def recover_def same_shelf_def Let_def case_prod_unfold)

interpretation shelves: job_relation same_shelf
proof unfold_locales
  show "same_shelf w w" for w by (simp add: same_shelf_def)
  show "same_shelf u w" if "same_shelf u v" "same_shelf v w" for u v w using that by (simp add: same_shelf_def)
  show "same_shelf w (perform op w)" for w op by (rule perform_same_shelf)
  show "same_shelf w w'" if "bull_ok q" "addEntry q i w = Inr w'" for q i w w'
    using bull_frame(1) [OF that] by (auto intro: same_shelf_documents)
  show "same_shelf w w'" if "bull_ok q" "dropEntry q i w = Inr w'" for q i w w'
    using bull_frame(2) [OF that] by (auto intro: same_shelf_documents)
qed

lemma same_shelf_owned:
  assumes "same_shelf w w'" and "getOwnedDocument u i ctx w = (Inr d, w)"
  shows "\<exists>d'. getOwnedDocument u i ctx w' = (Inr d', w')"
proof (cases rule: own.get_cases [of u i ctx w'])
  case (missing evs)
  have "d \<in> set (documents w)" "shelf d = (i, u, None)"
    using own.get_found [OF assms(2)] by (simp_all add: shelf_def)
  then have "(i, u, None) \<in> set (map shelf (documents w'))"
    using assms(1) unfolding same_shelf_def by (metis list.set_map image_eqI)
  then show ?thesis using missing(2) by (auto simp: shelf_def)
qed blast

section \<open>A request that creates a job\<close>

lemma createUnderQuota_created:
  assumes "quiet e" and "createUnderQuota e cfg u i l w = (Inr job, w')"
  shows "w' = w\<lparr>ocrJobs := ocrJobs w @ [job]\<rparr>" and "j_status job = QUEUED \<and> j_documentId job = i \<and> j_userId job = u
    \<and> j_attemptCount job = 0 \<and> j_maxAttempts job = oc_maxAttempts cfg \<and> j_id job = freshId e 0 \<and> findJobById (freshId e 0) w = None"
proof -
  obtain a w1 where a: "assertQuota e 4 cfg u i w = (a, w1)" by fastforce
  then have "w1 = w" using assms(1) by (auto simp: assertQuota_def quietD Let_def split: if_splits)
  then have "createJob e cfg u i l w = (Inr job, w')"
    using assms a by (auto simp: createUnderQuota_def quietD split: option.splits)
  from createJob_cases [OF this]
  show "w' = w\<lparr>ocrJobs := ocrJobs w @ [job]\<rparr>" and "j_status job = QUEUED \<and> j_documentId job = i \<and> j_userId job = u
    \<and> j_attemptCount job = 0 \<and> j_maxAttempts job = oc_maxAttempts cfg \<and> j_id job = freshId e 0 \<and> findJobById (freshId e 0) w = None"
    by auto
qed

text \<open>What the database holds after a request was answered with a new job.\<close>

lemma requestOcr_created:
  assumes "quiet e" and "bull_ok q" and "requestOcr e db cfg q av u i dto ctx w = (Inr res, w1)" and "rr_outcome res = Created"
    and "getOwnedDocument u i ctx w = (Inr d, w)"
  shows "assertProcessable cfg d = None" and "ocrJobs w1 = ocrJobs w @ [rr_job res]" and "ocrPages w1 = ocrPages w"
    and "documents w1 = documents w"
    and "j_status (rr_job res) = QUEUED \<and> j_documentId (rr_job res) = i \<and> j_userId (rr_job res) = u
      \<and> j_attemptCount (rr_job res) = 0 \<and> j_maxAttempts (rr_job res) = oc_maxAttempts cfg \<and> j_id (rr_job res) = freshId e 0
      \<and> findJobById (freshId e 0) w = None"
proof -
  note o = assms(1) [unfolded quiet_def]
  have "oc_enabled cfg" using assms(3) by (auto simp: requestOcr_def split: if_splits)
  moreover obtain l where l: "resolve cfg av (rq_language dto) = Inr l"
    using assms(3,5) by (auto simp: requestOcr_def split: if_splits sum.splits)
  ultimately have ok: "assertProcessable cfg d = None"
    using assms(3,5) by (auto simp: requestOcr_def split: option.splits)
  then show "assertProcessable cfg d = None" .
  let ?t = "requestTx e db cfg u i l (rq_forceReprocess dto = Some True) w"
  obtain w2 where t: "?t = (Inr res, w2)" "ocrJobs w1 = ocrJobs (schedule q (rr_job res) w2)"
    "ocrPages w1 = ocrPages (schedule q (rr_job res) w2)" "documents w1 = documents (schedule q (rr_job res) w2)"
    using assms(3-5) \<open>oc_enabled cfg\<close> l ok unfolding requestOcr_def o
    by (auto simp: Let_def split: sum.splits prod.splits if_splits)
  have c: "createUnderQuota e cfg u i l w = (Inr (rr_job res), w2)"
    using t(1) assms(4) unfolding requestTx_def o by (auto simp: Let_def split: option.splits sum.splits prod.splits if_splits)
  have "\<exists>es. schedule q (rr_job res) w2 = w2\<lparr>queueEntries := es\<rparr>"
    using bull_frame(1) [OF assms(2)]
    by (cases "addEntry q (j_id (rr_job res)) w2") (auto simp: schedule_def enqueue_def intro: exI [of _ "queueEntries w2"])
  then show "ocrJobs w1 = ocrJobs w @ [rr_job res]" "ocrPages w1 = ocrPages w" "documents w1 = documents w"
    using t(2-4) createUnderQuota_created(1) [OF assms(1) c] by auto
  show "j_status (rr_job res) = QUEUED \<and> j_documentId (rr_job res) = i \<and> j_userId (rr_job res) = u
      \<and> j_attemptCount (rr_job res) = 0 \<and> j_maxAttempts (rr_job res) = oc_maxAttempts cfg \<and> j_id (rr_job res) = freshId e 0
      \<and> findJobById (freshId e 0) w = None"
    by (rule createUnderQuota_created(2) [OF assms(1) c])
qed

lemma assertProcessable_None:
  assumes "assertProcessable cfg d = None"
  shows "d_status d = READY" and "truthy (d_storageKey d)"
    and "\<not> (case d_fileSize d of None \<Rightarrow> False | Some n \<Rightarrow> n > int (oc_maxFileSizeBytes cfg))"
  using assms by (auto simp: assertProcessable_def split: if_splits)

section \<open>Reading what was stored\<close>

lemma ascending_pages:
  assumes "distinct (map p_pageNumber ps)" and "p_pageNumber ` set ps = {1..n}"
  shows "map p_pageNumber (orderBy (\<lambda>a b. p_pageNumber a \<le> p_pageNumber b) ps) = [1..<Suc n]" and "length ps = n"
proof -
  let ?rows = "orderBy (\<lambda>a b. p_pageNumber a \<le> p_pageNumber b) ps"
  have "sorted_wrt (\<lambda>a b. p_pageNumber a \<le> p_pageNumber b) ?rows" by (rule sorted_orderBy) auto
  then have "sorted (map p_pageNumber ?rows)" by (simp add: sorted_map)
  moreover have "distinct (map p_pageNumber ?rows)" using assms(1) by (simp add: distinct_orderBy)
  moreover have "set (map p_pageNumber ?rows) = set [1..<Suc n]" using assms(2) by auto
  ultimately show "map p_pageNumber ?rows = [1..<Suc n]"
    by (intro sorted_distinct_set_unique) (simp_all del: upt_Suc)
  have "length ps = card (set (map p_pageNumber ps))" using distinct_card [OF assms(1)] by simp
  then show "length ps = n" using assms(2) by simp
qed

lemma quiet_kept: "quiet e \<Longrightarrow> (\<And>w. R w w) \<Longrightarrow> kept_by_others R e"
  by (simp add: quiet_def kept_by_others_def)

lemma process_keeps_owner:
  assumes "quiet e" and "jobs_wf w" and "findJobById k w = Some j" and "findJobById k (snd (process e cfg U store tools k w)) = Some r"
  shows "j_documentId r = j_documentId j \<and> j_userId r = j_userId j"
proof -
  let ?w = "snd (process e cfg U store tools k w)"
  have "job_work w ?w" by (rule work.process_kept [OF quiet_kept [OF assms(1) work.refl]])
  then have "map job_place (ocrJobs ?w) = map job_place (ocrJobs w)" by (simp add: job_work_def)
  then have "job_place r \<in> job_place ` set (ocrJobs w)" using findJobById_Some [OF assms(4)] by (metis image_eqI list.set_map)
  then obtain j' where j': "j' \<in> set (ocrJobs w)" "job_place r = job_place j'" by blast
  then have "j_id j' = j_id j" using findJobById_Some [OF assms(4)] findJobById_Some [OF assms(3)] by (simp add: job_place_def)
  then have "j' = j" using j'(1) findJobById_Some [OF assms(3)] job_unique [OF assms(2)] by blast
  then show ?thesis using j'(2) by (simp add: job_place_def)
qed

text \<open>Reading the finished job of a document by its id.\<close>

lemma ocrResults_finished:
  assumes "quiet e" and "jobs_wf w" and "getOwnedDocument u i ctx w = (Inr d, w)" and "findJobById k w = Some r" and "k \<noteq> []"
    and "isTerminal r" and "j_documentId r = i" and "j_userId r = u"
    and "distinct (map p_pageNumber (pagesOf k w))" and "p_pageNumber ` set (pagesOf k w) = {1..n}" and "n \<le> m"
  shows "\<exists>x. ocrResults e db u i \<lparr>oq_page = 1, oq_limit = m, oq_pageNumber = None, oq_jobId = Some k\<rparr> ctx w = (Inr x, w)
    \<and> rs_job x = r \<and> rs_total x = n \<and> map p_pageNumber (rs_pages x) = [1..<Suc n] \<and> set (rs_pages x) = set (pagesOf k w)"
proof -
  note o = assms(1) [unfolded quiet_def]
  have r: "r \<in> set (ocrJobs w)" "j_id r = k" using findJobById_Some [OF assms(4)] by simp_all
  have "findOwnedJob k i u w \<noteq> None"
    using r assms(7,8) unfolding findOwnedJob_def tbl.find_none by blast
  then obtain r' where r': "findOwnedJob k i u w = Some r'" by blast
  then have "r' \<in> set (ocrJobs w) \<and> j_id r' = k" by (auto simp: findOwnedJob_def dest: findFirst_SomeD)
  then have job: "findOwnedJob k i u w = Some r" using r' job_unique [OF assms(2)] r by blast
  let ?q = "\<lparr>pq_page = 1, pq_limit = m, pq_pageNumber = None\<rparr>"
  let ?rows = "orderBy (\<lambda>a b. p_pageNumber a \<le> p_pageNumber b) (pagesOf k w)"
  have rows: "map p_pageNumber ?rows = [1..<Suc n]" "length (pagesOf k w) = n"
    using ascending_pages [OF assms(9,10)] by simp_all
  then have "length ?rows \<le> m" using assms(11) by (metis length_map length_upt diff_Suc_1)
  then have "pageOf 1 m ?rows = ?rows" by (simp add: pageOf_def)
  moreover have "pageWhere k ?q = (\<lambda>p. p_ocrJobId p = k)" by (auto simp: pageWhere_def)
  ultimately have pages: "jobPages k ?q w = (?rows, n)"
    using rows(2) by (simp add: jobPages_def pagesOf_def findMany_def countRows_def)
  have "\<not> (j_status r = QUEUED \<or> j_status r = PROCESSING)" using assms(6) by (auto simp: isTerminal_def TERMINAL_OCR_STATUSES_def)
  then show ?thesis
    using rows(1) by (simp add: ocrResults_def assms(3) o job r(2) pages truthy_def assms(5) Let_def del: upt_Suc One_nat_def)
qed

section \<open>Properties\<close>

text \<open>C2. From the request to the results. When a request for recognition was answered with a new job, a worker
  that is not disturbed and gets the queue entry of this job finishes it if the file of the document
  downloads and passes the inspection, the tools are installed and the work directory can be
  created; if the file has no more pages than the page size asked for (the API allows 50), the account that asked then reads, by the id it was given, a
  finished job with exactly one result for each page of the file, in order, whose status and
  counters are those of these pages.\<close>

theorem request_to_results:
  assumes "quiet e" and "quiet e'" and "quiet e''" and "ids_ok e" and "bull_ok q" and "system_wf w"
    and "0 < oc_maxTextPerPage cfg" and "0 < oc_maxAttempts cfg"
    and "requestOcr e db cfg q av u i dto ctx w = (Inr res, w1)" and "rr_outcome res = Created"
    and "getOwnedDocument u i ctx w = (Inr d, w)"
    and "download store (the (d_storageKey d)) (oc_maxFileSizeBytes cfg) = Inr b"
    and "inspect cfg (tools b) b (d_mimeType d) = Inr f" and "tools_present (tools b)" and "if_totalPages f \<le> m"
    and "tempDirError e' = None" and "handleEntry e' cfg U store tools (Some (j_id (rr_job res))) w1 = (outcome, w2)"
  shows "outcome = Done \<and> (\<exists>x. ocrResults e'' db u i
      \<lparr>oq_page = 1, oq_limit = m, oq_pageNumber = None, oq_jobId = Some (j_id (rr_job res))\<rparr> ctx w2 = (Inr x, w2)
    \<and> isTerminal (rs_job x) \<and> rs_total x = if_totalPages f \<and> map p_pageNumber (rs_pages x) = [1..<Suc (if_totalPages f)]
    \<and> reports (pagesOf (j_id (rr_job res)) w2) (rs_job x) \<and> set (rs_pages x) = set (pagesOf (j_id (rr_job res)) w2))"
proof -
  let ?j = "rr_job res" and ?k = "freshId e 0"
  note c = requestOcr_created [OF assms(1,5,9,10,11)]
  have j: "j_status ?j = QUEUED" "j_documentId ?j = i" "j_userId ?j = u" "j_attemptCount ?j = 0" "j_maxAttempts ?j = oc_maxAttempts cfg"
    "j_id ?j = ?k" "findJobById ?k w = None" using c(5) by blast+
  have wf1: "jobs_wf w1"
    using system_wfD(4) [OF adds_job_wf [OF assms(6) requestOcr_adds [OF assms(1,5), of u w db cfg av i dto ctx]]] assms(9) by simp
  have row: "findJobById ?k w1 = Some ?j" using findJobById_iff [OF wf1] c(2) j(6) by simp
  have k: "?k \<noteq> []" using assms(4) is_uuid_nonempty by (simp add: ids_ok_def)
  have "p_ocrJobId ` set (ocrPages w) \<subseteq> j_id ` set (ocrJobs w)" using system_wfD(4) [OF assms(6)] by (simp add: jobs_wf_def)
  moreover have "?k \<notin> j_id ` set (ocrJobs w)" using j(7) unfolding findJobById_def tbl.find_none by force
  ultimately have "p_ocrJobId p \<noteq> ?k" if "p \<in> set (ocrPages w)" for p using that by (metis imageI subsetD)
  then have none: "pagesOf ?k w1 = []" by (simp add: pagesOf_def findMany_def c(3) filter_empty_conv)
  have p: "process e' cfg U store tools ?k w1 = (outcome, w2)" using assms(17) k j(6) by (simp add: handleEntry_def truthy_def)
  have doc: "findFirst (\<lambda>d. d_id d = j_documentId ?j \<and> d_userId d = j_userId ?j \<and> d_deletedAt d = None) (documents w1) = Some d"
    using assms(11) by (auto simp: getOwnedDocument_def ownLive_def [abs_def] c(4) j(2,3) case_prod_unfold split: option.splits)
  have ready: "claimable (int (oc_staleJobMs cfg)) (clock e' 0) ?j" "j_attemptCount ?j < j_maxAttempts ?j"
    "p_pageNumber ` set (pagesOf ?k w1) = {1..0}" "0 \<le> if_totalPages f"
    using j(1,4,5) assms(8) none by (simp_all add: claimable_def)
  note finish = process_finishes [OF assms(2,7) wf1 row ready(1,2) doc assertProcessable_None [OF c(1)] assms(12-14) ready(3,4) assms(16) p]
  obtain r where r: "findJobById ?k w2 = Some r" "isTerminal r" "reports (pagesOf ?k w2) r" using finish by blast
  have wf2: "jobs_wf w2" using stepD [OF _ wf1] process_step [of e' w1 cfg U store tools ?k] assms(2) p
    by (simp add: job_env_kept quiet_kept step_refl)
  have own: "j_documentId r = i" "j_userId r = u"
    using process_keeps_owner [OF assms(2) wf1 row, of cfg U store tools r] r(1) p j(2,3) by simp_all
  have "same_shelf w w2"
    using shelves.process_kept [OF quiet_kept [OF assms(2) shelves.refl], of w1 cfg U store tools ?k] p c(4) by (simp add: same_shelf_def)
  then obtain d' where "getOwnedDocument u i ctx w2 = (Inr d', w2)" using same_shelf_owned [OF _ assms(11)] by blast
  moreover have "distinct (map p_pageNumber (pagesOf ?k w2))" "p_pageNumber ` set (pagesOf ?k w2) = {1..if_totalPages f}"
    using finish by blast+
  ultimately obtain x where x: "ocrResults e'' db u i \<lparr>oq_page = 1, oq_limit = m, oq_pageNumber = None, oq_jobId = Some ?k\<rparr> ctx w2
      = (Inr x, w2)" "rs_job x = r" "rs_total x = if_totalPages f" "map p_pageNumber (rs_pages x) = [1..<Suc (if_totalPages f)]"
      "set (rs_pages x) = set (pagesOf ?k w2)"
    using ocrResults_finished [OF assms(3) wf2 _ r(1) k r(2) own _ _ assms(15), of ctx d' db] by blast
  have "outcome = Done" using finish by blast
  then show ?thesis unfolding j(6) using x r(2,3) by (intro conjI exI [of _ x]) simp_all
qed

definition demoFiled :: World where
  "demoFiled = emptyWorld\<lparr>users := [demoUser], documents := [demoDocument\<lparr>d_folderId := None, d_status := READY,
     d_storageKey := Some [75], d_mimeType := Some (js ''application/pdf''), d_fileSize := Some 5\<rparr>]\<rparr>"

lemma demoFiled_wf: "system_wf demoFiled"
  by (simp add: system_wf_def demoFiled_def emptyWorld_def auth_wf_def users_wf_def folders_wf_def forest_def tree_ok_def
      docs_filed_def documents_wf_def doc_row_ok_def demoDocument_def truthy_def jobs_wf_def jobs_filed_def)

theorem request_to_results_witness:
  "\<exists>res w1. requestOcr demoRun demoDb demoConfig plainQueue demoLanguages [7] [3] \<lparr>rq_language = Some (js ''eng''), rq_forceReprocess = None\<rparr> demoCtx
      demoFiled = (Inr res, w1)
    \<and> (\<exists>x w2. ocrResults demoRun demoDb [7] [3] \<lparr>oq_page = 1, oq_limit = 10, oq_pageNumber = None, oq_jobId = Some (j_id (rr_job res))\<rparr>
        demoCtx (snd (handleEntry demoRun demoConfig ascii_unicode demoStore (\<lambda>_. demoTools) (Some (j_id (rr_job res))) w1)) = (Inr x, w2)
      \<and> map p_pageNumber (rs_pages x) = [1..<4])"
proof -
  let ?dto = "\<lparr>rq_language = Some (js ''eng''), rq_forceReprocess = None\<rparr>"
  let ?d = "demoDocument\<lparr>d_folderId := None, d_status := READY, d_storageKey := Some [75], d_mimeType := Some (js ''application/pdf''),
     d_fileSize := Some 5\<rparr>"
  have uuid: "is_uuid (js ''11111111-1111-4111-8111-111111111111'')" by code_simp
  have ids: "ids_ok demoRun" using uuid by (simp add: ids_ok_def demoRun_def)
  have doc: "getOwnedDocument [7] [3] demoCtx demoFiled = (Inr ?d, demoFiled)"
    by (simp add: getOwnedDocument_def ownLive_def findFirst_def demoFiled_def demoDocument_def)
  have "LANGUAGE_CODE (js ''eng'')" by code_simp
  then have "canonical demoConfig demoLanguages [js ''eng'']" by (simp add: canonical_def demoConfig_def demoLanguages_def)
  from resolve_canonical_fixed [OF this] have lang: "resolve demoConfig demoLanguages (Some (js ''eng'')) = Inr (js ''eng'')" by simp
  have ok: "assertProcessable demoConfig ?d = None"
    by (simp add: assertProcessable_def truthy_def SUPPORTED_MIME_TYPES_def demoConfig_def demoDocument_def js_def)
  obtain res w1 where r: "requestOcr demoRun demoDb demoConfig plainQueue demoLanguages [7] [3] ?dto demoCtx demoFiled = (Inr res, w1)"
    "rr_outcome res = Created"
    using doc lang ok
    by (auto simp: requestOcr_def demoRun_def requestTx_def activeForDocument_def firstBy_def findMany_def orderBy_def latestForLanguage_def
        createUnderQuota_def assertQuota_def countActiveForUser_def countForDocument_def countRows_def createJob_def findJobById_def
        findFirst_def findUserById_def demoUser_def demoConfig_def Let_def demoFiled_def emptyWorld_def demoDocument_def)
  have dl: "download demoStore (the (d_storageKey ?d)) (oc_maxFileSizeBytes demoConfig) = Inr [0x25, 0x50, 0x44, 0x46, 0x2d]"
    using demo_download by simp
  have ins: "inspect demoConfig demoTools [0x25, 0x50, 0x44, 0x46, 0x2d] (d_mimeType ?d)
     = Inr \<lparr>if_format = Pdf, if_totalPages = 3, if_pdf = Some demoPdf\<rparr>"
  proof -
    have "latin1 [0x25, 0x50, 0x44, 0x46, 0x2d] = ''%PDF-''" by code_simp
    then show ?thesis
      by (simp add: inspect_def readHead_def SIGNATURE_PROBE_BYTES_def detectFormat_def subarray_def demoTools_def demoPdf_def
          demoConfig_def mimeOf_def)
  qed
  have pos: "0 < oc_maxTextPerPage demoConfig" "0 < oc_maxAttempts demoConfig" by (simp_all add: demoConfig_def)
  have three: "if_totalPages \<lparr>if_format = Pdf, if_totalPages = 3, if_pdf = Some demoPdf\<rparr> \<le> 10" by simp
  have "\<exists>x. ocrResults demoRun demoDb [7] [3] \<lparr>oq_page = 1, oq_limit = 10, oq_pageNumber = None, oq_jobId = Some (j_id (rr_job res))\<rparr>
        demoCtx (snd (handleEntry demoRun demoConfig ascii_unicode demoStore (\<lambda>_. demoTools) (Some (j_id (rr_job res))) w1))
      = (Inr x, snd (handleEntry demoRun demoConfig ascii_unicode demoStore (\<lambda>_. demoTools) (Some (j_id (rr_job res))) w1))
      \<and> map p_pageNumber (rs_pages x) = [1..<Suc 3]"
    using request_to_results [where tools = "\<lambda>_. demoTools", OF demoRun_quiet demoRun_quiet demoRun_quiet ids plainQueue_ok demoFiled_wf
        pos r doc dl ins demoTools_present three demoRun_workdir prod.collapse [symmetric]] by auto
  then show ?thesis using r(1) by auto
qed

end
