(* ===== verification/Active_Jobs.thy ===== *)
theory Active_Jobs
  imports System
begin

text \<open>
  At most one active job per document, over whole runs of the system (\<open>ocr/ocr.service.ts\<close> with the
  worker and the reconciler). A request is refused or answered with the active job while there is
  one; a retry looks at the latest job of the document only, so that an active job has to be the
  latest. Both are invariants of the runs in which a request comes later than every stored job was
  created.
\<close>

section \<open>The newest job of a document\<close>

text \<open>Of two jobs of a document an active one is the strictly newer one.\<close>

definition in_order :: "OcrJob \<Rightarrow> OcrJob \<Rightarrow> bool" where
  "in_order a b \<longleftrightarrow> (j_documentId a = j_documentId b \<longrightarrow>
     (isActive a \<longrightarrow> j_createdAt b < j_createdAt a) \<and> (isActive b \<longrightarrow> j_createdAt a < j_createdAt b))"

definition active_newest :: "World \<Rightarrow> bool" where
  "active_newest w \<longleftrightarrow> sorted_wrt in_order (ocrJobs w)"

lemma active_newest_same: "ocrJobs w' = ocrJobs w \<Longrightarrow> active_newest w' = active_newest w"
  by (simp add: active_newest_def)

lemma active_newest_fades:
  assumes "fades w w'" and "active_newest w"
  shows "active_newest w'"
proof -
  let ?R = "\<lambda>j j'. tag j' = tag j \<and> (isActive j' \<longrightarrow> isActive j)"
  have "list_all2 ?R xs ys \<Longrightarrow> sorted_wrt in_order xs \<Longrightarrow> sorted_wrt in_order ys" for xs ys
  proof (induction rule: list_all2_induct)
    case (Cons x xs y ys)
    have "in_order y b" if "b \<in> set ys" for b
    proof -
      have "\<exists>a\<in>set xs. ?R a b" using Cons.hyps(2) that by (induction rule: list_all2_induct) auto
      then obtain a where a: "a \<in> set xs" "?R a b" by blast
      then have "in_order x a" using Cons.prems by simp
      then show ?thesis using a(2) Cons.hyps(1) by (auto simp: in_order_def tag_def)
    qed
    then show ?case using Cons by simp
  qed simp
  then show ?thesis using assms by (simp add: active_newest_def fades_def)
qed

lemma active_newest_count: "active_newest w \<Longrightarrow> activeCount d w \<le> 1"
proof -
  have "sorted_wrt in_order xs \<Longrightarrow> length (filter (\<lambda>j. j_documentId j = d \<and> isActive j) xs) \<le> 1" for xs
  proof (induction xs)
    case (Cons x xs)
    have "filter (\<lambda>j. j_documentId j = d \<and> isActive j) xs = []" if "j_documentId x = d \<and> isActive x"
      using Cons.prems that by (fastforce simp: filter_empty_conv in_order_def)
    then show ?case using Cons by auto
  qed simp
  then show "active_newest w \<Longrightarrow> activeCount d w \<le> 1" by (simp add: active_newest_def activeCount_def countRows_def)
qed

lemma active_newest_others:
  assumes "active_newest w" and "a \<in> set (ocrJobs w)" and "isActive a" and "b \<in> set (ocrJobs w)"
    and "b \<noteq> a" and "j_documentId b = j_documentId a"
  shows "j_createdAt b < j_createdAt a"
proof -
  obtain i k where ik: "i < length (ocrJobs w)" "k < length (ocrJobs w)" "a = ocrJobs w ! i" "b = ocrJobs w ! k"
    using assms(2,4) by (auto simp: in_set_conv_nth)
  then have "i \<noteq> k" using assms(5) by auto
  then consider "i < k" | "k < i" by linarith
  then have "in_order a b \<or> in_order b a"
    using assms(1) ik unfolding active_newest_def sorted_wrt_iff_nth_less by cases auto
  then show ?thesis using assms(3,6) by (auto simp: in_order_def)
qed

text \<open>A row that comes before all others in both directions is the first one, whatever the order does with
  the rest.\<close>

lemma orderBy_head:
  assumes "a \<in> set xs" and "\<And>b. b \<in> set xs \<Longrightarrow> b \<noteq> a \<Longrightarrow> le a b \<and> \<not> le b a"
  shows "\<exists>ys. orderBy le xs = a # ys"
  using assms
proof (induction xs)
  case (Cons x xs)
  have step: "orderBy le (x # xs) = insert_by le x (orderBy le xs)" by (simp add: orderBy_def)
  show ?case
  proof (cases "a \<in> set xs")
    case True
    then obtain ys where "orderBy le xs = a # ys" using Cons by auto
    then show ?thesis using Cons.prems(2) [of x] step by (cases "x = a") auto
  next
    case False
    then have "x = a" using Cons.prems(1) by simp
    moreover have "le a y" if "y \<in> set xs" for y using Cons.prems(2) [of y] False that by auto
    ultimately show ?thesis using step by (cases "orderBy le xs") (auto simp flip: set_orderBy [of le xs])
  qed
qed simp

text \<open>An active job is the one that the status route and a retry see.\<close>

lemma active_is_latest:
  assumes "active_newest w" and "a \<in> set (ocrJobs w)" and "isActive a"
  shows "latestForDocument db (j_documentId a) (j_userId a) w = Some a"
proof -
  let ?rows = "findMany (\<lambda>j. j_documentId j = j_documentId a \<and> j_userId j = j_userId a) (ocrJobs w)"
  have "\<exists>ys. orderBy (newestFirst db) ?rows = a # ys"
  proof (rule orderBy_head)
    show "a \<in> set ?rows" using assms(2) by (simp add: findMany_def)
    show "newestFirst db a b \<and> \<not> newestFirst db b a" if "b \<in> set ?rows" "b \<noteq> a" for b
      using active_newest_others [OF assms, of b] that by (auto simp: findMany_def newestFirst_def)
  qed
  then show ?thesis by (auto simp: latestForDocument_def firstBy_def)
qed

section \<open>What a request does to the jobs\<close>

text \<open>It leaves them, or adds one for a document without an active job.\<close>

definition files_job :: "run \<Rightarrow> World \<Rightarrow> World \<Rightarrow> bool" where
  "files_job e w w' \<longleftrightarrow> ocrJobs w' = ocrJobs w
     \<or> (\<exists>r. ocrJobs w' = ocrJobs w @ [r] \<and> j_createdAt r = clock e 0 \<and> activeCount (j_documentId r) w = 0)"

lemma files_job_same: "ocrJobs w' = ocrJobs w \<Longrightarrow> files_job e w w'"
  by (simp add: files_job_def)

lemma files_job_then: "ocrJobs w'' = ocrJobs w' \<Longrightarrow> files_job e w w' \<Longrightarrow> files_job e w w''"
  by (simp add: files_job_def)

lemma files_job_newest:
  assumes "files_job e w w'" and "active_newest w" and "\<forall>j\<in>set (ocrJobs w). j_createdAt j < clock e 0"
  shows "active_newest w'"
proof -
  have "\<not> isActive j" if "activeCount d w = 0" "j \<in> set (ocrJobs w)" "j_documentId j = d" for d j
    using that by (auto simp: activeCount_def countRows_def filter_empty_conv)
  then show ?thesis
    using assms by (auto simp: files_job_def active_newest_def sorted_wrt_append in_order_def)
qed

lemma createUnderQuota_files:
  assumes "quiet e" and "activeCount d w = 0"
  shows "files_job e w (snd (createUnderQuota e cfg u d l w))"
  using assms unfolding createUnderQuota_def assertQuota_def createJob_def createRow_def quiet_def
  by (simp add: files_job_def Let_def)

lemma requestTx_files:
  assumes "quiet e"
  shows "files_job e w (snd (requestTx e db cfg u d l force w))"
proof (cases "activeForDocument d w")
  case None
  obtain r w2 where c: "createUnderQuota e cfg u d l w = (r, w2)" by fastforce
  have "files_job e w w2"
    using createUnderQuota_files [OF assms, of d w cfg u l] None c by (simp add: activeForDocument_None)
  then show ?thesis using None c assms unfolding requestTx_def quiet_def
    by (auto simp: Let_def files_job_same split: option.split sum.split)
next
  case (Some j)
  then show ?thesis by (simp add: requestTx_def files_job_same)
qed

lemma retryTx_files:
  assumes "quiet e" and "active_newest w" and "\<forall>j\<in>set (ocrJobs w). j_documentId j = d \<longrightarrow> j_userId j = u"
  shows "files_job e w (snd (retryTx e db cfg av u d w))"
proof (cases "activeCount d w = 0")
  case True
  then show ?thesis
    using createUnderQuota_files [OF assms(1) True] assms(1) unfolding retryTx_def quiet_def
    by (auto simp: files_job_same split: option.split sum.split)
next
  case False
  then obtain a where a: "a \<in> set (ocrJobs w)" "j_documentId a = d" "isActive a"
    by (auto simp: activeCount_def countRows_def filter_empty_conv)
  then have "latestForDocument db d u w = Some a" using active_is_latest [OF assms(2) a(1,3)] assms(3) by auto
  moreover have "j_status a \<notin> set RETRYABLE_STATUSES" using a(3) by (auto simp: RETRYABLE_STATUSES_def statuses)
  ultimately show ?thesis by (simp add: retryTx_def files_job_same)
qed

lemma schedule_jobs: "bull_ok q \<Longrightarrow> ocrJobs (schedule q job w) = ocrJobs w"
  by (auto simp: schedule_def enqueue_def dest: bull_frame(1) split: sum.split)

lemma requestOcr_files:
  assumes "quiet e" and "bull_ok q"
  shows "files_job e w (snd (requestOcr e db cfg q av u i dto ctx w))"
proof (cases rule: own.get_cases [of u i ctx w])
  case (missing evs)
  then show ?thesis by (simp add: requestOcr_def files_job_same)
next
  case (found d)
  note o = assms(1) [unfolded quiet_def]
  show ?thesis
  proof (cases "resolve cfg av (rq_language dto)")
    case (Inl f)
    with found(1) show ?thesis by (simp add: requestOcr_def o files_job_same)
  next
    case (Inr l)
    obtain r w2 where c: "requestTx e db cfg u i l (rq_forceReprocess dto = Some True) w = (r, w2)" by fastforce
    have a: "files_job e w w2"
      using requestTx_files [OF assms(1), of w db cfg u i l "rq_forceReprocess dto = Some True"] c by simp
    then have "files_job e w (recordEvent ev (schedule q job w2))" for ev job
      by (rule files_job_then [rotated]) (simp add: schedule_jobs [OF assms(2)])
    then show ?thesis
      using found(1) Inr c a unfolding requestOcr_def o
      by (auto simp: Let_def files_job_same split: option.split sum.split)
  qed
qed

lemma retryOcr_files:
  assumes "quiet e" and "bull_ok q" and "system_wf w" and "active_newest w"
  shows "files_job e w (snd (retryOcr e db cfg q av u i ctx w))"
proof (cases rule: own.get_cases [of u i ctx w])
  case (missing evs)
  then show ?thesis by (simp add: retryOcr_def files_job_same)
next
  case (found d)
  note o = assms(1) [unfolded quiet_def]
  have "j_userId j = u" if j: "j \<in> set (ocrJobs w)" "j_documentId j = i" for j
  proof -
    obtain x where x: "x \<in> set (documents w)" "d_id x = i" "d_userId x = j_userId j"
      using system_wfD(5) [OF assms(3)] j by (auto simp: jobs_filed_def)
    moreover have "distinct (map d_id (documents w))" using system_wfD(3) [OF assms(3)] by (simp add: documents_wf_def)
    ultimately have "x = d" using found by (auto simp: distinct_map dest: inj_onD)
    then show ?thesis using x found by simp
  qed
  then have own: "\<forall>j\<in>set (ocrJobs w). j_documentId j = i \<longrightarrow> j_userId j = u" by blast
  obtain r w2 where c: "retryTx e db cfg av u i w = (r, w2)" by fastforce
  have a: "files_job e w w2" using retryTx_files [OF assms(1,4) own, of db cfg av] c by simp
  then have "files_job e w (recordEvent ev (schedule q job w2))" for ev job
    by (rule files_job_then [rotated]) (simp add: schedule_jobs [OF assms(2)])
  then show ?thesis
    using found(1) c a unfolding retryOcr_def o by (auto simp: files_job_same split: option.split sum.split)
qed

text \<open>All other calls leave the jobs alone.\<close>

lemma withId_files: "(\<And>i. files_job e w (snd (h i w))) \<Longrightarrow> files_job e w (snd (withId raw h w))"
  by (simp add: withId_def files_job_same split: sum.split)

lemma recognition_files: "recognition w' = recognition w \<Longrightarrow> files_job e w w'"
  by (simp add: recognition_def files_job_same)

lemma dispatch_files:
  assumes "serving sv" and "system_wf w" and "active_newest w"
  shows "files_job (sv_run sv) w (snd (dispatch sv req rid u ctx c w))"
proof -
  have sv: "quiet (sv_run sv)" "bull_ok (sv_queue sv)" using assms(1) by (simp_all add: serving_def)
  have reads: "unchanged w w' \<Longrightarrow> recognition w' = recognition w" for w' by (simp add: unchanged_def)
  note frames = register_frame [OF sv(1)] login_frame [OF sv(1)] refresh_frame [OF sv(1)] logout_frame [OF sv(1)]
    updateMe_frame [OF sv(1)] createFolder_frame [OF sv(1)] updateFolder_frame [OF sv(1)] removeFolder_parts [OF sv(1)]
    document_frames [OF sv(1)] reads_unchanged [OF sv(1), THEN reads] getOwned_unchanged [THEN reads]
  show ?thesis
    by (cases c) (simp_all add: controllers frames recognition_files withId_files files_job_same
        requestOcr_files [OF sv] retryOcr_files [OF sv assms(2,3)])
qed

lemma handleApi_files:
  assumes "serving sv" and "system_wf w" and "active_newest w"
  shows "files_job (sv_run sv) w (snd (handleApi sv req w))"
proof (cases "guards req w")
  case (Inl f)
  then show ?thesis by (simp add: handleApi_def Let_def files_job_same)
next
  case (Inr r)
  then show ?thesis
    unfolding handleApi_dispatch(1) [OF Inr refl refl] by (intro dispatch_files [OF assms])
qed

section \<open>Runs\<close>

text \<open>Runs of the system in which each request comes later than all jobs it finds were created.\<close>

inductive timed_runs :: "World \<Rightarrow> World \<Rightarrow> bool" where
  timed_idle: "timed_runs w w"
| timed_request: "timed_runs w v \<Longrightarrow> serving sv \<Longrightarrow> (\<forall>j\<in>set (ocrJobs v). j_createdAt j < clock (sv_run sv) 0)
    \<Longrightarrow> timed_runs w (snd (handleApi sv req v))"
| timed_delivered: "timed_runs w v \<Longrightarrow> (\<And>i x. timed_runs x (others e i x))
    \<Longrightarrow> timed_runs w (snd (handleEntry e cfg U store tools jobId v))"
| timed_reconciled: "timed_runs w v \<Longrightarrow> (\<And>i x. timed_runs x (others e i x)) \<Longrightarrow> bull_ok q
    \<Longrightarrow> timed_runs w (snd (reconcile e cfg q busy v))"

lemma timed_runs_are_runs: "timed_runs w w' \<Longrightarrow> runs w w'"
proof (induction rule: timed_runs.induct)
  case (timed_request w v sv req)
  then show ?case by (simp add: runs.request)
next
  case (timed_delivered w v e cfg U store tools jobId)
  then show ?case by (simp add: runs.delivered)
next
  case (timed_reconciled w v e q cfg busy)
  then show ?case by (simp add: runs.reconciled)
qed (rule runs.idle)

interpretation fading: job_relation fades
proof unfold_locales
  show "fades w w" for w by (rule fades_same) (rule refl)
  show "fades u w" if "fades u v" "fades v w" for u v w using that by (rule fades_trans)
  show "fades w (perform op w)" for w op by (rule perform_fades)
  show "fades w w'" if "bull_ok q" "addEntry q i w = Inr w'" for q i w w'
    using bull_frame(1) [OF that] by (auto intro: fades_same)
  show "fades w w'" if "bull_ok q" "dropEntry q i w = Inr w'" for q i w w'
    using bull_frame(2) [OF that] by (auto intro: fades_same)
qed

definition single_step :: "World \<Rightarrow> World \<Rightarrow> bool" where
  "single_step w w' \<longleftrightarrow> (system_wf w \<and> active_newest w \<longrightarrow> system_wf w' \<and> active_newest w')"

lemma single_stepI: "system_step w w' \<Longrightarrow> fades w w' \<Longrightarrow> single_step w w'"
  using active_newest_fades by (auto simp: single_step_def system_step_def)

lemma single_step_trans: "single_step u v \<Longrightarrow> single_step v w \<Longrightarrow> single_step u w"
  by (simp add: single_step_def)

interpretation single: job_relation single_step
proof unfold_locales
  show "single_step w w" for w by (simp add: single_step_def)
  show "single_step u w" if "single_step u v" "single_step v w" for u v w using that by (rule single_step_trans)
  show "single_step w (perform op w)" for w op by (rule single_stepI [OF sys.operation perform_fades])
  show "single_step w w'" if "bull_ok q" "addEntry q i w = Inr w'" for q i w w'
    by (rule single_stepI [OF sys.queue_add [OF that] fading.queue_add [OF that]])
  show "single_step w w'" if "bull_ok q" "dropEntry q i w = Inr w'" for q i w w'
    by (rule single_stepI [OF sys.queue_drop [OF that] fading.queue_drop [OF that]])
qed

lemma timed_runs_single: "timed_runs w w' \<Longrightarrow> single_step w w'"
proof (induction rule: timed_runs.induct)
  case (timed_request w v sv req)
  have "single_step v (snd (handleApi sv req v))"
    using handleApi_step [OF timed_request.hyps(2), of v req] handleApi_files [OF timed_request.hyps(2)]
      files_job_newest [OF _ _ timed_request.hyps(3)]
    by (auto simp: single_step_def system_step_def)
  then show ?case using timed_request.IH single_step_trans by blast
next
  case (timed_delivered w v e cfg U store tools jobId)
  then have "kept_by_others single_step e" by (simp add: kept_by_others_def)
  then have "single_step v (snd (handleEntry e cfg U store tools jobId v))"
    by (simp add: handleEntry_def single.process_kept single.refl)
  then show ?case using timed_delivered.IH(1) single_step_trans by blast
next
  case (timed_reconciled w v e q cfg busy)
  then have "kept_by_others single_step e" by (simp add: kept_by_others_def)
  then show ?case using timed_reconciled.IH(1) single.reconcile_kept [OF _ timed_reconciled.hyps(3)] single_step_trans by blast
qed (rule single.refl)

lemma empty_start: "system_wf emptyWorld" "active_newest emptyWorld"
  by (simp_all add: system_wf_def emptyWorld_def auth_wf_def users_wf_def folders_wf_def forest_def tree_ok_def docs_filed_def
      documents_wf_def jobs_wf_def jobs_filed_def active_newest_def)

section \<open>Properties\<close>

lemma demoBench_start: "system_wf demoBench" "active_newest demoBench"
proof -
  show "system_wf demoBench"
  proof (rule system_wfI)
    show "documents_wf demoBench" "folders_wf demoBench"
      using demoShelf_wf wf_parts(2,3) [of demoBench demoShelf] by (simp_all add: demoBench_def library_def)
    show "jobs_wf demoBench" by (rule demoBench_wf)
  qed (simp_all add: demoBench_def demoShelf_def demoLibrary_def emptyWorld_def auth_wf_def users_wf_def jobs_filed_def
      demoDocument_def demoJob_def)
qed (simp add: active_newest_def)

text \<open>C30. A document never has two active jobs. After any run of requests, retries, deliveries and reconciliations
  in which each request comes later than all jobs it finds were created, where everything else may
  happen between the steps of a delivery or a reconciliation and a request is served without
  interruption, at most one job of each document waits or is in processing; and that job is the one
  the status of the document reports, newer than all others. It holds from the empty database on, and
  from any consistent one that has the property.\<close>

theorem single_active_job:
  assumes "timed_runs w0 w" and "system_wf w0" and "active_newest w0"
  shows "activeCount d w \<le> 1
    \<and> (\<forall>j\<in>set (ocrJobs w). isActive j \<longrightarrow> latestForDocument db (j_documentId j) (j_userId j) w = Some j
         \<and> (\<forall>x\<in>set (ocrJobs w). j_documentId x = j_documentId j \<and> x \<noteq> j \<longrightarrow> j_createdAt x < j_createdAt j))"
proof -
  have w: "active_newest w" using timed_runs_single [OF assms(1)] assms(2,3) by (simp add: single_step_def)
  show ?thesis using active_newest_count [OF w] active_is_latest [OF w] active_newest_others [OF w] by blast
qed

theorem single_active_job_witness:
  "activeCount [3] (snd (handleApi demoServices (demoRequest (OcrRetry [3]) (Some [7]))
     (snd (handleEntry Folders.demoRun Ocr_Errors.demoConfig ascii_unicode (\<lambda>key. Inl (StorageException ''down'')) (\<lambda>_. demoTools)
       (Some [5]) demoBench)))) \<le> 1"
proof -
  let ?v = "snd (handleEntry Folders.demoRun Ocr_Errors.demoConfig ascii_unicode (\<lambda>key. Inl (StorageException ''down'')) (\<lambda>_. demoTools)
       (Some [5]) demoBench)"
  have quiet: "others Folders.demoRun i x = x" for i x by (simp add: demoRun_def)
  have run: "timed_runs demoBench ?v"
    by (rule timed_runs.timed_delivered [OF timed_runs.timed_idle]) (simp add: quiet timed_runs.timed_idle)
  have "kept_by_others fades Folders.demoRun" by (simp add: kept_by_others_def quiet fades_same)
  then have "fades demoBench ?v" by (simp add: handleEntry_def fading.process_kept fading.refl)
  then have "\<forall>j\<in>set (ocrJobs ?v). j_createdAt j < clock (sv_run demoServices) 0"
    by (auto simp: fades_def demoServices_def demoRun_def tag_def list_all2_Cons1 demoJob_def)
  then show ?thesis
    using single_active_job [OF timed_runs.timed_request [OF run serving_demo] demoBench_start] by blast
qed

end
