(* ===== verification/Queue_Connection.thy ===== *)
theory Queue_Connection
  imports Health Ocr_Tools
begin

text \<open>
  How the producer of the queue is set up (\<open>ocr/ocr-queue.service.ts\<close>): the connection read from
  \<open>REDIS_URL\<close>, the options of every entry, start and stop. \<open>decodeURIComponent\<close> is written out, with the
  URIErrors it throws. The parser of URLs is the parameter \<open>parseUrl\<close>; \<open>url_parser_ok\<close> is what the URL
  standard says of texts made of a scheme, credentials, a host, a port and a number.
\<close>

section \<open>decodeURIComponent\<close>

definition hexValue :: "jschar \<Rightarrow> nat option" where
  "hexValue c =
     (if is_digit c then Some (unat c - 48)
      else if 65 \<le> c \<and> c \<le> 70 then Some (unat c - 55)
      else if 97 \<le> c \<and> c \<le> 102 then Some (unat c - 87)
      else None)"

text \<open>One escape \<open>%XY\<close> at the front: its byte and what follows.\<close>

fun octet :: "jsstring \<Rightarrow> (nat \<times> jsstring) option" where
  "octet (c # a # b # r) =
     (if c = 37 then (case (hexValue a, hexValue b) of (Some x, Some y) \<Rightarrow> Some (16 * x + y, r) | _ \<Rightarrow> None) else None)"
| "octet _ = None"

text \<open>Further bytes of a code point, six bits each.\<close>

fun continuation :: "nat \<Rightarrow> nat \<Rightarrow> jsstring \<Rightarrow> (nat \<times> jsstring) option" where
  "continuation 0 v s = Some (v, s)"
| "continuation (Suc n) v s =
     (case octet s of
        Some (b, r) \<Rightarrow> if 0x80 \<le> b \<and> b < 0xC0 then continuation n (64 * v + (b - 0x80)) r else None
      | None \<Rightarrow> None)"

text \<open>The code units of a code point that was read from \<open>n\<close> bytes; overlong forms, surrogates and values beyond
  Unicode are refused.\<close>

definition units :: "nat \<Rightarrow> nat \<Rightarrow> jsstring option" where
  "units n v =
     (if n = 2 \<and> 0x80 \<le> v \<or> n = 3 \<and> 0x800 \<le> v \<and> (v < 0xD800 \<or> 0xDFFF < v) then Some [of_nat v]
      else if n = 4 \<and> 0x10000 \<le> v \<and> v < 0x110000
      then Some [of_nat (0xD800 + (v - 0x10000) div 0x400), of_nat (0xDC00 + (v - 0x10000) mod 0x400)]
      else None)"

definition escaped :: "nat \<Rightarrow> nat \<Rightarrow> jsstring \<Rightarrow> (jsstring \<times> jsstring) option" where
  "escaped n v s =
     (case continuation (n - 1) v s of
        Some (p, r) \<Rightarrow> map_option (\<lambda>us. (us, r)) (units n p)
      | None \<Rightarrow> None)"

definition decodeEscape :: "jsstring \<Rightarrow> (jsstring \<times> jsstring) option" where
  "decodeEscape s =
     (case octet s of
        None \<Rightarrow> None
      | Some (b, r) \<Rightarrow>
          if b < 0x80 then Some ([of_nat b], r)
          else if b < 0xC0 then None
          else if b < 0xE0 then escaped 2 (b - 0xC0) r
          else if b < 0xF0 then escaped 3 (b - 0xE0) r
          else if b < 0xF8 then escaped 4 (b - 0xF0) r
          else None)"

lemma octet_length: "octet s = Some (b, r) \<Longrightarrow> length s = length r + 3"
  by (cases s rule: octet.cases) (auto split: if_splits option.splits)

lemma continuation_length: "continuation n v s = Some (p, r) \<Longrightarrow> length r \<le> length s"
proof (induction n arbitrary: v s)
  case (Suc n)
  then show ?case by (auto split: option.splits if_splits dest!: octet_length) fastforce
qed simp

lemma decodeEscape_length: "decodeEscape s = Some (us, r) \<Longrightarrow> length r < length s"
  by (auto simp: decodeEscape_def escaped_def split: option.splits if_splits dest!: octet_length continuation_length)

text \<open>\<open>None\<close> is the URIError.\<close>

function decodeURIComponent :: "jsstring \<Rightarrow> jsstring option" where
  "decodeURIComponent [] = Some []"
| "decodeURIComponent (c # s) =
     (if c \<noteq> 37 then map_option (\<lambda>t. c # t) (decodeURIComponent s)
      else (case decodeEscape (c # s) of
              None \<Rightarrow> None
            | Some (us, r) \<Rightarrow> map_option (\<lambda>t. us @ t) (decodeURIComponent r)))"
  by pat_completeness auto
termination
  by (relation "measure length") (auto dest!: decodeEscape_length [OF sym] decodeEscape_length)

lemma hex_upper_value: "n < 16 \<Longrightarrow> hexValue (hex_upper n) = Some n"
proof -
  have "\<forall>k\<in>set [0..<16]. hexValue (hex_upper k) = Some k" by code_simp
  then show "n < 16 \<Longrightarrow> hexValue (hex_upper n) = Some n" by simp
qed

lemma octet_pct [simp]: "b < 256 \<Longrightarrow> octet (pct b @ s) = Some (b, s)"
  by (simp add: pct_def hex_upper_value)

lemma of_nat_unat16: "of_nat (unat c) = (c :: jschar)"
  by simp

lemma continuation_pct: "k < 64 \<Longrightarrow> continuation (Suc n) v (pct (0x80 + k) @ s) = continuation n (64 * v + k) s"
  by simp

lemma decodeEscape_lead:
  "a < 0x80 \<Longrightarrow> decodeEscape (pct a @ s) = Some ([of_nat a], s)"
  "a < 32 \<Longrightarrow> decodeEscape (pct (0xC0 + a) @ s) = escaped 2 a s"
  "a < 16 \<Longrightarrow> decodeEscape (pct (0xE0 + a) @ s) = escaped 3 a s"
  "a < 8 \<Longrightarrow> decodeEscape (pct (0xF0 + a) @ s) = escaped 4 a s"
  by (simp_all add: decodeEscape_def)

lemma escaped_pct:
  "k < 64 \<Longrightarrow> escaped 2 a (pct (0x80 + k) @ s) = map_option (\<lambda>us. (us, s)) (units 2 (64 * a + k))"
  "k < 64 \<Longrightarrow> l < 64 \<Longrightarrow> escaped 3 a (pct (0x80 + k) @ pct (0x80 + l) @ s)
     = map_option (\<lambda>us. (us, s)) (units 3 (64 * (64 * a + k) + l))"
  "k < 64 \<Longrightarrow> l < 64 \<Longrightarrow> m < 64 \<Longrightarrow> escaped 4 a (pct (0x80 + k) @ pct (0x80 + l) @ pct (0x80 + m) @ s)
     = map_option (\<lambda>us. (us, s)) (units 4 (64 * (64 * (64 * a + k) + l) + m))"
proof -
  have n: "2 - 1 = Suc 0" "3 - 1 = Suc (Suc 0)" "4 - 1 = Suc (Suc (Suc 0))" by simp_all
  show "k < 64 \<Longrightarrow> escaped 2 a (pct (0x80 + k) @ s) = map_option (\<lambda>us. (us, s)) (units 2 (64 * a + k))"
    unfolding escaped_def n by (simp only: continuation_pct continuation.simps(1) option.case prod.case)
  show "k < 64 \<Longrightarrow> l < 64 \<Longrightarrow> escaped 3 a (pct (0x80 + k) @ pct (0x80 + l) @ s)
     = map_option (\<lambda>us. (us, s)) (units 3 (64 * (64 * a + k) + l))"
    unfolding escaped_def n by (simp only: continuation_pct continuation.simps(1) option.case prod.case)
  show "k < 64 \<Longrightarrow> l < 64 \<Longrightarrow> m < 64 \<Longrightarrow> escaped 4 a (pct (0x80 + k) @ pct (0x80 + l) @ pct (0x80 + m) @ s)
     = map_option (\<lambda>us. (us, s)) (units 4 (64 * (64 * (64 * a + k) + l) + m))"
    unfolding escaped_def n by (simp only: continuation_pct continuation.simps(1) option.case prod.case)
qed

lemma sextets_join:
  "64 * (64 * (n div 4096) + n div 64 mod 64) + n mod 64 = n"
  "64 * (64 * (64 * (n div 262144) + n div 4096 mod 64) + n div 64 mod 64) + n mod 64 = n"
  for n :: nat
proof -
  have d: "n div 4096 = n div 64 div 64" "n div 262144 = n div 4096 div 64" by (simp_all add: div_mult2_eq [symmetric])
  have join: "64 * (k div 64) + k mod 64 = k" for k :: nat by simp
  show "64 * (64 * (n div 4096) + n div 64 mod 64) + n mod 64 = n" unfolding d(1) join ..
  then show "64 * (64 * (64 * (n div 262144) + n div 4096 mod 64) + n div 64 mod 64) + n mod 64 = n"
    unfolding d(2) join .
qed

text \<open>Each code point is read whole from its escapes.\<close>

lemma decodeEscape_point:
  assumes "point_shape p" and "utf8 p = Some bs"
  shows "decodeEscape (concat (map pct bs) @ s) = Some (p, s)"
proof (cases "\<exists>c. p = [c]")
  case True
  then obtain c where c: "p = [c]" by blast
  define n where "n = unat c"
  have small: "n < 65536" using unsigned_less [of c, where ?'a = nat] by (simp add: n_def)
  have whole: "of_nat n = c" by (simp add: n_def)
  have lone: "n < 0xD800 \<or> 0xDFFF < n"
    using assms(2) c by (auto simp: utf8_def n_def Let_def high_surrogate_def low_surrogate_def word_le_nat_alt split: if_splits)
  consider "n < 0x80" | "0x80 \<le> n" "n < 0x800" | "0x800 \<le> n" by linarith
  then show ?thesis
  proof cases
    case 1
    then have "bs = [n]" using assms(2) c by (auto simp: utf8_def n_def Let_def split: if_splits)
    with 1 show ?thesis by (simp add: decodeEscape_lead whole c)
  next
    case 2
    then have bs: "bs = [0xC0 + n div 64, 0x80 + n mod 64]" using assms(2) c by (auto simp: utf8_def n_def Let_def split: if_splits)
    have "n div 64 < 32" "n mod 64 < 64" "64 * (n div 64) + n mod 64 = n" using 2 by simp_all
    then have "decodeEscape (pct (0xC0 + n div 64) @ pct (0x80 + n mod 64) @ s) = map_option (\<lambda>us. (us, s)) (units 2 n)"
      using escaped_pct(1) [of "n mod 64" "n div 64" s] by (simp only: decodeEscape_lead)
    with 2 show ?thesis by (simp add: bs units_def whole c)
  next
    case 3
    then have bs: "bs = [0xE0 + n div 4096, 0x80 + n div 64 mod 64, 0x80 + n mod 64]"
      using assms(2) c by (auto simp: utf8_def n_def Let_def split: if_splits)
    have "n div 4096 < 16" "n div 64 mod 64 < 64" "n mod 64 < 64" using small by simp_all
    then have "decodeEscape (pct (0xE0 + n div 4096) @ pct (0x80 + n div 64 mod 64) @ pct (0x80 + n mod 64) @ s)
        = map_option (\<lambda>us. (us, s)) (units 3 n)"
      using escaped_pct(2) [of "n div 64 mod 64" "n mod 64" "n div 4096" s] by (simp only: decodeEscape_lead sextets_join)
    with 3 lone show ?thesis by (simp add: bs units_def whole c)
  qed
next
  case False
  with assms(1) obtain h l where p: "p = [h, l]" and hl: "high_surrogate h" "low_surrogate l"
    unfolding point_shape_def by blast
  define m where "m = (unat h - 0xD800) * 0x400 + (unat l - 0xDC00)"
  have b: "0xD800 \<le> unat h" "unat h \<le> 0xDBFF" "0xDC00 \<le> unat l" "unat l \<le> 0xDFFF"
    using hl by (simp_all add: high_surrogate_def low_surrogate_def word_le_nat_alt)
  then obtain x y where xy: "unat h = 0xD800 + x" "unat l = 0xDC00 + y" by (metis le_Suc_ex)
  with b have "y < 0x400" "m = x * 0x400 + y" by (simp_all add: m_def)
  then have "m div 0x400 = x" "m mod 0x400 = y" by simp_all
  then have whole: "of_nat (0xD800 + m div 0x400) = h" "of_nat (0xDC00 + m mod 0x400) = l"
    by (simp_all only: xy [symmetric] of_nat_unat16)
  define n where "n = 0x10000 + m"
  have small: "n < 0x110000" using b by (simp add: n_def m_def)
  have bs: "bs = [0xF0 + n div 262144, 0x80 + n div 4096 mod 64, 0x80 + n div 64 mod 64, 0x80 + n mod 64]"
    using assms(2) p by (simp add: utf8_def Let_def n_def m_def add.assoc)
  have "n div 262144 < 8" "n div 4096 mod 64 < 64" "n div 64 mod 64 < 64" "n mod 64 < 64" using small by simp_all
  then have "decodeEscape (pct (0xF0 + n div 262144) @ pct (0x80 + n div 4096 mod 64) @ pct (0x80 + n div 64 mod 64)
      @ pct (0x80 + n mod 64) @ s) = map_option (\<lambda>us. (us, s)) (units 4 n)"
    using escaped_pct(3) [of "n div 4096 mod 64" "n div 64 mod 64" "n mod 64" "n div 262144" s] by (simp only: decodeEscape_lead sextets_join)
  moreover have "units 4 n = Some [h, l]" using small whole by (simp add: units_def n_def)
  ultimately show ?thesis by (simp add: bs p)
qed

lemma decode_plain: "c \<noteq> 37 \<Longrightarrow> decodeURIComponent (c # s) = map_option (\<lambda>t. c # t) (decodeURIComponent s)"
  by simp

lemma pct_front: "bs \<noteq> [] \<Longrightarrow> \<exists>r. concat (map pct bs) @ s = 37 # r"
  by (cases bs) (simp_all add: pct_def)

lemma decode_encodePoints:
  assumes "encodePoints ps = Some r" and "\<forall>p\<in>set ps. point_shape p"
  shows "decodeURIComponent r = Some (concat ps)"
  using assms
proof (induction ps arbitrary: r)
  case (Cons p ps)
  obtain rest where rest: "encodePoints ps = Some rest" using Cons.prems(1) by (auto split: option.splits)
  have IH: "decodeURIComponent rest = Some (concat ps)" using Cons.IH [OF rest] Cons.prems(2) by simp
  show ?case
  proof (cases "length p = 1 \<and> uri_unreserved (hd p)")
    case True
    then obtain c where c: "p = [c]" "uri_unreserved c" by (cases p) auto
    then have "r = c # rest" using Cons.prems(1) rest by simp
    moreover have "c \<noteq> 37" using unreserved_utf8 [OF c(2)] by simp
    ultimately show ?thesis using IH c(1) by simp
  next
    case False
    then obtain bs where bs: "utf8 p = Some bs" "r = concat (map pct bs) @ rest"
      using Cons.prems(1) rest by (auto split: option.splits if_splits)
    have "decodeEscape r = Some (p, rest)" using decodeEscape_point [OF _ bs(1)] bs(2) Cons.prems(2) by simp
    moreover have "bs \<noteq> []" using bs(1) by (auto simp: utf8_def Let_def split: list.splits if_splits)
    then obtain t where "r = 37 # t" using pct_front [of bs rest] bs(2) by blast
    ultimately show ?thesis using IH by simp
  qed
qed simp

lemma decode_encode:
  assumes "encodeURIComponent s = Some r"
  shows "decodeURIComponent r = Some s"
  using decode_encodePoints [of "code_points s" r] assms code_points_shape
  by (auto simp: encodeURIComponent_def concat_code_points)

section \<open>The connection\<close>

record ParsedUrl =
  pu_protocol :: jsstring
  pu_username :: jsstring
  pu_password :: jsstring
  pu_hostname :: jsstring
  pu_port :: jsstring
  pu_pathname :: jsstring

record ConnectionOptions =
  co_host :: jsstring
  co_port :: int
  co_db :: int
  co_username :: "jsstring option"
  co_password :: "jsstring option"
  co_tls :: bool
  co_maxRetriesPerRequest :: "nat option"
  co_enableReadyCheck :: bool
  co_retryStrategy :: "nat \<Rightarrow> nat"

text \<open>A credential that is there is decoded; \<open>None\<close> is the URIError.\<close>

definition credential :: "jsstring \<Rightarrow> jsstring option option" where
  "credential v = (if v \<noteq> [] then map_option Some (decodeURIComponent v) else Some None)"

definition queueConnectionOptions :: "(jsstring \<Rightarrow> ParsedUrl option) \<Rightarrow> jsstring \<Rightarrow> string + ConnectionOptions" where
  "queueConnectionOptions parseUrl url =
     (case parseUrl url of
        None \<Rightarrow> Inl ''TypeError: Invalid URL''
      | Some parsed \<Rightarrow>
          (let path = (case pu_pathname parsed of [] \<Rightarrow> [] | c # r \<Rightarrow> if c = 47 then r else c # r);
               db = parseInt10 path
           in case (credential (pu_username parsed), credential (pu_password parsed)) of
                (Some username, Some password) \<Rightarrow>
                  Inr \<lparr>co_host = pu_hostname parsed,
                       co_port = (if pu_port parsed \<noteq> [] then the (parseInt10 (pu_port parsed)) else 6379),
                       co_db = (case db of None \<Rightarrow> 0 | Some n \<Rightarrow> n), co_username = username, co_password = password,
                       co_tls = (pu_protocol parsed = js ''rediss:''), co_maxRetriesPerRequest = None,
                       co_enableReadyCheck = False, co_retryStrategy = (\<lambda>attempt. min (attempt * 200) 5000)\<rparr>
              | _ \<Rightarrow> Inl ''URIError: URI malformed''))"

section \<open>The producer\<close>

text \<open>What every entry is added with, and the producer: whether its client is open, and what it logged.\<close>

record JobOptions =
  jo_attempts :: nat
  jo_backoffDelay :: nat
  jo_removeOnComplete :: bool
  jo_removeOnFail :: bool

record queue_service =
  qs_name :: jsstring
  qs_options :: JobOptions
  qs_connection :: ConnectionOptions
  qs_open :: bool
  qs_log :: "string list"

definition newQueueService :: "(jsstring \<Rightarrow> ParsedUrl option) \<Rightarrow> OcrConfig \<Rightarrow> jsstring \<Rightarrow> string + queue_service" where
  "newQueueService parseUrl cfg url =
     (case queueConnectionOptions parseUrl url of
        Inl err \<Rightarrow> Inl err
      | Inr connection \<Rightarrow>
          Inr \<lparr>qs_name = oc_queueName cfg,
               qs_options = \<lparr>jo_attempts = oc_maxAttempts cfg, jo_backoffDelay = oc_retryBackoffMs cfg,
                 jo_removeOnComplete = True, jo_removeOnFail = True\<rparr>,
               qs_connection = connection, qs_open = True, qs_log = []\<rparr>)"

text \<open>\<open>waitUntilReady\<close> gives the message of its error, if it fails; so does \<open>close\<close>, which is ignored.\<close>

definition queueModuleInit :: "OcrConfig \<Rightarrow> string option \<Rightarrow> queue_service \<Rightarrow> queue_service" where
  "queueModuleInit cfg waitUntilReady s =
     (if \<not> oc_enabled cfg then s
      else (case waitUntilReady of
              None \<Rightarrow> s
            | Some err \<Rightarrow> s\<lparr>qs_log := qs_log s @ [''OCR queue not ready at startup: '' @ err]\<rparr>))"

definition queueModuleDestroy :: "string option \<Rightarrow> queue_service \<Rightarrow> queue_service" where
  "queueModuleDestroy closeError s = s\<lparr>qs_open := False\<rparr>"

section \<open>What the URL standard says\<close>

text \<open>The characters of an encoded credential, and the host names that are left as they are.\<close>

definition credential_char :: "jschar \<Rightarrow> bool" where
  "credential_char c \<longleftrightarrow> uri_unreserved c \<or> c = 37"

definition host_char :: "jschar \<Rightarrow> bool" where
  "host_char c \<longleftrightarrow> is_lower c \<or> is_digit c \<or> c = 46 \<or> c = 45"

definition redisUrl :: "jsstring \<Rightarrow> jsstring \<Rightarrow> jsstring \<Rightarrow> jsstring \<Rightarrow> nat \<Rightarrow> nat \<Rightarrow> jsstring" where
  "redisUrl scheme user password host port db =
     scheme @ 58 # 47 # 47 # user @ 58 # password @ 64 # host @ 58 # js (nat_str port) @ 47 # js (nat_str db)"

definition url_parser_ok :: "(jsstring \<Rightarrow> ParsedUrl option) \<Rightarrow> bool" where
  "url_parser_ok parseUrl \<longleftrightarrow>
     (\<forall>scheme user password host port db.
        scheme \<in> {js ''redis'', js ''rediss''} \<and> list_all credential_char user \<and> list_all credential_char password
        \<and> host \<noteq> [] \<and> list_all host_char host \<and> 0 < port \<and> port < 65536
        \<longrightarrow> parseUrl (redisUrl scheme user password host port db)
          = Some \<lparr>pu_protocol = scheme @ [58], pu_username = user, pu_password = password, pu_hostname = host,
                  pu_port = js (nat_str port), pu_pathname = 47 # js (nat_str db)\<rparr>)"

text \<open>A parser for such texts.\<close>

definition plainParser :: "jsstring \<Rightarrow> ParsedUrl option" where
  "plainParser url =
     (let scheme = takeWhile (\<lambda>c. c \<noteq> 58) url; a = drop 3 (dropWhile (\<lambda>c. c \<noteq> 58) url);
          user = takeWhile (\<lambda>c. c \<noteq> 58) a; b = drop 1 (dropWhile (\<lambda>c. c \<noteq> 58) a);
          password = takeWhile (\<lambda>c. c \<noteq> 64) b; d = drop 1 (dropWhile (\<lambda>c. c \<noteq> 64) b);
          host = takeWhile (\<lambda>c. c \<noteq> 58) d; f = drop 1 (dropWhile (\<lambda>c. c \<noteq> 58) d)
      in Some \<lparr>pu_protocol = scheme @ [58], pu_username = user, pu_password = password, pu_hostname = host,
               pu_port = takeWhile (\<lambda>c. c \<noteq> 47) f, pu_pathname = dropWhile (\<lambda>c. c \<noteq> 47) f\<rparr>)"

lemma cut_at:
  assumes "\<And>c. c \<in> set s \<Longrightarrow> c \<noteq> x"
  shows "takeWhile (\<lambda>c. c \<noteq> x) (s @ x # r) = s" "dropWhile (\<lambda>c. c \<noteq> x) (s @ x # r) = x # r"
  using assms by (simp_all add: takeWhile_append2 dropWhile_append2)

lemma plainParser_ok: "url_parser_ok plainParser"
  unfolding url_parser_ok_def
proof (intro allI impI, elim conjE)
  fix scheme user password host port db
  assume a: "scheme \<in> {js ''redis'', js ''rediss''}" "list_all credential_char user" "list_all credential_char password"
    "list_all host_char host"
  have "58 \<notin> set (js ''redis'')" "58 \<notin> set (js ''rediss'')" by code_simp+
  then have scheme: "c \<in> set scheme \<Longrightarrow> c \<noteq> 58" for c using a(1) by auto
  have char: "\<not> credential_char 58" "\<not> credential_char 64" "\<not> host_char 58" "\<not> is_digit 47" by code_simp+
  have user: "c \<in> set user \<Longrightarrow> c \<noteq> 58" and password: "c \<in> set password \<Longrightarrow> c \<noteq> 64" and host: "c \<in> set host \<Longrightarrow> c \<noteq> 58" for c
    using a(2-4) char by (auto simp: list_all_iff)
  have port: "c \<in> set (js (nat_str port)) \<Longrightarrow> c \<noteq> 47" for c
    using js_nat_str_digits [of port] char(4) by (auto simp: list_all_iff)
  show "plainParser (redisUrl scheme user password host port db)
      = Some \<lparr>pu_protocol = scheme @ [58], pu_username = user, pu_password = password, pu_hostname = host,
              pu_port = js (nat_str port), pu_pathname = 47 # js (nat_str db)\<rparr>"
    unfolding plainParser_def redisUrl_def Let_def
    by (simp add: cut_at [OF scheme] cut_at [OF user] cut_at [OF password] cut_at [OF host] cut_at [OF port])
qed

text \<open>What \<open>encodeURIComponent\<close> writes consists of such characters.\<close>

lemma pct_credential: "n < 256 \<Longrightarrow> list_all credential_char (pct n)"
  using pct_ext_value [of n] unfolding list_all_iff credential_char_def uri_unreserved_def is_ext_value_def by fastforce

lemma encodePoints_credential:
  assumes "encodePoints ps = Some r" and "\<forall>p\<in>set ps. point_shape p"
  shows "list_all credential_char r"
  using assms
proof (induction ps arbitrary: r)
  case (Cons p ps)
  obtain rest where rest: "encodePoints ps = Some rest" using Cons.prems(1) by (auto split: option.splits)
  have IH: "list_all credential_char rest" using Cons.IH [OF rest] Cons.prems(2) by simp
  show ?case
  proof (cases "length p = 1 \<and> uri_unreserved (hd p)")
    case True
    then obtain c where "p = [c]" "credential_char c" by (cases p) (auto simp: credential_char_def)
    then show ?thesis using Cons.prems(1) rest IH True by auto
  next
    case False
    then obtain bs where bs: "utf8 p = Some bs" "r = concat (map pct bs) @ rest"
      using Cons.prems(1) rest by (auto split: option.splits if_splits)
    have "\<forall>b\<in>set bs. b < 256" using utf8_bytes [OF _ bs(1)] Cons.prems(2) by simp
    then have "list_all credential_char (concat (map pct bs))" using pct_credential by (auto simp: list_all_iff)
    with IH bs(2) show ?thesis by simp
  qed
qed simp

lemma encoded_credential:
  assumes "encodeURIComponent s = Some r"
  shows "list_all credential_char r" and "credential r = Some (if s = [] then None else Some s)"
proof -
  show "list_all credential_char r"
    using encodePoints_credential [of "code_points s" r] assms code_points_shape by (auto simp: encodeURIComponent_def)
  have "decodeURIComponent r = Some s" by (rule decode_encode [OF assms])
  moreover have "r = [] \<longleftrightarrow> s = []" using calculation assms by (auto simp: encodeURIComponent_def)
  ultimately show "credential r = Some (if s = [] then None else Some s)" by (simp add: credential_def)
qed

lemma parseInt10_nat: "parseInt10 (js (nat_str n)) = Some (int n)"
proof -
  obtain c cs where s: "js (nat_str n) = c # cs" "is_digit c" "list_all is_digit cs"
    using js_nat_str_digits [of n] by (cases "js (nat_str n)") auto
  then have tw: "takeWhile is_digit cs = cs" by (simp add: list_all_iff takeWhile_eq_all_conv)
  have "parseInt10 (c # cs) = Some (int (digitsValue (c # cs)))"
    using digit_class [OF s(2)] s(2) by (simp add: parseInt10_def Let_def tw)
  then show ?thesis using digitsValue_nat_str [of n] by (simp add: s(1))
qed

section \<open>Properties\<close>

text \<open>C34. The connection of the queue is the one that was configured. For every user name and password, whatever
  characters they have, a \<open>REDIS_URL\<close> that holds them encoded by \<open>encodeURIComponent\<close> gives a client with
  exactly this user name, password, host, port and database, and with TLS exactly for \<open>rediss\<close>; an empty
  credential is left out.\<close>

theorem redis_url_read_back:
  assumes "url_parser_ok parseUrl" and "scheme \<in> {js ''redis'', js ''rediss''}"
    and "encodeURIComponent user = Some u" and "encodeURIComponent password = Some p"
    and "host \<noteq> []" and "list_all host_char host" and "0 < port" and "port < 65536"
  shows "\<exists>options. queueConnectionOptions parseUrl (redisUrl scheme u p host port db) = Inr options
    \<and> co_host options = host \<and> co_port options = int port \<and> co_db options = int db
    \<and> co_username options = (if user = [] then None else Some user)
    \<and> co_password options = (if password = [] then None else Some password)
    \<and> (co_tls options \<longleftrightarrow> scheme = js ''rediss'')"
proof -
  have parsed: "parseUrl (redisUrl scheme u p host port db) = Some \<lparr>pu_protocol = scheme @ [58], pu_username = u, pu_password = p,
      pu_hostname = host, pu_port = js (nat_str port), pu_pathname = 47 # js (nat_str db)\<rparr>"
    using assms encoded_credential(1) unfolding url_parser_ok_def by blast
  have "js ''redis'' @ [58] \<noteq> js ''rediss:''" "js ''rediss'' @ [58] = js ''rediss:''" "js ''redis'' \<noteq> js ''rediss''" by code_simp+
  then have "scheme @ [58] = js ''rediss:'' \<longleftrightarrow> scheme = js ''rediss''" using assms(2) by auto
  then show ?thesis
    using js_nat_str_digits [of port]
    by (simp add: queueConnectionOptions_def parsed Let_def encoded_credential(2) [OF assms(3)] encoded_credential(2) [OF assms(4)]
        parseInt10_nat)
qed

theorem redis_url_read_back_witness:
  "\<exists>options. queueConnectionOptions plainParser (js ''rediss://:p%40%2F@r.local:80/2'') = Inr options
    \<and> co_password options = Some (js ''p@/'')"
proof -
  have empty: "encodeURIComponent [] = Some []" by (simp add: encodeURIComponent_def)
  have enc: "encodeURIComponent (js ''p@/'') = Some (js ''p%40%2F'')"
    by (simp add: encodeURIComponent_def js_def high_surrogate_def low_surrogate_def uri_unreserved_def utf8_def pct_def hex_upper_def
        is_upper_def is_lower_def is_digit_def of_char_def)
  have url: "redisUrl (js ''rediss'') [] (js ''p%40%2F'') (js ''r.local'') 80 2 = js ''rediss://:p%40%2F@r.local:80/2''"
    by code_simp
  have host: "js ''r.local'' \<noteq> []" "list_all host_char (js ''r.local'')" "js ''p@/'' \<noteq> []" by code_simp+
  show ?thesis
    using redis_url_read_back [OF plainParser_ok _ empty enc host(1,2), of "js ''rediss''" 80 2] unfolding url using host(3) by auto
qed

end
