(* ===== verification/Startup.thy ===== *)
theory Startup
  imports Queue_Connection Api
begin

text \<open>
  The start of the service (\<open>main.ts\<close>, \<open>app.setup.ts\<close>, the module hooks of \<open>prisma/prisma.service.ts\<close> and
  \<open>redis/redis.service.ts\<close>) and the rate limits of its routes (\<open>auth/decorators/auth-throttle.decorator.ts\<close>,
  \<open>documents/decorators/presign-throttle.decorator.ts\<close>, \<open>ocr/decorators/ocr-throttle.decorator.ts\<close>). The counting of
  requests is the throttler library: whether it admits a request under a limit is an argument.
\<close>

section \<open>Rate limits\<close>

record throttle =
  th_limit :: nat
  th_ttlMs :: nat

definition seconds :: "nat \<Rightarrow> nat" where
  "seconds n = n * 1000"

definition throttleOf :: "RateLimitRule \<Rightarrow> throttle" where
  "throttleOf r = \<lparr>th_limit = rl_limit r, th_ttlMs = seconds (rl_windowSeconds r)\<rparr>"

datatype AuthThrottleKind = LoginKind | RegisterKind | RefreshKind

fun rateLimits :: "AuthThrottleKind \<Rightarrow> AuthSettings \<Rightarrow> RateLimitRule" where
  "rateLimits LoginKind a = rate_login a"
| "rateLimits RegisterKind a = rate_register a"
| "rateLimits RefreshKind a = rate_refresh a"

text \<open>The settings are loaded anew for each request; loading those of the sessions can throw.\<close>

definition AuthThrottle :: "env \<Rightarrow> AuthThrottleKind \<Rightarrow> jsstring + throttle" where
  "AuthThrottle env kind = map_sum id (\<lambda>a. throttleOf (rateLimits kind a)) (loadAuthConfig env)"

definition PresignThrottle :: "unicode \<Rightarrow> env \<Rightarrow> throttle" where
  "PresignThrottle U env = throttleOf (dc_presign (loadDocumentsConfig U env))"

definition OcrThrottle :: "unicode \<Rightarrow> env \<Rightarrow> throttle" where
  "OcrThrottle U env = throttleOf (oc_requestRate (loadOcrConfig U env))"

definition defaultThrottle :: "AppConfig \<Rightarrow> throttle" where
  "defaultThrottle cfg = \<lparr>th_limit = nat (ac_throttleLimit cfg), th_ttlMs = seconds (nat (ac_throttleTtlSeconds cfg))\<rparr>"

text \<open>The limit of each route; the probes have none.\<close>

definition throttleFor :: "unicode \<Rightarrow> env \<Rightarrow> AppConfig \<Rightarrow> Call \<Rightarrow> jsstring + throttle option" where
  "throttleFor U env cfg c =
     (case c of
        AuthRegister _ _ \<Rightarrow> map_sum id Some (AuthThrottle env RegisterKind)
      | AuthLogin _ _ \<Rightarrow> map_sum id Some (AuthThrottle env LoginKind)
      | AuthRefresh _ \<Rightarrow> map_sum id Some (AuthThrottle env RefreshKind)
      | DocumentUploadUrl _ _ \<Rightarrow> Inr (Some (PresignThrottle U env))
      | DocumentDownloadUrl _ \<Rightarrow> Inr (Some (PresignThrottle U env))
      | OcrRequest _ _ \<Rightarrow> Inr (Some (OcrThrottle U env))
      | OcrRetry _ \<Rightarrow> Inr (Some (OcrThrottle U env))
      | HealthCheck \<Rightarrow> Inr None
      | HealthOcr \<Rightarrow> Inr None
      | _ \<Rightarrow> Inr (Some (defaultThrottle cfg)))"

text \<open>The guard of the limits comes first; a request that is not admitted is answered with status 429.\<close>

definition handleThrottled ::
  "(throttle \<Rightarrow> bool) \<Rightarrow> env \<Rightarrow> AppConfig \<Rightarrow> services \<Rightarrow> Request \<Rightarrow> World \<Rightarrow> response \<times> World" where
  "handleThrottled admitted env cfg sv req w =
     (let rid = requestIdMiddleware (sv_run sv) (rq_requestIdHeader req);
          failed = (\<lambda>x. (map_prod id Inl (catchException x rid), w))
      in case throttleFor (sv_unicode sv) env cfg (rq_call req) of
           Inl err \<Rightarrow> failed (Unknown ''invalid duration'')
         | Inr None \<Rightarrow> handleApi sv req w
         | Inr (Some t) \<Rightarrow>
             if admitted t then handleApi sv req w
             else failed (HttpEx 429 (BodyText ''ThrottlerException: Too Many Requests'')))"

section \<open>The clients\<close>

text \<open>A start-up hook gives the error that ends the start, if any, and what it logs.\<close>

type_synonym hook = "string option \<times> string list"

definition prismaModuleInit :: "string option \<Rightarrow> hook" where
  "prismaModuleInit connectError =
     (case connectError of
        Some err \<Rightarrow> (Some err, [])
      | None \<Rightarrow> (None, [''Connected to PostgreSQL'']))"

definition redisModuleInit :: "string option \<Rightarrow> hook" where
  "redisModuleInit connectError =
     (case connectError of
        None \<Rightarrow> (None, [''Connected to Redis''])
      | Some err \<Rightarrow> (None, [''Initial Redis connection failed: '' @ err]))"

text \<open>A connection is asked to close in order, and cut when that fails.\<close>

datatype redis_command = Quit | Disconnect

definition redisModuleDestroy :: "string option \<Rightarrow> redis_command list" where
  "redisModuleDestroy quitError = (case quitError of None \<Rightarrow> [Quit] | Some _ \<Rightarrow> [Quit, Disconnect])"

section \<open>The application\<close>

record HttpSettings =
  hs_trustProxy :: bool
  hs_globalPrefix :: jsstring
  hs_corsOrigin :: "jsstring list option"
  hs_exposedHeaders :: "string list"
  hs_swaggerPath :: "string option"

definition SWAGGER_PATH :: string where
  "SWAGGER_PATH = ''docs''"

text \<open>\<open>None\<close> is \<open>origin: false\<close>.\<close>

definition configureApp :: "AppConfig \<Rightarrow> HttpSettings" where
  "configureApp cfg =
     \<lparr>hs_trustProxy = ac_trustProxy cfg, hs_globalPrefix = ac_apiPrefix cfg,
      hs_corsOrigin = (if length (ac_corsOrigins cfg) > 0 then Some (ac_corsOrigins cfg) else None),
      hs_exposedHeaders = [''X-Request-Id''],
      hs_swaggerPath = (if ac_swaggerEnabled cfg then Some SWAGGER_PATH else None)\<rparr>"

record server =
  srv_logLevels :: "string list"
  srv_http :: HttpSettings
  srv_port :: int
  srv_log :: "jsstring list"

text \<open>The configured level as one of the names; another text has none.\<close>

definition levelName :: "jsstring \<Rightarrow> string" where
  "levelName level = (case findFirst (\<lambda>l. js l = level) LOG_LEVELS of Some l \<Rightarrow> l | None \<Rightarrow> [])"

definition bootstrap :: "AppConfig \<Rightarrow> server" where
  "bootstrap cfg =
     (let address = js ''http://0.0.0.0:'' @ int_text (ac_port cfg) @ js ''/'' @ ac_apiPrefix cfg
      in \<lparr>srv_logLevels = resolveLogLevels (levelName (ac_logLevel cfg)), srv_http = configureApp cfg, srv_port = ac_port cfg,
          srv_log = (js ''DocuAI API listening on '' @ address)
            # (if ac_swaggerEnabled cfg
               then [js ''OpenAPI docs available at '' @ address @ js ''/'' @ js SWAGGER_PATH] else [])\<rparr>)"

section \<open>What is loaded and refused\<close>

text \<open>The limits that are loaded for a request are those of the configuration the service started with.\<close>

lemma throttle_from_configuration:
  assumes "loadConfiguration U env = Inr cfg"
  shows "throttleFor U env cfg c = Inr (case c of
        AuthRegister _ _ \<Rightarrow> Some (throttleOf (rate_register (ac_auth cfg)))
      | AuthLogin _ _ \<Rightarrow> Some (throttleOf (rate_login (ac_auth cfg)))
      | AuthRefresh _ \<Rightarrow> Some (throttleOf (rate_refresh (ac_auth cfg)))
      | DocumentUploadUrl _ _ \<Rightarrow> Some (throttleOf (dc_presign (ac_documents cfg)))
      | DocumentDownloadUrl _ \<Rightarrow> Some (throttleOf (dc_presign (ac_documents cfg)))
      | OcrRequest _ _ \<Rightarrow> Some (throttleOf (oc_requestRate (ac_ocr cfg)))
      | OcrRetry _ \<Rightarrow> Some (throttleOf (oc_requestRate (ac_ocr cfg)))
      | HealthCheck \<Rightarrow> None
      | HealthOcr \<Rightarrow> None
      | _ \<Rightarrow> Some (defaultThrottle cfg))"
proof -
  have "loadAuthConfig env = Inr (ac_auth cfg)" "ac_documents cfg = loadDocumentsConfig U env" "ac_ocr cfg = loadOcrConfig U env"
    using assms by (auto simp: loadConfiguration_def Let_def split: sum.splits)
  then show ?thesis
    by (cases c) (simp_all add: throttleFor_def AuthThrottle_def PresignThrottle_def OcrThrottle_def)
qed

lemma loaded_rates:
  assumes "loadAuthConfig env = Inr a"
  shows "rate_login a = rule env ''AUTH_LOGIN_RATE_LIMIT'' 10 ''AUTH_LOGIN_RATE_WINDOW'' 60"
    and "rate_register a = rule env ''AUTH_REGISTER_RATE_LIMIT'' 5 ''AUTH_REGISTER_RATE_WINDOW'' 60"
    and "rate_refresh a = rule env ''AUTH_REFRESH_RATE_LIMIT'' 20 ''AUTH_REFRESH_RATE_WINDOW'' 60"
  using assms by (auto simp: loadAuthConfig_def split: sum.splits)

text \<open>A request that is not admitted has no effect, and its answer tells nothing but that.\<close>

lemma throttled_answer:
  assumes "loadConfiguration (sv_unicode sv) env = Inr cfg" and "throttleFor (sv_unicode sv) env cfg (rq_call req) = Inr (Some t)"
    and "\<not> admitted t"
  shows "snd (handleThrottled admitted env cfg sv req w) = w"
    and "\<exists>e. fst (handleThrottled admitted env cfg sv req w) = (429, Inl e) \<and> ee_code e = ''RATE_LIMITED''
      \<and> ee_message e = ''Too many requests, please try again later''"
  using assms(2,3)
  by (simp_all add: handleThrottled_def Let_def catchException_def resolveException_def codeForHttpException_def messageForHttpException_def)

text \<open>Only the database decides whether the clients let the service start; a queue or a Redis that cannot be reached is
  logged.\<close>

lemma start_needs_database:
  "fst (prismaModuleInit err) = err" "fst (redisModuleInit err) = None"
  "qs_open (queueModuleInit cfg err s) = qs_open s"
  by (simp_all add: prismaModuleInit_def redisModuleInit_def queueModuleInit_def split: option.split)

section \<open>Properties\<close>

text \<open>No route is shut or unlimited by a wrong setting: in an environment that passes the validation and writes its numbers
  with decimal digits, every route
  except the health probes has a limit, which admits at least one request in a window of at least a
  second, and the limits that are loaded for each request are those the service started with.\<close>

theorem rate_limits_valid:
  assumes "joi_ok J" and "plain env" and "envValidationSchema J env" and "loadConfiguration U env = Inr cfg"
    and "c \<noteq> HealthCheck" and "c \<noteq> HealthOcr"
  shows "\<exists>t. throttleFor U env cfg c = Inr (Some t) \<and> 1 \<le> th_limit t \<and> 1000 \<le> th_ttlMs t"
proof -
  have range: "lo \<le> toInt (env k) d \<and> (case hi of None \<Rightarrow> True | Some h \<Rightarrow> toInt (env k) d \<le> h)"
    if "(k, lo, hi) \<in> set allIntegers" "lo \<le> d" "case hi of None \<Rightarrow> True | Some h \<Rightarrow> d \<le> h" for k lo hi d
    using loaded_integer [OF assms(1,3) plain_digits [OF assms(2) that(1)] that] .
  have r: "1 \<le> rl_limit (rule env k d kw dw) \<and> 1 \<le> rl_windowSeconds (rule env k d kw dw)"
    if "(k, 1, None) \<in> set allIntegers" "(kw, 1, None) \<in> set allIntegers" "1 \<le> d" "1 \<le> dw" for k d kw dw
    using range [of k 1 None d] range [of kw 1 None dw] that by (simp add: rule_def le_nat_iff)
  have ok: "1 \<le> th_limit (throttleOf x) \<and> 1000 \<le> th_ttlMs (throttleOf x)" if "1 \<le> rl_limit x \<and> 1 \<le> rl_windowSeconds x" for x
    using that by (simp add: throttleOf_def seconds_def)
  have auth: "loadAuthConfig env = Inr (ac_auth cfg)" and docs: "ac_documents cfg = loadDocumentsConfig U env"
    and ocr: "ac_ocr cfg = loadOcrConfig U env"
    using assms(4) by (auto simp: loadConfiguration_def Let_def split: sum.splits)
  have "1 \<le> rl_limit x \<and> 1 \<le> rl_windowSeconds x"
    if "x \<in> {rate_login (ac_auth cfg), rate_register (ac_auth cfg), rate_refresh (ac_auth cfg), dc_presign (ac_documents cfg),
      oc_requestRate (ac_ocr cfg)}" for x
    using that r by (auto simp: loaded_rates [OF auth] docs ocr loadDocumentsConfig_def loadOcrConfig_def integer_tables)
  note limits = this [THEN ok]
  have "1 \<le> th_limit (defaultThrottle cfg) \<and> 1000 \<le> th_ttlMs (defaultThrottle cfg)"
    using range [of "''THROTTLE_LIMIT''" 1 None 100] range [of "''THROTTLE_TTL''" 1 None 60] assms(4)
    by (auto simp: defaultThrottle_def seconds_def loadConfiguration_def Let_def integer_tables le_nat_iff split: sum.splits)
  then show ?thesis
    unfolding throttle_from_configuration [OF assms(4)] using assms(5,6) limits by (cases c) simp_all
qed

theorem rate_limits_valid_witness:
  "case loadConfiguration ascii_unicode demoEnv of
     Inl _ \<Rightarrow> False
   | Inr cfg \<Rightarrow> (\<exists>t. throttleFor ascii_unicode demoEnv cfg (OcrRetry (js ''x'')) = Inr (Some t) \<and> 1 \<le> th_limit t)"
proof -
  have "\<exists>a. loadAuthConfig demoEnv = Inr a" using default_durations by (auto simp: loadAuthConfig_def demoEnv_def)
  then obtain cfg where cfg: "loadConfiguration ascii_unicode demoEnv = Inr cfg" by (auto simp: loadConfiguration_def Let_def)
  show ?thesis using rate_limits_valid [OF demoJoi_ok demoEnv_valid cfg, of "OcrRetry (js ''x'')"] by (auto simp: cfg)
qed

end
