(* ===== verification/Legacy_Http.thy ===== *)
theory Legacy_Http
  imports Validation
begin

text \<open>
  The earlier version of the HTTP layer, which \<open>main.ts\<close> no longer installs but one of the tests still does:
  \<open>configure-app.ts\<close>, \<open>common/filters/global-exception.filter.ts\<close>, \<open>common/interceptors/response.interceptor.ts\<close>,
  \<open>common/middleware/request-logging.middleware.ts\<close>, \<open>common/utils/request-context.ts\<close> and
  \<open>common/exceptions/dependency-unavailable.exception.ts\<close>; and how its answers compare with those of the
  layer that is installed.
\<close>

section \<open>Log lines\<close>

record http_request =
  hr_requestId :: "jsstring option"
  hr_method :: string
  hr_originalUrl :: jsstring

record log_line =
  ll_timestamp :: time
  ll_level :: string
  ll_requestId :: "jsstring option"
  ll_method :: string
  ll_path :: jsstring
  ll_status :: nat
  ll_code :: "body_value option"
  ll_durationMs :: "int option"

text \<open>The line written when the response is finished. The clock is read when the request arrives, then for the time of the
  line, then for the duration.\<close>

definition requestLogLine :: "run \<Rightarrow> http_request \<Rightarrow> nat \<Rightarrow> log_line" where
  "requestLogLine e request statusCode =
     (let startedAt = clock e 0
      in \<lparr>ll_timestamp = clock e 1, ll_level = ''info'', ll_requestId = hr_requestId request, ll_method = hr_method request,
          ll_path = hr_originalUrl request, ll_status = statusCode, ll_code = None,
          ll_durationMs = Some (clock e 2 - startedAt)\<rparr>)"

section \<open>The filter\<close>

record GlobalEnvelope =
  ge_success :: bool
  ge_data :: "unit option"
  ge_code :: body_value
  ge_message :: body_value
  ge_requestId :: "jsstring option"

text \<open>Status and response of an exception; what is not an \<open>HttpException\<close> has no response.\<close>

fun statusOf :: "exception \<Rightarrow> nat" where
  "statusOf (AppEx x) = ex_status x"
| "statusOf (HttpEx status _) = status"
| "statusOf (Unknown _) = 500"

fun responseOf :: "exception \<Rightarrow> http_body option" where
  "responseOf (AppEx x) = Some (BodyObject (appBody x))"
| "responseOf (HttpEx _ body) = Some body"
| "responseOf (Unknown _) = None"

definition globalCatch :: "run \<Rightarrow> http_request \<Rightarrow> exception \<Rightarrow> (nat \<times> GlobalEnvelope) \<times> log_line list" where
  "globalCatch e request exc =
     (let status = statusOf exc;
          detailsCode = (case responseOf exc of Some (BodyObject b) \<Rightarrow> b_code b | _ \<Rightarrow> None);
          rawMessage = (case responseOf exc of Some (BodyText s) \<Rightarrow> Some (Text s) | Some (BodyObject b) \<Rightarrow> b_message b | _ \<Rightarrow> None);
          message = (case rawMessage of
              Some (Texts ms) \<Rightarrow> Text (join_with ''; '' ms)
            | Some m \<Rightarrow> m
            | None \<Rightarrow> Text ''An unexpected error occurred'');
          isInternalError = (status = 500);
          code = (case detailsCode of
              Some c \<Rightarrow> c
            | None \<Rightarrow> Text (if isInternalError then ''INTERNAL_SERVER_ERROR'' else ''HTTP_'' @ nat_str status));
          lines = (if status \<ge> 500
            then [\<lparr>ll_timestamp = clock e 0, ll_level = ''error'', ll_requestId = hr_requestId request, ll_method = hr_method request,
                   ll_path = hr_originalUrl request, ll_status = status, ll_code = Some code, ll_durationMs = None\<rparr>]
            else [])
      in ((status, \<lparr>ge_success = False, ge_data = None, ge_code = code,
             ge_message = (if isInternalError then Text ''An unexpected error occurred'' else message),
             ge_requestId = hr_requestId request\<rparr>), lines))"

section \<open>The interceptor\<close>

text \<open>A value that a handler returns.\<close>

datatype js_value = JsUndefined | JsNull | JsBool bool | JsText jsstring | JsObject "(string \<times> js_value) list" | JsOther

definition isSuccessEnvelope :: "js_value \<Rightarrow> bool" where
  "isSuccessEnvelope v =
     (case v of
        JsObject props \<Rightarrow>
          map_of props ''success'' = Some (JsBool True)
          \<and> map_of props ''requestId'' \<noteq> None \<and> map_of props ''data'' \<noteq> None
      | _ \<Rightarrow> False)"

text \<open>The id of the request, or the one of the store of the asynchronous context.\<close>

definition requestIdFor :: "jsstring option \<Rightarrow> jsstring option \<Rightarrow> jsstring" where
  "requestIdFor requestId storeId =
     (case requestId of Some i \<Rightarrow> i | None \<Rightarrow> (case storeId of Some i \<Rightarrow> i | None \<Rightarrow> js ''unknown''))"

definition legacyIntercept :: "jsstring option \<Rightarrow> jsstring option \<Rightarrow> js_value \<Rightarrow> js_value" where
  "legacyIntercept requestId storeId v =
     (if isSuccessEnvelope v then v
      else JsObject [(''success'', JsBool True), (''data'', if v \<in> {JsUndefined, JsNull} then JsNull else v),
                     (''message'', JsNull), (''requestId'', JsText (requestIdFor requestId storeId))])"

section \<open>Exceptions of the pipes and probes\<close>

text \<open>The errors of the validation: the messages of each property, \<open>None\<close> for one that has none of its own.\<close>

definition exceptionFactory :: "string list option list \<Rightarrow> exception" where
  "exceptionFactory errors =
     (let messages = concat (map (\<lambda>c. case c of Some ms \<Rightarrow> ms | None \<Rightarrow> []) errors)
      in HttpEx 400 (BodyObject \<lparr>b_statusCode = None,
           b_message = Some (Text (if length messages > 0 then join_with ''; '' messages else ''Request validation failed'')),
           b_error = None, b_code = Some (Text ''VALIDATION_ERROR'')\<rparr>))"

text \<open>Its body also holds the snapshot of the dependencies, which no filter reads.\<close>

definition dependencyUnavailable :: exception where
  "dependencyUnavailable = HttpEx 503 (BodyObject \<lparr>b_statusCode = None,
     b_message = Some (Text ''One or more dependencies are unavailable''), b_error = None,
     b_code = Some (Text ''DEPENDENCY_UNAVAILABLE'')\<rparr>)"

section \<open>The two layers compared\<close>

text \<open>The interceptor wraps at most once, and always answers with an envelope.\<close>

lemma legacyIntercept_envelope: "isSuccessEnvelope (legacyIntercept r s v)"
  by (simp add: legacyIntercept_def isSuccessEnvelope_def)

lemma legacyIntercept_idempotent: "legacyIntercept r' s' (legacyIntercept r s v) = legacyIntercept r s v"
  by (subst (1) legacyIntercept_def) (simp add: legacyIntercept_envelope)

text \<open>A value that looks like an envelope passes the earlier interceptor as it is, whatever id it names.\<close>

lemma forged_envelope:
  "legacyIntercept (Some r) s (JsObject [(''success'', JsBool True), (''data'', v), (''requestId'', JsText i)])
     = JsObject [(''success'', JsBool True), (''data'', v), (''requestId'', JsText i)]"
  by (simp add: legacyIntercept_def isSuccessEnvelope_def)

text \<open>Both filters report a domain error with its code and message below 500, and hide what is not an
  \<open>HttpException\<close>.\<close>

lemma filters_agree:
  "statusOf exc = fst (catchException exc i)"
  "ex_status x < 500 \<Longrightarrow> snd (fst (globalCatch e request (AppEx x)))
     = \<lparr>ge_success = False, ge_data = None, ge_code = Text (ee_code (snd (catchException (AppEx x) i))),
        ge_message = Text (ee_message (snd (catchException (AppEx x) i))), ge_requestId = hr_requestId request\<rparr>"
  "fst (globalCatch e request (Unknown m)) = fst (globalCatch e request (Unknown m'))"
  by (cases exc)
    (simp_all add: catchException_def resolveException_def globalCatch_def appBody_def Let_def split: prod.split)

text \<open>They differ above 500: the earlier one sends the message of an error of the framework to the client, unless the
  status is 500.\<close>

lemma global_filter_leaks:
  "ge_message (snd (fst (globalCatch e request (HttpEx 502 (BodyText m))))) = Text m"
  "ee_message (snd (catchException (HttpEx 502 (BodyText m)) i)) = ''Internal server error''"
  by (simp_all add: globalCatch_def Let_def catchException_def resolveException_def messageForHttpException_def)

text \<open>Under the filter that both layers install, a request whose properties break rules gets the same answer from both
  pipes.\<close>

lemma pipes_agree:
  assumes "concat (map (\<lambda>c. case c of Some ms \<Rightarrow> ms | None \<Rightarrow> []) errors) = ms" and "ms \<noteq> []"
  shows "catchException (exceptionFactory errors) i = catchException (badRequest ms) i"
  unfolding badRequest_answer
  using assms by (simp add: exceptionFactory_def Let_def catchException_def resolveException_def
      codeForHttpException_def messageForHttpException_def isValidationBody_def)

text \<open>A failed dependency is reported by its code alone.\<close>

lemma dependencyUnavailable_answer:
  "catchException dependencyUnavailable i = (503, \<lparr>ee_success = False, ee_data = None, ee_code = ''DEPENDENCY_UNAVAILABLE'',
     ee_message = ''Internal server error'', ee_requestId = i\<rparr>)"
  by (simp add: dependencyUnavailable_def catchException_def resolveException_def codeForHttpException_def
      messageForHttpException_def isValidationBody_def)

end
