(* ===== verification/Spec2Isabelle.thy ===== *)
theory Spec2Isabelle
  imports Stored_Texts End_To_End Active_Jobs Startup Legacy_Http
begin

text \<open>
  A verification development of the DocuAI backend (\<open>src/backend/src\<close>): accounts and sessions, folders
  and documents with their files, and text recognition (OCR) in the background.

  \<^bold>\<open>The program.\<close> A NestJS service over PostgreSQL (Prisma), an S3 object storage and a BullMQ queue.
  Requests pass guards (\<open>auth/guards\<close>, \<open>auth/strategies\<close>), call a service, and the service runs
  statements and transactions on the database, signs URLs and records security events. A request for
  recognition stores a job and adds an entry to the queue; a worker takes the entry, claims the job,
  downloads the file, extracts the text of its pages with external tools and stores a result per
  page; a reconciler repairs queue and jobs after crashes.

  \<^bold>\<open>The state.\<close> \<open>Schema\<close> has the tables (\<open>prisma/schema.prisma\<close>) as records and the state of the service
  as \<open>World\<close>. A handler is a function from its arguments and the state to a result and the state:
  \<open>Inl\<close> is what the handler throws. What it takes from outside is the record \<open>run\<close>: clock readings,
  generated ids, random bytes, the error of creating a temporary directory if there is one, and
  \<open>others e i\<close>, what everybody else does to the state at the \<open>i\<close>-th point where the handler waits. A
  statement or transaction of the database is one step. \<open>quiet e\<close> means that nobody interferes;
  properties that hold under interference have a named condition on it. For \<open>session_env\<close>,
  \<open>document_env\<close> and \<open>job_env\<close> the lemmas on the operations show that each of them is such a step;
  \<open>spares\<close>, what a delivery asks of others for its job, holds of heartbeats and of every operation on
  another job (\<open>heartbeat_spared\<close>, \<open>operation_spared\<close>); \<open>lock_held\<close>, for a transaction under the advisory
  lock of a document, allows the steps of \<open>unlocked\<close>: every operation on jobs, whatever leaves the
  jobs alone, requests and retries for other documents (\<open>transactions_unlocked\<close>), and whole deliveries
  and reconciliations (\<open>process_unlocked\<close>, \<open>reconcile_unlocked\<close>). That the lock keeps other requests for
  the same document out is the contract of the database. A query may meet the rows of a table in any
  order; sorting is stable in the model, and where rows can be equal for the sort key the
  properties do not rely on it (listings are proved for every order of the table, the reconciler by
  counting the rows ahead of one).

  \<^bold>\<open>Theories.\<close>
  \<^item> \<open>Prelude\<close>: tables as lists of rows (\<open>findFirst\<close>, \<open>findMany\<close>, \<open>updateMany\<close>, upsert, sorting, paging),
    the preorders on rows (locale \<open>row_preorder\<close>) and keyed stores (locale \<open>keyed_store\<close>).
  \<^item> \<open>Js_Strings\<close>: strings as UTF-16 code units, trimming, splitting, base64url, hexadecimal; the Unicode
    tables are the parameter \<open>unicode\<close>.
  \<^item> \<open>Users\<close> and \<open>Auth\<close>: \<open>users/*\<close>, \<open>auth/*\<close>, \<open>security/*\<close>: registration, login, rotation of refresh
    tokens, reuse detection, logout, guards. Argon2, HMAC and the JWT library are parameters.
  \<^item> \<open>File_Names\<close>: \<open>documents/file-name.ts\<close>, \<open>storage/storage-key.ts\<close>.
  \<^item> \<open>Ownership\<close>: the locale of a load that is scoped to its owner, interpreted for documents.
  \<^item> \<open>Folders\<close>: \<open>folders/*\<close>: the forest of folders. The recursive queries of the source stop at 64 levels
    (\<open>RECURSION_LIMIT\<close>); the invariant bounds the depth by 10, so the limit is never met.
  \<^item> \<open>Documents\<close> and \<open>Document_Files\<close>: \<open>documents/*\<close>: metadata, listing, upload and download. The
    collation and the text search of the database and the object storage are parameters.
  \<^item> \<open>Text_Tools\<close> and \<open>File_Signature\<close>: \<open>ocr/tools/text.ts\<close>, \<open>ocr/tools/file-signature.ts\<close>.
  \<^item> \<open>Ocr_Jobs\<close>: \<open>ocr/ocr-job.service.ts\<close>: the operations on jobs and pages, the abstract life cycle of a
    job as an inductive relation, and the refinement between them.
  \<^item> \<open>Ocr_Errors\<close>, \<open>Ocr_Extraction\<close>: \<open>ocr/ocr.errors.ts\<close>, \<open>ocr/ocr-extraction.service.ts\<close>; the PDF tools
    and the recognition engine are the parameter \<open>toolbox\<close>.
  \<^item> \<open>Ocr_Service\<close>: \<open>ocr/ocr.service.ts\<close>, \<open>ocr/ocr-languages.service.ts\<close>, \<open>ocr/ocr-queue.service.ts\<close> and the
    shapes of \<open>ocr/ocr.serializer.ts\<close>; the queue library is the parameter \<open>bullmq\<close> with the law
    \<open>bull_ok\<close>, which \<open>plainQueue\<close> satisfies.
  \<^item> \<open>Ocr_Worker\<close>, \<open>Ocr_Processing\<close>: \<open>ocr/ocr-worker.service.ts\<close>: the model, and what it achieves. The
    locale \<open>job_relation\<close> carries a relation that every operation on jobs keeps to whole deliveries and
    reconciliations; it is interpreted for the jobs, for the steps without the lock of a document, for
    what the worker does elsewhere, for the history of the system, for the stored texts, for the
    documents that stay in place and for the active jobs.
  \<^item> \<open>Settings\<close>: \<open>config/configuration.ts\<close>, \<open>config/env.validation.ts\<close>; the rules of Joi are a parameter.
  \<^item> \<open>Ocr_Tools\<close>: \<open>ocr/tools/run-command.ts\<close>, \<open>ocr/tools/poppler.service.ts\<close> and
    \<open>ocr/providers/tesseract-ocr.provider.ts\<close>: a child process as the sequence of its events, the services
    over it, the parsers of what the programs print, and the \<open>toolbox\<close> they make up.
  \<^item> \<open>Object_Storage\<close>: \<open>storage/s3/s3-storage.provider.ts\<close> over the AWS SDK as a parameter; it gives the
    \<open>storage\<close> of uploads and downloads and the store of the worker.
  \<^item> \<open>Health\<close>: \<open>health/*\<close>, \<open>ocr/ocr-health.service.ts\<close>, the probes of the clients, and the start and stop of
    the worker service.
  \<^item> \<open>Http_Layer\<close>: envelope, exception filter, request ids, text validators (\<open>common/*\<close>).
  \<^item> \<open>Api\<close>: the controllers and the pipeline around them (\<open>app.setup.ts\<close>): \<open>handleApi\<close> takes a request to a
    response and the next state.
  \<^item> \<open>Effects\<close>, \<open>System\<close>: what each operation leaves alone, and runs of the whole system (\<open>runs\<close>): requests,
    deliveries and reconciliations in any order, where runs of everything else come between the
    steps of a delivery or a reconciliation.
  \<^item> \<open>Validation\<close>: the classes of the request bodies and queries (\<open>*/dto/*\<close>) and the global pipe of
    \<open>app.setup.ts\<close>; \<open>handleHttp\<close> takes an untyped request to a response. The decorators of class-validator
    are a parameter with its documented laws (\<open>class_validator_ok\<close>), which \<open>plainValidator\<close> satisfies.
  \<^item> \<open>Stored_Texts\<close>: runs of untyped requests (\<open>http_runs\<close>), and what the stored texts inherit from the rules.
  \<^item> \<open>End_To_End\<close>: a request for recognition, its delivery and the reading of the results, composed.
  \<^item> \<open>Active_Jobs\<close>: one active job per document over whole runs, for requests in the order of their clocks
    (\<open>timed_runs\<close>).
  \<^item> \<open>Queue_Connection\<close>: how the producer of the queue is set up, with \<open>decodeURIComponent\<close> written out; the
    parser of URLs is a parameter.
  \<^item> \<open>Startup\<close>: \<open>main.ts\<close>, the settings of \<open>app.setup.ts\<close>, the hooks of the clients, and the rate limit of each
    route; the counting of the throttler library is an argument.
  \<^item> \<open>Legacy_Http\<close>: the earlier HTTP layer, which only a test installs, compared with the present one.

  \<^bold>\<open>What is shown.\<close> The system: every reachable state satisfies the invariants of all tables together,
  nothing final is ever undone, an account changes no row of another, what it reads depends on its own
  rows only, and a route that is not public does nothing without an identity. Sessions: a refresh
  token rotates once, replay revokes the account. Folders: a forest of bounded depth whatever is
  created, moved or deleted, and the cycle check agrees with the ancestor relation. Documents: rows
  are never unowned or undeleted, a completed upload was verified against the stored object and can be
  read by the worker, pages of a listing partition the matches. Names: safe file names and headers
  that decode to the name. Recognition: every sequence of operations on jobs implements the life
  cycle; a claim is exclusive; a transaction under the lock never leads to two active jobs of a
  document, and no run in which requests come in the order of their clocks does; an undisturbed
  delivery completes its job with one result per page, which the account that asked then reads;
  deliveries up to the attempt budget end a job when each runs to its end, but a work directory that
  cannot be created leaves the job in processing with a heartbeat that nothing stops
  (\<open>leaked_heartbeat_blocks\<close>); a reconciliation leaves none of the 500 oldest waiting jobs without a
  queue entry; extraction, rendering, inspection and download keep their limits. Input: what passes the validation is within the limits of its class, what
  does not has no effect, and names, titles and descriptions that are stored fit their columns after
  any run. Surroundings: validated settings are in the ranges the pipeline needs when they are written
  in decimal digits (\<open>exponent_below_range\<close> for another notation), failures of tools and storage are
  classified, and the probes report what is there.

  \<^bold>\<open>Bounds and numbers.\<close> The loops of the program are structural recursions or have measures
  (\<open>jpegLoop\<close>, \<open>isqrt\<close>); none needs fuel except the recursive queries above. Code units and bytes are
  words; counters and sizes are \<open>nat\<close> (they stay far below the range of exact doubles); quotients of
  page sizes and confidences are exact rationals where the program has doubles; a page size that is
  not a number is \<open>None\<close>.

  \<^bold>\<open>Not modelled.\<close> Framework and library code: the counting of the rate limiter, the decorators of the API
  documentation, the wiring of modules, security headers and compression; the statements of BullMQ,
  Prisma, the AWS SDK, Argon2, JWT, Joi, class-validator and the URL parser are parameters. Ids in
  request bodies are taken in lower case: the id columns compare as UUIDs, the tables here as text. In
  \<open>System\<close> a request is served without interruption, while the theories of sessions, documents and jobs
  treat interference within a request; that a worker dies between two steps is not a step of those
  runs. The advisory locks of folders make their transactions single steps. Lengths are checked as
  class-validator documents them, a surrogate pair counting once. Heartbeats are steps of \<open>others\<close>. Log lines are part of the model only where a service returns them;
  security events are part of the state.
\<close>

end
